(* ===== verification/CapiPrelude.thy ===== *)
theory CapiPrelude
  imports Main "HOL-Library.Word" "HOL-Library.Monad_Syntax"
begin

text \<open>
  Shared vocabulary of the development: the machine integers of the C code, byte buffers
  with bounds-checked access, the little-endian images of 16- and 32-bit words, and the
  generic lemmas on them that every component uses.

  A C expression whose evaluation would be undefined (an access outside an object, a
  dereference of NULL or of a freed object) is the value \<open>None\<close> of an option type
  throughout; a successful evaluation is \<open>Some\<close>.  Error codes that the source returns are
  ordinary values.  A theorem that a function returns \<open>Some\<close> therefore says that the code
  runs without undefined behaviour and returns.
\<close>

unbundle bit_operations_syntax

type_synonym u8 = "8 word"
type_synonym u16 = "16 word"
type_synonym u32 = "32 word"
type_synonym bytes = "u8 list"

named_theorems capi_const \<open>definitions of the constants of the C headers\<close>
named_theorems buf_simps \<open>bounds-checked buffer access\<close>

section \<open>The option monad\<close>

declare Option.bind_cong [fundef_cong]

text \<open>
  The rule \<open>bind_option_cong_code\<close> stops the simplifier at a bind until its first argument
  is a constructor: closed calls of recursive functions written in do-notation are evaluated
  with it, \<open>simp cong: bind_option_cong_code\<close>.
\<close>

lemma bind_SomeD: "Option.bind x f = Some y \<Longrightarrow> \<exists>z. x = Some z \<and> f z = Some y"
  by (cases x) auto

lemma bind_SomeE [elim!]:
  assumes "Option.bind x f = Some y"
  obtains z where "x = Some z" and "f z = Some y"
  using assms by (cases x) auto

definition nth_opt :: "'a list \<Rightarrow> nat \<Rightarrow> 'a option" where
  "nth_opt xs i = (if i < length xs then Some (xs ! i) else None)"

lemma nth_opt_in [simp]: "i < length xs \<Longrightarrow> nth_opt xs i = Some (xs ! i)"
  by (simp add: nth_opt_def)

lemma nth_opt_out [simp]: "length xs \<le> i \<Longrightarrow> nth_opt xs i = None"
  by (simp add: nth_opt_def)

lemma nth_opt_eq_Some [buf_simps]: "nth_opt xs i = Some x \<longleftrightarrow> i < length xs \<and> x = xs ! i"
  by (auto simp: nth_opt_def)

text \<open>A loop over a list whose body may be undefined.\<close>

fun fold_opt :: "('a \<Rightarrow> 's \<Rightarrow> 's option) \<Rightarrow> 'a list \<Rightarrow> 's \<Rightarrow> 's option" where
  "fold_opt f [] s = Some s"
| "fold_opt f (x # xs) s = Option.bind (f x s) (fold_opt f xs)"

text \<open>The rule for such a loop: \<open>P i\<close> holds when \<open>i\<close> elements have been processed.\<close>

lemma fold_opt_rule:
  assumes "P 0 s"
    and "\<And>i s. i < length xs \<Longrightarrow> P i s \<Longrightarrow> \<exists>s'. f (xs ! i) s = Some s' \<and> P (Suc i) s'"
  shows "\<exists>s'. fold_opt f xs s = Some s' \<and> P (length xs) s'"
  using assms
proof (induction xs arbitrary: s P)
  case Nil
  then show ?case by simp
next
  case (Cons x xs)
  from Cons.prems(2) [of 0 s] Cons.prems(1) obtain s1 where s1: "f x s = Some s1" and "P (Suc 0) s1" by auto
  moreover have "\<exists>s'. f (xs ! i) t = Some s' \<and> P (Suc (Suc i)) s'" if "i < length xs" and "P (Suc i) t" for i t
    using Cons.prems(2) [of "Suc i" t] that by simp
  ultimately have "\<exists>s'. fold_opt f xs s1 = Some s' \<and> P (Suc (length xs)) s'"
    by (intro Cons.IH [of "\<lambda>i. P (Suc i)"]) auto
  with s1 show ?case by simp
qed

section \<open>Byte buffers\<close>

definition ld :: "bytes \<Rightarrow> nat \<Rightarrow> u8 option" where
  "ld m i = (if i < length m then Some (m ! i) else None)"

definition st :: "bytes \<Rightarrow> nat \<Rightarrow> u8 \<Rightarrow> bytes option" where
  "st m i b = (if i < length m then Some (m[i := b]) else None)"

definition lds :: "bytes \<Rightarrow> nat \<Rightarrow> nat \<Rightarrow> bytes option" where
  "lds m i n = (if i + n \<le> length m then Some (take n (drop i m)) else None)"

definition sts :: "bytes \<Rightarrow> nat \<Rightarrow> bytes \<Rightarrow> bytes option" where
  "sts m i bs = (if i + length bs \<le> length m
                 then Some (take i m @ bs @ drop (i + length bs) m) else None)"

lemma ld_eq_Some [buf_simps]: "ld m i = Some b \<longleftrightarrow> i < length m \<and> b = m ! i"
  by (auto simp: ld_def)

lemma ld_in [simp]: "i < length m \<Longrightarrow> ld m i = Some (m ! i)"
  by (simp add: ld_def)

lemma ld_out [simp]: "length m \<le> i \<Longrightarrow> ld m i = None"
  by (simp add: ld_def)

lemma ld_shift: "ld (xs @ m) (length xs + i) = ld m i"
  by (simp add: ld_def nth_append)

lemma ld_drop: "ld (drop k m) i = ld m (k + i)"
  by (auto simp: ld_def)

lemma st_eq_Some [buf_simps]: "st m i b = Some m' \<longleftrightarrow> i < length m \<and> m' = m[i := b]"
  by (auto simp: st_def)

lemma st_in [simp]: "i < length m \<Longrightarrow> st m i b = Some (m[i := b])"
  by (simp add: st_def)

lemma st_out [simp]: "length m \<le> i \<Longrightarrow> st m i b = None"
  by (simp add: st_def)

lemma lds_in [simp]: "i + n \<le> length m \<Longrightarrow> lds m i n = Some (take n (drop i m))"
  by (simp add: lds_def)

lemma lds_eq_Some [buf_simps]:
  "lds m i n = Some bs \<longleftrightarrow> i + n \<le> length m \<and> bs = take n (drop i m)"
  by (auto simp: lds_def)

lemma sts_in [simp]:
  "i + length bs \<le> length m \<Longrightarrow> sts m i bs = Some (take i m @ bs @ drop (i + length bs) m)"
  by (simp add: sts_def)

lemma sts_eq_Some [buf_simps]:
  "sts m i bs = Some m' \<longleftrightarrow>
     i + length bs \<le> length m \<and> m' = take i m @ bs @ drop (i + length bs) m"
  by (auto simp: sts_def)

lemma sts_length: "sts m i bs = Some m' \<Longrightarrow> length m' = length m"
  by (auto simp: buf_simps)

lemma sts_take: "sts m i bs = Some m' \<Longrightarrow> take i m' = take i m"
  by (auto simp: buf_simps min_def)

lemma sts_lds: "sts m i bs = Some m' \<Longrightarrow> lds m' i (length bs) = Some bs"
  by (auto simp: buf_simps min_def)

lemma sts_append:
  assumes "sts m i as = Some m1" and "sts m1 (i + length as) bs = Some m2"
  shows "sts m i (as @ bs) = Some m2"
proof -
  from assms have len: "length m1 = length m" by (auto simp: buf_simps)
  from assms(1) have m1: "m1 = take i m @ as @ drop (i + length as) m" and i: "i + length as \<le> length m"
    by (auto simp: buf_simps)
  from assms(2) have "i + length as + length bs \<le> length m"
    and "m2 = take (i + length as) m1 @ bs @ drop (i + length as + length bs) m1"
    by (auto simp: buf_simps len)
  moreover from i have "take (i + length as) m1 = take i m @ as"
    and "drop (i + length as + length bs) m1 = drop (i + length as + length bs) m"
    by (cases as; simp add: m1 min_def ac_simps)+
  ultimately show ?thesis by (simp add: buf_simps ac_simps)
qed

lemma sts_Cons: "sts m i (b # bs) = Option.bind (st m i b) (\<lambda>m'. sts m' (Suc i) bs)"
proof (cases "i < length m")
  case True
  then have "take (Suc i) (m[i := b]) = take i m @ [b]"
    by (simp add: take_Suc_conv_app_nth)
  with True show ?thesis by (simp add: sts_def)
next
  case False
  then show ?thesis by (simp add: sts_def)
qed

lemma sts_byte: "sts m i [b] = st m i b"
  by (auto simp: sts_def st_def upd_conv_take_nth_drop)

lemmas sts_Cons2 = sts_Cons [of _ _ _ "c # bs" for c bs]

text \<open>Overwriting a run of bytes that fits.\<close>

definition overlay :: "bytes \<Rightarrow> nat \<Rightarrow> bytes \<Rightarrow> bytes" where
  "overlay m i bs = take i m @ bs @ drop (i + length bs) m"

lemma sts_overlay: "i + length bs \<le> length m \<Longrightarrow> sts m i bs = Some (overlay m i bs)"
  by (simp add: overlay_def)

lemma length_overlay [simp]: "i + length bs \<le> length m \<Longrightarrow> length (overlay m i bs) = length m"
  by (simp add: overlay_def)

lemma overlay_Nil [simp]: "overlay m i [] = m"
  by (simp add: overlay_def)

lemma overlay_append:
  assumes "i + length as + length bs \<le> length m"
  shows "overlay (overlay m i as) (i + length as) bs = overlay m i (as @ bs)"
proof -
  let ?m = "overlay m i as"
  have "sts m i as = Some ?m" and "sts ?m (i + length as) bs = Some (overlay ?m (i + length as) bs)"
    using assms by (simp_all add: sts_overlay del: sts_in)
  then have "sts m i (as @ bs) = Some (overlay ?m (i + length as) bs)" by (rule sts_append)
  then show ?thesis using assms by (simp add: sts_overlay del: sts_in)
qed

lemma overlay_update:
  assumes "i + 1 + length bs \<le> length m"
  shows "(overlay m (Suc i) bs)[i := b] = overlay m i (b # bs)"
  using assms by (simp add: overlay_def take_Suc_conv_app_nth list_update_append)

lemma drop_overlay: "i + length bs \<le> length m \<Longrightarrow> drop i (overlay m i bs) = bs @ drop (i + length bs) m"
  by (simp add: overlay_def)

lemma take_overlay: "i + length bs \<le> length m \<Longrightarrow> j \<le> i \<Longrightarrow> take j (overlay m i bs) = take j m"
  by (simp add: overlay_def min_def)

lemma nth_overlay_less: "i + length bs \<le> length m \<Longrightarrow> j < i \<Longrightarrow> overlay m i bs ! j = m ! j"
  by (simp add: overlay_def nth_append)

text \<open>The string in a byte array, up to its NUL.\<close>

definition c_string :: "bytes \<Rightarrow> bytes option" where
  "c_string b = (if 0 \<in> set b then Some (takeWhile (\<lambda>x. x \<noteq> 0) b) else None)"

section \<open>Little-endian words\<close>

definition le16 :: "u16 \<Rightarrow> bytes" where
  "le16 w = [ucast w, ucast (drop_bit 8 w)]"

definition le32 :: "u32 \<Rightarrow> bytes" where
  "le32 w = [ucast w, ucast (drop_bit 8 w), ucast (drop_bit 16 w), ucast (drop_bit 24 w)]"

definition of_le16 :: "u8 \<Rightarrow> u8 \<Rightarrow> u16" where
  "of_le16 a b = ucast a OR push_bit 8 (ucast b)"

definition of_le32 :: "u8 \<Rightarrow> u8 \<Rightarrow> u8 \<Rightarrow> u8 \<Rightarrow> u32" where
  "of_le32 a b c d =
     ucast a OR push_bit 8 (ucast b) OR push_bit 16 (ucast c) OR push_bit 24 (ucast d)"

lemma length_le16 [simp]: "length (le16 w) = 2"
  by (simp add: le16_def)

lemma length_le32 [simp]: "length (le32 w) = 4"
  by (simp add: le32_def)

lemma of_le16_le16 [simp]: "of_le16 (ucast w) (ucast (drop_bit 8 w)) = w"
  unfolding of_le16_def
  by (rule bit_word_eqI) (auto simp: bit_simps not_less dest: bit_imp_le_length)

lemma of_le32_le32 [simp]:
  "of_le32 (ucast w) (ucast (drop_bit 8 w)) (ucast (drop_bit 16 w)) (ucast (drop_bit 24 w)) = w"
proof (rule bit_word_eqI)
  fix n assume "n < LENGTH(32)"
  then consider "n < 8" | "8 \<le> n" "n < 16" | "16 \<le> n" "n < 24" | "24 \<le> n" "n < 32" by force
  then show "bit (of_le32 (ucast w) (ucast (drop_bit 8 w)) (ucast (drop_bit 16 w))
                   (ucast (drop_bit 24 w))) n = bit w n"
    by cases (auto simp: of_le32_def bit_simps)
qed

lemma le16_of_le16 [simp]: "le16 (of_le16 a b) = [a, b]"
proof -
  have "ucast (of_le16 a b) = a" and "ucast (drop_bit 8 (of_le16 a b)) = b"
    unfolding of_le16_def by (rule bit_word_eqI; auto simp: bit_simps dest: bit_imp_le_length)+
  then show ?thesis by (simp add: le16_def)
qed

lemma le32_of_le32 [simp]: "le32 (of_le32 a b c d) = [a, b, c, d]"
proof -
  have "ucast (of_le32 a b c d) = a" and "ucast (drop_bit 8 (of_le32 a b c d)) = b"
    and "ucast (drop_bit 16 (of_le32 a b c d)) = c" and "ucast (drop_bit 24 (of_le32 a b c d)) = d"
    unfolding of_le32_def by (rule bit_word_eqI; auto simp: bit_simps dest: bit_imp_le_length)+
  then show ?thesis by (simp add: le32_def)
qed

lemma unat_u8_less: "unat (b :: u8) < 256"
  using unsigned_less [of b, where ?'a = nat] by simp

lemma unat_u16_less: "unat (w :: u16) < 65536"
  using unsigned_less [of w, where ?'a = nat] by simp

lemma unat_word_of_nat_u8: "n < 256 \<Longrightarrow> unat (word_of_nat n :: u8) = n"
  by (simp add: unsigned_of_nat take_bit_nat_eq_self)

lemma unat_word_of_nat_u16: "n < 65536 \<Longrightarrow> unat (word_of_nat n :: u16) = n"
  by (simp add: unsigned_of_nat take_bit_nat_eq_self)

lemma unat_of_le16: "unat (of_le16 a b) = unat a + 256 * unat b"
proof -
  have "ucast a AND push_bit 8 (ucast b) = (0 :: u16)"
    by (rule bit_word_eqI) (auto simp: bit_simps dest: bit_imp_le_length)
  then have "of_le16 a b = ucast a + push_bit 8 (ucast b)"
    unfolding of_le16_def by (simp add: disjunctive_add_eq_or)
  also have "\<dots> = word_of_nat (unat a + 256 * unat b)"
    by (simp add: push_bit_eq_mult mult.commute)
  finally have eq: "of_le16 a b = word_of_nat (unat a + 256 * unat b)" .
  have "unat a + 256 * unat b < 2 ^ LENGTH(16)"
    using unat_u8_less [of a] unat_u8_less [of b] by simp
  then have "take_bit LENGTH(16) (unat a + 256 * unat b) = unat a + 256 * unat b"
    by (simp only: take_bit_nat_eq_self)
  then show ?thesis by (simp only: eq unsigned_of_nat of_nat_id)
qed

end
