(* ===== verification/CapiMsg.thy ===== *)
theory CapiMsg
  imports CapiPrelude
begin

text \<open>
  The CAPI message header: the access macros and setters of
  \<^verbatim>\<open>include/linux/isdn/capiutil.h\<close>, the command numbers of
  \<^verbatim>\<open>include/linux/isdn/capicmd.h\<close> and the info values of
  \<^verbatim>\<open>include/linux/isdn/capinfo.h\<close>.  A message is the byte list that \<open>skb->data\<close> points
  to, with length \<open>skb->len\<close>; a macro that reads past it is \<open>None\<close>.  The fixed-width fields share
  one contract, the locale \<open>byte_field\<close>, which the three accessor pairs implement.
\<close>

section \<open>Commands (capicmd.h)\<close>

definition CAPI_MSG_BASELEN :: nat where "CAPI_MSG_BASELEN = 8"
definition CAPI_DATA_B3_REQ_LEN :: nat where
  "CAPI_DATA_B3_REQ_LEN = CAPI_MSG_BASELEN + 4 + 4 + 2 + 2 + 2"
definition CAPI_DATA_B3_RESP_LEN :: nat where
  "CAPI_DATA_B3_RESP_LEN = CAPI_MSG_BASELEN + 4 + 2"

lemmas [simp, capi_const] =
  CAPI_MSG_BASELEN_def CAPI_DATA_B3_REQ_LEN_def CAPI_DATA_B3_RESP_LEN_def

abbreviation (input) CAPI_ALERT :: u8 where "CAPI_ALERT \<equiv> 0x01"
abbreviation (input) CAPI_CONNECT :: u8 where "CAPI_CONNECT \<equiv> 0x02"
abbreviation (input) CAPI_CONNECT_ACTIVE :: u8 where "CAPI_CONNECT_ACTIVE \<equiv> 0x03"
abbreviation (input) CAPI_CONNECT_B3_ACTIVE :: u8 where "CAPI_CONNECT_B3_ACTIVE \<equiv> 0x83"
abbreviation (input) CAPI_CONNECT_B3 :: u8 where "CAPI_CONNECT_B3 \<equiv> 0x82"
abbreviation (input) CAPI_CONNECT_B3_T90_ACTIVE :: u8 where "CAPI_CONNECT_B3_T90_ACTIVE \<equiv> 0x88"
abbreviation (input) CAPI_DATA_B3 :: u8 where "CAPI_DATA_B3 \<equiv> 0x86"
abbreviation (input) CAPI_DISCONNECT_B3 :: u8 where "CAPI_DISCONNECT_B3 \<equiv> 0x84"
abbreviation (input) CAPI_DISCONNECT :: u8 where "CAPI_DISCONNECT \<equiv> 0x04"
abbreviation (input) CAPI_FACILITY :: u8 where "CAPI_FACILITY \<equiv> 0x80"
abbreviation (input) CAPI_INFO :: u8 where "CAPI_INFO \<equiv> 0x08"
abbreviation (input) CAPI_LISTEN :: u8 where "CAPI_LISTEN \<equiv> 0x05"
abbreviation (input) CAPI_MANUFACTURER :: u8 where "CAPI_MANUFACTURER \<equiv> 0xff"
abbreviation (input) CAPI_RESET_B3 :: u8 where "CAPI_RESET_B3 \<equiv> 0x87"
abbreviation (input) CAPI_SELECT_B_PROTOCOL :: u8 where "CAPI_SELECT_B_PROTOCOL \<equiv> 0x41"
abbreviation (input) CAPI_REQ :: u8 where "CAPI_REQ \<equiv> 0x80"
abbreviation (input) CAPI_CONF :: u8 where "CAPI_CONF \<equiv> 0x81"
abbreviation (input) CAPI_IND :: u8 where "CAPI_IND \<equiv> 0x82"
abbreviation (input) CAPI_RESP :: u8 where "CAPI_RESP \<equiv> 0x83"

text \<open>The combined number \<^verbatim>\<open>CAPICMD(cmd,subcmd)\<close>, an \<open>int\<close> below 65536 in C.\<close>

definition CAPICMD :: "u8 \<Rightarrow> u8 \<Rightarrow> u16" where
  "CAPICMD cmd subcmd = push_bit 8 (ucast cmd) OR ucast subcmd"

abbreviation (input) CAPI_DISCONNECT_REQ :: u16 where "CAPI_DISCONNECT_REQ \<equiv> CAPICMD CAPI_DISCONNECT CAPI_REQ"
abbreviation (input) CAPI_DISCONNECT_CONF :: u16 where "CAPI_DISCONNECT_CONF \<equiv> CAPICMD CAPI_DISCONNECT CAPI_CONF"
abbreviation (input) CAPI_DISCONNECT_IND :: u16 where "CAPI_DISCONNECT_IND \<equiv> CAPICMD CAPI_DISCONNECT CAPI_IND"
abbreviation (input) CAPI_DISCONNECT_RESP :: u16 where "CAPI_DISCONNECT_RESP \<equiv> CAPICMD CAPI_DISCONNECT CAPI_RESP"
abbreviation (input) CAPI_ALERT_REQ :: u16 where "CAPI_ALERT_REQ \<equiv> CAPICMD CAPI_ALERT CAPI_REQ"
abbreviation (input) CAPI_ALERT_CONF :: u16 where "CAPI_ALERT_CONF \<equiv> CAPICMD CAPI_ALERT CAPI_CONF"
abbreviation (input) CAPI_CONNECT_REQ :: u16 where "CAPI_CONNECT_REQ \<equiv> CAPICMD CAPI_CONNECT CAPI_REQ"
abbreviation (input) CAPI_CONNECT_CONF :: u16 where "CAPI_CONNECT_CONF \<equiv> CAPICMD CAPI_CONNECT CAPI_CONF"
abbreviation (input) CAPI_CONNECT_IND :: u16 where "CAPI_CONNECT_IND \<equiv> CAPICMD CAPI_CONNECT CAPI_IND"
abbreviation (input) CAPI_CONNECT_RESP :: u16 where "CAPI_CONNECT_RESP \<equiv> CAPICMD CAPI_CONNECT CAPI_RESP"
abbreviation (input) CAPI_CONNECT_ACTIVE_REQ :: u16 where "CAPI_CONNECT_ACTIVE_REQ \<equiv> CAPICMD CAPI_CONNECT_ACTIVE CAPI_REQ"
abbreviation (input) CAPI_CONNECT_ACTIVE_CONF :: u16 where "CAPI_CONNECT_ACTIVE_CONF \<equiv> CAPICMD CAPI_CONNECT_ACTIVE CAPI_CONF"
abbreviation (input) CAPI_CONNECT_ACTIVE_IND :: u16 where "CAPI_CONNECT_ACTIVE_IND \<equiv> CAPICMD CAPI_CONNECT_ACTIVE CAPI_IND"
abbreviation (input) CAPI_CONNECT_ACTIVE_RESP :: u16 where "CAPI_CONNECT_ACTIVE_RESP \<equiv> CAPICMD CAPI_CONNECT_ACTIVE CAPI_RESP"
abbreviation (input) CAPI_SELECT_B_PROTOCOL_REQ :: u16 where "CAPI_SELECT_B_PROTOCOL_REQ \<equiv> CAPICMD CAPI_SELECT_B_PROTOCOL CAPI_REQ"
abbreviation (input) CAPI_SELECT_B_PROTOCOL_CONF :: u16 where "CAPI_SELECT_B_PROTOCOL_CONF \<equiv> CAPICMD CAPI_SELECT_B_PROTOCOL CAPI_CONF"
abbreviation (input) CAPI_CONNECT_B3_ACTIVE_REQ :: u16 where "CAPI_CONNECT_B3_ACTIVE_REQ \<equiv> CAPICMD CAPI_CONNECT_B3_ACTIVE CAPI_REQ"
abbreviation (input) CAPI_CONNECT_B3_ACTIVE_CONF :: u16 where "CAPI_CONNECT_B3_ACTIVE_CONF \<equiv> CAPICMD CAPI_CONNECT_B3_ACTIVE CAPI_CONF"
abbreviation (input) CAPI_CONNECT_B3_ACTIVE_IND :: u16 where "CAPI_CONNECT_B3_ACTIVE_IND \<equiv> CAPICMD CAPI_CONNECT_B3_ACTIVE CAPI_IND"
abbreviation (input) CAPI_CONNECT_B3_ACTIVE_RESP :: u16 where "CAPI_CONNECT_B3_ACTIVE_RESP \<equiv> CAPICMD CAPI_CONNECT_B3_ACTIVE CAPI_RESP"
abbreviation (input) CAPI_CONNECT_B3_REQ :: u16 where "CAPI_CONNECT_B3_REQ \<equiv> CAPICMD CAPI_CONNECT_B3 CAPI_REQ"
abbreviation (input) CAPI_CONNECT_B3_CONF :: u16 where "CAPI_CONNECT_B3_CONF \<equiv> CAPICMD CAPI_CONNECT_B3 CAPI_CONF"
abbreviation (input) CAPI_CONNECT_B3_IND :: u16 where "CAPI_CONNECT_B3_IND \<equiv> CAPICMD CAPI_CONNECT_B3 CAPI_IND"
abbreviation (input) CAPI_CONNECT_B3_RESP :: u16 where "CAPI_CONNECT_B3_RESP \<equiv> CAPICMD CAPI_CONNECT_B3 CAPI_RESP"
abbreviation (input) CAPI_CONNECT_B3_T90_ACTIVE_IND :: u16 where "CAPI_CONNECT_B3_T90_ACTIVE_IND \<equiv> CAPICMD CAPI_CONNECT_B3_T90_ACTIVE CAPI_IND"
abbreviation (input) CAPI_CONNECT_B3_T90_ACTIVE_RESP :: u16 where "CAPI_CONNECT_B3_T90_ACTIVE_RESP \<equiv> CAPICMD CAPI_CONNECT_B3_T90_ACTIVE CAPI_RESP"
abbreviation (input) CAPI_DATA_B3_REQ :: u16 where "CAPI_DATA_B3_REQ \<equiv> CAPICMD CAPI_DATA_B3 CAPI_REQ"
abbreviation (input) CAPI_DATA_B3_CONF :: u16 where "CAPI_DATA_B3_CONF \<equiv> CAPICMD CAPI_DATA_B3 CAPI_CONF"
abbreviation (input) CAPI_DATA_B3_IND :: u16 where "CAPI_DATA_B3_IND \<equiv> CAPICMD CAPI_DATA_B3 CAPI_IND"
abbreviation (input) CAPI_DATA_B3_RESP :: u16 where "CAPI_DATA_B3_RESP \<equiv> CAPICMD CAPI_DATA_B3 CAPI_RESP"
abbreviation (input) CAPI_DISCONNECT_B3_REQ :: u16 where "CAPI_DISCONNECT_B3_REQ \<equiv> CAPICMD CAPI_DISCONNECT_B3 CAPI_REQ"
abbreviation (input) CAPI_DISCONNECT_B3_CONF :: u16 where "CAPI_DISCONNECT_B3_CONF \<equiv> CAPICMD CAPI_DISCONNECT_B3 CAPI_CONF"
abbreviation (input) CAPI_DISCONNECT_B3_IND :: u16 where "CAPI_DISCONNECT_B3_IND \<equiv> CAPICMD CAPI_DISCONNECT_B3 CAPI_IND"
abbreviation (input) CAPI_DISCONNECT_B3_RESP :: u16 where "CAPI_DISCONNECT_B3_RESP \<equiv> CAPICMD CAPI_DISCONNECT_B3 CAPI_RESP"
abbreviation (input) CAPI_RESET_B3_REQ :: u16 where "CAPI_RESET_B3_REQ \<equiv> CAPICMD CAPI_RESET_B3 CAPI_REQ"
abbreviation (input) CAPI_RESET_B3_CONF :: u16 where "CAPI_RESET_B3_CONF \<equiv> CAPICMD CAPI_RESET_B3 CAPI_CONF"
abbreviation (input) CAPI_RESET_B3_IND :: u16 where "CAPI_RESET_B3_IND \<equiv> CAPICMD CAPI_RESET_B3 CAPI_IND"
abbreviation (input) CAPI_RESET_B3_RESP :: u16 where "CAPI_RESET_B3_RESP \<equiv> CAPICMD CAPI_RESET_B3 CAPI_RESP"
abbreviation (input) CAPI_LISTEN_REQ :: u16 where "CAPI_LISTEN_REQ \<equiv> CAPICMD CAPI_LISTEN CAPI_REQ"
abbreviation (input) CAPI_LISTEN_CONF :: u16 where "CAPI_LISTEN_CONF \<equiv> CAPICMD CAPI_LISTEN CAPI_CONF"
abbreviation (input) CAPI_MANUFACTURER_REQ :: u16 where "CAPI_MANUFACTURER_REQ \<equiv> CAPICMD CAPI_MANUFACTURER CAPI_REQ"
abbreviation (input) CAPI_MANUFACTURER_CONF :: u16 where "CAPI_MANUFACTURER_CONF \<equiv> CAPICMD CAPI_MANUFACTURER CAPI_CONF"
abbreviation (input) CAPI_MANUFACTURER_IND :: u16 where "CAPI_MANUFACTURER_IND \<equiv> CAPICMD CAPI_MANUFACTURER CAPI_IND"
abbreviation (input) CAPI_MANUFACTURER_RESP :: u16 where "CAPI_MANUFACTURER_RESP \<equiv> CAPICMD CAPI_MANUFACTURER CAPI_RESP"
abbreviation (input) CAPI_FACILITY_REQ :: u16 where "CAPI_FACILITY_REQ \<equiv> CAPICMD CAPI_FACILITY CAPI_REQ"
abbreviation (input) CAPI_FACILITY_CONF :: u16 where "CAPI_FACILITY_CONF \<equiv> CAPICMD CAPI_FACILITY CAPI_CONF"
abbreviation (input) CAPI_FACILITY_IND :: u16 where "CAPI_FACILITY_IND \<equiv> CAPICMD CAPI_FACILITY CAPI_IND"
abbreviation (input) CAPI_FACILITY_RESP :: u16 where "CAPI_FACILITY_RESP \<equiv> CAPICMD CAPI_FACILITY CAPI_RESP"
abbreviation (input) CAPI_INFO_REQ :: u16 where "CAPI_INFO_REQ \<equiv> CAPICMD CAPI_INFO CAPI_REQ"
abbreviation (input) CAPI_INFO_CONF :: u16 where "CAPI_INFO_CONF \<equiv> CAPICMD CAPI_INFO CAPI_CONF"
abbreviation (input) CAPI_INFO_IND :: u16 where "CAPI_INFO_IND \<equiv> CAPICMD CAPI_INFO CAPI_IND"
abbreviation (input) CAPI_INFO_RESP :: u16 where "CAPI_INFO_RESP \<equiv> CAPICMD CAPI_INFO CAPI_RESP"

lemma CAPICMD_eq_iff [simp]: "CAPICMD a b = CAPICMD c d \<longleftrightarrow> a = c \<and> b = d"
proof
  have hi: "ucast (drop_bit 8 (CAPICMD x y)) = x" and lo: "ucast (CAPICMD x y) = y" for x y
    unfolding CAPICMD_def by (rule bit_word_eqI; auto simp: bit_simps dest: bit_imp_le_length)+
  assume "CAPICMD a b = CAPICMD c d"
  then show "a = c \<and> b = d" using hi lo by metis
qed simp

section \<open>Info values (capinfo.h)\<close>

abbreviation (input) CAPINFO_0X10_NOERR :: u16 where "CAPINFO_0X10_NOERR \<equiv> 0x0000"
abbreviation (input) CAPINFO_0X10_TOOMANYAPPLS :: u16 where "CAPINFO_0X10_TOOMANYAPPLS \<equiv> 0x1001"
abbreviation (input) CAPINFO_0X10_LOGBLKSIZETOSMALL :: u16 where "CAPINFO_0X10_LOGBLKSIZETOSMALL \<equiv> 0x1002"
abbreviation (input) CAPINFO_0X10_OSRESERR :: u16 where "CAPINFO_0X10_OSRESERR \<equiv> 0x1008"
abbreviation (input) CAPINFO_0X11_NOERR :: u16 where "CAPINFO_0X11_NOERR \<equiv> 0x0000"
abbreviation (input) CAPINFO_0X11_ILLAPPNR :: u16 where "CAPINFO_0X11_ILLAPPNR \<equiv> 0x1101"
abbreviation (input) CAPINFO_0X11_ILLCMDORMSGTOSMALL :: u16 where "CAPINFO_0X11_ILLCMDORMSGTOSMALL \<equiv> 0x1102"
abbreviation (input) CAPINFO_0X11_QUEUEFULL :: u16 where "CAPINFO_0X11_QUEUEFULL \<equiv> 0x1103"
abbreviation (input) CAPINFO_0X11_QUEUEEMPTY :: u16 where "CAPINFO_0X11_QUEUEEMPTY \<equiv> 0x1104"
abbreviation (input) CAPINFO_0X11_OSRESERR :: u16 where "CAPINFO_0X11_OSRESERR \<equiv> 0x1108"
abbreviation (input) CAPINFO_0X11_NOTINSTALLED :: u16 where "CAPINFO_0X11_NOTINSTALLED \<equiv> 0x1109"

section \<open>Access macros (capiutil.h)\<close>

definition CAPIMSG_BASELEN :: nat where [simp, capi_const]: "CAPIMSG_BASELEN = 8"

definition CAPIMSG_U8 :: "bytes \<Rightarrow> nat \<Rightarrow> u8 option" where
  "CAPIMSG_U8 m off = ld m off"

definition CAPIMSG_U16 :: "bytes \<Rightarrow> nat \<Rightarrow> u16 option" where
  "CAPIMSG_U16 m off = do { a \<leftarrow> ld m off; b \<leftarrow> ld m (off + 1); Some (of_le16 a b) }"

definition CAPIMSG_U32 :: "bytes \<Rightarrow> nat \<Rightarrow> u32 option" where
  "CAPIMSG_U32 m off = do {
     a \<leftarrow> ld m off; b \<leftarrow> ld m (off + 1); c \<leftarrow> ld m (off + 2); d \<leftarrow> ld m (off + 3);
     Some (of_le32 a b c d) }"

definition CAPIMSG_LEN :: "bytes \<Rightarrow> u16 option" where
  "CAPIMSG_LEN m = CAPIMSG_U16 m 0"

definition CAPIMSG_APPID :: "bytes \<Rightarrow> u16 option" where
  "CAPIMSG_APPID m = CAPIMSG_U16 m 2"

definition CAPIMSG_COMMAND :: "bytes \<Rightarrow> u8 option" where
  "CAPIMSG_COMMAND m = CAPIMSG_U8 m 4"

definition CAPIMSG_SUBCOMMAND :: "bytes \<Rightarrow> u8 option" where
  "CAPIMSG_SUBCOMMAND m = CAPIMSG_U8 m 5"

definition CAPIMSG_CMD :: "bytes \<Rightarrow> u16 option" where
  "CAPIMSG_CMD m = do { a \<leftarrow> ld m 4; b \<leftarrow> ld m 5; Some (CAPICMD a b) }"

definition CAPIMSG_MSGID :: "bytes \<Rightarrow> u16 option" where
  "CAPIMSG_MSGID m = CAPIMSG_U16 m 6"

definition CAPIMSG_CONTROLLER :: "bytes \<Rightarrow> u8 option" where
  "CAPIMSG_CONTROLLER m = map_option (\<lambda>b. b AND 0x7f) (ld m 8)"

definition CAPIMSG_CONTROL :: "bytes \<Rightarrow> u32 option" where
  "CAPIMSG_CONTROL m = CAPIMSG_U32 m 8"

definition CAPIMSG_NCCI :: "bytes \<Rightarrow> u32 option" where
  "CAPIMSG_NCCI m = CAPIMSG_CONTROL m"

definition CAPIMSG_DATALEN :: "bytes \<Rightarrow> u16 option" where
  "CAPIMSG_DATALEN m = CAPIMSG_U16 m 16"

definition capimsg_setu8 :: "bytes \<Rightarrow> nat \<Rightarrow> u8 \<Rightarrow> bytes option" where
  "capimsg_setu8 m off val = st m off val"

definition capimsg_setu16 :: "bytes \<Rightarrow> nat \<Rightarrow> u16 \<Rightarrow> bytes option" where
  "capimsg_setu16 m off val = do {
     m \<leftarrow> st m off (ucast (val AND 0xff));
     st m (off + 1) (ucast (drop_bit 8 val AND 0xff)) }"

definition capimsg_setu32 :: "bytes \<Rightarrow> nat \<Rightarrow> u32 \<Rightarrow> bytes option" where
  "capimsg_setu32 m off val = do {
     m \<leftarrow> st m off (ucast (val AND 0xff));
     m \<leftarrow> st m (off + 1) (ucast (drop_bit 8 val AND 0xff));
     m \<leftarrow> st m (off + 2) (ucast (drop_bit 16 val AND 0xff));
     st m (off + 3) (ucast (drop_bit 24 val AND 0xff)) }"

definition CAPIMSG_SETLEN :: "bytes \<Rightarrow> u16 \<Rightarrow> bytes option" where
  "CAPIMSG_SETLEN m len = capimsg_setu16 m 0 len"

definition CAPIMSG_SETAPPID :: "bytes \<Rightarrow> u16 \<Rightarrow> bytes option" where
  "CAPIMSG_SETAPPID m applid = capimsg_setu16 m 2 applid"

definition CAPIMSG_SETCOMMAND :: "bytes \<Rightarrow> u8 \<Rightarrow> bytes option" where
  "CAPIMSG_SETCOMMAND m cmd = capimsg_setu8 m 4 cmd"

definition CAPIMSG_SETSUBCOMMAND :: "bytes \<Rightarrow> u8 \<Rightarrow> bytes option" where
  "CAPIMSG_SETSUBCOMMAND m cmd = capimsg_setu8 m 5 cmd"

definition CAPIMSG_SETMSGID :: "bytes \<Rightarrow> u16 \<Rightarrow> bytes option" where
  "CAPIMSG_SETMSGID m msgid = capimsg_setu16 m 6 msgid"

definition CAPIMSG_SETCONTROL :: "bytes \<Rightarrow> u32 \<Rightarrow> bytes option" where
  "CAPIMSG_SETCONTROL m contr = capimsg_setu32 m 8 contr"

definition CAPIMSG_SETDATALEN :: "bytes \<Rightarrow> u16 \<Rightarrow> bytes option" where
  "CAPIMSG_SETDATALEN m len = capimsg_setu16 m 16 len"

section \<open>The contract of a message field\<close>

text \<open>
  A field accessor pair of width \<open>w\<close>: storing is defined exactly within the buffer, a stored value
  is read back, only the field's own bytes change, and reading depends on those bytes only.
\<close>

locale byte_field =
  fixes get :: "bytes \<Rightarrow> nat \<Rightarrow> 'a option"
    and put :: "bytes \<Rightarrow> nat \<Rightarrow> 'a \<Rightarrow> bytes option"
    and w :: nat
  assumes put_defined: "put m off v \<noteq> None \<longleftrightarrow> off + w \<le> length m"
    and get_defined: "get m off \<noteq> None \<longleftrightarrow> off + w \<le> length m"
    and put_length: "put m off v = Some m' \<Longrightarrow> length m' = length m"
    and put_frame: "put m off v = Some m' \<Longrightarrow> i < off \<or> off + w \<le> i \<Longrightarrow> ld m' i = ld m i"
    and get_put: "put m off v = Some m' \<Longrightarrow> get m' off = Some v"
    and get_cong: "(\<And>i. off \<le> i \<Longrightarrow> i < off + w \<Longrightarrow> ld m' i = ld m i) \<Longrightarrow> get m' off = get m off"
begin

lemma put_ex: "off + w \<le> length m \<Longrightarrow> \<exists>m'. put m off v = Some m'"
  using put_defined by blast

lemma get_put_apart:
  assumes "put m off v = Some m'" and "off' + w \<le> off \<or> off + w \<le> off'"
  shows "get m' off' = get m off'"
  by (rule get_cong) (use assms in \<open>auto intro: put_frame\<close>)

end

text \<open>Two fields of different widths that do not overlap do not see each other.\<close>

locale byte_fields = A: byte_field getA putA wA + B: byte_field getB putB wB
  for getA :: "bytes \<Rightarrow> nat \<Rightarrow> 'a option" and putA :: "bytes \<Rightarrow> nat \<Rightarrow> 'a \<Rightarrow> bytes option"
    and wA :: nat
    and getB :: "bytes \<Rightarrow> nat \<Rightarrow> 'b option" and putB :: "bytes \<Rightarrow> nat \<Rightarrow> 'b \<Rightarrow> bytes option"
    and wB :: nat
begin

lemma getA_putB:
  assumes "putB m off v = Some m'" and "off' + wA \<le> off \<or> off + wB \<le> off'"
  shows "getA m' off' = getA m off'"
  by (rule A.get_cong) (use assms in \<open>auto intro: B.put_frame\<close>)

lemma getB_putA:
  assumes "putA m off v = Some m'" and "off' + wB \<le> off \<or> off + wA \<le> off'"
  shows "getB m' off' = getB m off'"
  by (rule B.get_cong) (use assms in \<open>auto intro: A.put_frame\<close>)

end

section \<open>The accessors implement the contract\<close>

lemma ucast_low_byte16 [simp]: "ucast (w AND 0xff :: u16) = (ucast w :: u8)"
proof -
  have "(0xff :: u16) = mask 8" by (simp add: mask_numeral)
  then show ?thesis by (simp add: bit_eq_iff bit_simps)
qed

lemma ucast_low_byte32 [simp]: "ucast (w AND 0xff :: u32) = (ucast w :: u8)"
proof -
  have "(0xff :: u32) = mask 8" by (simp add: mask_numeral)
  then show ?thesis by (simp add: bit_eq_iff bit_simps)
qed

lemma capimsg_setu16_sts: "capimsg_setu16 m off v = sts m off (le16 v)"
  by (simp add: capimsg_setu16_def le16_def sts_Cons2 sts_byte)

lemma capimsg_setu32_sts: "capimsg_setu32 m off v = sts m off (le32 v)"
  by (simp add: capimsg_setu32_def le32_def sts_Cons2 sts_byte numeral_2_eq_2 numeral_3_eq_3)

lemma CAPIMSG_U16_iff:
  "CAPIMSG_U16 m off = (if off + 1 < length m then Some (of_le16 (m ! off) (m ! (off + 1))) else None)"
  by (simp add: CAPIMSG_U16_def ld_def)

lemma CAPIMSG_U16_drop: "CAPIMSG_U16 (drop k m) i = CAPIMSG_U16 m (k + i)"
  by (simp add: CAPIMSG_U16_def ld_drop add.assoc)

lemma CAPIMSG_U32_drop: "CAPIMSG_U32 (drop k m) i = CAPIMSG_U32 m (k + i)"
  by (simp add: CAPIMSG_U32_def ld_drop add.assoc)

lemma CAPIMSG_U16_le16 [simp]: "CAPIMSG_U16 (le16 w @ r) 0 = Some w"
  by (simp add: CAPIMSG_U16_def le16_def)

lemma CAPIMSG_U32_le32 [simp]: "CAPIMSG_U32 (le32 w @ r) 0 = Some w"
  by (simp add: CAPIMSG_U32_def le32_def)

interpretation fu8: byte_field CAPIMSG_U8 capimsg_setu8 1
  by unfold_locales (auto simp: CAPIMSG_U8_def capimsg_setu8_def ld_def st_def split: if_splits)

interpretation fu16: byte_field CAPIMSG_U16 capimsg_setu16 2
  apply unfold_locales
       apply (auto simp: CAPIMSG_U16_def capimsg_setu16_def ld_def st_def split: if_splits)
  done

interpretation fu32: byte_field CAPIMSG_U32 capimsg_setu32 4
  apply unfold_locales
       apply (auto simp: CAPIMSG_U32_def capimsg_setu32_def ld_def st_def split: if_splits)
  done

interpretation f8_16: byte_fields CAPIMSG_U8 capimsg_setu8 1 CAPIMSG_U16 capimsg_setu16 2
  by unfold_locales

interpretation f8_32: byte_fields CAPIMSG_U8 capimsg_setu8 1 CAPIMSG_U32 capimsg_setu32 4
  by unfold_locales

interpretation f16_32: byte_fields CAPIMSG_U16 capimsg_setu16 2 CAPIMSG_U32 capimsg_setu32 4
  by unfold_locales

lemma CAPIMSG_CMD_eq:
  "CAPIMSG_CMD m = do { c \<leftarrow> CAPIMSG_COMMAND m; sc \<leftarrow> CAPIMSG_SUBCOMMAND m; Some (CAPICMD c sc) }"
  by (simp add: CAPIMSG_CMD_def CAPIMSG_COMMAND_def CAPIMSG_SUBCOMMAND_def CAPIMSG_U8_def)

end
