(* ===== verification/CapiUtil.thy ===== *)
theory CapiUtil
  imports CapiMsg
begin

text \<open>
  The message codec of \<^verbatim>\<open>drivers/isdn/capi/capiutil.c\<close>: the parameter table \<open>cdef\<close>, the
  parameter strings \<open>cpars\<close> of the messages, and the two interpreters of those strings that
  assemble a \<open>_cmsg\<close> into a message (\<open>pars_2_message\<close>) and take a message apart
  (\<open>message_2_pars\<close>).

  The parameters of \<open>_cmsg\<close> are reached by the code through \<open>OFF\<close>, the address of the struct
  member that \<open>cdef\<close> names: the members are the datatype \<open>cfield\<close>, and the memory of the members is
  one function per type of member.  A \<open>_cstruct\<close> is a pointer to a length-prefixed byte string;
  its value is \<open>None\<close> for NULL and otherwise the bytes of the object from the pointer on.  The host
  is little-endian, as the code assumes when it copies \<open>u16\<close> and \<open>u32\<close> members byte by byte.
\<close>

section \<open>The message structure and its tables\<close>

datatype cfield =
    AdrController | AdditionalInfo | B1configuration | B1protocol
  | B2configuration | B2protocol | B3configuration | B3protocol
  | BC | BChannelinformation | BProtocol | CalledPartyNumber
  | CalledPartySubaddress | CallingPartyNumber | CallingPartySubaddress | CIPmask
  | CIPmask2 | CIPValue | Class | ConnectedNumber
  | ConnectedSubaddress | Data | DataHandle | DataLength
  | FacilityConfirmationParameter | Facilitydataarray | FacilityIndicationParameter | FacilityRequestParameter
  | FacilitySelector | Flags | Function | HLC
  | Info | InfoElement | InfoMask | InfoNumber
  | Keypadfacility | LLC | ManuData | ManuID
  | NCPI | Reason | Reason_B3 | Reject
  | Useruserdata

datatype ctyp = CBYTE | CWORD | CDWORD | CSTRUCT | CMSTRUCT | CEND

datatype cmstruct = CAPI_COMPOSE | CAPI_DEFAULT

record cmsg =
  ApplId :: u16
  Command :: u8
  Subcommand :: u8
  Messagenumber :: u16
  words :: "cfield \<Rightarrow> u16"
  dwords :: "cfield \<Rightarrow> u32"
  structs :: "cfield \<Rightarrow> bytes option"
  mstructs :: "cfield \<Rightarrow> cmstruct"
  cur_l :: nat
  cur_p :: nat
  cur_par :: "nat list"
  cur_m :: bytes
  cmsg_buf :: bytes

definition cdef :: "(ctyp \<times> cfield option) list" where
  "cdef = [
    (CEND, None), (CEND, None),
    (CEND, None), (CDWORD, Some AdrController),
    (CMSTRUCT, Some AdditionalInfo), (CSTRUCT, Some B1configuration),
    (CWORD, Some B1protocol), (CSTRUCT, Some B2configuration),
    (CWORD, Some B2protocol), (CSTRUCT, Some B3configuration),
    (CWORD, Some B3protocol), (CSTRUCT, Some BC),
    (CSTRUCT, Some BChannelinformation), (CMSTRUCT, Some BProtocol),
    (CSTRUCT, Some CalledPartyNumber), (CSTRUCT, Some CalledPartySubaddress),
    (CSTRUCT, Some CallingPartyNumber), (CSTRUCT, Some CallingPartySubaddress),
    (CDWORD, Some CIPmask), (CDWORD, Some CIPmask2),
    (CWORD, Some CIPValue), (CDWORD, Some Class),
    (CSTRUCT, Some ConnectedNumber), (CSTRUCT, Some ConnectedSubaddress),
    (CDWORD, Some Data), (CWORD, Some DataHandle),
    (CWORD, Some DataLength), (CSTRUCT, Some FacilityConfirmationParameter),
    (CSTRUCT, Some Facilitydataarray), (CSTRUCT, Some FacilityIndicationParameter),
    (CSTRUCT, Some FacilityRequestParameter), (CWORD, Some FacilitySelector),
    (CWORD, Some Flags), (CDWORD, Some Function),
    (CSTRUCT, Some HLC), (CWORD, Some Info),
    (CSTRUCT, Some InfoElement), (CDWORD, Some InfoMask),
    (CWORD, Some InfoNumber), (CSTRUCT, Some Keypadfacility),
    (CSTRUCT, Some LLC), (CSTRUCT, Some ManuData),
    (CDWORD, Some ManuID), (CSTRUCT, Some NCPI),
    (CWORD, Some Reason), (CWORD, Some Reason_B3),
    (CWORD, Some Reject), (CSTRUCT, Some Useruserdata)]"

definition cpars :: "(nat \<times> nat list) list" where
  "cpars = [
    \<comment> \<open>ALERT_REQ\<close> (0x01, [0x03, 0x04, 0x0c, 0x27, 0x2f, 0x1c, 0x01, 0x01]),
    \<comment> \<open>CONNECT_REQ\<close> (0x02, [0x03, 0x14, 0x0e, 0x10, 0x0f, 0x11, 0x0d, 0x06, 0x08, 0x0a, 0x05, 0x07, 0x09, 0x01, 0x0b, 0x28, 0x22, 0x04, 0x0c, 0x27, 0x2f, 0x1c, 0x01, 0x01]),
    \<comment> \<open>DISCONNECT_REQ\<close> (0x04, [0x03, 0x04, 0x0c, 0x27, 0x2f, 0x1c, 0x01, 0x01]),
    \<comment> \<open>LISTEN_REQ\<close> (0x05, [0x03, 0x25, 0x12, 0x13, 0x10, 0x11, 0x01]),
    \<comment> \<open>INFO_REQ\<close> (0x08, [0x03, 0x0e, 0x04, 0x0c, 0x27, 0x2f, 0x1c, 0x01, 0x01]),
    \<comment> \<open>FACILITY_REQ\<close> (0x09, [0x03, 0x1f, 0x1e, 0x01]),
    \<comment> \<open>SELECT_B_PROTOCOL_REQ\<close> (0x0a, [0x03, 0x0d, 0x06, 0x08, 0x0a, 0x05, 0x07, 0x09, 0x01, 0x01]),
    \<comment> \<open>CONNECT_B3_REQ\<close> (0x0b, [0x03, 0x2b, 0x01]),
    \<comment> \<open>DISCONNECT_B3_REQ\<close> (0x0d, [0x03, 0x2b, 0x01]),
    \<comment> \<open>DATA_B3_REQ\<close> (0x0f, [0x03, 0x18, 0x1a, 0x19, 0x20, 0x01]),
    \<comment> \<open>RESET_B3_REQ\<close> (0x10, [0x03, 0x2b, 0x01]),
    \<comment> \<open>ALERT_CONF\<close> (0x13, [0x03, 0x23, 0x01]),
    \<comment> \<open>CONNECT_CONF\<close> (0x14, [0x03, 0x23, 0x01]),
    \<comment> \<open>DISCONNECT_CONF\<close> (0x16, [0x03, 0x23, 0x01]),
    \<comment> \<open>LISTEN_CONF\<close> (0x17, [0x03, 0x23, 0x01]),
    \<comment> \<open>MANUFACTURER_REQ\<close> (0x18, [0x03, 0x2a, 0x15, 0x21, 0x29, 0x01]),
    \<comment> \<open>INFO_CONF\<close> (0x1a, [0x03, 0x23, 0x01]),
    \<comment> \<open>FACILITY_CONF\<close> (0x1b, [0x03, 0x23, 0x1f, 0x1b, 0x01]),
    \<comment> \<open>SELECT_B_PROTOCOL_CONF\<close> (0x1c, [0x03, 0x23, 0x01]),
    \<comment> \<open>CONNECT_B3_CONF\<close> (0x1d, [0x03, 0x23, 0x01]),
    \<comment> \<open>DISCONNECT_B3_CONF\<close> (0x1f, [0x03, 0x23, 0x01]),
    \<comment> \<open>DATA_B3_CONF\<close> (0x21, [0x03, 0x19, 0x23, 0x01]),
    \<comment> \<open>RESET_B3_CONF\<close> (0x22, [0x03, 0x23, 0x01]),
    \<comment> \<open>CONNECT_IND\<close> (0x26, [0x03, 0x14, 0x0e, 0x10, 0x0f, 0x11, 0x0b, 0x28, 0x22, 0x04, 0x0c, 0x27, 0x2f, 0x1c, 0x01, 0x01]),
    \<comment> \<open>CONNECT_ACTIVE_IND\<close> (0x27, [0x03, 0x16, 0x17, 0x28, 0x01]),
    \<comment> \<open>DISCONNECT_IND\<close> (0x28, [0x03, 0x2c, 0x01]),
    \<comment> \<open>MANUFACTURER_CONF\<close> (0x2a, [0x03, 0x2a, 0x15, 0x21, 0x29, 0x01]),
    \<comment> \<open>INFO_IND\<close> (0x2c, [0x03, 0x26, 0x24, 0x01]),
    \<comment> \<open>FACILITY_IND\<close> (0x2d, [0x03, 0x1f, 0x1d, 0x01]),
    \<comment> \<open>CONNECT_B3_IND\<close> (0x2f, [0x03, 0x2b, 0x01]),
    \<comment> \<open>CONNECT_B3_ACTIVE_IND\<close> (0x30, [0x03, 0x2b, 0x01]),
    \<comment> \<open>DISCONNECT_B3_IND\<close> (0x31, [0x03, 0x2d, 0x2b, 0x01]),
    \<comment> \<open>DATA_B3_IND\<close> (0x33, [0x03, 0x18, 0x1a, 0x19, 0x20, 0x01]),
    \<comment> \<open>RESET_B3_IND\<close> (0x34, [0x03, 0x2b, 0x01]),
    \<comment> \<open>CONNECT_B3_T90_ACTIVE_IND\<close> (0x35, [0x03, 0x2b, 0x01]),
    \<comment> \<open>CONNECT_RESP\<close> (0x38, [0x03, 0x2e, 0x0d, 0x06, 0x08, 0x0a, 0x05, 0x07, 0x09, 0x01, 0x16, 0x17, 0x28, 0x04, 0x0c, 0x27, 0x2f, 0x1c, 0x01, 0x01]),
    \<comment> \<open>CONNECT_ACTIVE_RESP\<close> (0x39, [0x03, 0x01]),
    \<comment> \<open>DISCONNECT_RESP\<close> (0x3a, [0x03, 0x01]),
    \<comment> \<open>MANUFACTURER_IND\<close> (0x3c, [0x03, 0x2a, 0x15, 0x21, 0x29, 0x01]),
    \<comment> \<open>INFO_RESP\<close> (0x3e, [0x03, 0x01]),
    \<comment> \<open>FACILITY_RESP\<close> (0x3f, [0x03, 0x1f, 0x01]),
    \<comment> \<open>CONNECT_B3_RESP\<close> (0x41, [0x03, 0x2e, 0x2b, 0x01]),
    \<comment> \<open>CONNECT_B3_ACTIVE_RESP\<close> (0x42, [0x03, 0x01]),
    \<comment> \<open>DISCONNECT_B3_RESP\<close> (0x43, [0x03, 0x01]),
    \<comment> \<open>DATA_B3_RESP\<close> (0x45, [0x03, 0x19, 0x01]),
    \<comment> \<open>RESET_B3_RESP\<close> (0x46, [0x03, 0x01]),
    \<comment> \<open>CONNECT_B3_T90_ACTIVE_RESP\<close> (0x47, [0x03, 0x01]),
    \<comment> \<open>MANUFACTURER_RESP\<close> (0x4e, [0x03, 0x2a, 0x15, 0x21, 0x29, 0x01])]"

text \<open>
  The C string of an entry with its terminating NUL; a missing or out-of-range entry has none
  (the code would follow a NULL or stray pointer).
\<close>

definition cpars_at :: "nat \<Rightarrow> nat list option" where
  "cpars_at i = map_option (\<lambda>s. s @ [0]) (map_of cpars i)"

definition command_2_index :: "u8 \<Rightarrow> u8 \<Rightarrow> nat" where
  "command_2_index c sc =
     (let c' = (if c AND 0x80 \<noteq> 0 then 0x9 + unat (c AND 0x0f)
                else if c \<le> 0x0f then unat c
                else if c = 0x41 then 0x9 + 0x1
                else if c = 0xff then 0
                else unat c)
      in unat (sc AND 3) * (0x9 + 0x9) + c')"

section \<open>The cursor\<close>

definition TYP :: "cmsg \<Rightarrow> ctyp option" where
  "TYP c = do { i \<leftarrow> nth_opt (cur_par c) (cur_p c); (t, f) \<leftarrow> nth_opt cdef i; Some t }"

definition OFF :: "cmsg \<Rightarrow> cfield option" where
  "OFF c = do { i \<leftarrow> nth_opt (cur_par c) (cur_p c); (t, f) \<leftarrow> nth_opt cdef i; f }"

lemma TYP_SomeD: "TYP c = Some t \<Longrightarrow> cur_p c < length (cur_par c)"
  by (auto simp: TYP_def buf_simps)

lemma TYP_OFF_update [simp]:
  "TYP (c\<lparr>cur_l := l\<rparr>) = TYP c" "TYP (c\<lparr>cur_m := m\<rparr>) = TYP c"
  "OFF (c\<lparr>cur_l := l\<rparr>) = OFF c" "OFF (c\<lparr>cur_m := m\<rparr>) = OFF c"
  by (simp_all add: TYP_def OFF_def)

function jump_loop :: "nat \<Rightarrow> cmsg \<Rightarrow> cmsg option" where
  "jump_loop layer c =
     (if layer = 0 then Some c
      else do {
        let c1 = c\<lparr>cur_p := cur_p c + 1\<rparr>;
        t \<leftarrow> TYP c1;
        jump_loop (case t of CMSTRUCT \<Rightarrow> layer + 1 | CEND \<Rightarrow> layer - 1 | _ \<Rightarrow> layer) c1 })"
  by pat_completeness auto
termination
  by (relation "measure (\<lambda>(layer, c). length (cur_par c) - cur_p c)") (auto dest!: TYP_SomeD)

declare jump_loop.simps [simp del]

definition jumpcstruct :: "cmsg \<Rightarrow> cmsg option" where
  "jumpcstruct c = jump_loop 1 (c\<lparr>cur_p := cur_p c + 1\<rparr>)"

lemma jump_loop_frame:
  "jump_loop layer c = Some c' \<Longrightarrow> c' = c\<lparr>cur_p := cur_p c'\<rparr> \<and> cur_p c \<le> cur_p c'"
proof (induction layer c arbitrary: c' rule: jump_loop.induct)
  case (1 layer c)
  show ?case
  proof (cases "layer = 0")
    case True
    with "1.prems" show ?thesis by (simp add: jump_loop.simps)
  next
    case False
    let ?c = "c\<lparr>cur_p := cur_p c + 1\<rparr>"
    from "1.prems" False obtain t where t: "TYP ?c = Some t"
      and j: "jump_loop (case t of CMSTRUCT \<Rightarrow> layer + 1 | CEND \<Rightarrow> layer - 1 | _ \<Rightarrow> layer) ?c = Some c'"
      by (auto simp: jump_loop.simps [of layer c] Let_def)
    from "1.IH" [OF False refl t j] show ?thesis by simp
  qed
qed

lemma jumpcstruct_frame:
  "jumpcstruct c = Some c' \<Longrightarrow> c' = c\<lparr>cur_p := cur_p c'\<rparr> \<and> cur_p c < cur_p c'"
  unfolding jumpcstruct_def by (drule jump_loop_frame) auto

lemma jumpcstruct_cursor:
  assumes "jumpcstruct c = Some c'"
  shows "cur_p c < cur_p c' \<and> cur_par c' = cur_par c"
proof -
  from jumpcstruct_frame [OF assms] have c': "c' = c\<lparr>cur_p := cur_p c'\<rparr>" and lt: "cur_p c < cur_p c'"
    by auto
  have "cur_par c' = cur_par c" by (subst c') simp
  with lt show ?thesis ..
qed

section \<open>Assembling a message\<close>

text \<open>The number of bytes of the length-prefixed object a \<open>_cstruct\<close> points to.\<close>

definition struct_len :: "bytes \<Rightarrow> nat option" where
  "struct_len s = do {
     b \<leftarrow> ld s 0;
     if b \<noteq> 0xff then Some (1 + unat b)
     else do { w \<leftarrow> CAPIMSG_U16 s 1; Some (3 + unat w) } }"

text \<open>The cases of \<open>pars_2_message\<close> that move one member.\<close>

definition put_par :: "ctyp \<Rightarrow> cfield \<Rightarrow> cmsg \<Rightarrow> cmsg option" where
  "put_par t f c =
     (case t of
        CBYTE \<Rightarrow> do {
          m \<leftarrow> st (cur_m c) (cur_l c) (ucast (words c f));
          Some (c\<lparr>cur_m := m, cur_l := cur_l c + 1\<rparr>) }
      | CWORD \<Rightarrow> do {
          m \<leftarrow> sts (cur_m c) (cur_l c) (le16 (words c f));
          Some (c\<lparr>cur_m := m, cur_l := cur_l c + 2\<rparr>) }
      | CDWORD \<Rightarrow> do {
          m \<leftarrow> sts (cur_m c) (cur_l c) (le32 (dwords c f));
          Some (c\<lparr>cur_m := m, cur_l := cur_l c + 4\<rparr>) }
      | CSTRUCT \<Rightarrow>
          (case structs c f of
             None \<Rightarrow> do {
               m \<leftarrow> st (cur_m c) (cur_l c) 0;
               Some (c\<lparr>cur_m := m, cur_l := cur_l c + 1\<rparr>) }
           | Some s \<Rightarrow> do {
               n \<leftarrow> struct_len s;
               bs \<leftarrow> lds s 0 n;
               m \<leftarrow> sts (cur_m c) (cur_l c) bs;
               Some (c\<lparr>cur_m := m, cur_l := cur_l c + n\<rparr>) })
      | _ \<Rightarrow> Some c)"

text \<open>
  The end of the composed case of a \<open>_cmstruct\<close>: the length byte at \<open>l0\<close>, or, for 255 bytes and
  more, the long form after the body has been moved up by two.
\<close>

definition close_struct :: "nat \<Rightarrow> cmsg \<Rightarrow> cmsg option" where
  "close_struct l0 c =
     (let ls = cur_l c - l0 - 1 in
      if ls < 255 then do {
        m \<leftarrow> st (cur_m c) l0 (word_of_nat ls);
        Some (c\<lparr>cur_m := m\<rparr>) }
      else do {
        bs \<leftarrow> lds (cur_m c) (l0 + 1) ls;
        m \<leftarrow> sts (cur_m c) (l0 + 3) bs;
        m \<leftarrow> st m l0 0xff;
        m \<leftarrow> sts m (l0 + 1) (le16 (word_of_nat ls));
        Some (c\<lparr>cur_m := m\<rparr>) })"

lemma put_par_frame: "put_par t f c = Some c' \<Longrightarrow> cur_p c' = cur_p c \<and> cur_par c' = cur_par c"
  by (auto simp: put_par_def split: ctyp.splits option.splits)

lemma close_struct_frame: "close_struct l0 c = Some c' \<Longrightarrow> cur_p c' = cur_p c \<and> cur_par c' = cur_par c"
  by (auto simp: close_struct_def Let_def split: if_splits)

function (domintros) pars_2_message :: "cmsg \<Rightarrow> cmsg option" where
  "pars_2_message c = do {
     t \<leftarrow> TYP c;
     if t = CEND then Some c
     else do {
       f \<leftarrow> OFF c;
       c1 \<leftarrow> (if t = CMSTRUCT
             then if mstructs c f = CAPI_DEFAULT
                  then do {
                    m \<leftarrow> st (cur_m c) (cur_l c) 0;
                    jumpcstruct (c\<lparr>cur_m := m, cur_l := cur_l c + 1\<rparr>) }
                  else do {
                    c1 \<leftarrow> pars_2_message (c\<lparr>cur_l := cur_l c + 1, cur_p := cur_p c + 1\<rparr>);
                    close_struct (cur_l c) c1 }
             else put_par t f c);
       pars_2_message (c1\<lparr>cur_p := cur_p c1 + 1\<rparr>) } }"
  by pat_completeness auto

lemma pars_2_message_cursor:
  "pars_2_message_dom c \<Longrightarrow> pars_2_message c = Some c' \<Longrightarrow>
     cur_p c \<le> cur_p c' \<and> cur_par c' = cur_par c"
proof (induction c arbitrary: c' rule: pars_2_message.pinduct)
  case (1 c)
  from "1.prems" "1.hyps" obtain t where t: "TYP c = Some t"
    by (auto simp: pars_2_message.psimps)
  show ?case
  proof (cases "t = CEND")
    case True
    with t "1.prems" "1.hyps" show ?thesis by (simp add: pars_2_message.psimps)
  next
    case False
    with t "1.prems" "1.hyps" obtain f c1 where f: "OFF c = Some f"
      and c1: "(if t = CMSTRUCT
             then if mstructs c f = CAPI_DEFAULT
                  then do {
                    m \<leftarrow> st (cur_m c) (cur_l c) 0;
                    jumpcstruct (c\<lparr>cur_m := m, cur_l := cur_l c + 1\<rparr>) }
                  else do {
                    c1 \<leftarrow> pars_2_message (c\<lparr>cur_l := cur_l c + 1, cur_p := cur_p c + 1\<rparr>);
                    close_struct (cur_l c) c1 }
             else put_par t f c) = Some c1"
      and rest: "pars_2_message (c1\<lparr>cur_p := cur_p c1 + 1\<rparr>) = Some c'"
      by (auto simp only: pars_2_message.psimps [OF "1.hyps"] if_False Option.bind_eq_Some_conv option.inject)
    have step: "cur_p c \<le> cur_p c1 \<and> cur_par c1 = cur_par c"
    proof (cases "t = CMSTRUCT \<and> mstructs c f \<noteq> CAPI_DEFAULT")
      case True
      with c1 obtain c2 where
        c2: "pars_2_message (c\<lparr>cur_l := cur_l c + 1, cur_p := cur_p c + 1\<rparr>) = Some c2"
        and "close_struct (cur_l c) c2 = Some c1" by auto
      then have "cur_p c1 = cur_p c2" "cur_par c1 = cur_par c2" by (auto dest: close_struct_frame)
      with "1.IH"(1) [OF t False f _ _ c2] True show ?thesis by auto
    next
      case other: False
      with c1 show ?thesis
        by (auto dest: put_par_frame jumpcstruct_cursor split: if_splits)
    qed
    from "1.IH"(2) [OF t False f c1 rest] step show ?thesis by simp
  qed
qed

termination pars_2_message
proof (relation "measure (\<lambda>c. length (cur_par c) - cur_p c)", goal_cases)
  case (2 c t f)
  then show ?case by (auto dest: TYP_SomeD)
next
  case (3 c t f c1)
  then have lt: "cur_p c < length (cur_par c)" by (auto dest: TYP_SomeD)
  have "cur_p c \<le> cur_p c1 \<and> cur_par c1 = cur_par c"
    using 3 by (auto dest!: put_par_frame jumpcstruct_cursor close_struct_frame pars_2_message_cursor
        split: if_splits)
  with lt show ?case by auto
qed simp

declare pars_2_message.simps [simp del]

definition capi_cmsg2message :: "cmsg \<Rightarrow> bytes \<Rightarrow> cmsg option" where
  "capi_cmsg2message c msg = do {
     par \<leftarrow> cpars_at (command_2_index (Command c) (Subcommand c));
     c \<leftarrow> pars_2_message (c\<lparr>cur_m := msg, cur_l := 8, cur_p := 0, cur_par := par\<rparr>);
     m \<leftarrow> sts (cur_m c) 0 (le16 (word_of_nat (cur_l c)));
     m \<leftarrow> st m 4 (Command c);
     m \<leftarrow> st m 5 (Subcommand c);
     m \<leftarrow> sts m 2 (le16 (ApplId c));
     m \<leftarrow> sts m 6 (le16 (Messagenumber c));
     Some (c\<lparr>cur_m := m\<rparr>) }"

section \<open>Taking a message apart\<close>

definition get_par :: "ctyp \<Rightarrow> cfield \<Rightarrow> cmsg \<Rightarrow> cmsg option" where
  "get_par t f c =
     (case t of
        CBYTE \<Rightarrow> do {
          b \<leftarrow> ld (cur_m c) (cur_l c);
          Some (c\<lparr>words := (words c)(f := (words c f AND 0xff00) OR ucast b), cur_l := cur_l c + 1\<rparr>) }
      | CWORD \<Rightarrow> do {
          w \<leftarrow> CAPIMSG_U16 (cur_m c) (cur_l c);
          Some (c\<lparr>words := (words c)(f := w), cur_l := cur_l c + 2\<rparr>) }
      | CDWORD \<Rightarrow> do {
          w \<leftarrow> CAPIMSG_U32 (cur_m c) (cur_l c);
          Some (c\<lparr>dwords := (dwords c)(f := w), cur_l := cur_l c + 4\<rparr>) }
      | CSTRUCT \<Rightarrow> do {
          n \<leftarrow> struct_len (drop (cur_l c) (cur_m c));
          Some (c\<lparr>structs := (structs c)(f \<mapsto> drop (cur_l c) (cur_m c)), cur_l := cur_l c + n\<rparr>) }
      | _ \<Rightarrow> Some c)"

lemma get_par_frame: "get_par t f c = Some c' \<Longrightarrow> cur_p c' = cur_p c \<and> cur_par c' = cur_par c"
  by (auto simp: get_par_def split: ctyp.splits)

function (domintros) message_2_pars :: "cmsg \<Rightarrow> cmsg option" where
  "message_2_pars c = do {
     t \<leftarrow> TYP c;
     if t = CEND then Some c
     else do {
       f \<leftarrow> OFF c;
       c1 \<leftarrow> (if t = CMSTRUCT
             then do {
               b \<leftarrow> ld (cur_m c) (cur_l c);
               if b = 0
               then jumpcstruct (c\<lparr>mstructs := (mstructs c)(f := CAPI_DEFAULT), cur_l := cur_l c + 1\<rparr>)
               else message_2_pars
                      (c\<lparr>mstructs := (mstructs c)(f := CAPI_COMPOSE),
                         cur_l := (if b = 255 then cur_l c + 3 else cur_l c + 1),
                         cur_p := cur_p c + 1\<rparr>) }
             else get_par t f c);
       message_2_pars (c1\<lparr>cur_p := cur_p c1 + 1\<rparr>) } }"
  by pat_completeness auto

lemma message_2_pars_cursor:
  "message_2_pars_dom c \<Longrightarrow> message_2_pars c = Some c' \<Longrightarrow>
     cur_p c \<le> cur_p c' \<and> cur_par c' = cur_par c"
proof (induction c arbitrary: c' rule: message_2_pars.pinduct)
  case (1 c)
  from "1.prems" "1.hyps" obtain t where t: "TYP c = Some t"
    by (auto simp: message_2_pars.psimps)
  show ?case
  proof (cases "t = CEND")
    case True
    with t "1.prems" "1.hyps" show ?thesis by (simp add: message_2_pars.psimps)
  next
    case False
    with t "1.prems" "1.hyps" obtain f c1 where f: "OFF c = Some f"
      and c1: "(if t = CMSTRUCT
             then do {
               b \<leftarrow> ld (cur_m c) (cur_l c);
               if b = 0
               then jumpcstruct (c\<lparr>mstructs := (mstructs c)(f := CAPI_DEFAULT), cur_l := cur_l c + 1\<rparr>)
               else message_2_pars
                      (c\<lparr>mstructs := (mstructs c)(f := CAPI_COMPOSE),
                         cur_l := (if b = 255 then cur_l c + 3 else cur_l c + 1),
                         cur_p := cur_p c + 1\<rparr>) }
             else get_par t f c) = Some c1"
      and rest: "message_2_pars (c1\<lparr>cur_p := cur_p c1 + 1\<rparr>) = Some c'"
      by (auto simp only: message_2_pars.psimps [OF "1.hyps"] if_False Option.bind_eq_Some_conv option.inject)
    have step: "cur_p c \<le> cur_p c1 \<and> cur_par c1 = cur_par c"
    proof (cases "t = CMSTRUCT")
      case True
      with c1 obtain b where b: "ld (cur_m c) (cur_l c) = Some b"
        and c1': "(if b = 0
               then jumpcstruct (c\<lparr>mstructs := (mstructs c)(f := CAPI_DEFAULT), cur_l := cur_l c + 1\<rparr>)
               else message_2_pars
                      (c\<lparr>mstructs := (mstructs c)(f := CAPI_COMPOSE),
                         cur_l := (if b = 255 then cur_l c + 3 else cur_l c + 1),
                         cur_p := cur_p c + 1\<rparr>)) = Some c1" by auto
      show ?thesis
      proof (cases "b = 0")
        case True
        with c1' show ?thesis by (auto dest: jumpcstruct_cursor)
      next
        case b0: False
        with c1' have r: "message_2_pars
                      (c\<lparr>mstructs := (mstructs c)(f := CAPI_COMPOSE),
                         cur_l := (if b = 255 then cur_l c + 3 else cur_l c + 1),
                         cur_p := cur_p c + 1\<rparr>) = Some c1" by simp
        from "1.IH"(1) [OF t False f True b b0 r] show ?thesis by simp
      qed
    next
      case other: False
      with c1 show ?thesis by (auto dest: get_par_frame)
    qed
    from "1.IH"(2) [OF t False f c1 rest] step show ?thesis by simp
  qed
qed

termination message_2_pars
proof (relation "measure (\<lambda>c. length (cur_par c) - cur_p c)", goal_cases)
  case (2 c t f b)
  then show ?case by (auto dest: TYP_SomeD)
next
  case (3 c t f c1)
  then have lt: "cur_p c < length (cur_par c)" by (auto dest: TYP_SomeD)
  have "cur_p c \<le> cur_p c1 \<and> cur_par c1 = cur_par c"
    using 3 by (auto dest!: get_par_frame jumpcstruct_cursor message_2_pars_cursor split: if_splits)
  with lt show ?case by auto
qed simp

declare message_2_pars.simps [simp del]

text \<open>All parameters zero: words 0, pointers NULL, \<open>_cmstruct\<close>s 0, which is \<open>CAPI_COMPOSE\<close>.\<close>

definition zero_cmsg :: cmsg where
  "zero_cmsg = \<lparr>ApplId = 0, Command = 0, Subcommand = 0, Messagenumber = 0,
     words = (\<lambda>_. 0), dwords = (\<lambda>_. 0), structs = (\<lambda>_. None), mstructs = (\<lambda>_. CAPI_COMPOSE),
     cur_l = 0, cur_p = 0, cur_par = [], cur_m = [], cmsg_buf = replicate 180 0\<rparr>"

definition capi_message2cmsg :: "bytes \<Rightarrow> cmsg option" where
  "capi_message2cmsg msg = do {
     let c = zero_cmsg\<lparr>cur_m := msg, cur_l := 8, cur_p := 0\<rparr>;
     b \<leftarrow> ld msg 4;
     let c = c\<lparr>Command := b\<rparr>;
     b \<leftarrow> ld msg 5;
     let c = c\<lparr>Subcommand := b\<rparr>;
     par \<leftarrow> cpars_at (command_2_index (Command c) (Subcommand c));
     c \<leftarrow> message_2_pars (c\<lparr>cur_par := par\<rparr>);
     len \<leftarrow> CAPIMSG_U16 msg 0;
     a \<leftarrow> CAPIMSG_U16 msg 2;
     n \<leftarrow> CAPIMSG_U16 msg 6;
     Some (c\<lparr>cur_l := (cur_l c div 65536) * 65536 + unat len, ApplId := a, Messagenumber := n\<rparr>) }"

definition capi_cmsg_header :: "u16 \<Rightarrow> u8 \<Rightarrow> u8 \<Rightarrow> u16 \<Rightarrow> u32 \<Rightarrow> cmsg" where
  "capi_cmsg_header applid cmd subcmd msgnum contr =
     zero_cmsg\<lparr>ApplId := applid, Command := cmd, Subcommand := subcmd, Messagenumber := msgnum,
       dwords := (dwords zero_cmsg)(AdrController := contr)\<rparr>"

definition capi_cmsg_answer :: "cmsg \<Rightarrow> cmsg" where
  "capi_cmsg_answer c = c\<lparr>Subcommand := Subcommand c OR 0x01\<rparr>"

section \<open>Message names\<close>

definition mnames :: "(nat \<times> string) list" where
  "mnames = [
    (0x01, ''ALERT_REQ''),
    (0x02, ''CONNECT_REQ''),
    (0x04, ''DISCONNECT_REQ''),
    (0x05, ''LISTEN_REQ''),
    (0x08, ''INFO_REQ''),
    (0x09, ''FACILITY_REQ''),
    (0x0a, ''SELECT_B_PROTOCOL_REQ''),
    (0x0b, ''CONNECT_B3_REQ''),
    (0x0d, ''DISCONNECT_B3_REQ''),
    (0x0f, ''DATA_B3_REQ''),
    (0x10, ''RESET_B3_REQ''),
    (0x13, ''ALERT_CONF''),
    (0x14, ''CONNECT_CONF''),
    (0x16, ''DISCONNECT_CONF''),
    (0x17, ''LISTEN_CONF''),
    (0x18, ''MANUFACTURER_REQ''),
    (0x1a, ''INFO_CONF''),
    (0x1b, ''FACILITY_CONF''),
    (0x1c, ''SELECT_B_PROTOCOL_CONF''),
    (0x1d, ''CONNECT_B3_CONF''),
    (0x1f, ''DISCONNECT_B3_CONF''),
    (0x21, ''DATA_B3_CONF''),
    (0x22, ''RESET_B3_CONF''),
    (0x26, ''CONNECT_IND''),
    (0x27, ''CONNECT_ACTIVE_IND''),
    (0x28, ''DISCONNECT_IND''),
    (0x2a, ''MANUFACTURER_CONF''),
    (0x2c, ''INFO_IND''),
    (0x2d, ''FACILITY_IND''),
    (0x2f, ''CONNECT_B3_IND''),
    (0x30, ''CONNECT_B3_ACTIVE_IND''),
    (0x31, ''DISCONNECT_B3_IND''),
    (0x33, ''DATA_B3_IND''),
    (0x34, ''RESET_B3_IND''),
    (0x35, ''CONNECT_B3_T90_ACTIVE_IND''),
    (0x38, ''CONNECT_RESP''),
    (0x39, ''CONNECT_ACTIVE_RESP''),
    (0x3a, ''DISCONNECT_RESP''),
    (0x3c, ''MANUFACTURER_IND''),
    (0x3e, ''INFO_RESP''),
    (0x3f, ''FACILITY_RESP''),
    (0x41, ''CONNECT_B3_RESP''),
    (0x42, ''CONNECT_B3_ACTIVE_RESP''),
    (0x43, ''DISCONNECT_B3_RESP''),
    (0x45, ''DATA_B3_RESP''),
    (0x46, ''RESET_B3_RESP''),
    (0x47, ''CONNECT_B3_T90_ACTIVE_RESP''),
    (0x4e, ''MANUFACTURER_RESP'')]"

definition capi_cmd2str :: "u8 \<Rightarrow> u8 \<Rightarrow> string option" where
  "capi_cmd2str cmd subcmd = map_of mnames (command_2_index cmd subcmd)"

end
