(* ===== verification/CapiCodec.thy ===== *)
theory CapiCodec
  imports CapiUtil
begin

text \<open>
  What the message codec promises.  A parameter string describes a list of items: plain
  members and composed structures.  \<open>layout\<close> reads the string as such a list, \<open>encs\<close> is the
  byte image that the list prescribes for a \<open>_cmsg\<close>, and \<open>agrees\<close> says that two \<open>_cmsg\<close>s carry the
  same parameters of the list.  The lemmas show that the two interpreters of
  \<^verbatim>\<open>capiutil.c\<close> implement this description: \<open>pars_2_message\<close> writes \<open>encs\<close> and
  \<open>message_2_pars\<close> reads it back.
\<close>

section \<open>Parameter lists\<close>

datatype citem = Fld nat | Grp nat "citem list"

fun flat :: "citem \<Rightarrow> nat list" and flats :: "citem list \<Rightarrow> nat list" where
  "flat (Fld i) = [i]"
| "flat (Grp i xs) = i # flats xs @ [1]"
| "flats [] = []"
| "flats (x # xs) = flat x @ flats xs"

fun read_items :: "(nat \<times> citem list) list \<Rightarrow> citem list \<Rightarrow> nat list \<Rightarrow> citem list option" where
  "read_items stk acc [] = None"
| "read_items stk acc (i # is) =
     (case fst (cdef ! i) of
        CEND \<Rightarrow> (case stk of
                   [] \<Rightarrow> Some (rev acc)
                 | (g, acc') # stk' \<Rightarrow> read_items stk' (Grp g (rev acc) # acc') is)
      | CMSTRUCT \<Rightarrow> read_items ((i, acc) # stk) [] is
      | _ \<Rightarrow> read_items stk (Fld i # acc) is)"

definition layout :: "u8 \<Rightarrow> u8 \<Rightarrow> citem list option" where
  "layout cmd sc = Option.bind (cpars_at (command_2_index cmd sc)) (read_items [] [])"

fun item_fields :: "citem \<Rightarrow> cfield list" and items_fields :: "citem list \<Rightarrow> cfield list" where
  "item_fields (Fld i) = (case snd (cdef ! i) of None \<Rightarrow> [] | Some f \<Rightarrow> [f])"
| "item_fields (Grp i xs) = (case snd (cdef ! i) of None \<Rightarrow> [] | Some f \<Rightarrow> [f]) @ items_fields xs"
| "items_fields [] = []"
| "items_fields (x # xs) = item_fields x @ items_fields xs"

fun is_fld :: "citem \<Rightarrow> bool" where
  "is_fld (Fld i) = True"
| "is_fld (Grp i xs) = False"

definition simple_typ :: "ctyp \<Rightarrow> bool" where
  "simple_typ t \<longleftrightarrow> t = CWORD \<or> t = CDWORD \<or> t = CSTRUCT"

fun wf_item :: "citem \<Rightarrow> bool" and wf_items :: "citem list \<Rightarrow> bool" where
  "wf_item (Fld i) \<longleftrightarrow> i < length cdef \<and> simple_typ (fst (cdef ! i)) \<and> snd (cdef ! i) \<noteq> None"
| "wf_item (Grp i xs) \<longleftrightarrow>
     i < length cdef \<and> fst (cdef ! i) = CMSTRUCT \<and> snd (cdef ! i) \<noteq> None \<and>
     xs \<noteq> [] \<and> is_fld (hd xs) \<and> wf_items xs"
| "wf_items [] \<longleftrightarrow> True"
| "wf_items (x # xs) \<longleftrightarrow> wf_item x \<and> wf_items xs"

lemma cpars_readable:
  "list_all (\<lambda>(i, s). case read_items [] [] (s @ [0]) of
       None \<Rightarrow> False
     | Some xs \<Rightarrow> s = flats xs @ [1] \<and> wf_items xs \<and> distinct (items_fields xs)) cpars"
  by code_simp

lemma layout_cases:
  assumes "layout cmd sc = Some xs"
  shows "cpars_at (command_2_index cmd sc) = Some (flats xs @ [1, 0])"
    and "wf_items xs" and "distinct (items_fields xs)"
proof -
  from assms obtain s where s: "map_of cpars (command_2_index cmd sc) = Some s"
    and xs: "read_items [] [] (s @ [0]) = Some xs"
    by (auto simp: layout_def cpars_at_def)
  from s have "(command_2_index cmd sc, s) \<in> set cpars" by (rule map_of_SomeD)
  with cpars_readable xs have "s = flats xs @ [1] \<and> wf_items xs \<and> distinct (items_fields xs)"
    by (fastforce simp: list_all_iff)
  with s show "cpars_at (command_2_index cmd sc) = Some (flats xs @ [1, 0])"
    and "wf_items xs" and "distinct (items_fields xs)"
    by (simp_all add: cpars_at_def)
qed

lemma cdef_1: "cdef ! 1 = (CEND, None)"
  by (simp add: cdef_def)

lemma length_cdef: "length cdef = 48"
  by (simp add: cdef_def)

section \<open>The byte image\<close>

definition struct_bytes :: "cmsg \<Rightarrow> cfield \<Rightarrow> bytes" where
  "struct_bytes c f =
     (case structs c f of
        None \<Rightarrow> [0]
      | Some s \<Rightarrow> (case struct_len s of None \<Rightarrow> [] | Some n \<Rightarrow> take n s))"

definition enc_par :: "cmsg \<Rightarrow> ctyp \<Rightarrow> cfield \<Rightarrow> bytes" where
  "enc_par c t f =
     (case t of
        CWORD \<Rightarrow> le16 (words c f)
      | CDWORD \<Rightarrow> le32 (dwords c f)
      | CSTRUCT \<Rightarrow> struct_bytes c f
      | _ \<Rightarrow> [])"

fun enc :: "cmsg \<Rightarrow> citem \<Rightarrow> bytes" and encs :: "cmsg \<Rightarrow> citem list \<Rightarrow> bytes" where
  "enc c (Fld i) = (case cdef ! i of (t, None) \<Rightarrow> [] | (t, Some f) \<Rightarrow> enc_par c t f)"
| "enc c (Grp i xs) =
     (case snd (cdef ! i) of
        None \<Rightarrow> []
      | Some f \<Rightarrow> if mstructs c f = CAPI_DEFAULT then [0]
                  else word_of_nat (length (encs c xs)) # encs c xs)"
| "encs c [] = []"
| "encs c (x # xs) = enc c x @ encs c xs"

text \<open>
  The data can be assembled: every \<open>_cstruct\<close> pointer refers to a complete length-prefixed
  object, and every composed structure is shorter than 255 bytes.
\<close>

definition ready_par :: "cmsg \<Rightarrow> ctyp \<Rightarrow> cfield \<Rightarrow> bool" where
  "ready_par c t f \<longleftrightarrow>
     (t = CSTRUCT \<longrightarrow>
        (case structs c f of
           None \<Rightarrow> True
         | Some s \<Rightarrow> (case struct_len s of None \<Rightarrow> False | Some n \<Rightarrow> n \<le> length s)))"

fun ready :: "cmsg \<Rightarrow> citem \<Rightarrow> bool" and readys :: "cmsg \<Rightarrow> citem list \<Rightarrow> bool" where
  "ready c (Fld i) = (case cdef ! i of (t, None) \<Rightarrow> False | (t, Some f) \<Rightarrow> ready_par c t f)"
| "ready c (Grp i xs) =
     (case snd (cdef ! i) of
        None \<Rightarrow> False
      | Some f \<Rightarrow> mstructs c f = CAPI_DEFAULT \<or> length (encs c xs) < 255 \<and> readys c xs)"
| "readys c [] = True"
| "readys c (x # xs) \<longleftrightarrow> ready c x \<and> readys c xs"

section \<open>Cursor steps\<close>

lemma TYP_at:
  assumes "cur_par c = pre @ i # post" and "cur_p c = length pre" and "i < length cdef"
  shows "TYP c = Some (fst (cdef ! i))" and "OFF c = snd (cdef ! i)"
  using assms by (simp_all add: TYP_def OFF_def nth_opt_def split: prod.splits)

lemma jump_loop_step:
  assumes "cur_par c = pre @ i # post" and "Suc (cur_p c) = length pre" and "i < length cdef"
    and "0 < layer"
  shows "jump_loop layer c =
    jump_loop (case fst (cdef ! i) of CMSTRUCT \<Rightarrow> layer + 1 | CEND \<Rightarrow> layer - 1 | _ \<Rightarrow> layer)
      (c\<lparr>cur_p := Suc (cur_p c)\<rparr>)"
  using assms TYP_at(1) [of "c\<lparr>cur_p := Suc (cur_p c)\<rparr>" pre i post]
  by (subst jump_loop.simps) simp

lemma jump_over:
  shows "wf_item x \<Longrightarrow> cur_par c = pre @ flat x @ post \<Longrightarrow> Suc (cur_p c) = length pre \<Longrightarrow> 0 < layer \<Longrightarrow>
      jump_loop layer c = jump_loop layer (c\<lparr>cur_p := cur_p c + length (flat x)\<rparr>)"
    and "wf_items xs \<Longrightarrow> cur_par c = pre @ flats xs @ post \<Longrightarrow> Suc (cur_p c) = length pre \<Longrightarrow> 0 < layer \<Longrightarrow>
      jump_loop layer c = jump_loop layer (c\<lparr>cur_p := cur_p c + length (flats xs)\<rparr>)"
proof (induction x and xs arbitrary: c pre post layer and c pre post layer rule: flat_flats.induct)
  case (1 i)
  then show ?case
    using jump_loop_step [of c pre i post layer] by (auto simp: simple_typ_def)
next
  case (2 i xs)
  then have i: "i < length cdef" and t: "fst (cdef ! i) = CMSTRUCT" and wf: "wf_items xs" by auto
  let ?c1 = "c\<lparr>cur_p := Suc (cur_p c)\<rparr>"
  let ?c2 = "?c1\<lparr>cur_p := cur_p ?c1 + length (flats xs)\<rparr>"
  have "jump_loop layer c = jump_loop (Suc layer) ?c1"
    using jump_loop_step [of c pre i "flats xs @ 1 # post" layer] 2 i t by simp
  also have "\<dots> = jump_loop (Suc layer) ?c2"
    by (rule "2.IH" [OF wf, of _ "pre @ [i]" "1 # post"]) (use 2 in simp_all)
  also have "\<dots> = jump_loop layer (?c2\<lparr>cur_p := Suc (cur_p ?c2)\<rparr>)"
    using jump_loop_step [of ?c2 "pre @ i # flats xs" 1 post "Suc layer"] 2 cdef_1 length_cdef
    by simp
  finally show ?case by simp
next
  case 3
  then show ?case by simp
next
  case (4 x xs)
  let ?c1 = "c\<lparr>cur_p := cur_p c + length (flat x)\<rparr>"
  have "jump_loop layer c = jump_loop layer ?c1"
    by (rule "4.IH"(1) [of _ pre "flats xs @ post"]) (use 4 in simp_all)
  also have "\<dots> = jump_loop layer (?c1\<lparr>cur_p := cur_p ?c1 + length (flats xs)\<rparr>)"
    by (rule "4.IH"(2) [of _ "pre @ flat x" post]) (use 4 in simp_all)
  finally show ?case by (simp add: add.assoc)
qed

text \<open>Skipping a composed structure lands on its end marker.\<close>

lemma jumpcstruct_Grp:
  assumes "wf_item (Grp i xs)" and "cur_par c = pre @ flat (Grp i xs) @ post"
    and "cur_p c = length pre"
  shows "jumpcstruct c = Some (c\<lparr>cur_p := cur_p c + length (flats xs) + 1\<rparr>)"
proof -
  from assms(1) obtain j ys where xs: "xs = Fld j # ys" and wf: "wf_items ys"
    by (cases xs; cases "hd xs") auto
  let ?c1 = "c\<lparr>cur_p := cur_p c + 1\<rparr>"
  let ?c2 = "?c1\<lparr>cur_p := cur_p ?c1 + length (flats ys)\<rparr>"
  have "jump_loop 1 ?c1 = jump_loop 1 ?c2"
    by (rule jump_over(2) [OF wf, of _ "pre @ [i, j]" "1 # post"]) (use assms xs in simp_all)
  also have "\<dots> = jump_loop 0 (?c2\<lparr>cur_p := Suc (cur_p ?c2)\<rparr>)"
    using jump_loop_step [of ?c2 "pre @ i # j # flats ys" 1 post 1] assms xs cdef_1 length_cdef
    by simp
  finally show ?thesis by (simp add: jumpcstruct_def jump_loop.simps xs)
qed

section \<open>Assembling implements the byte image\<close>

lemma encs_cursor:
  assumes "words c' = words c" and "dwords c' = dwords c" and "structs c' = structs c"
    and "mstructs c' = mstructs c"
  shows "enc c' x = enc c x" and "encs c' xs = encs c xs"
    and "ready c' x = ready c x" and "readys c' xs = readys c xs"
proof -
  have e: "enc_par c' t f = enc_par c t f" and r: "ready_par c' t f = ready_par c t f" for t f
    using assms by (simp_all add: enc_par_def struct_bytes_def ready_par_def split: ctyp.split)
  have 1: "enc c' x = enc c x" "encs c' xs = encs c xs" for x xs
    by (induction x and xs rule: flat_flats.induct) (simp_all add: e assms split: option.splits prod.splits)
  have 2: "ready c' x = ready c x" "readys c' xs = readys c xs" for x xs
    by (induction x and xs rule: flat_flats.induct) (simp_all add: r 1 assms split: option.splits prod.splits)
  show "enc c' x = enc c x" and "encs c' xs = encs c xs"
    and "ready c' x = ready c x" and "readys c' xs = readys c xs"
    by (simp_all add: 1 2)
qed

lemma encs_upd [simp]:
  "encs (c\<lparr>cur_l := l\<rparr>) xs = encs c xs" "encs (c\<lparr>cur_p := p\<rparr>) xs = encs c xs"
  "encs (c\<lparr>cur_m := m\<rparr>) xs = encs c xs" "encs (c\<lparr>cur_par := q\<rparr>) xs = encs c xs"
  "readys (c\<lparr>cur_l := l\<rparr>) xs = readys c xs" "readys (c\<lparr>cur_p := p\<rparr>) xs = readys c xs"
  "readys (c\<lparr>cur_m := m\<rparr>) xs = readys c xs" "readys (c\<lparr>cur_par := q\<rparr>) xs = readys c xs"
  by (rule encs_cursor; simp)+

text \<open>The state after writing the bytes \<open>bs\<close> and moving over \<open>n\<close> parameters.\<close>

definition adv :: "cmsg \<Rightarrow> bytes \<Rightarrow> nat \<Rightarrow> cmsg" where
  "adv c bs n = c\<lparr>cur_m := overlay (cur_m c) (cur_l c) bs, cur_l := cur_l c + length bs,
                  cur_p := cur_p c + n\<rparr>"

lemma adv_sel [simp]:
  "cur_p (adv c bs n) = cur_p c + n" "cur_l (adv c bs n) = cur_l c + length bs"
  "cur_par (adv c bs n) = cur_par c" "cur_m (adv c bs n) = overlay (cur_m c) (cur_l c) bs"
  "words (adv c bs n) = words c" "dwords (adv c bs n) = dwords c"
  "structs (adv c bs n) = structs c" "mstructs (adv c bs n) = mstructs c"
  by (simp_all add: adv_def)

lemma adv_enc [simp]:
  "enc (adv c bs n) x = enc c x" "encs (adv c bs n) xs = encs c xs"
  "ready (adv c bs n) x = ready c x" "readys (adv c bs n) xs = readys c xs"
  by (rule encs_cursor; simp)+

lemma adv_adv:
  assumes "cur_l c + length as + length bs \<le> length (cur_m c)"
  shows "adv (adv c as k) bs n = adv c (as @ bs) (k + n)"
  using assms by (simp add: adv_def overlay_append add.assoc)

lemma put_par_enc:
  assumes "simple_typ t" and "ready_par c t f"
    and "cur_l c + length (enc_par c t f) \<le> length (cur_m c)"
  shows "put_par t f c = Some (adv c (enc_par c t f) 0)"
  using assms
  by (auto simp: put_par_def enc_par_def struct_bytes_def ready_par_def simple_typ_def adv_def sts_overlay
        sts_byte [symmetric] simp del: sts_in st_in split: option.splits)

lemma overlay_byte: "i < length m \<Longrightarrow> overlay m i [b] = m[i := b]"
  by (simp add: overlay_def upd_conv_take_nth_drop)

lemma pars_2_message_end:
  assumes "cur_par c = pre @ 1 # post" and "cur_p c = length pre"
  shows "pars_2_message c = Some c"
  using TYP_at(1) [OF assms] cdef_1 by (subst pars_2_message.simps) (simp add: length_cdef)

lemma pars_2_message_Fld:
  assumes "wf_item (Fld i)" and "ready c (Fld i)" and "cur_par c = pre @ i # post"
    and "cur_p c = length pre" and "cur_l c + length (enc c (Fld i)) \<le> length (cur_m c)"
  shows "pars_2_message c = pars_2_message (adv c (enc c (Fld i)) 1)"
proof -
  from assms(1) obtain t f where i: "cdef ! i = (t, Some f)" and t: "simple_typ t" and "i < length cdef"
    by (cases "cdef ! i") auto
  with TYP_at [OF assms(3,4)] have "TYP c = Some t" and "OFF c = Some f" by auto
  moreover have "put_par t f c = Some (adv c (enc_par c t f) 0)"
    by (rule put_par_enc) (use assms i t in auto)
  ultimately show ?thesis
    using t by (subst pars_2_message.simps) (auto simp: simple_typ_def i adv_def)
qed

lemma close_struct_enc:
  assumes "length bs < 255" and "l0 + 1 + length bs \<le> length (cur_m c)"
  shows "close_struct l0 (adv (c\<lparr>cur_l := l0 + 1, cur_p := p\<rparr>) bs n) =
    Some (adv (c\<lparr>cur_l := l0, cur_p := p\<rparr>) (word_of_nat (length bs) # bs) n)"
  using assms by (simp add: close_struct_def adv_def overlay_update Let_def)

lemma pars_2_message_enc:
  shows "wf_item x \<Longrightarrow> ready c x \<Longrightarrow> cur_par c = pre @ flat x @ post \<Longrightarrow> cur_p c = length pre \<Longrightarrow>
      cur_l c + length (enc c x) \<le> length (cur_m c) \<Longrightarrow>
      pars_2_message c = pars_2_message (adv c (enc c x) (length (flat x)))"
    and "wf_items xs \<Longrightarrow> readys c xs \<Longrightarrow> cur_par c = pre @ flats xs @ post \<Longrightarrow> cur_p c = length pre \<Longrightarrow>
      cur_l c + length (encs c xs) \<le> length (cur_m c) \<Longrightarrow>
      pars_2_message c = pars_2_message (adv c (encs c xs) (length (flats xs)))"
proof (induction x and xs arbitrary: c pre post and c pre post rule: flat_flats.induct)
  case (1 i)
  then show ?case using pars_2_message_Fld [of i c pre post] by simp
next
  case (2 i xs)
  from "2.prems"(1) obtain f where i: "cdef ! i = (CMSTRUCT, Some f)" and il: "i < length cdef"
    and wf: "wf_items xs" by (cases "cdef ! i") auto
  with TYP_at [of c pre i "flats xs @ 1 # post"] "2.prems"(3,4)
  have T: "TYP c = Some CMSTRUCT" and O: "OFF c = Some f" by auto
  show ?case
  proof (cases "mstructs c f = CAPI_DEFAULT")
    case True
    let ?c1 = "c\<lparr>cur_m := (cur_m c)[cur_l c := 0], cur_l := cur_l c + 1\<rparr>"
    from True i "2.prems"(5) have l: "cur_l c < length (cur_m c)" by simp
    have "jumpcstruct ?c1 = Some (?c1\<lparr>cur_p := cur_p ?c1 + length (flats xs) + 1\<rparr>)"
      by (rule jumpcstruct_Grp [OF "2.prems"(1)]) (use "2.prems" in auto)
    with True T O i l show ?thesis
      by (subst pars_2_message.simps) (simp add: adv_def overlay_byte)
  next
    case False
    let ?bs = "encs c xs"
    let ?c1 = "c\<lparr>cur_l := cur_l c + 1, cur_p := cur_p c + 1\<rparr>"
    from False i "2.prems"(2,5) have n: "length ?bs < 255" and rdy: "readys c xs"
      and fit: "cur_l c + 1 + length ?bs \<le> length (cur_m c)" by simp_all
    have "pars_2_message ?c1 = pars_2_message (adv ?c1 (encs ?c1 xs) (length (flats xs)))"
      by (rule "2.IH" [OF wf, of _ "pre @ [i]" "1 # post"]) (use "2.prems" rdy fit in simp_all)
    also have "\<dots> = Some (adv ?c1 (encs ?c1 xs) (length (flats xs)))"
      by (rule pars_2_message_end [of _ "pre @ i # flats xs" post]) (use "2.prems" in simp_all)
    finally have "pars_2_message ?c1 = Some (adv ?c1 ?bs (length (flats xs)))" by simp
    moreover have "close_struct (cur_l c) (adv ?c1 ?bs (length (flats xs))) =
        Some (adv (c\<lparr>cur_p := cur_p c + 1\<rparr>) (word_of_nat (length ?bs) # ?bs) (length (flats xs)))"
      using close_struct_enc [OF n fit, of "cur_p c + 1"] by simp
    ultimately show ?thesis
      using False T O i by (subst pars_2_message.simps) (simp add: adv_def)
  qed
next
  case (3 c)
  then show ?case by (cases c) (simp add: adv_def)
next
  case (4 x xs)
  let ?c1 = "adv c (enc c x) (length (flat x))"
  have "pars_2_message c = pars_2_message ?c1"
    by (rule "4.IH"(1) [of _ pre "flats xs @ post"]) (use "4.prems" in simp_all)
  also have "\<dots> = pars_2_message (adv ?c1 (encs ?c1 xs) (length (flats xs)))"
    by (rule "4.IH"(2) [of _ "pre @ flat x" post]) (use "4.prems" in simp_all)
  also have "adv ?c1 (encs ?c1 xs) (length (flats xs)) = adv c (encs c (x # xs)) (length (flats (x # xs)))"
    using "4.prems" by (simp add: adv_adv)
  finally show ?case .
qed

lemma pars_2_message_layout:
  assumes "layout cmd sc = Some xs" and "cpars_at (command_2_index cmd sc) = Some par"
    and "readys c xs" and "l + length (encs c xs) \<le> length m"
  shows "pars_2_message (c\<lparr>cur_m := m, cur_l := l, cur_p := 0, cur_par := par\<rparr>) =
    Some (c\<lparr>cur_m := overlay m l (encs c xs), cur_l := l + length (encs c xs),
            cur_p := length (flats xs), cur_par := par\<rparr>)"
proof -
  let ?c = "c\<lparr>cur_m := m, cur_l := l, cur_p := 0, cur_par := par\<rparr>"
  from layout_cases [OF assms(1)] assms(2) have par: "par = flats xs @ [1, 0]" and wf: "wf_items xs"
    by simp_all
  have e: "encs ?c xs = encs c xs" and r: "readys ?c xs = readys c xs" by (rule encs_cursor; simp)+
  have "pars_2_message ?c = pars_2_message (adv ?c (encs ?c xs) (length (flats xs)))"
    by (rule pars_2_message_enc(2) [OF wf, of _ "[]" "[1, 0]"]) (use assms par e r in simp_all)
  also have "\<dots> = Some (adv ?c (encs ?c xs) (length (flats xs)))"
    by (rule pars_2_message_end [of _ "flats xs" "[0]"]) (simp_all add: par)
  finally show ?thesis by (simp add: adv_def e)
qed

text \<open>The eight header bytes that \<open>capi_cmsg2message\<close> writes last.\<close>

definition header_bytes :: "cmsg \<Rightarrow> nat \<Rightarrow> bytes" where
  "header_bytes c len =
     le16 (word_of_nat len) @ le16 (ApplId c) @ [Command c, Subcommand c] @ le16 (Messagenumber c)"

lemma length_header_bytes [simp]: "length (header_bytes c len) = 8"
  by (simp add: header_bytes_def)

lemma header_stores:
  assumes "8 \<le> length m"
  shows "do {
     m \<leftarrow> sts m 0 (le16 (word_of_nat len));
     m \<leftarrow> st m 4 (Command c);
     m \<leftarrow> st m 5 (Subcommand c);
     m \<leftarrow> sts m 2 (le16 (ApplId c));
     sts m 6 (le16 (Messagenumber c)) } = Some (header_bytes c len @ drop 8 m)"
proof -
  from assms obtain b0 b1 b2 b3 b4 b5 b6 b7 r where "m = b0 # b1 # b2 # b3 # b4 # b5 # b6 # b7 # r"
    by (auto simp: numeral_eq_Suc Suc_le_length_iff)
  then show ?thesis by (simp add: header_bytes_def le16_def numeral_eq_Suc)
qed

theorem capi_cmsg2message_enc:
  assumes "layout (Command c) (Subcommand c) = Some xs" and "readys c xs"
    and "8 + length (encs c xs) \<le> length msg"
  shows "capi_cmsg2message c msg =
    Some (c\<lparr>cur_m := header_bytes c (8 + length (encs c xs)) @ encs c xs @ drop (8 + length (encs c xs)) msg,
            cur_l := 8 + length (encs c xs), cur_p := length (flats xs),
            cur_par := flats xs @ [1, 0]\<rparr>)"
proof -
  let ?n = "8 + length (encs c xs)" and ?par = "flats xs @ [1, 0]"
  let ?m = "overlay msg 8 (encs c xs)"
  let ?c = "c\<lparr>cur_m := ?m, cur_l := ?n, cur_p := length (flats xs), cur_par := ?par\<rparr>"
  from layout_cases(1) [OF assms(1)]
  have par: "cpars_at (command_2_index (Command c) (Subcommand c)) = Some ?par" .
  have "pars_2_message (c\<lparr>cur_m := msg, cur_l := 8, cur_p := 0, cur_par := ?par\<rparr>) = Some ?c"
    by (rule pars_2_message_layout [OF assms(1) par assms(2,3)])
  then have "capi_cmsg2message c msg = do {
      m \<leftarrow> do { m \<leftarrow> sts ?m 0 (le16 (word_of_nat ?n));
              m \<leftarrow> st m 4 (Command ?c);
              m \<leftarrow> st m 5 (Subcommand ?c);
              m \<leftarrow> sts m 2 (le16 (ApplId ?c));
              sts m 6 (le16 (Messagenumber ?c)) };
      Some (?c\<lparr>cur_m := m\<rparr>) }"
    by (simp add: capi_cmsg2message_def par del: cmsg.update_convs)
  also have "\<dots> = Some (?c\<lparr>cur_m := header_bytes ?c ?n @ drop 8 ?m\<rparr>)"
    using assms(3) by (subst header_stores) simp_all
  also have "drop 8 ?m = encs c xs @ drop ?n msg"
    using assms(3) by (simp add: drop_overlay)
  also have "header_bytes ?c ?n = header_bytes c ?n" by (simp add: header_bytes_def)
  finally show ?thesis by simp
qed

section \<open>Taking apart reads the byte image back\<close>

text \<open>The two \<open>_cmsg\<close>s carry the same parameters of the list.\<close>

definition agree_par :: "cmsg \<Rightarrow> cmsg \<Rightarrow> ctyp \<Rightarrow> cfield \<Rightarrow> bool" where
  "agree_par c c' t f \<longleftrightarrow> enc_par c' t f = enc_par c t f"

fun agree :: "cmsg \<Rightarrow> cmsg \<Rightarrow> citem \<Rightarrow> bool" and agrees :: "cmsg \<Rightarrow> cmsg \<Rightarrow> citem list \<Rightarrow> bool" where
  "agree c c' (Fld i) = (case cdef ! i of (t, None) \<Rightarrow> True | (t, Some f) \<Rightarrow> agree_par c c' t f)"
| "agree c c' (Grp i xs) =
     (case snd (cdef ! i) of
        None \<Rightarrow> True
      | Some f \<Rightarrow> mstructs c' f = mstructs c f \<and> (mstructs c f = CAPI_COMPOSE \<longrightarrow> agrees c c' xs))"
| "agrees c c' [] = True"
| "agrees c c' (x # xs) \<longleftrightarrow> agree c c' x \<and> agrees c c' xs"

text \<open>Only the members in \<open>fs\<close> differ.\<close>

definition same_off :: "cfield set \<Rightarrow> cmsg \<Rightarrow> cmsg \<Rightarrow> bool" where
  "same_off fs c c' \<longleftrightarrow>
     (\<forall>f. f \<notin> fs \<longrightarrow> words c' f = words c f \<and> dwords c' f = dwords c f \<and>
                      structs c' f = structs c f \<and> mstructs c' f = mstructs c f)"

lemma same_off_refl [simp]: "same_off fs c c"
  by (simp add: same_off_def)

lemma same_off_trans: "same_off fs a b \<Longrightarrow> same_off gs b c \<Longrightarrow> same_off (fs \<union> gs) a c"
  by (simp add: same_off_def)

lemma same_off_mono: "same_off fs a b \<Longrightarrow> fs \<subseteq> gs \<Longrightarrow> same_off gs a b"
  by (auto simp: same_off_def)

lemma enc_par_same: "same_off fs a b \<Longrightarrow> f \<notin> fs \<Longrightarrow> enc_par b t f = enc_par a t f"
  by (simp add: same_off_def enc_par_def struct_bytes_def split: ctyp.split)

lemma agree_same:
  shows "agree c a x \<Longrightarrow> same_off fs a b \<Longrightarrow> set (item_fields x) \<inter> fs = {} \<Longrightarrow> agree c b x"
    and "agrees c a xs \<Longrightarrow> same_off fs a b \<Longrightarrow> set (items_fields xs) \<inter> fs = {} \<Longrightarrow> agrees c b xs"
proof (induction x and xs rule: flat_flats.induct)
  case (1 i)
  then show ?case
    by (cases "cdef ! i") (auto simp: agree_par_def enc_par_same split: option.splits)
next
  case (2 i xs)
  then show ?case
    by (cases "cdef ! i") (auto simp: same_off_def split: option.splits)
qed auto

lemma struct_len_pos: "struct_len s = Some n \<Longrightarrow> 0 < n"
  by (auto simp: struct_len_def split: if_splits)

lemma struct_len_append:
  "struct_len s = Some n \<Longrightarrow> n \<le> length s \<Longrightarrow> struct_len (take n s @ r) = Some n"
  by (auto simp: struct_len_def CAPIMSG_U16_iff buf_simps nth_append split: if_splits)

lemma struct_bytes_len:
  assumes "ready_par c CSTRUCT f"
  shows "struct_len (struct_bytes c f @ r) = Some (length (struct_bytes c f))"
    and "struct_bytes c f \<noteq> []"
proof -
  have "struct_len (struct_bytes c f @ r) = Some (length (struct_bytes c f)) \<and> struct_bytes c f \<noteq> []"
  proof (cases "structs c f")
    case None
    then show ?thesis by (simp add: struct_bytes_def struct_len_def)
  next
    case (Some s)
    with assms obtain n where "struct_len s = Some n" and "n \<le> length s"
      by (auto simp: ready_par_def split: option.splits)
    with Some show ?thesis
      using struct_len_append [of s n r] struct_len_pos [of s n]
      by (auto simp: struct_bytes_def min_def)
  qed
  then show "struct_len (struct_bytes c f @ r) = Some (length (struct_bytes c f))"
    and "struct_bytes c f \<noteq> []" by auto
qed

text \<open>
  The cursor moved over \<open>n\<close> bytes and \<open>k\<close> parameters and only members in \<open>fs\<close> were written.
\<close>

definition moved :: "cmsg \<Rightarrow> cmsg \<Rightarrow> nat \<Rightarrow> nat \<Rightarrow> cfield set \<Rightarrow> bool" where
  "moved c c' n k fs \<longleftrightarrow>
     ApplId c' = ApplId c \<and> Command c' = Command c \<and> Subcommand c' = Subcommand c \<and>
     Messagenumber c' = Messagenumber c \<and>
     cur_m c' = cur_m c \<and> cur_par c' = cur_par c \<and> cur_l c' = cur_l c + n \<and> cur_p c' = cur_p c + k \<and>
     same_off fs c c'"

lemma moved_trans:
  "moved a b n k fs \<Longrightarrow> moved b c n' k' gs \<Longrightarrow> moved a c (n + n') (k + k') (fs \<union> gs)"
  unfolding moved_def using same_off_trans by auto

lemma get_par_enc:
  assumes "simple_typ t" and "ready_par c0 t f"
    and "drop (cur_l c) (cur_m c) = enc_par c0 t f @ r"
  shows "\<exists>c'. get_par t f c = Some c' \<and> moved c c' (length (enc_par c0 t f)) 0 {f} \<and> agree_par c0 c' t f"
proof -
  from assms(1) consider "t = CWORD" | "t = CDWORD" | "t = CSTRUCT" by (auto simp: simple_typ_def)
  then show ?thesis
  proof cases
    case 1
    with assms(3) have "CAPIMSG_U16 (cur_m c) (cur_l c) = Some (words c0 f)"
      using CAPIMSG_U16_drop [of "cur_l c" "cur_m c" 0] by (simp add: enc_par_def)
    with 1 show ?thesis
      by (simp add: get_par_def enc_par_def agree_par_def moved_def same_off_def)
  next
    case 2
    with assms(3) have "CAPIMSG_U32 (cur_m c) (cur_l c) = Some (dwords c0 f)"
      using CAPIMSG_U32_drop [of "cur_l c" "cur_m c" 0] by (simp add: enc_par_def)
    with 2 show ?thesis
      by (simp add: get_par_def enc_par_def agree_par_def moved_def same_off_def)
  next
    case 3
    let ?n = "length (struct_bytes c0 f)"
    let ?c = "c\<lparr>structs := (structs c)(f \<mapsto> drop (cur_l c) (cur_m c)), cur_l := cur_l c + ?n\<rparr>"
    from 3 assms(2,3) have d: "drop (cur_l c) (cur_m c) = struct_bytes c0 f @ r"
      and n: "struct_len (struct_bytes c0 f @ r) = Some ?n"
      by (simp_all add: enc_par_def struct_bytes_len)
    then have "get_par t f c = Some ?c" using 3 by (simp add: get_par_def)
    moreover have "struct_bytes ?c f = struct_bytes c0 f"
      unfolding struct_bytes_def [of ?c] using n by (simp add: d)
    ultimately show ?thesis using 3
      by (simp add: enc_par_def agree_par_def moved_def same_off_def)
  qed
qed

lemma message_2_pars_end:
  assumes "cur_par c = pre @ 1 # post" and "cur_p c = length pre"
  shows "message_2_pars c = Some c"
  using TYP_at(1) [OF assms] cdef_1 by (subst message_2_pars.simps) (simp add: length_cdef)

lemma encs_nonempty:
  assumes "wf_item (Grp i xs)" and "readys c xs"
  shows "encs c xs \<noteq> []"
proof -
  from assms(1) obtain j ys where xs: "xs = Fld j # ys" and "wf_item (Fld j)"
    by (cases xs; cases "hd xs") auto
  then obtain t f where j: "cdef ! j = (t, Some f)" and t: "simple_typ t"
    by (cases "cdef ! j") auto
  from assms(2) have "ready_par c t f" by (simp add: xs j)
  with t have "enc_par c t f \<noteq> []"
    by (auto simp: simple_typ_def enc_par_def le16_def le32_def struct_bytes_len)
  then show ?thesis by (simp add: xs j)
qed

lemma message_2_pars_step:
  assumes "TYP c = Some t" and "t \<noteq> CEND" and "t \<noteq> CMSTRUCT" and "OFF c = Some f"
    and "get_par t f c = Some c'"
  shows "message_2_pars c = message_2_pars (c'\<lparr>cur_p := cur_p c' + 1\<rparr>)"
  using assms by (subst message_2_pars.simps) simp

lemma moved_skip: "moved c c' n k fs \<Longrightarrow> moved c (c'\<lparr>cur_p := cur_p c' + j\<rparr>) n (k + j) fs"
  by (simp add: moved_def same_off_def)

lemma agree_par_skip [simp]: "agree_par c (c'\<lparr>cur_p := p\<rparr>) t f = agree_par c c' t f"
  by (simp add: agree_par_def enc_par_def struct_bytes_def split: ctyp.split)

lemma agrees_skip [simp]:
  "agree c (c'\<lparr>cur_p := p\<rparr>) x = agree c c' x" "agrees c (c'\<lparr>cur_p := p\<rparr>) xs = agrees c c' xs"
  by (induction x and xs rule: flat_flats.induct) (simp_all split: prod.splits option.splits)

lemma message_2_pars_enc:
  shows "wf_item x \<Longrightarrow> distinct (item_fields x) \<Longrightarrow> ready c0 x \<Longrightarrow>
      cur_par c = pre @ flat x @ post \<Longrightarrow> cur_p c = length pre \<Longrightarrow>
      drop (cur_l c) (cur_m c) = enc c0 x @ r \<Longrightarrow>
      \<exists>c'. message_2_pars c = message_2_pars c' \<and>
        moved c c' (length (enc c0 x)) (length (flat x)) (set (item_fields x)) \<and> agree c0 c' x"
    and "wf_items xs \<Longrightarrow> distinct (items_fields xs) \<Longrightarrow> readys c0 xs \<Longrightarrow>
      cur_par c = pre @ flats xs @ post \<Longrightarrow> cur_p c = length pre \<Longrightarrow>
      drop (cur_l c) (cur_m c) = encs c0 xs @ r \<Longrightarrow>
      \<exists>c'. message_2_pars c = message_2_pars c' \<and>
        moved c c' (length (encs c0 xs)) (length (flats xs)) (set (items_fields xs)) \<and> agrees c0 c' xs"
proof (induction x and xs arbitrary: c pre post r and c pre post r rule: flat_flats.induct)
  case (1 i)
  then obtain t f where i: "cdef ! i = (t, Some f)" and t: "simple_typ t" and "i < length cdef"
    by (cases "cdef ! i") auto
  with TYP_at [of c pre i post] 1 have T: "TYP c = Some t" and O: "OFF c = Some f" by auto
  from get_par_enc [OF t, of c0 f c r] 1 i obtain c' where g: "get_par t f c = Some c'"
    and m: "moved c c' (length (enc_par c0 t f)) 0 {f}" and a: "agree_par c0 c' t f" by auto
  from message_2_pars_step [OF T _ _ O g] t
  have "message_2_pars c = message_2_pars (c'\<lparr>cur_p := cur_p c' + 1\<rparr>)" by (auto simp: simple_typ_def)
  with moved_skip [OF m, of 1] a i show ?case by (intro exI [of _ "c'\<lparr>cur_p := cur_p c' + 1\<rparr>"]) simp
next
  case (2 i xs)
  then obtain f where i: "cdef ! i = (CMSTRUCT, Some f)" and il: "i < length cdef"
    and wf: "wf_items xs" by (cases "cdef ! i") auto
  with TYP_at [of c pre i "flats xs @ 1 # post"] "2.prems"(4,5)
  have T: "TYP c = Some CMSTRUCT" and O: "OFF c = Some f" by auto
  from "2.prems"(2) i have df: "f \<notin> set (items_fields xs)" and dx: "distinct (items_fields xs)" by auto
  show ?case
  proof (cases "mstructs c0 f = CAPI_DEFAULT")
    case True
    let ?c1 = "c\<lparr>mstructs := (mstructs c)(f := CAPI_DEFAULT), cur_l := cur_l c + 1\<rparr>"
    let ?c2 = "?c1\<lparr>cur_p := cur_p ?c1 + length (flats xs) + 1\<rparr>"
    from True i "2.prems"(6) have b: "ld (cur_m c) (cur_l c) = Some 0"
      using ld_drop [of "cur_l c" "cur_m c" 0] by (simp add: ld_def)
    have "jumpcstruct ?c1 = Some ?c2"
      by (rule jumpcstruct_Grp [OF "2.prems"(1)]) (use "2.prems" in auto)
    with T O b have "message_2_pars c = message_2_pars (?c2\<lparr>cur_p := cur_p ?c2 + 1\<rparr>)"
      by (subst message_2_pars.simps) simp
    moreover have "moved c (?c2\<lparr>cur_p := cur_p ?c2 + 1\<rparr>) 1 (length (flats xs) + 2) (insert f (set (items_fields xs)))"
      by (simp add: moved_def same_off_def)
    ultimately show ?thesis using True i
      by (intro exI [of _ "?c2\<lparr>cur_p := cur_p ?c2 + 1\<rparr>"]) simp
  next
    case False
    let ?bs = "encs c0 xs"
    let ?b = "word_of_nat (length ?bs) :: u8"
    from False i "2.prems"(3) have n: "length ?bs < 255" and rdy: "readys c0 xs" by simp_all
    from encs_nonempty [OF "2.prems"(1) rdy] have "0 < length ?bs" by simp
    moreover from n have "unat ?b = length ?bs" by (simp add: unat_word_of_nat_u8)
    ultimately have b0: "?b \<noteq> 0" and b255: "?b \<noteq> 255" using n by auto
    from False i "2.prems"(6) have d: "drop (cur_l c) (cur_m c) = ?b # ?bs @ r" by simp
    then have b: "ld (cur_m c) (cur_l c) = Some ?b"
      using ld_drop [of "cur_l c" "cur_m c" 0] by (simp add: ld_def)
    let ?c1 = "c\<lparr>mstructs := (mstructs c)(f := CAPI_COMPOSE), cur_l := cur_l c + 1, cur_p := cur_p c + 1\<rparr>"
    have "drop (cur_l ?c1) (cur_m ?c1) = ?bs @ r"
      using arg_cong [OF d, of tl] by (simp add: drop_Suc tl_drop)
    with "2.IH" [OF wf dx rdy, of ?c1 "pre @ [i]" "1 # post" r] "2.prems"(4,5)
    obtain c2 where c2: "message_2_pars ?c1 = message_2_pars c2"
      and m2: "moved ?c1 c2 (length ?bs) (length (flats xs)) (set (items_fields xs))"
      and a2: "agrees c0 c2 xs" by auto
    have "message_2_pars c2 = Some c2"
      by (rule message_2_pars_end [of _ "pre @ i # flats xs" post])
        (use m2 "2.prems" in \<open>auto simp: moved_def\<close>)
    with c2 T O b b0 b255
    have "message_2_pars c = message_2_pars (c2\<lparr>cur_p := cur_p c2 + 1\<rparr>)"
      by (subst message_2_pars.simps) simp
    moreover have "moved c (c2\<lparr>cur_p := cur_p c2 + 1\<rparr>) (length ?bs + 1) (length (flats xs) + 2)
        (insert f (set (items_fields xs)))"
      using m2 by (auto simp: moved_def same_off_def)
    moreover have "mstructs c2 f = CAPI_COMPOSE"
      using m2 df by (auto simp: moved_def same_off_def)
    ultimately show ?thesis using False i a2
      by (intro exI [of _ "c2\<lparr>cur_p := cur_p c2 + 1\<rparr>"]) (cases "mstructs c0 f"; simp)
  qed
next
  case (3 c)
  then show ?case by (intro exI [of _ c]) (simp add: moved_def)
next
  case (4 x xs)
  from "4.IH"(1) [of c pre "flats xs @ post" "encs c0 xs @ r"] "4.prems"
  obtain c1 where c1: "message_2_pars c = message_2_pars c1"
    and m1: "moved c c1 (length (enc c0 x)) (length (flat x)) (set (item_fields x))" and a1: "agree c0 c1 x"
    by auto
  have "drop (cur_l c1) (cur_m c1) = drop (length (enc c0 x)) (drop (cur_l c) (cur_m c))"
    using m1 by (simp add: moved_def add.commute)
  with "4.prems"(6) have "drop (cur_l c1) (cur_m c1) = encs c0 xs @ r" by simp
  with "4.IH"(2) [of c1 "pre @ flat x" post r] "4.prems" m1
  obtain c2 where c2: "message_2_pars c1 = message_2_pars c2"
    and m2: "moved c1 c2 (length (encs c0 xs)) (length (flats xs)) (set (items_fields xs))"
    and a2: "agrees c0 c2 xs" by (auto simp: moved_def)
  have "agree c0 c2 x"
    by (rule agree_same(1) [OF a1]) (use m2 "4.prems" in \<open>auto simp: moved_def\<close>)
  with c1 c2 a2 moved_trans [OF m1 m2] show ?case by (intro exI [of _ c2]) simp
qed

theorem capi_message2cmsg_enc:
  assumes "layout cmd sc = Some xs" and "readys c xs"
    and "Command c = cmd" and "Subcommand c = sc"
  shows "\<exists>c'. capi_message2cmsg (header_bytes c len @ encs c xs @ r) = Some c' \<and>
     ApplId c' = ApplId c \<and> Command c' = cmd \<and> Subcommand c' = sc \<and>
     Messagenumber c' = Messagenumber c \<and> agrees c c' xs \<and>
     (8 + length (encs c xs) < 65536 \<longrightarrow> cur_l c' = len mod 65536)"
proof -
  let ?m = "header_bytes c len @ encs c xs @ r" and ?par = "flats xs @ [1, 0]"
  let ?c = "zero_cmsg\<lparr>cur_m := ?m, cur_l := 8, cur_p := 0, Command := cmd, Subcommand := sc, cur_par := ?par\<rparr>"
  from layout_cases [OF assms(1)] have par: "cpars_at (command_2_index cmd sc) = Some ?par"
    and wf: "wf_items xs" and d: "distinct (items_fields xs)" by auto
  have hdr: "ld ?m 4 = Some cmd" "ld ?m 5 = Some sc" "CAPIMSG_U16 ?m 0 = Some (word_of_nat len)"
    "CAPIMSG_U16 ?m 2 = Some (ApplId c)" "CAPIMSG_U16 ?m 6 = Some (Messagenumber c)"
    using assms(3,4) by (simp_all add: header_bytes_def le16_def CAPIMSG_U16_def ld_def)
  from message_2_pars_enc(2) [OF wf d assms(2), of ?c "[]" "[1, 0]" r]
  obtain c1 where c1: "message_2_pars ?c = message_2_pars c1"
    and m1: "moved ?c c1 (length (encs c xs)) (length (flats xs)) (set (items_fields xs))"
    and a1: "agrees c c1 xs" by auto
  have "message_2_pars c1 = Some c1"
    by (rule message_2_pars_end [of _ "flats xs" "[0]"]) (use m1 in \<open>auto simp: moved_def\<close>)
  with c1 have "message_2_pars ?c = Some c1" by simp
  then have r: "capi_message2cmsg ?m =
      Some (c1\<lparr>cur_l := (cur_l c1 div 65536) * 65536 + unat (word_of_nat len :: u16),
               ApplId := ApplId c, Messagenumber := Messagenumber c\<rparr>)" (is "_ = Some ?c2")
    by (simp add: capi_message2cmsg_def Let_def hdr par)
  have "agrees c ?c2 xs"
    by (rule agree_same(2) [OF a1, of "{}"]) (simp_all add: same_off_def)
  moreover have "cur_l ?c2 = len mod 65536" if "8 + length (encs c xs) < 65536"
    using that m1 by (simp add: moved_def unsigned_of_nat take_bit_eq_mod)
  ultimately show ?thesis using r m1 assms(3,4) by (auto simp: moved_def)
qed

section \<open>Running out of buffer\<close>

lemma put_par_overflow:
  assumes "simple_typ t" and "ready_par c t f"
    and "length (cur_m c) < cur_l c + length (enc_par c t f)"
  shows "put_par t f c = None"
  using assms
  by (auto simp: put_par_def enc_par_def struct_bytes_def ready_par_def simple_typ_def sts_def st_def
      split: option.splits)

lemma pars_2_message_overflow:
  shows "wf_item x \<Longrightarrow> ready c x \<Longrightarrow> cur_par c = pre @ flat x @ post \<Longrightarrow> cur_p c = length pre \<Longrightarrow>
      length (cur_m c) < cur_l c + length (enc c x) \<Longrightarrow> pars_2_message c = None"
    and "wf_items xs \<Longrightarrow> readys c xs \<Longrightarrow> cur_par c = pre @ flats xs @ post \<Longrightarrow> cur_p c = length pre \<Longrightarrow>
      xs \<noteq> [] \<or> cur_l c \<le> length (cur_m c) \<Longrightarrow>
      length (cur_m c) < cur_l c + length (encs c xs) \<Longrightarrow> pars_2_message c = None"
proof (induction x and xs arbitrary: c pre post and c pre post rule: flat_flats.induct)
  case (1 i)
  then obtain t f where i: "cdef ! i = (t, Some f)" and t: "simple_typ t" and "i < length cdef"
    by (cases "cdef ! i") auto
  with TYP_at [of c pre i post] 1 have "TYP c = Some t" and "OFF c = Some f" by auto
  moreover have "put_par t f c = None"
    by (rule put_par_overflow) (use 1 i t in auto)
  ultimately show ?case
    using t by (subst pars_2_message.simps) (auto simp: simple_typ_def)
next
  case (2 i xs)
  then obtain f where i: "cdef ! i = (CMSTRUCT, Some f)" and il: "i < length cdef"
    and wf: "wf_items xs" by (cases "cdef ! i") auto
  with TYP_at [of c pre i "flats xs @ 1 # post"] "2.prems"(3,4)
  have T: "TYP c = Some CMSTRUCT" and O: "OFF c = Some f" by auto
  show ?case
  proof (cases "mstructs c f = CAPI_DEFAULT")
    case True
    with i "2.prems"(5) have "length (cur_m c) \<le> cur_l c" by simp
    with True T O show ?thesis by (subst pars_2_message.simps) simp
  next
    case False
    let ?c1 = "c\<lparr>cur_l := cur_l c + 1, cur_p := cur_p c + 1\<rparr>"
    from False i "2.prems"(2) have n: "length (encs c xs) < 255" and rdy: "readys c xs" by simp_all
    have "xs \<noteq> []" using "2.prems"(1) by simp
    then have "pars_2_message ?c1 = None"
      by (intro "2.IH" [OF wf, of _ "pre @ [i]" "1 # post"]) (use "2.prems" rdy False i in simp_all)
    with False T O show ?thesis by (subst pars_2_message.simps) simp
  qed
next
  case (3 c)
  then show ?case by simp
next
  case (4 x xs)
  show ?case
  proof (cases "length (cur_m c) < cur_l c + length (enc c x)")
    case True
    show ?thesis
      by (rule "4.IH"(1) [of _ pre "flats xs @ post"]) (use "4.prems" True in simp_all)
  next
    case False
    let ?c1 = "adv c (enc c x) (length (flat x))"
    have "pars_2_message c = pars_2_message ?c1"
      by (rule pars_2_message_enc(1) [of _ _ pre "flats xs @ post"]) (use "4.prems" False in simp_all)
    also have "\<dots> = None"
      by (rule "4.IH"(2) [of _ "pre @ flat x" post]) (use "4.prems" False in simp_all)
    finally show ?thesis .
  qed
qed

section \<open>The codec as a whole\<close>

text \<open>C1: Assembling a message and taking it apart again gives back the header and every parameter
  of the message: \<open>capi_message2cmsg\<close> inverts \<open>capi_cmsg2message\<close> on every \<open>_cmsg\<close> whose
  command is known and whose data can be assembled, whatever the receiving buffer held.\<close>

theorem cmsg_roundtrip:
  assumes "layout (Command c) (Subcommand c) = Some xs" and "readys c xs"
    and "8 + length (encs c xs) \<le> length msg" and "8 + length (encs c xs) < 65536"
  shows "\<exists>c1 c2. capi_cmsg2message c msg = Some c1 \<and> capi_message2cmsg (cur_m c1) = Some c2 \<and>
     ApplId c2 = ApplId c \<and> Command c2 = Command c \<and> Subcommand c2 = Subcommand c \<and>
     Messagenumber c2 = Messagenumber c \<and> agrees c c2 xs \<and> cur_l c2 = cur_l c1"
  using capi_cmsg2message_enc [OF assms(1-3)] assms(4)
    capi_message2cmsg_enc [OF assms(1,2), where len = "8 + length (encs c xs)"
      and r = "drop (8 + length (encs c xs)) msg"]
  by auto

definition sample_connect_req :: cmsg where
  "sample_connect_req = (capi_cmsg_header 1 CAPI_CONNECT CAPI_REQ 7 1)
     \<lparr>structs := (\<lambda>_. None)(CalledPartyNumber := Some [3, 0x80, 0x31, 0x32, 9]),
      mstructs := (\<lambda>_. CAPI_COMPOSE)(AdditionalInfo := CAPI_DEFAULT)\<rparr>"

lemma sample_connect_req_layout:
  "layout (Command sample_connect_req) (Subcommand sample_connect_req) = Some
     [Fld 3, Fld 20, Fld 14, Fld 16, Fld 15, Fld 17,
      Grp 13 [Fld 6, Fld 8, Fld 10, Fld 5, Fld 7, Fld 9], Fld 11, Fld 40, Fld 34,
      Grp 4 [Fld 12, Fld 39, Fld 47, Fld 28]]"
  by code_simp

theorem cmsg_roundtrip_witness:
  "\<exists>c1 c2. capi_cmsg2message sample_connect_req (replicate 40 0) = Some c1 \<and>
     capi_message2cmsg (cur_m c1) = Some c2 \<and>
     ApplId c2 = ApplId sample_connect_req \<and> Command c2 = Command sample_connect_req \<and>
     Subcommand c2 = Subcommand sample_connect_req \<and>
     Messagenumber c2 = Messagenumber sample_connect_req \<and>
     agrees sample_connect_req c2 (the (layout (Command sample_connect_req) (Subcommand sample_connect_req))) \<and>
     cur_l c2 = cur_l c1"
proof -
  let ?xs = "the (layout (Command sample_connect_req) (Subcommand sample_connect_req))"
  have l: "layout (Command sample_connect_req) (Subcommand sample_connect_req) = Some ?xs"
    by (simp add: sample_connect_req_layout)
  have r: "readys sample_connect_req ?xs" unfolding sample_connect_req_layout by code_simp
  have n: "8 + length (encs sample_connect_req ?xs) = 35"
    unfolding sample_connect_req_layout by code_simp
  show ?thesis using cmsg_roundtrip [OF l r, of "replicate 40 0"] n by simp
qed

text \<open>C9: \<open>capi_cmsg2message\<close> is defined exactly when the receiving buffer holds the header and
  the byte image of the parameters; a shorter buffer is overrun, as the function has no bound.\<close>

theorem capi_cmsg2message_defined:
  assumes "layout (Command c) (Subcommand c) = Some xs" and "readys c xs"
  shows "(\<exists>c'. capi_cmsg2message c msg = Some c') = (8 + length (encs c xs) \<le> length msg)"
proof (cases "8 + length (encs c xs) \<le> length msg")
  case True
  then show ?thesis using capi_cmsg2message_enc [OF assms] by simp
next
  case False
  from layout_cases [OF assms(1)]
  have par: "cpars_at (command_2_index (Command c) (Subcommand c)) = Some (flats xs @ [1, 0])"
    and wf: "wf_items xs" by simp_all
  let ?c = "c\<lparr>cur_m := msg, cur_l := 8, cur_p := 0, cur_par := flats xs @ [1, 0]\<rparr>"
  show ?thesis
  proof (cases "xs = []")
    case True
    have "pars_2_message ?c = Some ?c"
      by (rule pars_2_message_end [of _ "[]" "[0]"]) (simp_all add: True)
    moreover have "8 \<le> length msg" if "capi_cmsg2message c msg = Some c'" for c'
      using that calculation by (auto simp: capi_cmsg2message_def par True buf_simps)
    ultimately show ?thesis using False by (cases "capi_cmsg2message c msg") (auto simp: True)
  next
    case nonempty: False
    have e: "encs ?c xs = encs c xs" and r: "readys ?c xs = readys c xs" by (rule encs_cursor; simp)+
    have "pars_2_message ?c = None"
      by (rule pars_2_message_overflow(2) [OF wf, of _ "[]" "[1, 0]"])
        (use False nonempty assms(2) e r in simp_all)
    with False show ?thesis by (simp add: capi_cmsg2message_def par)
  qed
qed

theorem capi_cmsg2message_defined_witness:
  "(\<exists>c'. capi_cmsg2message sample_connect_req (replicate 30 0) = Some c') = False"
proof -
  let ?xs = "the (layout (Command sample_connect_req) (Subcommand sample_connect_req))"
  have l: "layout (Command sample_connect_req) (Subcommand sample_connect_req) = Some ?xs"
    by (simp add: sample_connect_req_layout)
  have r: "readys sample_connect_req ?xs" unfolding sample_connect_req_layout by code_simp
  have n: "length (encs sample_connect_req ?xs) = 27"
    unfolding sample_connect_req_layout by code_simp
  show ?thesis using capi_cmsg2message_defined [OF l r, of "replicate 30 0"] n by simp
qed

lemma U16_after_byte: "CAPIMSG_U16 (b # le16 w @ r) (Suc 0) = Some w"
  using CAPIMSG_U16_drop [of 1 "b # le16 w @ r" 0] by simp

text \<open>C40: A composed structure of 255 bytes or more is written with the long length form, but
  the write position is not moved past the two extra bytes: the structure in the buffer ends
  two bytes after the position at which the next parameter will be written.\<close>

theorem close_struct_long:
  assumes "255 \<le> cur_l c - l0 - 1" and "cur_l c - l0 - 1 < 65536" and "cur_l c + 2 \<le> length (cur_m c)"
  shows "\<exists>c'. close_struct l0 c = Some c' \<and> cur_l c' = cur_l c \<and>
     struct_len (drop l0 (cur_m c')) = Some (cur_l c + 2 - l0)"
proof -
  let ?ls = "cur_l c - l0 - 1" and ?m = "cur_m c"
  let ?bs = "take ?ls (drop (l0 + 1) ?m)"
  let ?m1 = "overlay ?m (l0 + 3) ?bs"
  have b: "length ?bs = ?ls" and fit: "l0 + 3 + ?ls \<le> length ?m" using assms by auto
  then have len: "length ?m1 = length ?m" by simp
  let ?m3 = "overlay (?m1[l0 := 0xff]) (l0 + 1) (le16 (word_of_nat ?ls))"
  have "close_struct l0 c = Some (c\<lparr>cur_m := ?m3\<rparr>)"
    using assms fit b len
    by (simp add: close_struct_def Let_def sts_overlay del: sts_in)
  moreover have "struct_len (drop l0 ?m3) = Some (cur_l c + 2 - l0)"
  proof -
    have "?m3 = overlay ?m1 l0 (0xff # le16 (word_of_nat ?ls))"
      using fit len by (simp add: overlay_def take_Suc_conv_app_nth list_update_append drop_update_cancel)
    then have "drop l0 ?m3 = 0xff # le16 (word_of_nat ?ls) @ drop (l0 + 3) ?m1"
      using fit len by (simp add: drop_overlay)
    then show ?thesis
      using assms by (simp add: struct_len_def U16_after_byte unat_word_of_nat_u16 del: of_nat_diff)
  qed
  ultimately show ?thesis by auto
qed

theorem close_struct_long_witness:
  "\<exists>c'. close_struct 8 (zero_cmsg\<lparr>cur_l := 264, cur_m := replicate 300 0\<rparr>) = Some c' \<and> cur_l c' = 264 \<and>
     struct_len (drop 8 (cur_m c')) = Some 258"
  using close_struct_long [of "zero_cmsg\<lparr>cur_l := 264, cur_m := replicate 300 0\<rparr>" 8] by simp

definition message_names :: "(u8 \<times> u8 \<times> string) list" where
  "message_names = [
    (CAPI_ALERT, CAPI_REQ, ''ALERT_REQ''),
    (CAPI_CONNECT, CAPI_REQ, ''CONNECT_REQ''),
    (CAPI_DISCONNECT, CAPI_REQ, ''DISCONNECT_REQ''),
    (CAPI_LISTEN, CAPI_REQ, ''LISTEN_REQ''),
    (CAPI_INFO, CAPI_REQ, ''INFO_REQ''),
    (CAPI_FACILITY, CAPI_REQ, ''FACILITY_REQ''),
    (CAPI_SELECT_B_PROTOCOL, CAPI_REQ, ''SELECT_B_PROTOCOL_REQ''),
    (CAPI_CONNECT_B3, CAPI_REQ, ''CONNECT_B3_REQ''),
    (CAPI_DISCONNECT_B3, CAPI_REQ, ''DISCONNECT_B3_REQ''),
    (CAPI_DATA_B3, CAPI_REQ, ''DATA_B3_REQ''),
    (CAPI_RESET_B3, CAPI_REQ, ''RESET_B3_REQ''),
    (CAPI_ALERT, CAPI_CONF, ''ALERT_CONF''),
    (CAPI_CONNECT, CAPI_CONF, ''CONNECT_CONF''),
    (CAPI_DISCONNECT, CAPI_CONF, ''DISCONNECT_CONF''),
    (CAPI_LISTEN, CAPI_CONF, ''LISTEN_CONF''),
    (CAPI_MANUFACTURER, CAPI_REQ, ''MANUFACTURER_REQ''),
    (CAPI_INFO, CAPI_CONF, ''INFO_CONF''),
    (CAPI_FACILITY, CAPI_CONF, ''FACILITY_CONF''),
    (CAPI_SELECT_B_PROTOCOL, CAPI_CONF, ''SELECT_B_PROTOCOL_CONF''),
    (CAPI_CONNECT_B3, CAPI_CONF, ''CONNECT_B3_CONF''),
    (CAPI_DISCONNECT_B3, CAPI_CONF, ''DISCONNECT_B3_CONF''),
    (CAPI_DATA_B3, CAPI_CONF, ''DATA_B3_CONF''),
    (CAPI_RESET_B3, CAPI_CONF, ''RESET_B3_CONF''),
    (CAPI_CONNECT, CAPI_IND, ''CONNECT_IND''),
    (CAPI_CONNECT_ACTIVE, CAPI_IND, ''CONNECT_ACTIVE_IND''),
    (CAPI_DISCONNECT, CAPI_IND, ''DISCONNECT_IND''),
    (CAPI_MANUFACTURER, CAPI_CONF, ''MANUFACTURER_CONF''),
    (CAPI_INFO, CAPI_IND, ''INFO_IND''),
    (CAPI_FACILITY, CAPI_IND, ''FACILITY_IND''),
    (CAPI_CONNECT_B3, CAPI_IND, ''CONNECT_B3_IND''),
    (CAPI_CONNECT_B3_ACTIVE, CAPI_IND, ''CONNECT_B3_ACTIVE_IND''),
    (CAPI_DISCONNECT_B3, CAPI_IND, ''DISCONNECT_B3_IND''),
    (CAPI_DATA_B3, CAPI_IND, ''DATA_B3_IND''),
    (CAPI_RESET_B3, CAPI_IND, ''RESET_B3_IND''),
    (CAPI_CONNECT_B3_T90_ACTIVE, CAPI_IND, ''CONNECT_B3_T90_ACTIVE_IND''),
    (CAPI_CONNECT, CAPI_RESP, ''CONNECT_RESP''),
    (CAPI_CONNECT_ACTIVE, CAPI_RESP, ''CONNECT_ACTIVE_RESP''),
    (CAPI_DISCONNECT, CAPI_RESP, ''DISCONNECT_RESP''),
    (CAPI_MANUFACTURER, CAPI_IND, ''MANUFACTURER_IND''),
    (CAPI_INFO, CAPI_RESP, ''INFO_RESP''),
    (CAPI_FACILITY, CAPI_RESP, ''FACILITY_RESP''),
    (CAPI_CONNECT_B3, CAPI_RESP, ''CONNECT_B3_RESP''),
    (CAPI_CONNECT_B3_ACTIVE, CAPI_RESP, ''CONNECT_B3_ACTIVE_RESP''),
    (CAPI_DISCONNECT_B3, CAPI_RESP, ''DISCONNECT_B3_RESP''),
    (CAPI_DATA_B3, CAPI_RESP, ''DATA_B3_RESP''),
    (CAPI_RESET_B3, CAPI_RESP, ''RESET_B3_RESP''),
    (CAPI_CONNECT_B3_T90_ACTIVE, CAPI_RESP, ''CONNECT_B3_T90_ACTIVE_RESP''),
    (CAPI_MANUFACTURER, CAPI_RESP, ''MANUFACTURER_RESP'')  ]"

text \<open>The message tables are consistent.  The 48 messages of CAPI 2.0 have pairwise different table indices, each is
  printed with its own name, and each has a readable parameter string.\<close>

theorem message_tables:
  "distinct (map (\<lambda>(cmd, sc, _). command_2_index cmd sc) message_names) \<and>
   list_all (\<lambda>(cmd, sc, n). capi_cmd2str cmd sc = Some n \<and> layout cmd sc \<noteq> None) message_names"
  by code_simp

text \<open>A message whose command has no table entry is not decoded: \<open>capi_message2cmsg\<close> follows a pointer
  that the table does not hold, without a check of the command.\<close>

theorem capi_message2cmsg_unknown:
  assumes "capi_cmd2str cmd sc = None" and "8 \<le> length m" and "m ! 4 = cmd" and "m ! 5 = sc"
  shows "capi_message2cmsg m = None"
proof -
  have "map fst cpars = map fst mnames" by code_simp
  then have "dom (map_of cpars) = dom (map_of mnames)" by (metis dom_map_of_conv_image_fst list.set_map)
  with assms(1) have "cpars_at (command_2_index cmd sc) = None"
    by (auto simp: capi_cmd2str_def cpars_at_def domIff)
  with assms show ?thesis by (simp add: capi_message2cmsg_def)
qed

theorem capi_message2cmsg_unknown_witness:
  "capi_message2cmsg [8, 0, 1, 0, CAPI_CONNECT_ACTIVE, CAPI_CONF, 0, 0] = None"
proof -
  have "capi_cmd2str CAPI_CONNECT_ACTIVE CAPI_CONF = None" by code_simp
  from capi_message2cmsg_unknown [OF this] show ?thesis by simp
qed

end
