(* ===== verification/CapiFill.thy ===== *)
theory CapiFill
  imports CapiCodec
begin

text \<open>
  The constructor functions \<open>capi_fill_*\<close> of \<^verbatim>\<open>include/linux/isdn/capiutil.h\<close>: each resets
  a \<open>_cmsg\<close> with \<open>capi_cmsg_header\<close> and assigns the members of one request or response.  The lemmas show
  the byte image that assembling the filled structure gives: that every parameter of the
  message is one of the arguments, and in which order the arguments are sent.
\<close>

definition set_word :: "cfield \<Rightarrow> u16 \<Rightarrow> cmsg \<Rightarrow> cmsg" where
  "set_word f v c = c\<lparr>words := (words c)(f := v)\<rparr>"

definition set_dword :: "cfield \<Rightarrow> u32 \<Rightarrow> cmsg \<Rightarrow> cmsg" where
  "set_dword f v c = c\<lparr>dwords := (dwords c)(f := v)\<rparr>"

definition set_struct :: "cfield \<Rightarrow> bytes option \<Rightarrow> cmsg \<Rightarrow> cmsg" where
  "set_struct f v c = c\<lparr>structs := (structs c)(f := v)\<rparr>"

definition fill_members :: "(cmsg \<Rightarrow> cmsg) list \<Rightarrow> cmsg \<Rightarrow> cmsg" where
  "fill_members fs c = fold (\<lambda>f c. f c) fs c"

section \<open>Requests and responses\<close>

definition capi_fill_CONNECT_B3_REQ ::
  "u16 \<Rightarrow> u16 \<Rightarrow> u32 \<Rightarrow> bytes option \<Rightarrow> cmsg" where
  "capi_fill_CONNECT_B3_REQ applid messagenumber adr ncpi =
     fill_members [
       set_struct NCPI ncpi]
     (capi_cmsg_header applid 0x82 0x80 messagenumber adr)"

definition capi_fill_FACILITY_REQ ::
    "u16 \<Rightarrow> u16 \<Rightarrow> u32 \<Rightarrow> u16 \<Rightarrow> bytes option
     \<Rightarrow> cmsg" where
  "capi_fill_FACILITY_REQ applid messagenumber adr facilityselector facilityrequestparameter =
     fill_members [
       set_word FacilitySelector facilityselector,
       set_struct FacilityRequestParameter facilityrequestparameter]
     (capi_cmsg_header applid 0x80 0x80 messagenumber adr)"

definition capi_fill_INFO_REQ ::
    "u16 \<Rightarrow> u16 \<Rightarrow> u32 \<Rightarrow> bytes option \<Rightarrow> bytes option
     \<Rightarrow> bytes option \<Rightarrow> bytes option \<Rightarrow> bytes option
     \<Rightarrow> cmsg" where
    "capi_fill_INFO_REQ applid messagenumber adr calledpartynumber bchannelinformation
     keypadfacility useruserdata facilitydataarray =
     fill_members [
       set_struct CalledPartyNumber calledpartynumber,
       set_struct BChannelinformation bchannelinformation,
       set_struct Keypadfacility keypadfacility,
       set_struct Useruserdata useruserdata,
       set_struct Facilitydataarray facilitydataarray]
     (capi_cmsg_header applid 0x08 0x80 messagenumber adr)"

definition capi_fill_LISTEN_REQ ::
    "u16 \<Rightarrow> u16 \<Rightarrow> u32 \<Rightarrow> u32 \<Rightarrow> u32 \<Rightarrow> u32
     \<Rightarrow> bytes option \<Rightarrow> bytes option \<Rightarrow> cmsg" where
    "capi_fill_LISTEN_REQ applid messagenumber adr infomask cipmask cipmask2 callingpartynumber
     callingpartysubaddress =
     fill_members [
       set_dword InfoMask infomask,
       set_dword CIPmask cipmask,
       set_dword CIPmask2 cipmask2,
       set_struct CallingPartyNumber callingpartynumber,
       set_struct CallingPartySubaddress callingpartysubaddress]
     (capi_cmsg_header applid 0x05 0x80 messagenumber adr)"

definition capi_fill_ALERT_REQ ::
    "u16 \<Rightarrow> u16 \<Rightarrow> u32 \<Rightarrow> bytes option \<Rightarrow> bytes option
     \<Rightarrow> bytes option \<Rightarrow> bytes option \<Rightarrow> cmsg" where
    "capi_fill_ALERT_REQ applid messagenumber adr bchannelinformation keypadfacility useruserdata
     facilitydataarray =
     fill_members [
       set_struct BChannelinformation bchannelinformation,
       set_struct Keypadfacility keypadfacility,
       set_struct Useruserdata useruserdata,
       set_struct Facilitydataarray facilitydataarray]
     (capi_cmsg_header applid 0x01 0x80 messagenumber adr)"

definition capi_fill_CONNECT_REQ ::
    "u16 \<Rightarrow> u16 \<Rightarrow> u32 \<Rightarrow> u16 \<Rightarrow> bytes option
     \<Rightarrow> bytes option \<Rightarrow> bytes option \<Rightarrow> bytes option
     \<Rightarrow> u16 \<Rightarrow> u16 \<Rightarrow> u16 \<Rightarrow> bytes option
     \<Rightarrow> bytes option \<Rightarrow> bytes option \<Rightarrow> bytes option
     \<Rightarrow> bytes option \<Rightarrow> bytes option \<Rightarrow> bytes option
     \<Rightarrow> bytes option \<Rightarrow> bytes option \<Rightarrow> bytes option
     \<Rightarrow> cmsg" where
    "capi_fill_CONNECT_REQ applid messagenumber adr cipvalue calledpartynumber callingpartynumber
     calledpartysubaddress callingpartysubaddress b1protocol b2protocol b3protocol b1configuration
     b2configuration b3configuration bc llc hlc bchannelinformation keypadfacility useruserdata
     facilitydataarray =
     fill_members [
       set_word CIPValue cipvalue,
       set_struct CalledPartyNumber calledpartynumber,
       set_struct CallingPartyNumber callingpartynumber,
       set_struct CalledPartySubaddress calledpartysubaddress,
       set_struct CallingPartySubaddress callingpartysubaddress,
       set_word B1protocol b1protocol,
       set_word B2protocol b2protocol,
       set_word B3protocol b3protocol,
       set_struct B1configuration b1configuration,
       set_struct B2configuration b2configuration,
       set_struct B3configuration b3configuration,
       set_struct BC bc,
       set_struct LLC llc,
       set_struct HLC hlc,
       set_struct BChannelinformation bchannelinformation,
       set_struct Keypadfacility keypadfacility,
       set_struct Useruserdata useruserdata,
       set_struct Facilitydataarray facilitydataarray]
     (capi_cmsg_header applid 0x02 0x80 messagenumber adr)"

definition capi_fill_DATA_B3_REQ ::
    "u16 \<Rightarrow> u16 \<Rightarrow> u32 \<Rightarrow> u32 \<Rightarrow> u16 \<Rightarrow> u16
     \<Rightarrow> u16 \<Rightarrow> cmsg" where
  "capi_fill_DATA_B3_REQ applid messagenumber adr data datalength datahandle flags =
     fill_members [
       set_dword Data data,
       set_word DataLength datalength,
       set_word DataHandle datahandle,
       set_word Flags flags]
     (capi_cmsg_header applid 0x86 0x80 messagenumber adr)"

definition capi_fill_DISCONNECT_REQ ::
    "u16 \<Rightarrow> u16 \<Rightarrow> u32 \<Rightarrow> bytes option \<Rightarrow> bytes option
     \<Rightarrow> bytes option \<Rightarrow> bytes option \<Rightarrow> cmsg" where
    "capi_fill_DISCONNECT_REQ applid messagenumber adr bchannelinformation keypadfacility
     useruserdata facilitydataarray =
     fill_members [
       set_struct BChannelinformation bchannelinformation,
       set_struct Keypadfacility keypadfacility,
       set_struct Useruserdata useruserdata,
       set_struct Facilitydataarray facilitydataarray]
     (capi_cmsg_header applid 0x04 0x80 messagenumber adr)"

definition capi_fill_DISCONNECT_B3_REQ ::
  "u16 \<Rightarrow> u16 \<Rightarrow> u32 \<Rightarrow> bytes option \<Rightarrow> cmsg" where
  "capi_fill_DISCONNECT_B3_REQ applid messagenumber adr ncpi =
     fill_members [
       set_struct NCPI ncpi]
     (capi_cmsg_header applid 0x84 0x80 messagenumber adr)"

definition capi_fill_MANUFACTURER_REQ ::
    "u16 \<Rightarrow> u16 \<Rightarrow> u32 \<Rightarrow> u32 \<Rightarrow> u32 \<Rightarrow> u32
     \<Rightarrow> bytes option \<Rightarrow> cmsg" where
  "capi_fill_MANUFACTURER_REQ applid messagenumber adr manuid cls function manudata =
     fill_members [
       set_dword ManuID manuid,
       set_dword Class cls,
       set_dword Function function,
       set_struct ManuData manudata]
     (capi_cmsg_header applid 0xff 0x80 messagenumber adr)"

definition capi_fill_RESET_B3_REQ ::
  "u16 \<Rightarrow> u16 \<Rightarrow> u32 \<Rightarrow> bytes option \<Rightarrow> cmsg" where
  "capi_fill_RESET_B3_REQ applid messagenumber adr ncpi =
     fill_members [
       set_struct NCPI ncpi]
     (capi_cmsg_header applid 0x87 0x80 messagenumber adr)"

definition capi_fill_SELECT_B_PROTOCOL_REQ ::
    "u16 \<Rightarrow> u16 \<Rightarrow> u32 \<Rightarrow> u16 \<Rightarrow> u16 \<Rightarrow> u16
     \<Rightarrow> bytes option \<Rightarrow> bytes option \<Rightarrow> bytes option
     \<Rightarrow> cmsg" where
    "capi_fill_SELECT_B_PROTOCOL_REQ applid messagenumber adr b1protocol b2protocol b3protocol
     b1configuration b2configuration b3configuration =
     fill_members [
       set_word B1protocol b1protocol,
       set_word B2protocol b2protocol,
       set_word B3protocol b3protocol,
       set_struct B1configuration b1configuration,
       set_struct B2configuration b2configuration,
       set_struct B3configuration b3configuration]
     (capi_cmsg_header applid 0x41 0x80 messagenumber adr)"

definition capi_fill_CONNECT_RESP ::
    "u16 \<Rightarrow> u16 \<Rightarrow> u32 \<Rightarrow> u16 \<Rightarrow> u16 \<Rightarrow> u16
     \<Rightarrow> u16 \<Rightarrow> bytes option \<Rightarrow> bytes option \<Rightarrow> bytes
     option \<Rightarrow> bytes option \<Rightarrow> bytes option \<Rightarrow> bytes option
     \<Rightarrow> bytes option \<Rightarrow> bytes option \<Rightarrow> bytes option
     \<Rightarrow> bytes option \<Rightarrow> cmsg" where
    "capi_fill_CONNECT_RESP applid messagenumber adr reject b1protocol b2protocol b3protocol
     b1configuration b2configuration b3configuration connectednumber connectedsubaddress llc
     bchannelinformation keypadfacility useruserdata facilitydataarray =
     fill_members [
       set_word Reject reject,
       set_word B1protocol b1protocol,
       set_word B2protocol b2protocol,
       set_word B3protocol b3protocol,
       set_struct B1configuration b1configuration,
       set_struct B2configuration b2configuration,
       set_struct B3configuration b3configuration,
       set_struct ConnectedNumber connectednumber,
       set_struct ConnectedSubaddress connectedsubaddress,
       set_struct LLC llc,
       set_struct BChannelinformation bchannelinformation,
       set_struct Keypadfacility keypadfacility,
       set_struct Useruserdata useruserdata,
       set_struct Facilitydataarray facilitydataarray]
     (capi_cmsg_header applid 0x02 0x83 messagenumber adr)"

definition capi_fill_CONNECT_ACTIVE_RESP ::
  "u16 \<Rightarrow> u16 \<Rightarrow> u32 \<Rightarrow> cmsg" where
  "capi_fill_CONNECT_ACTIVE_RESP applid messagenumber adr =
     capi_cmsg_header applid 0x03 0x83 messagenumber adr"

definition capi_fill_CONNECT_B3_ACTIVE_RESP ::
  "u16 \<Rightarrow> u16 \<Rightarrow> u32 \<Rightarrow> cmsg" where
  "capi_fill_CONNECT_B3_ACTIVE_RESP applid messagenumber adr =
     capi_cmsg_header applid 0x83 0x83 messagenumber adr"

definition capi_fill_CONNECT_B3_RESP ::
    "u16 \<Rightarrow> u16 \<Rightarrow> u32 \<Rightarrow> u16 \<Rightarrow> bytes option
     \<Rightarrow> cmsg" where
  "capi_fill_CONNECT_B3_RESP applid messagenumber adr reject ncpi =
     fill_members [
       set_word Reject reject,
       set_struct NCPI ncpi]
     (capi_cmsg_header applid 0x82 0x83 messagenumber adr)"

definition capi_fill_CONNECT_B3_T90_ACTIVE_RESP ::
  "u16 \<Rightarrow> u16 \<Rightarrow> u32 \<Rightarrow> cmsg" where
  "capi_fill_CONNECT_B3_T90_ACTIVE_RESP applid messagenumber adr =
     capi_cmsg_header applid 0x88 0x83 messagenumber adr"

definition capi_fill_DATA_B3_RESP ::
  "u16 \<Rightarrow> u16 \<Rightarrow> u32 \<Rightarrow> u16 \<Rightarrow> cmsg" where
  "capi_fill_DATA_B3_RESP applid messagenumber adr datahandle =
     fill_members [
       set_word DataHandle datahandle]
     (capi_cmsg_header applid 0x86 0x83 messagenumber adr)"

definition capi_fill_DISCONNECT_B3_RESP ::
  "u16 \<Rightarrow> u16 \<Rightarrow> u32 \<Rightarrow> cmsg" where
  "capi_fill_DISCONNECT_B3_RESP applid messagenumber adr =
     capi_cmsg_header applid 0x84 0x83 messagenumber adr"

definition capi_fill_DISCONNECT_RESP ::
  "u16 \<Rightarrow> u16 \<Rightarrow> u32 \<Rightarrow> cmsg" where
  "capi_fill_DISCONNECT_RESP applid messagenumber adr =
     capi_cmsg_header applid 0x04 0x83 messagenumber adr"

definition capi_fill_FACILITY_RESP ::
  "u16 \<Rightarrow> u16 \<Rightarrow> u32 \<Rightarrow> u16 \<Rightarrow> cmsg" where
  "capi_fill_FACILITY_RESP applid messagenumber adr facilityselector =
     fill_members [
       set_word FacilitySelector facilityselector]
     (capi_cmsg_header applid 0x80 0x83 messagenumber adr)"

definition capi_fill_INFO_RESP ::
  "u16 \<Rightarrow> u16 \<Rightarrow> u32 \<Rightarrow> cmsg" where
  "capi_fill_INFO_RESP applid messagenumber adr =
     capi_cmsg_header applid 0x08 0x83 messagenumber adr"

definition capi_fill_MANUFACTURER_RESP ::
    "u16 \<Rightarrow> u16 \<Rightarrow> u32 \<Rightarrow> u32 \<Rightarrow> u32 \<Rightarrow> u32
     \<Rightarrow> bytes option \<Rightarrow> cmsg" where
  "capi_fill_MANUFACTURER_RESP applid messagenumber adr manuid cls function manudata =
     fill_members [
       set_dword ManuID manuid,
       set_dword Class cls,
       set_dword Function function,
       set_struct ManuData manudata]
     (capi_cmsg_header applid 0xff 0x83 messagenumber adr)"

definition capi_fill_RESET_B3_RESP ::
  "u16 \<Rightarrow> u16 \<Rightarrow> u32 \<Rightarrow> cmsg" where
  "capi_fill_RESET_B3_RESP applid messagenumber adr =
     capi_cmsg_header applid 0x87 0x83 messagenumber adr"

section \<open>The byte images\<close>

text \<open>
  The bytes of a \<open>_cstruct\<close> argument and of a composed structure, and what a \<open>_cmsg\<close> says:
  its message, application, number and parameter bytes.
\<close>

definition cstruct :: "bytes option \<Rightarrow> bytes" where
  "cstruct v =
     (case v of
        None \<Rightarrow> [0]
      | Some s \<Rightarrow> (case struct_len s of None \<Rightarrow> [] | Some n \<Rightarrow> take n s))"

definition composed :: "bytes \<Rightarrow> bytes" where
  "composed bs = word_of_nat (length bs) # bs"

definition fill_image :: "cmsg \<Rightarrow> (u16 \<times> u16 \<times> u16 \<times> bytes) option" where
  "fill_image c =
     map_option (\<lambda>xs. (CAPICMD (Command c) (Subcommand c), ApplId c, Messagenumber c, encs c xs))
       (layout (Command c) (Subcommand c))"

lemma struct_bytes_cstruct: "struct_bytes c f = cstruct (structs c f)"
  by (simp add: struct_bytes_def cstruct_def)

lemmas fill_simps =
  set_word_def set_dword_def set_struct_def fill_members_def fill_image_def capi_cmsg_header_def zero_cmsg_def
  enc_par_def struct_bytes_cstruct composed_def cdef_def

lemma fill_layouts:
  "layout CAPI_CONNECT_B3 CAPI_REQ = Some [Fld 3, Fld 43]"
  "layout CAPI_FACILITY CAPI_REQ = Some [Fld 3, Fld 31, Fld 30]"
  "layout CAPI_INFO CAPI_REQ = Some [Fld 3, Fld 14, Grp 4 [Fld 12, Fld 39, Fld 47, Fld 28]]"
  "layout CAPI_LISTEN CAPI_REQ = Some [Fld 3, Fld 37, Fld 18, Fld 19, Fld 16, Fld 17]"
  "layout CAPI_ALERT CAPI_REQ = Some [Fld 3, Grp 4 [Fld 12, Fld 39, Fld 47, Fld 28]]"
  "layout CAPI_CONNECT CAPI_REQ = Some [Fld 3, Fld 20, Fld 14, Fld 16, Fld 15, Fld 17, Grp 13 [Fld 6, Fld 8, Fld 10, Fld 5, Fld 7, Fld 9], Fld 11, Fld 40, Fld 34, Grp 4 [Fld 12, Fld 39, Fld 47, Fld 28]]"
  "layout CAPI_DATA_B3 CAPI_REQ = Some [Fld 3, Fld 24, Fld 26, Fld 25, Fld 32]"
  "layout CAPI_DISCONNECT CAPI_REQ = Some [Fld 3, Grp 4 [Fld 12, Fld 39, Fld 47, Fld 28]]"
  "layout CAPI_DISCONNECT_B3 CAPI_REQ = Some [Fld 3, Fld 43]"
  "layout CAPI_MANUFACTURER CAPI_REQ = Some [Fld 3, Fld 42, Fld 21, Fld 33, Fld 41]"
  "layout CAPI_RESET_B3 CAPI_REQ = Some [Fld 3, Fld 43]"
  "layout CAPI_SELECT_B_PROTOCOL CAPI_REQ = Some [Fld 3, Grp 13 [Fld 6, Fld 8, Fld 10, Fld 5, Fld 7, Fld 9]]"
  "layout CAPI_CONNECT CAPI_RESP = Some [Fld 3, Fld 46, Grp 13 [Fld 6, Fld 8, Fld 10, Fld 5, Fld 7, Fld 9], Fld 22, Fld 23, Fld 40, Grp 4 [Fld 12, Fld 39, Fld 47, Fld 28]]"
  "layout CAPI_CONNECT_ACTIVE CAPI_RESP = Some [Fld 3]"
  "layout CAPI_CONNECT_B3_ACTIVE CAPI_RESP = Some [Fld 3]"
  "layout CAPI_CONNECT_B3 CAPI_RESP = Some [Fld 3, Fld 46, Fld 43]"
  "layout CAPI_CONNECT_B3_T90_ACTIVE CAPI_RESP = Some [Fld 3]"
  "layout CAPI_DATA_B3 CAPI_RESP = Some [Fld 3, Fld 25]"
  "layout CAPI_DISCONNECT_B3 CAPI_RESP = Some [Fld 3]"
  "layout CAPI_DISCONNECT CAPI_RESP = Some [Fld 3]"
  "layout CAPI_FACILITY CAPI_RESP = Some [Fld 3, Fld 31]"
  "layout CAPI_INFO CAPI_RESP = Some [Fld 3]"
  "layout CAPI_MANUFACTURER CAPI_RESP = Some [Fld 3, Fld 42, Fld 21, Fld 33, Fld 41]"
  "layout CAPI_RESET_B3 CAPI_RESP = Some [Fld 3]"
  by code_simp+

lemma capi_fill_CONNECT_B3_REQ_image:
  "fill_image (capi_fill_CONNECT_B3_REQ applid messagenumber adr ncpi) =
     Some (CAPI_CONNECT_B3_REQ, applid, messagenumber,
       le32 adr @ cstruct ncpi)"
  by (simp add: capi_fill_CONNECT_B3_REQ_def fill_layouts fill_simps)

lemma capi_fill_FACILITY_REQ_image:
  "fill_image (capi_fill_FACILITY_REQ applid messagenumber adr facilityselector
       facilityrequestparameter) =
     Some (CAPI_FACILITY_REQ, applid, messagenumber,
       le32 adr @ le16 facilityselector @ cstruct facilityrequestparameter)"
  by (simp add: capi_fill_FACILITY_REQ_def fill_layouts fill_simps)

lemma capi_fill_INFO_REQ_image:
  "fill_image (capi_fill_INFO_REQ applid messagenumber adr calledpartynumber bchannelinformation
       keypadfacility useruserdata facilitydataarray) =
     Some (CAPI_INFO_REQ, applid, messagenumber,
              le32 adr @ cstruct calledpartynumber @ composed (cstruct bchannelinformation @
       cstruct keypadfacility @ cstruct useruserdata @ cstruct facilitydataarray))"
  by (simp add: capi_fill_INFO_REQ_def fill_layouts fill_simps)

lemma capi_fill_LISTEN_REQ_image:
  "fill_image (capi_fill_LISTEN_REQ applid messagenumber adr infomask cipmask cipmask2
       callingpartynumber callingpartysubaddress) =
     Some (CAPI_LISTEN_REQ, applid, messagenumber,
              le32 adr @ le32 infomask @ le32 cipmask @ le32 cipmask2 @ cstruct callingpartynumber
       @ cstruct callingpartysubaddress)"
  by (simp add: capi_fill_LISTEN_REQ_def fill_layouts fill_simps)

lemma capi_fill_ALERT_REQ_image:
  "fill_image (capi_fill_ALERT_REQ applid messagenumber adr bchannelinformation keypadfacility
       useruserdata facilitydataarray) =
     Some (CAPI_ALERT_REQ, applid, messagenumber,
              le32 adr @ composed (cstruct bchannelinformation @ cstruct keypadfacility @ cstruct
       useruserdata @ cstruct facilitydataarray))"
  by (simp add: capi_fill_ALERT_REQ_def fill_layouts fill_simps)

lemma capi_fill_CONNECT_REQ_image:
  "fill_image (capi_fill_CONNECT_REQ applid messagenumber adr cipvalue calledpartynumber
       callingpartynumber calledpartysubaddress callingpartysubaddress b1protocol b2protocol
       b3protocol b1configuration b2configuration b3configuration bc llc hlc bchannelinformation
       keypadfacility useruserdata facilitydataarray) =
     Some (CAPI_CONNECT_REQ, applid, messagenumber,
              le32 adr @ le16 cipvalue @ cstruct calledpartynumber @ cstruct callingpartynumber @
       cstruct calledpartysubaddress @ cstruct callingpartysubaddress @ composed (le16 b1protocol
       @ le16 b2protocol @ le16 b3protocol @ cstruct b1configuration @ cstruct b2configuration @
       cstruct b3configuration) @ cstruct bc @ cstruct llc @ cstruct hlc @ composed (cstruct
       bchannelinformation @ cstruct keypadfacility @ cstruct useruserdata @ cstruct
       facilitydataarray))"
  by (simp add: capi_fill_CONNECT_REQ_def fill_layouts fill_simps)

lemma capi_fill_DATA_B3_REQ_image:
  "fill_image (capi_fill_DATA_B3_REQ applid messagenumber adr data datalength datahandle flags) =
     Some (CAPI_DATA_B3_REQ, applid, messagenumber,
       le32 adr @ le32 data @ le16 datalength @ le16 datahandle @ le16 flags)"
  by (simp add: capi_fill_DATA_B3_REQ_def fill_layouts fill_simps)

lemma capi_fill_DISCONNECT_REQ_image:
  "fill_image (capi_fill_DISCONNECT_REQ applid messagenumber adr bchannelinformation keypadfacility
       useruserdata facilitydataarray) =
     Some (CAPI_DISCONNECT_REQ, applid, messagenumber,
              le32 adr @ composed (cstruct bchannelinformation @ cstruct keypadfacility @ cstruct
       useruserdata @ cstruct facilitydataarray))"
  by (simp add: capi_fill_DISCONNECT_REQ_def fill_layouts fill_simps)

lemma capi_fill_DISCONNECT_B3_REQ_image:
  "fill_image (capi_fill_DISCONNECT_B3_REQ applid messagenumber adr ncpi) =
     Some (CAPI_DISCONNECT_B3_REQ, applid, messagenumber,
       le32 adr @ cstruct ncpi)"
  by (simp add: capi_fill_DISCONNECT_B3_REQ_def fill_layouts fill_simps)

lemma capi_fill_MANUFACTURER_REQ_image:
  "fill_image (capi_fill_MANUFACTURER_REQ applid messagenumber adr manuid cls function manudata) =
     Some (CAPI_MANUFACTURER_REQ, applid, messagenumber,
       le32 adr @ le32 manuid @ le32 cls @ le32 function @ cstruct manudata)"
  by (simp add: capi_fill_MANUFACTURER_REQ_def fill_layouts fill_simps)

lemma capi_fill_RESET_B3_REQ_image:
  "fill_image (capi_fill_RESET_B3_REQ applid messagenumber adr ncpi) =
     Some (CAPI_RESET_B3_REQ, applid, messagenumber,
       le32 adr @ cstruct ncpi)"
  by (simp add: capi_fill_RESET_B3_REQ_def fill_layouts fill_simps)

lemma capi_fill_SELECT_B_PROTOCOL_REQ_image:
  "fill_image (capi_fill_SELECT_B_PROTOCOL_REQ applid messagenumber adr b1protocol b2protocol
       b3protocol b1configuration b2configuration b3configuration) =
     Some (CAPI_SELECT_B_PROTOCOL_REQ, applid, messagenumber,
              le32 adr @ composed (le16 b1protocol @ le16 b2protocol @ le16 b3protocol @ cstruct
       b1configuration @ cstruct b2configuration @ cstruct b3configuration))"
  by (simp add: capi_fill_SELECT_B_PROTOCOL_REQ_def fill_layouts fill_simps)

lemma capi_fill_CONNECT_RESP_image:
  "fill_image (capi_fill_CONNECT_RESP applid messagenumber adr reject b1protocol b2protocol
       b3protocol b1configuration b2configuration b3configuration connectednumber
       connectedsubaddress llc bchannelinformation keypadfacility useruserdata facilitydataarray)
       =
     Some (CAPI_CONNECT_RESP, applid, messagenumber,
              le32 adr @ le16 reject @ composed (le16 b1protocol @ le16 b2protocol @ le16
       b3protocol @ cstruct b1configuration @ cstruct b2configuration @ cstruct b3configuration) @
       cstruct connectednumber @ cstruct connectedsubaddress @ cstruct llc @ composed (cstruct
       bchannelinformation @ cstruct keypadfacility @ cstruct useruserdata @ cstruct
       facilitydataarray))"
  by (simp add: capi_fill_CONNECT_RESP_def fill_layouts fill_simps)

lemma capi_fill_CONNECT_ACTIVE_RESP_image:
  "fill_image (capi_fill_CONNECT_ACTIVE_RESP applid messagenumber adr) =
     Some (CAPI_CONNECT_ACTIVE_RESP, applid, messagenumber,
       le32 adr)"
  by (simp add: capi_fill_CONNECT_ACTIVE_RESP_def fill_layouts fill_simps)

lemma capi_fill_CONNECT_B3_ACTIVE_RESP_image:
  "fill_image (capi_fill_CONNECT_B3_ACTIVE_RESP applid messagenumber adr) =
     Some (CAPI_CONNECT_B3_ACTIVE_RESP, applid, messagenumber,
       le32 adr)"
  by (simp add: capi_fill_CONNECT_B3_ACTIVE_RESP_def fill_layouts fill_simps)

lemma capi_fill_CONNECT_B3_RESP_image:
  "fill_image (capi_fill_CONNECT_B3_RESP applid messagenumber adr reject ncpi) =
     Some (CAPI_CONNECT_B3_RESP, applid, messagenumber,
       le32 adr @ le16 reject @ cstruct ncpi)"
  by (simp add: capi_fill_CONNECT_B3_RESP_def fill_layouts fill_simps)

lemma capi_fill_CONNECT_B3_T90_ACTIVE_RESP_image:
  "fill_image (capi_fill_CONNECT_B3_T90_ACTIVE_RESP applid messagenumber adr) =
     Some (CAPI_CONNECT_B3_T90_ACTIVE_RESP, applid, messagenumber,
       le32 adr)"
  by (simp add: capi_fill_CONNECT_B3_T90_ACTIVE_RESP_def fill_layouts fill_simps)

lemma capi_fill_DATA_B3_RESP_image:
  "fill_image (capi_fill_DATA_B3_RESP applid messagenumber adr datahandle) =
     Some (CAPI_DATA_B3_RESP, applid, messagenumber,
       le32 adr @ le16 datahandle)"
  by (simp add: capi_fill_DATA_B3_RESP_def fill_layouts fill_simps)

lemma capi_fill_DISCONNECT_B3_RESP_image:
  "fill_image (capi_fill_DISCONNECT_B3_RESP applid messagenumber adr) =
     Some (CAPI_DISCONNECT_B3_RESP, applid, messagenumber,
       le32 adr)"
  by (simp add: capi_fill_DISCONNECT_B3_RESP_def fill_layouts fill_simps)

lemma capi_fill_DISCONNECT_RESP_image:
  "fill_image (capi_fill_DISCONNECT_RESP applid messagenumber adr) =
     Some (CAPI_DISCONNECT_RESP, applid, messagenumber,
       le32 adr)"
  by (simp add: capi_fill_DISCONNECT_RESP_def fill_layouts fill_simps)

lemma capi_fill_FACILITY_RESP_image:
  "fill_image (capi_fill_FACILITY_RESP applid messagenumber adr facilityselector) =
     Some (CAPI_FACILITY_RESP, applid, messagenumber,
       le32 adr @ le16 facilityselector)"
  by (simp add: capi_fill_FACILITY_RESP_def fill_layouts fill_simps)

lemma capi_fill_INFO_RESP_image:
  "fill_image (capi_fill_INFO_RESP applid messagenumber adr) =
     Some (CAPI_INFO_RESP, applid, messagenumber,
       le32 adr)"
  by (simp add: capi_fill_INFO_RESP_def fill_layouts fill_simps)

lemma capi_fill_MANUFACTURER_RESP_image:
  "fill_image (capi_fill_MANUFACTURER_RESP applid messagenumber adr manuid cls function manudata) =
     Some (CAPI_MANUFACTURER_RESP, applid, messagenumber,
       le32 adr @ le32 manuid @ le32 cls @ le32 function @ cstruct manudata)"
  by (simp add: capi_fill_MANUFACTURER_RESP_def fill_layouts fill_simps)

lemma capi_fill_RESET_B3_RESP_image:
  "fill_image (capi_fill_RESET_B3_RESP applid messagenumber adr) =
     Some (CAPI_RESET_B3_RESP, applid, messagenumber,
       le32 adr)"
  by (simp add: capi_fill_RESET_B3_RESP_def fill_layouts fill_simps)

section \<open>The assembled messages\<close>

text \<open>A \<open>_cstruct\<close> argument that can be copied: NULL, or a pointer to as many bytes as its length says.\<close>

definition complete :: "bytes option \<Rightarrow> bool" where
  "complete v \<longleftrightarrow> (case v of None \<Rightarrow> True | Some s \<Rightarrow> (case struct_len s of None \<Rightarrow> False | Some n \<Rightarrow> n \<le> length s))"

lemma ready_complete: "ready_par c CSTRUCT f = complete (structs c f)" "t \<noteq> CSTRUCT \<Longrightarrow> ready_par c t f"
  by (simp_all add: ready_par_def complete_def)

definition b_protocol :: "u16 \<Rightarrow> u16 \<Rightarrow> u16 \<Rightarrow> bytes option \<Rightarrow> bytes option \<Rightarrow> bytes option \<Rightarrow> bytes" where
  "b_protocol b1 b2 b3 c1 c2 c3 = le16 b1 @ le16 b2 @ le16 b3 @ cstruct c1 @ cstruct c2 @ cstruct c3"

definition additional_info :: "bytes option \<Rightarrow> bytes option \<Rightarrow> bytes option \<Rightarrow> bytes option \<Rightarrow> bytes" where
  "additional_info bchan keypad useruser facility = cstruct bchan @ cstruct keypad @ cstruct useruser @ cstruct facility"

text \<open>The bytes of a message with a header.\<close>

definition message_bytes :: "u8 \<Rightarrow> u8 \<Rightarrow> u16 \<Rightarrow> u16 \<Rightarrow> bytes \<Rightarrow> bytes" where
  "message_bytes cmd sc applid messagenumber img =
     le16 (word_of_nat (8 + length img)) @ le16 applid @ [cmd, sc] @ le16 messagenumber @ img"

lemma fill_assembled:
  assumes "fill_image c = Some (cmd, applid, n, img)" and "\<And>xs. layout (Command c) (Subcommand c) = Some xs \<Longrightarrow> readys c xs"
    and "8 + length img \<le> length msg"
  shows "\<exists>c1. capi_cmsg2message c msg = Some c1 \<and> cur_l c1 = 8 + length img \<and>
    cur_m c1 = message_bytes (Command c) (Subcommand c) applid n img @ drop (8 + length img) msg"
proof -
  from assms(1) obtain xs where l: "layout (Command c) (Subcommand c) = Some xs" and i: "encs c xs = img"
    and h: "ApplId c = applid" "Messagenumber c = n" by (auto simp: fill_image_def)
  from capi_cmsg2message_enc [OF l assms(2) [OF l], of msg] assms(3) show ?thesis
    by (simp add: i h message_bytes_def header_bytes_def)
qed

text \<open>C10: What the code sends for a call.  The \<open>_cmsg\<close> that \<open>capi_fill_CONNECT_REQ\<close> and \<open>capi_fill_CONNECT_RESP\<close> fill is assembled by
  \<open>capi_cmsg2message\<close> to a message with the right header and length, in which every argument of the constructor stands at the
  place that CAPI 2.0 gives it, with the B-channel protocol and the additional information as composed structures: if
  each structure argument is NULL or complete, each composed structure is shorter than 255 bytes (a longer one is coded
  wrongly), and the buffer holds the message.\<close>

theorem capi_fill_connect_messages:
  fixes b1p b2p b3p :: u16 and b1c b2c b3c bchan keypad useruser facility :: "bytes option"
  assumes "list_all complete [b1c, b2c, b3c, bchan, keypad, useruser, facility, called, calling, calledsub, callingsub, bc, llc, hlc, number, sub]"
    and "length (b_protocol b1p b2p b3p b1c b2c b3c) < 255" and "length (additional_info bchan keypad useruser facility) < 255"
    and "req = le32 adr @ le16 cip @ cstruct called @ cstruct calling @ cstruct calledsub @ cstruct callingsub @
      composed (b_protocol b1p b2p b3p b1c b2c b3c) @ cstruct bc @ cstruct llc @ cstruct hlc @
      composed (additional_info bchan keypad useruser facility)" and "8 + length req \<le> length msg"
    and "resp = le32 adr @ le16 reject @ composed (b_protocol b1p b2p b3p b1c b2c b3c) @ cstruct number @ cstruct sub @ cstruct llc @
      composed (additional_info bchan keypad useruser facility)" and "8 + length resp \<le> length msg"
  shows "\<exists>c1 c2.
     capi_cmsg2message (capi_fill_CONNECT_REQ applid messagenumber adr cip called calling calledsub callingsub b1p b2p b3p b1c b2c b3c
       bc llc hlc bchan keypad useruser facility) msg = Some c1 \<and>
     take (cur_l c1) (cur_m c1) = message_bytes CAPI_CONNECT CAPI_REQ applid messagenumber req \<and> cur_l c1 = 8 + length req \<and>
     capi_cmsg2message (capi_fill_CONNECT_RESP applid messagenumber adr reject b1p b2p b3p b1c b2c b3c number sub llc
       bchan keypad useruser facility) msg = Some c2 \<and>
     take (cur_l c2) (cur_m c2) = message_bytes CAPI_CONNECT CAPI_RESP applid messagenumber resp \<and> cur_l c2 = 8 + length resp"
proof -
  let ?q = "capi_fill_CONNECT_REQ applid messagenumber adr cip called calling calledsub callingsub b1p b2p b3p b1c b2c b3c
       bc llc hlc bchan keypad useruser facility"
  let ?p = "capi_fill_CONNECT_RESP applid messagenumber adr reject b1p b2p b3p b1c b2c b3c number sub llc bchan keypad useruser facility"
  have qi: "fill_image ?q = Some (CAPI_CONNECT_REQ, applid, messagenumber, req)"
    unfolding capi_fill_CONNECT_REQ_image assms(4) b_protocol_def additional_info_def by simp
  have pi: "fill_image ?p = Some (CAPI_CONNECT_RESP, applid, messagenumber, resp)"
    unfolding capi_fill_CONNECT_RESP_image assms(6) b_protocol_def additional_info_def by simp
  have qr: "readys ?q xs" if "layout (Command ?q) (Subcommand ?q) = Some xs" for xs
    using that assms(1-3)
    by (auto simp: capi_fill_CONNECT_REQ_def fill_layouts fill_simps ready_complete b_protocol_def additional_info_def)
  have pr: "readys ?p xs" if "layout (Command ?p) (Subcommand ?p) = Some xs" for xs
    using that assms(1-3)
    by (auto simp: capi_fill_CONNECT_RESP_def fill_layouts fill_simps ready_complete b_protocol_def additional_info_def)
  have h: "Command ?q = CAPI_CONNECT" "Subcommand ?q = CAPI_REQ" "Command ?p = CAPI_CONNECT" "Subcommand ?p = CAPI_RESP"
    by (simp_all add: capi_fill_CONNECT_REQ_def capi_fill_CONNECT_RESP_def fill_simps)
  have len: "length (message_bytes cmd sc a n img) = 8 + length img" for cmd sc a n img by (simp add: message_bytes_def le16_def)
  have 1: "\<exists>c1. capi_cmsg2message ?q msg = Some c1 \<and> cur_l c1 = 8 + length req \<and>
      cur_m c1 = message_bytes (Command ?q) (Subcommand ?q) applid messagenumber req @ drop (8 + length req) msg"
    by (rule fill_assembled [OF qi _ assms(5)]) (rule qr)
  have 2: "\<exists>c2. capi_cmsg2message ?p msg = Some c2 \<and> cur_l c2 = 8 + length resp \<and>
      cur_m c2 = message_bytes (Command ?p) (Subcommand ?p) applid messagenumber resp @ drop (8 + length resp) msg"
    by (rule fill_assembled [OF pi _ assms(7)]) (rule pr)
  from 1 2 show ?thesis unfolding h by (elim exE conjE) (simp add: len)
qed

text \<open>A call of 12, and a rejection.\<close>

theorem capi_fill_connect_messages_witness:
  "\<exists>c1. capi_cmsg2message (capi_fill_CONNECT_REQ 1 7 1 16 (Some [3, 0x80, 49, 50]) None None None 0 0 0 None None None
      None None None None None None None) (replicate 40 0) = Some c1 \<and> cur_l c1 = 39 \<and>
    take 39 (cur_m c1) = [39, 0, 1, 0, 2, 0x80, 7, 0, 1, 0, 0, 0, 16, 0, 3, 0x80, 49, 50, 0, 0, 0, 9, 0, 0,
      0, 0, 0, 0, 0, 0, 0, 0, 0, 0, 4, 0, 0, 0, 0]"
proof -
  let ?req = "le32 1 @ le16 16 @ cstruct (Some [3, 0x80, 49, 50]) @ cstruct None @ cstruct None @ cstruct None @
      composed (b_protocol 0 0 0 None None None) @ cstruct None @ cstruct None @ cstruct None @ composed (additional_info None None None None)"
  let ?resp = "le32 1 @ le16 3 @ composed (b_protocol 0 0 0 None None None) @ cstruct None @ cstruct None @ cstruct None @
      composed (additional_info None None None None)"
  have c: "list_all complete [None, None, None, None, None, None, None, Some [3, 0x80, 49, 50], None, None, None, None, None, None, None, None]"
    "length (b_protocol 0 0 0 None None None) < 255" "length (additional_info None None None None) < 255"
    "8 + length ?req \<le> length (replicate 40 (0 :: u8))" "8 + length ?resp \<le> length (replicate 40 (0 :: u8))" by code_simp+
  have m: "message_bytes CAPI_CONNECT CAPI_REQ 1 7 ?req = [39, 0, 1, 0, 2, 0x80, 7, 0, 1, 0, 0, 0, 16, 0, 3, 0x80, 49, 50, 0, 0, 0, 9, 0, 0,
      0, 0, 0, 0, 0, 0, 0, 0, 0, 0, 4, 0, 0, 0, 0]" and n: "8 + length ?req = 39" by code_simp+
  from capi_fill_connect_messages [OF c(1,2,3) refl c(4) refl c(5), where applid = 1 and messagenumber = 7] show ?thesis
    unfolding m n by (elim exE conjE) (rule exI, intro conjI, assumption, assumption, simp only:)
qed

end
