(* ===== verification/CapiTyped.thy ===== *)
theory CapiTyped
  imports CapiCodec
begin

text \<open>
  Types in the codec: \<open>capi_message2cmsg\<close> decides by the parameter string alone which members of a \<open>_cmsg\<close> it
  writes through a byte offset, and with which width.  On whatever bytes it is given it respects the type of each member.
\<close>

text \<open>The types with which \<open>_cmsg\<close> declares its members: \<open>__u16\<close>, \<open>__u32\<close>, \<open>_cstruct\<close> and
  \<open>_cmstruct\<close>.  The three names of the address are a union.\<close>

fun member_typ :: "cfield \<Rightarrow> ctyp" where
  "member_typ AdrController = CDWORD" | "member_typ AdditionalInfo = CMSTRUCT" | "member_typ B1configuration = CSTRUCT"
| "member_typ B1protocol = CWORD" | "member_typ B2configuration = CSTRUCT" | "member_typ B2protocol = CWORD"
| "member_typ B3configuration = CSTRUCT" | "member_typ B3protocol = CWORD" | "member_typ BC = CSTRUCT"
| "member_typ BChannelinformation = CSTRUCT" | "member_typ BProtocol = CMSTRUCT" | "member_typ CalledPartyNumber = CSTRUCT"
| "member_typ CalledPartySubaddress = CSTRUCT" | "member_typ CallingPartyNumber = CSTRUCT" | "member_typ CallingPartySubaddress = CSTRUCT"
| "member_typ CIPmask = CDWORD" | "member_typ CIPmask2 = CDWORD" | "member_typ CIPValue = CWORD"
| "member_typ Class = CDWORD" | "member_typ ConnectedNumber = CSTRUCT" | "member_typ ConnectedSubaddress = CSTRUCT"
| "member_typ Data = CDWORD" | "member_typ DataHandle = CWORD" | "member_typ DataLength = CWORD"
| "member_typ FacilityConfirmationParameter = CSTRUCT" | "member_typ Facilitydataarray = CSTRUCT" | "member_typ FacilityIndicationParameter = CSTRUCT"
| "member_typ FacilityRequestParameter = CSTRUCT" | "member_typ FacilitySelector = CWORD" | "member_typ Flags = CWORD"
| "member_typ Function = CDWORD" | "member_typ HLC = CSTRUCT" | "member_typ Info = CWORD"
| "member_typ InfoElement = CSTRUCT" | "member_typ InfoMask = CDWORD" | "member_typ InfoNumber = CWORD"
| "member_typ Keypadfacility = CSTRUCT" | "member_typ LLC = CSTRUCT" | "member_typ ManuData = CSTRUCT"
| "member_typ ManuID = CDWORD" | "member_typ NCPI = CSTRUCT" | "member_typ Reason = CWORD"
| "member_typ Reason_B3 = CWORD" | "member_typ Reject = CWORD" | "member_typ Useruserdata = CSTRUCT"

definition has_param :: "nat list \<Rightarrow> ctyp \<Rightarrow> cfield \<Rightarrow> bool" where
  "has_param par t f \<longleftrightarrow> (\<exists>i\<in>set par. i < length cdef \<and> cdef ! i = (t, Some f))"

text \<open>The offset table names each member with the type of its declaration.\<close>

lemma cdef_typed: "list_all (\<lambda>(t, f). case f of None \<Rightarrow> t = CEND | Some f \<Rightarrow> member_typ f = t) cdef"
  by code_simp

lemma param_typ: "has_param par t f \<Longrightarrow> member_typ f = t"
  using cdef_typed by (fastforce simp: has_param_def list_all_length)

lemma no_bytes: "\<not> has_param par CBYTE f"
proof
  assume "has_param par CBYTE f"
  from param_typ [OF this] show False by (cases f) simp_all
qed

text \<open>What decoding does to the members, from a state of the cursor on.\<close>

definition typed_step :: "cmsg \<Rightarrow> cmsg \<Rightarrow> bool" where
  "typed_step c c' \<longleftrightarrow> cur_par c' = cur_par c \<and> cur_m c' = cur_m c \<and> cur_l c \<le> cur_l c' \<and>
     Command c' = Command c \<and> Subcommand c' = Subcommand c \<and>
     (\<forall>f. words c' f \<noteq> words c f \<longrightarrow> has_param (cur_par c) CWORD f \<or> has_param (cur_par c) CBYTE f) \<and>
     (\<forall>f. dwords c' f \<noteq> dwords c f \<longrightarrow> has_param (cur_par c) CDWORD f) \<and>
     (\<forall>f. mstructs c' f \<noteq> mstructs c f \<longrightarrow> has_param (cur_par c) CMSTRUCT f) \<and>
     (\<forall>f. structs c' f \<noteq> structs c f \<longrightarrow> has_param (cur_par c) CSTRUCT f \<and>
        (\<exists>k. cur_l c \<le> k \<and> structs c' f = Some (drop k (cur_m c)) \<and> struct_len (drop k (cur_m c)) \<noteq> None))"

lemma typed_refl: "typed_step c c"
  by (simp add: typed_step_def)

lemma typed_trans:
  assumes "typed_step a b" and "typed_step b c"
  shows "typed_step a c"
proof -
  have "has_param (cur_par a) CSTRUCT f \<and>
      (\<exists>k. cur_l a \<le> k \<and> structs c f = Some (drop k (cur_m a)) \<and> struct_len (drop k (cur_m a)) \<noteq> None)"
    if "structs c f \<noteq> structs a f" for f
  proof (cases "structs c f = structs b f")
    case True
    with that assms(1) show ?thesis unfolding typed_step_def by metis
  next
    case False
    from assms(2) have "structs c f \<noteq> structs b f \<longrightarrow> has_param (cur_par b) CSTRUCT f \<and>
        (\<exists>k. cur_l b \<le> k \<and> structs c f = Some (drop k (cur_m b)) \<and> struct_len (drop k (cur_m b)) \<noteq> None)"
      by (simp add: typed_step_def)
    with False assms(1) show ?thesis unfolding typed_step_def by (metis le_trans)
  qed
  moreover have "words c f \<noteq> words a f \<Longrightarrow> has_param (cur_par a) CWORD f \<or> has_param (cur_par a) CBYTE f"
    and "dwords c f \<noteq> dwords a f \<Longrightarrow> has_param (cur_par a) CDWORD f"
    and "mstructs c f \<noteq> mstructs a f \<Longrightarrow> has_param (cur_par a) CMSTRUCT f" for f
    using assms unfolding typed_step_def by metis+
  ultimately show ?thesis using assms unfolding typed_step_def by auto
qed

lemma typed_cursor: "typed_step c c' \<Longrightarrow> typed_step c (c'\<lparr>cur_p := p\<rparr>)"
  by (simp add: typed_step_def)

lemma typed_from_cursor: "typed_step (c\<lparr>cur_p := p\<rparr>) c' \<Longrightarrow> typed_step c c'"
  by (simp add: typed_step_def)

lemma cursor_param:
  assumes "TYP c = Some t" and "OFF c = Some f"
  shows "has_param (cur_par c) t f"
  using assms by (auto simp: TYP_def OFF_def has_param_def nth_opt_eq_Some intro!: bexI [OF _ nth_mem])

lemma typed_get_par:
  assumes "TYP c = Some t" and "OFF c = Some f" and "get_par t f c = Some c'"
  shows "typed_step c c'"
  using assms(3) cursor_param [OF assms(1,2)]
  by (auto simp: get_par_def typed_step_def split: ctyp.splits if_splits)

lemma typed_jump:
  assumes "jumpcstruct c = Some c'"
  shows "typed_step c c'"
proof -
  have "c' = c\<lparr>cur_p := cur_p c'\<rparr>" using jumpcstruct_frame [OF assms] ..
  then show ?thesis using typed_cursor [OF typed_refl] by metis
qed

lemma typed_mstruct:
  assumes "TYP c = Some CMSTRUCT" and "OFF c = Some f" and "cur_l c \<le> l"
  shows "typed_step c (c\<lparr>mstructs := (mstructs c)(f := v), cur_l := l\<rparr>)"
  using assms(3) cursor_param [OF assms(1,2)] by (auto simp: typed_step_def)

lemma typed_message_2_pars: "message_2_pars c = Some c' \<Longrightarrow> typed_step c c'"
proof (induction c arbitrary: c' rule: message_2_pars.induct)
  case (1 c)
  from "1.prems" obtain t where t: "TYP c = Some t" by (subst (asm) message_2_pars.simps) auto
  show ?case
  proof (cases "t = CEND")
    case True
    with t "1.prems" show ?thesis by (subst (asm) message_2_pars.simps) (simp add: typed_refl)
  next
    case False
    from "1.prems" t False obtain f c1 where f: "OFF c = Some f"
      and c1: "(if t = CMSTRUCT
             then do {
               b \<leftarrow> ld (cur_m c) (cur_l c);
               if b = 0
               then jumpcstruct (c\<lparr>mstructs := (mstructs c)(f := CAPI_DEFAULT), cur_l := cur_l c + 1\<rparr>)
               else message_2_pars
                      (c\<lparr>mstructs := (mstructs c)(f := CAPI_COMPOSE),
                         cur_l := (if b = 255 then cur_l c + 3 else cur_l c + 1),
                         cur_p := cur_p c + 1\<rparr>) }
             else get_par t f c) = Some c1"
      and rest: "message_2_pars (c1\<lparr>cur_p := cur_p c1 + 1\<rparr>) = Some c'"
      by (subst (asm) message_2_pars.simps) (auto simp only: if_False bind_eq_Some_conv option.inject)
    have "typed_step c c1"
    proof (cases "t = CMSTRUCT")
      case True
      note m = typed_mstruct [OF t [unfolded True] f]
      from True c1 obtain b where b: "ld (cur_m c) (cur_l c) = Some b" by auto
      show ?thesis
      proof (cases "b = 0")
        case True
        with c1 b \<open>t = CMSTRUCT\<close> show ?thesis by (auto dest!: typed_jump intro: typed_trans [OF m [of "cur_l c + 1" CAPI_DEFAULT]])
      next
        case b0: False
        from "1.IH"(1) [OF t False f True b b0] c1 b b0 True
        have "typed_step (c\<lparr>mstructs := (mstructs c)(f := CAPI_COMPOSE),
            cur_l := (if b = 255 then cur_l c + 3 else cur_l c + 1), cur_p := cur_p c + 1\<rparr>) c1" by simp
        then have X: "typed_step (c\<lparr>mstructs := (mstructs c)(f := CAPI_COMPOSE),
            cur_l := (if b = 255 then cur_l c + 3 else cur_l c + 1)\<rparr>) c1" by (rule typed_from_cursor)
        show ?thesis by (rule typed_trans [OF m X]) simp
      qed
    next
      case other: False
      with c1 show ?thesis by (auto intro: typed_get_par [OF t f])
    qed
    from this typed_from_cursor [OF "1.IH"(2) [OF t False f c1 rest]] show ?thesis by (rule typed_trans)
  qed
qed

text \<open>C12: Decoding is well typed, for any bytes that are received.  A member of the result that is not as in an empty \<open>_cmsg\<close> is
  a parameter of the message, and it was written with the type with which \<open>_cmsg\<close> declares it: 16 bits go only into members
  declared as \<open>__u16\<close>, 32 bits only into members declared as \<open>__u32\<close>, the mark of a composed structure only into a
  \<open>_cmstruct\<close>, and pointers only into members declared as \<open>_cstruct\<close>; a pointer points into the message behind the header, to a
  structure whose length is in the message.\<close>

theorem capi_message2cmsg_typed:
  assumes "capi_message2cmsg m = Some c"
  shows "\<exists>par. cpars_at (command_2_index (Command c) (Subcommand c)) = Some par \<and>
    ld m 4 = Some (Command c) \<and> ld m 5 = Some (Subcommand c) \<and>
    (\<forall>f. words c f \<noteq> 0 \<longrightarrow> member_typ f = CWORD \<and> has_param par CWORD f) \<and>
    (\<forall>f. dwords c f \<noteq> 0 \<longrightarrow> member_typ f = CDWORD \<and> has_param par CDWORD f) \<and>
    (\<forall>f. mstructs c f = CAPI_DEFAULT \<longrightarrow> member_typ f = CMSTRUCT \<and> has_param par CMSTRUCT f) \<and>
    (\<forall>f s. structs c f = Some s \<longrightarrow> member_typ f = CSTRUCT \<and> has_param par CSTRUCT f \<and>
       (\<exists>k\<ge>8. s = drop k m) \<and> struct_len s \<noteq> None)"
proof -
  let ?c = "\<lambda>b s p. zero_cmsg\<lparr>cur_m := m, cur_l := 8, cur_p := 0, Command := b, Subcommand := s, cur_par := p\<rparr>"
  from assms obtain b s par c1 where 1: "ld m 4 = Some b" "ld m 5 = Some s"
    "cpars_at (command_2_index b s) = Some par" "message_2_pars (?c b s par) = Some c1"
    and c: "\<exists>l a n. c = c1\<lparr>cur_l := l, ApplId := a, Messagenumber := n\<rparr>"
    by (fastforce simp: capi_message2cmsg_def Let_def)
  have T: "typed_step (?c b s par) c1" by (rule typed_message_2_pars [OF 1(4)])
  have "Command c = b" "Subcommand c = s"
    and "words c = words c1" "dwords c = dwords c1" "structs c = structs c1" "mstructs c = mstructs c1"
    using T c by (auto simp: typed_step_def)
  moreover have "member_typ f = CSTRUCT \<and> has_param par CSTRUCT f \<and> (\<exists>k\<ge>8. s = drop k m) \<and> struct_len s \<noteq> None"
    if "structs c1 f = Some s" for f s
  proof -
    have "has_param par CSTRUCT f \<and> (\<exists>k\<ge>8. s = drop k m) \<and> struct_len s \<noteq> None"
      using T that unfolding typed_step_def by (fastforce simp: zero_cmsg_def)
    then show ?thesis using param_typ [of par CSTRUCT f] by simp
  qed
  moreover have "words c1 f \<noteq> 0 \<Longrightarrow> has_param par CWORD f \<or> has_param par CBYTE f"
    and "dwords c1 f \<noteq> 0 \<Longrightarrow> has_param par CDWORD f"
    and "mstructs c1 f = CAPI_DEFAULT \<Longrightarrow> has_param par CMSTRUCT f" for f
    using T by (auto simp: typed_step_def zero_cmsg_def)
  then have "words c1 f \<noteq> 0 \<Longrightarrow> member_typ f = CWORD \<and> has_param par CWORD f"
    and "dwords c1 f \<noteq> 0 \<Longrightarrow> member_typ f = CDWORD \<and> has_param par CDWORD f"
    and "mstructs c1 f = CAPI_DEFAULT \<Longrightarrow> member_typ f = CMSTRUCT \<and> has_param par CMSTRUCT f" for f
    using param_typ no_bytes by metis+
  ultimately show ?thesis using 1(1-3) by auto
qed

theorem capi_message2cmsg_typed_witness:
  "\<exists>c. capi_message2cmsg [14, 0, 1, 0, CAPI_DISCONNECT, CAPI_IND, 1, 0, 1, 1, 0, 0, 5, 0] = Some c \<and> structs c NCPI = None \<and> words c Reason_B3 = 0"
proof -
  let ?m = "[14, 0, 1, 0, CAPI_DISCONNECT, CAPI_IND, 1, 0, 1, 1, 0, 0, 5, 0]"
  let ?h = "(capi_cmsg_header 1 CAPI_DISCONNECT CAPI_IND 1 0x101)\<lparr>words := (\<lambda>_. 5)\<rparr>" and ?xs = "[Fld 3, Fld 44]"
  have l: "layout CAPI_DISCONNECT CAPI_IND = Some ?xs" by code_simp
  have e: "encs ?h ?xs = [1, 1, 0, 0, 5, 0]" and r: "readys ?h ?xs" by code_simp+
  have "?m = header_bytes ?h 14 @ encs ?h ?xs @ []" unfolding e by code_simp
  with capi_message2cmsg_enc [OF l r, of 14 "[]"] obtain c where c: "capi_message2cmsg ?m = Some c"
    "Command c = CAPI_DISCONNECT" "Subcommand c = CAPI_IND" by (auto simp: capi_cmsg_header_def)
  have p: "cpars_at (command_2_index CAPI_DISCONNECT CAPI_IND) = Some [3, 44, 1, 0]" by code_simp
  have np: "\<not> has_param [3, 44, 1, 0] CSTRUCT NCPI" "\<not> has_param [3, 44, 1, 0] CWORD Reason_B3"
    by (simp_all add: has_param_def cdef_def)
  from capi_message2cmsg_typed [OF c(1)] c(2,3) p np have "structs c NCPI = None" "words c Reason_B3 = 0"
    by (cases "structs c NCPI"; fastforce)+
  with c(1) show ?thesis by blast
qed

end
