(* ===== verification/CapiPrint.thy ===== *)
theory CapiPrint
  imports CapiCodec
begin

text \<open>
  The text side of \<^verbatim>\<open>capiutil.c\<close>: the explanation of info and reason values
  (\<open>capi_info2str\<close>, in the variants with and without
  \<^verbatim>\<open>CONFIG_ISDN_DRV_AVMB1_VERBOSE_REASON\<close>) and the message printer, which writes into
  a static buffer of 8192 characters through \<open>bufprint\<close>.  The text written so far is a string;
  a print that would not fit in the buffer with its NUL is undefined.  The kernel's
  \<open>isalnum\<close> is a parameter.
\<close>

section \<open>Reasons\<close>

definition info_strings_messages :: "(u16 \<times> string) list" where
  "info_strings_messages = [
    (0x0001, ''NCPI not supported by current protocol, NCPI ignored''),
    (0x0002, ''Flags not supported by current protocol, flags ignored''),
    (0x0003, ''Alert already sent by another application''),
    (0x1001, ''Too many applications''),
    (0x1002, ''Logical block size too small, must be at least 128 Bytes''),
    (0x1003, ''Buffer exceeds 64 kByte''),
    (0x1004, ''Message buffer size too small, must be at least 1024 Bytes''),
    (0x1005, ''Max. number of logical connections not supported''),
    (0x1006, ''Reserved''),
    (0x1007, ''The message could not be accepted because of an internal busy condition''),
    (0x1008, ''OS resource error (no memory ?)''),
    (0x1009, ''CAPI not installed''),
    (0x100a, ''Controller does not support external equipment''),
    (0x100b, ''Controller does only support external equipment''),
    (0x1101, ''Illegal application number''),
    (0x1102, ''Illegal command or subcommand or message length less than 12 bytes''),
    (0x1103, ''The message could not be accepted because of a queue full condition !! The error code does not imply that CAPI cannot receive messages directed to another controller, PLCI or NCCI''),
    (0x1104, ''Queue is empty''),
    (0x1105, ''Queue overflow, a message was lost !! This indicates a configuration error. The only recovery from this error is to perform a CAPI_RELEASE''),
    (0x1106, ''Unknown notification parameter''),
    (0x1107, ''The Message could not be accepted because of an internal busy condition''),
    (0x1108, ''OS Resource error (no memory ?)''),
    (0x1109, ''CAPI not installed''),
    (0x110a, ''Controller does not support external equipment''),
    (0x110b, ''Controller does only support external equipment''),
    (0x2001, ''Message not supported in current state''),
    (0x2002, ''Illegal Controller / PLCI / NCCI''),
    (0x2003, ''Out of PLCI''),
    (0x2004, ''Out of NCCI''),
    (0x2005, ''Out of LISTEN''),
    (0x2006, ''Out of FAX resources (protocol T.30)''),
    (0x2007, ''Illegal message parameter coding''),
    (0x3001, ''B1 protocol not supported''),
    (0x3002, ''B2 protocol not supported''),
    (0x3003, ''B3 protocol not supported''),
    (0x3004, ''B1 protocol parameter not supported''),
    (0x3005, ''B2 protocol parameter not supported''),
    (0x3006, ''B3 protocol parameter not supported''),
    (0x3007, ''B protocol combination not supported''),
    (0x3008, ''NCPI not supported''),
    (0x3009, ''CIP Value unknown''),
    (0x300a, ''Flags not supported (reserved bits)''),
    (0x300b, ''Facility not supported''),
    (0x300c, ''Data length not supported by current protocol''),
    (0x300d, ''Reset procedure not supported by current protocol'')]"

text \<open>Reasons for the clearing of a physical connection, of T.30 and of Q.931.\<close>

definition info_strings_clearing :: "(u16 \<times> string) list" where
  "info_strings_clearing = [
    (0x3301, ''Protocol error layer 1 (broken line or B-channel removed by signalling protocol)''),
    (0x3302, ''Protocol error layer 2''),
    (0x3303, ''Protocol error layer 3''),
    (0x3304, ''Another application got that call''),
    (0x3311, ''Connecting not successful (remote station is no FAX G3 machine)''),
    (0x3312, ''Connecting not successful (training error)''),
    (0x3313, ''Disconnected before transfer (remote station does not support transfer mode, e.g. resolution)''),
    (0x3314, ''Disconnected during transfer (remote abort)''),
    (0x3315, ''Disconnected during transfer (remote procedure error, e.g. unsuccessful repetition of T.30 commands)''),
    (0x3316, ''Disconnected during transfer (local tx data underrun)''),
    (0x3317, ''Disconnected during transfer (local rx data overflow)''),
    (0x3318, ''Disconnected during transfer (local abort)''),
    (0x3319, ''Illegal parameter coding (e.g. SFF coding error)''),
    (0x3481, ''Unallocated (unassigned) number''),
    (0x3482, ''No route to specified transit network''),
    (0x3483, ''No route to destination''),
    (0x3486, ''Channel unacceptable''),
    (0x3487, ''Call awarded and being delivered in an established channel''),
    (0x3490, ''Normal call clearing''),
    (0x3491, ''User busy''),
    (0x3492, ''No user responding''),
    (0x3493, ''No answer from user (user alerted)''),
    (0x3495, ''Call rejected''),
    (0x3496, ''Number changed''),
    (0x349a, ''Non-selected user clearing''),
    (0x349b, ''Destination out of order''),
    (0x349c, ''Invalid number format''),
    (0x349d, ''Facility rejected''),
    (0x349e, ''Response to STATUS ENQUIRY''),
    (0x349f, ''Normal, unspecified''),
    (0x34a2, ''No circuit / channel available''),
    (0x34a6, ''Network out of order''),
    (0x34a9, ''Temporary failure''),
    (0x34aa, ''Switching equipment congestion''),
    (0x34ab, ''Access information discarded''),
    (0x34ac, ''Requested circuit / channel not available''),
    (0x34af, ''Resources unavailable, unspecified''),
    (0x34b1, ''Quality of service unavailable''),
    (0x34b2, ''Requested facility not subscribed''),
    (0x34b9, ''Bearer capability not authorized''),
    (0x34ba, ''Bearer capability not presently available''),
    (0x34bf, ''Service or option not available, unspecified''),
    (0x34c1, ''Bearer capability not implemented''),
    (0x34c2, ''Channel type not implemented''),
    (0x34c5, ''Requested facility not implemented''),
    (0x34c6, ''Only restricted digital information bearer capability is available''),
    (0x34cf, ''Service or option not implemented, unspecified''),
    (0x34d1, ''Invalid call reference value''),
    (0x34d2, ''Identified channel does not exist''),
    (0x34d3, ''A suspended call exists, but this call identity does not''),
    (0x34d4, ''Call identity in use''),
    (0x34d5, ''No call suspended''),
    (0x34d6, ''Call having the requested call identity has been cleared''),
    (0x34d8, ''Incompatible destination''),
    (0x34db, ''Invalid transit network selection''),
    (0x34df, ''Invalid message, unspecified''),
    (0x34e0, ''Mandatory information element is missing''),
    (0x34e1, ''Message type non-existent or not implemented''),
    (0x34e2, ''Message not compatible with call state or message type non-existent or not implemented''),
    (0x34e3, ''Information element non-existent or not implemented''),
    (0x34e4, ''Invalid information element contents''),
    (0x34e5, ''Message not compatible with call state''),
    (0x34e6, ''Recovery on timer expiry''),
    (0x34ef, ''Protocol error, unspecified''),
    (0x34ff, ''Interworking, unspecified'')]"

definition capi_info2str :: "bool \<Rightarrow> u16 \<Rightarrow> string" where
  "capi_info2str verbose_reason reason =
     (if \<not> verbose_reason then ''..''
      else case map_of (info_strings_messages @ info_strings_clearing) reason of
             None \<Rightarrow> ''No additional information''
           | Some s \<Rightarrow> s)"

text \<open>Every reason value has one explanation, so the order of the cases does not matter, and the info values
  of the registration class 0x10 and of the message class 0x11 up to 0x1108 are explained.\<close>

theorem info_strings_unique:
  "distinct (map fst (info_strings_messages @ info_strings_clearing)) \<and>
   list_all (\<lambda>w. capi_info2str True w \<noteq> ''No additional information'')
     [CAPINFO_0X10_TOOMANYAPPLS, CAPINFO_0X10_LOGBLKSIZETOSMALL, 0x1003, 0x1004, 0x1005, 0x1006, 0x1007,
      CAPINFO_0X10_OSRESERR, 0x1009, 0x100a, 0x100b, CAPINFO_0X11_ILLAPPNR, CAPINFO_0X11_ILLCMDORMSGTOSMALL,
      CAPINFO_0X11_QUEUEFULL, CAPINFO_0X11_QUEUEEMPTY, 0x1105, 0x1106, 0x1107, CAPINFO_0X11_OSRESERR]"
  by code_simp

section \<open>Formatting\<close>

definition pnames :: "string option list" where
  "pnames = [
    None,
    None,
    None,
    Some ''Controller/PLCI/NCCI'',
    Some ''AdditionalInfo'',
    Some ''B1configuration'',
    Some ''B1protocol'',
    Some ''B2configuration'',
    Some ''B2protocol'',
    Some ''B3configuration'',
    Some ''B3protocol'',
    Some ''BC'',
    Some ''BChannelinformation'',
    Some ''BProtocol'',
    Some ''CalledPartyNumber'',
    Some ''CalledPartySubaddress'',
    Some ''CallingPartyNumber'',
    Some ''CallingPartySubaddress'',
    Some ''CIPmask'',
    Some ''CIPmask2'',
    Some ''CIPValue'',
    Some ''Class'',
    Some ''ConnectedNumber'',
    Some ''ConnectedSubaddress'',
    Some ''Data32'',
    Some ''DataHandle'',
    Some ''DataLength'',
    Some ''FacilityConfirmationParameter'',
    Some ''Facilitydataarray'',
    Some ''FacilityIndicationParameter'',
    Some ''FacilityRequestParameter'',
    Some ''FacilitySelector'',
    Some ''Flags'',
    Some ''Function'',
    Some ''HLC'',
    Some ''Info'',
    Some ''InfoElement'',
    Some ''InfoMask'',
    Some ''InfoNumber'',
    Some ''Keypadfacility'',
    Some ''LLC'',
    Some ''ManuData'',
    Some ''ManuID'',
    Some ''NCPI'',
    Some ''Reason'',
    Some ''Reason_B3'',
    Some ''Reject'',
    Some ''Useruserdata'']"

definition digit_char :: "nat \<Rightarrow> char" where
  "digit_char d = (''0123456789abcdef'' ! d)"

fun digits :: "nat \<Rightarrow> nat \<Rightarrow> string" where
  "digits b n = (if n < b \<or> b < 2 then [digit_char n] else digits b (n div b) @ [digit_char (n mod b)])"

declare digits.simps [simp del]

definition pad_left :: "char \<Rightarrow> nat \<Rightarrow> string \<Rightarrow> string" where
  "pad_left c w s = replicate (w - length s) c @ s"

definition pad_right :: "nat \<Rightarrow> string \<Rightarrow> string" where
  "pad_right w s = s @ replicate (w - length s) CHR '' ''"

definition hexs :: "nat \<Rightarrow> nat \<Rightarrow> string" where
  "hexs w n = pad_left CHR ''0'' w (digits 16 n)"

definition decs :: "nat \<Rightarrow> nat \<Rightarrow> string" where
  "decs w n = pad_left CHR ''0'' w (digits 10 n)"

definition BUF_SIZE :: nat where "BUF_SIZE = 8192"

definition bufprint :: "string \<Rightarrow> string \<Rightarrow> string option" where
  "bufprint s buf = (if length buf + length s < BUF_SIZE then Some (buf @ s) else None)"

definition NL :: string where "NL = [char_of (10 :: nat)]"

section \<open>Printing a message\<close>

fun printstructlen :: "(u8 \<Rightarrow> bool) \<Rightarrow> bytes \<Rightarrow> nat \<Rightarrow> bool \<Rightarrow> string \<Rightarrow> string option" where
  "printstructlen isalnum m 0 hex buf = (if hex then bufprint ''>'' buf else Some buf)"
| "printstructlen isalnum m (Suc len) hex buf = do {
     b \<leftarrow> ld m 0;
     if isalnum b \<or> b = 0x20 then do {
       buf \<leftarrow> (if hex then bufprint ''>'' buf else Some buf);
       buf \<leftarrow> bufprint [char_of (unat b)] buf;
       printstructlen isalnum (tl m) len False buf }
     else do {
       buf \<leftarrow> bufprint ((if \<not> hex then ''<'' else '' '') @ hexs 2 (unat b)) buf;
       printstructlen isalnum (tl m) len True buf } }"

definition printstruct :: "(u8 \<Rightarrow> bool) \<Rightarrow> bytes \<Rightarrow> string \<Rightarrow> string option" where
  "printstruct isalnum m buf = do {
     b \<leftarrow> ld m 0;
     if b \<noteq> 0xff then printstructlen isalnum (drop 1 m) (unat b) False buf
     else do {
       len \<leftarrow> CAPIMSG_U16 m 1;
       printstructlen isalnum (drop 3 m) (unat len) False buf } }"

definition NAME :: "cmsg \<Rightarrow> string option" where
  "NAME c = do { i \<leftarrow> nth_opt (cur_par c) (cur_p c); n \<leftarrow> nth_opt pnames i; n }"

definition NAME_padded :: "nat \<Rightarrow> cmsg \<Rightarrow> string option" where
  "NAME_padded level c = map_option (pad_right (nat \<bar>29 + 3 - int level\<bar>)) (NAME c)"

text \<open>The cases of \<open>protocol_message_2_pars\<close> that print one member.\<close>

definition print_par :: "(u8 \<Rightarrow> bool) \<Rightarrow> ctyp \<Rightarrow> string \<Rightarrow> cmsg \<Rightarrow> string \<Rightarrow> (cmsg \<times> string) option" where
  "print_par isalnum t name c buf =
     (case t of
        CBYTE \<Rightarrow> do {
          b \<leftarrow> ld (cur_m c) (cur_l c);
          buf \<leftarrow> bufprint (name @ '' = 0x'' @ hexs 1 (unat b) @ NL) buf;
          Some (c\<lparr>cur_l := cur_l c + 1\<rparr>, buf) }
      | CWORD \<Rightarrow> do {
          w \<leftarrow> CAPIMSG_U16 (cur_m c) (cur_l c);
          buf \<leftarrow> bufprint (name @ '' = 0x'' @ hexs 1 (unat w) @ NL) buf;
          Some (c\<lparr>cur_l := cur_l c + 2\<rparr>, buf) }
      | CDWORD \<Rightarrow> do {
          w \<leftarrow> CAPIMSG_U32 (cur_m c) (cur_l c);
          buf \<leftarrow> bufprint (name @ '' = 0x'' @ hexs 1 (unat w) @ NL) buf;
          Some (c\<lparr>cur_l := cur_l c + 4\<rparr>, buf) }
      | CSTRUCT \<Rightarrow> do {
          buf \<leftarrow> bufprint (name @ '' = '') buf;
          b \<leftarrow> ld (cur_m c) (cur_l c);
          buf \<leftarrow> (if b = 0 then bufprint ''default'' buf
                 else printstruct isalnum (drop (cur_l c) (cur_m c)) buf);
          buf \<leftarrow> bufprint NL buf;
          n \<leftarrow> struct_len (drop (cur_l c) (cur_m c));
          Some (c\<lparr>cur_l := cur_l c + n\<rparr>, buf) }
      | _ \<Rightarrow> Some (c, buf))"

lemma print_par_frame:
  "print_par isalnum t name c buf = Some (c', buf') \<Longrightarrow> cur_p c' = cur_p c \<and> cur_par c' = cur_par c"
  by (auto simp: print_par_def split: ctyp.splits)

function (domintros) protocol_message_2_pars ::
  "(u8 \<Rightarrow> bool) \<Rightarrow> nat \<Rightarrow> cmsg \<Rightarrow> string \<Rightarrow> (cmsg \<times> string) option" where
  "protocol_message_2_pars isalnum level c buf = do {
     t \<leftarrow> TYP c;
     if t = CEND then Some (c, buf)
     else do {
       buf \<leftarrow> bufprint (''  '' @ replicate (level - 1) CHR '' '') buf;
       name \<leftarrow> NAME_padded level c;
       (c1, buf1) \<leftarrow> (if t = CMSTRUCT
             then do {
               b \<leftarrow> ld (cur_m c) (cur_l c);
               if b = 0
               then do {
                 buf \<leftarrow> bufprint (name @ '' = default'' @ NL) buf;
                 c1 \<leftarrow> jumpcstruct (c\<lparr>cur_l := cur_l c + 1\<rparr>);
                 Some (c1, buf) }
               else do {
                 buf \<leftarrow> bufprint (name @ NL) buf;
                 protocol_message_2_pars isalnum (level + 1)
                   (c\<lparr>cur_l := (if b = 255 then cur_l c + 3 else cur_l c + 1),
                      cur_p := cur_p c + 1\<rparr>) buf } }
             else print_par isalnum t name c buf);
       protocol_message_2_pars isalnum level (c1\<lparr>cur_p := cur_p c1 + 1\<rparr>) buf1 } }"
  by pat_completeness auto

lemma protocol_message_2_pars_cursor:
  "protocol_message_2_pars_dom (isalnum, level, c, buf) \<Longrightarrow>
     protocol_message_2_pars isalnum level c buf = Some (c', buf') \<Longrightarrow>
     cur_p c \<le> cur_p c' \<and> cur_par c' = cur_par c"
proof (induction isalnum level c buf arbitrary: c' buf' rule: protocol_message_2_pars.pinduct)
  case (1 isalnum level c buf)
  from "1.prems" "1.hyps" obtain t where t: "TYP c = Some t"
    by (auto simp: protocol_message_2_pars.psimps)
  show ?case
  proof (cases "t = CEND")
    case True
    with t "1.prems" "1.hyps" show ?thesis by (simp add: protocol_message_2_pars.psimps)
  next
    case False
    with t "1.prems" "1.hyps" obtain buf1 name r
      where b: "bufprint (''  '' @ replicate (level - 1) CHR '' '') buf = Some buf1"
      and n: "NAME_padded level c = Some name"
      and c1: "(if t = CMSTRUCT
             then do {
               b \<leftarrow> ld (cur_m c) (cur_l c);
               if b = 0
               then do {
                 buf \<leftarrow> bufprint (name @ '' = default'' @ NL) buf1;
                 c1 \<leftarrow> jumpcstruct (c\<lparr>cur_l := cur_l c + 1\<rparr>);
                 Some (c1, buf) }
               else do {
                 buf \<leftarrow> bufprint (name @ NL) buf1;
                 protocol_message_2_pars isalnum (level + 1)
                   (c\<lparr>cur_l := (if b = 255 then cur_l c + 3 else cur_l c + 1),
                      cur_p := cur_p c + 1\<rparr>) buf } }
             else print_par isalnum t name c buf1) = Some r"
      and rest: "protocol_message_2_pars isalnum level ((fst r)\<lparr>cur_p := cur_p (fst r) + 1\<rparr>) (snd r) = Some (c', buf')"
      by (auto simp only: protocol_message_2_pars.psimps [OF "1.hyps"] if_False Option.bind_eq_Some_conv
          option.inject case_prod_unfold)
    obtain c1 buf2 where r: "(c1, buf2) = r" by (cases r) auto
    have step: "cur_p c \<le> cur_p c1 \<and> cur_par c1 = cur_par c"
    proof (cases "t = CMSTRUCT")
      case True
      with c1 obtain x where x: "ld (cur_m c) (cur_l c) = Some x" by auto
      show ?thesis
      proof (cases "x = 0")
        case True
        with \<open>t = CMSTRUCT\<close> c1 x r show ?thesis by (auto dest: jumpcstruct_cursor)
      next
        case x0: False
        with True c1 x r obtain buf3 where b3: "bufprint (name @ NL) buf1 = Some buf3"
          and r3: "protocol_message_2_pars isalnum (level + 1)
                   (c\<lparr>cur_l := (if x = 255 then cur_l c + 3 else cur_l c + 1),
                      cur_p := cur_p c + 1\<rparr>) buf3 = Some (c1, buf2)" by auto
        from "1.IH"(1) [OF t False b n True x x0 b3 r3] show ?thesis by simp
      qed
    next
      case other: False
      with c1 r show ?thesis by (auto dest: print_par_frame)
    qed
    have "protocol_message_2_pars isalnum level (c1\<lparr>cur_p := cur_p c1 + 1\<rparr>) buf2 = Some (c', buf')"
      using rest r by auto
    from "1.IH"(2) [OF t False b n c1 r this] step show ?thesis by simp
  qed
qed

termination protocol_message_2_pars
proof (relation "measure (\<lambda>(_, _, c, _). length (cur_par c) - cur_p c)", goal_cases)
  case (2 isalnum level c buf t)
  then show ?case by (auto dest: TYP_SomeD)
next
  case (3 isalnum level c buf t buf1 name y c1 buf2)
  then have lt: "cur_p c < length (cur_par c)" by (auto dest: TYP_SomeD)
  have "cur_p c \<le> cur_p c1 \<and> cur_par c1 = cur_par c"
  proof (cases "t = CMSTRUCT")
    case True
    with 3 obtain b where b: "ld (cur_m c) (cur_l c) = Some b" by auto
    show ?thesis
    proof (cases "b = 0")
      case True
      with \<open>t = CMSTRUCT\<close> 3 b show ?thesis by (auto dest!: jumpcstruct_cursor)
    next
      case False
      with True 3 b obtain buf3 where "bufprint (name @ NL) buf1 = Some buf3"
        and "protocol_message_2_pars isalnum (level + 1)
              (c\<lparr>cur_l := (if b = 255 then cur_l c + 3 else cur_l c + 1), cur_p := cur_p c + 1\<rparr>) buf3 =
            Some (c1, buf2)" by auto
      with 3(7) [OF True b False] show ?thesis by (auto dest!: protocol_message_2_pars_cursor)
    qed
  next
    case False
    with 3 show ?thesis by (auto dest!: print_par_frame)
  qed
  with lt show ?case by auto
qed simp

declare protocol_message_2_pars.simps [simp del]

definition mname_at :: "u8 \<Rightarrow> u8 \<Rightarrow> string option" where
  "mname_at cmd sc = map_of mnames (command_2_index cmd sc)"

definition capi_message2str :: "(u8 \<Rightarrow> bool) \<Rightarrow> bytes \<Rightarrow> string option" where
  "capi_message2str isalnum msg = do {
     let c = zero_cmsg\<lparr>cur_m := msg, cur_l := 8, cur_p := 0\<rparr>;
     b \<leftarrow> ld msg 4;
     let c = c\<lparr>Command := b\<rparr>;
     b \<leftarrow> ld msg 5;
     let c = c\<lparr>Subcommand := b\<rparr>;
     par \<leftarrow> cpars_at (command_2_index (Command c) (Subcommand c));
     let c = c\<lparr>cur_par := par\<rparr>;
     name \<leftarrow> mname_at (Command c) (Subcommand c);
     a \<leftarrow> CAPIMSG_U16 msg 2;
     n \<leftarrow> CAPIMSG_U16 msg 6;
     len \<leftarrow> CAPIMSG_U16 msg 0;
     buf \<leftarrow> bufprint (pad_right 26 name @ '' ID='' @ decs 3 (unat a) @ '' #0x'' @ hexs 4 (unat n) @
               '' LEN='' @ decs 4 (unat len) @ NL) [];
     (c, buf) \<leftarrow> protocol_message_2_pars isalnum 1 c buf;
     Some buf }"

definition capi_cmsg2str :: "(u8 \<Rightarrow> bool) \<Rightarrow> cmsg \<Rightarrow> (cmsg \<times> string) option" where
  "capi_cmsg2str isalnum c = do {
     let c = c\<lparr>cur_l := 8, cur_p := 0\<rparr>;
     name \<leftarrow> mname_at (Command c) (Subcommand c);
     a \<leftarrow> CAPIMSG_U16 (cur_m c) 2;
     n \<leftarrow> CAPIMSG_U16 (cur_m c) 6;
     len \<leftarrow> CAPIMSG_U16 (cur_m c) 0;
     buf \<leftarrow> bufprint (name @ '' ID='' @ decs 3 (unat a) @ '' #0x'' @ hexs 4 (unat n) @
               '' LEN='' @ decs 4 (unat len) @ NL) [];
     protocol_message_2_pars isalnum 1 c buf }"

section \<open>Printing reads what decoding reads\<close>

text \<open>Two \<open>_cmsg\<close>s read the same message at the same place.\<close>

definition same_cursor :: "cmsg \<Rightarrow> cmsg \<Rightarrow> bool" where
  "same_cursor c c' \<longleftrightarrow>
     cur_m c' = cur_m c \<and> cur_par c' = cur_par c \<and> cur_l c' = cur_l c \<and> cur_p c' = cur_p c"

lemma same_cursor_TYP:
  assumes "same_cursor c d"
  shows "TYP d = TYP c" and "OFF d = OFF c"
  using assms by (simp_all add: same_cursor_def TYP_def OFF_def)

lemma jump_loop_same:
  "jump_loop layer c = Some c' \<Longrightarrow> same_cursor c d \<Longrightarrow> \<exists>d'. jump_loop layer d = Some d' \<and> same_cursor c' d'"
proof (induction layer c arbitrary: d c' rule: jump_loop.induct)
  case (1 layer c)
  show ?case
  proof (cases "layer = 0")
    case True
    with 1 show ?thesis by (auto simp: jump_loop.simps)
  next
    case False
    let ?c = "c\<lparr>cur_p := cur_p c + 1\<rparr>" and ?d = "d\<lparr>cur_p := cur_p d + 1\<rparr>"
    from "1.prems" False obtain t where t: "TYP ?c = Some t"
      and j: "jump_loop (case t of CMSTRUCT \<Rightarrow> layer + 1 | CEND \<Rightarrow> layer - 1 | _ \<Rightarrow> layer) ?c = Some c'"
      by (auto simp: jump_loop.simps [of layer c] Let_def)
    have s: "same_cursor ?c ?d" using "1.prems"(2) by (simp add: same_cursor_def)
    with t have "TYP ?d = Some t" by (simp add: same_cursor_TYP)
    with "1.IH" [OF False refl t j s] False show ?thesis
      by (simp add: jump_loop.simps [of layer d] Let_def)
  qed
qed

lemma jumpcstruct_same:
  assumes "jumpcstruct c = Some c'" and "same_cursor c d"
  shows "\<exists>d'. jumpcstruct d = Some d' \<and> same_cursor c' d'"
proof -
  have "same_cursor (c\<lparr>cur_p := cur_p c + 1\<rparr>) (d\<lparr>cur_p := cur_p d + 1\<rparr>)"
    using assms(2) by (simp add: same_cursor_def)
  with assms(1) jump_loop_same show ?thesis by (auto simp: jumpcstruct_def)
qed

lemma print_par_same:
  assumes "print_par isalnum t name c buf = Some (c', buf')" and "same_cursor c d"
  shows "\<exists>d'. get_par t f d = Some d' \<and> same_cursor c' d'"
  using assms by (auto simp: print_par_def get_par_def same_cursor_def split: ctyp.splits)

lemma OFF_ex:
  assumes "TYP c = Some t" and "t \<noteq> CEND"
  shows "\<exists>f. OFF c = Some f"
proof -
  have "list_all (\<lambda>(t, f). t = CEND \<or> f \<noteq> None) cdef" by code_simp
  with assms show ?thesis
    by (fastforce simp: TYP_def OFF_def buf_simps list_all_length split: prod.splits)
qed

lemma message_2_pars_same:
  "protocol_message_2_pars isalnum level c buf = Some (c', buf') \<Longrightarrow> same_cursor c d \<Longrightarrow>
     \<exists>d'. message_2_pars d = Some d' \<and> same_cursor c' d'"
proof (induction isalnum level c buf arbitrary: c' buf' d rule: protocol_message_2_pars.induct)
  case (1 isalnum level c buf)
  from "1.prems"(1) obtain t where t: "TYP c = Some t"
    by (auto simp: protocol_message_2_pars.simps [of isalnum level c])
  with "1.prems"(2) have td: "TYP d = Some t" by (simp add: same_cursor_TYP)
  show ?case
  proof (cases "t = CEND")
    case True
    with t td "1.prems" show ?thesis
      by (simp add: protocol_message_2_pars.simps [of isalnum level c] message_2_pars.simps [of d])
  next
    case False
    with t "1.prems"(1) obtain buf1 name r
      where b: "bufprint (''  '' @ replicate (level - 1) CHR '' '') buf = Some buf1"
      and n: "NAME_padded level c = Some name"
      and c1: "(if t = CMSTRUCT
             then do {
               b \<leftarrow> ld (cur_m c) (cur_l c);
               if b = 0
               then do {
                 buf \<leftarrow> bufprint (name @ '' = default'' @ NL) buf1;
                 c1 \<leftarrow> jumpcstruct (c\<lparr>cur_l := cur_l c + 1\<rparr>);
                 Some (c1, buf) }
               else do {
                 buf \<leftarrow> bufprint (name @ NL) buf1;
                 protocol_message_2_pars isalnum (level + 1)
                   (c\<lparr>cur_l := (if b = 255 then cur_l c + 3 else cur_l c + 1),
                      cur_p := cur_p c + 1\<rparr>) buf } }
             else print_par isalnum t name c buf1) = Some r"
      and rest: "protocol_message_2_pars isalnum level ((fst r)\<lparr>cur_p := cur_p (fst r) + 1\<rparr>) (snd r) = Some (c', buf')"
      by (auto simp only: protocol_message_2_pars.simps [of isalnum level c buf] if_False
          Option.bind_eq_Some_conv option.inject case_prod_unfold)
    obtain c1 buf2 where r: "(c1, buf2) = r" by (cases r) auto
    have rest': "protocol_message_2_pars isalnum level (c1\<lparr>cur_p := cur_p c1 + 1\<rparr>) buf2 = Some (c', buf')"
      using rest r by auto
    from OFF_ex [OF t False] "1.prems"(2) obtain f where f: "OFF d = Some f" by (auto simp: same_cursor_TYP)
    have "\<exists>d1. (if t = CMSTRUCT
             then do {
               b \<leftarrow> ld (cur_m d) (cur_l d);
               if b = 0
               then jumpcstruct (d\<lparr>mstructs := (mstructs d)(f := CAPI_DEFAULT), cur_l := cur_l d + 1\<rparr>)
               else message_2_pars
                      (d\<lparr>mstructs := (mstructs d)(f := CAPI_COMPOSE),
                         cur_l := (if b = 255 then cur_l d + 3 else cur_l d + 1),
                         cur_p := cur_p d + 1\<rparr>) }
             else get_par t f d) = Some d1 \<and> same_cursor c1 d1" (is "\<exists>d1. ?body = Some d1 \<and> _")
    proof (cases "t = CMSTRUCT")
      case True
      with c1 obtain x where x: "ld (cur_m c) (cur_l c) = Some x" by auto
      with "1.prems"(2) have xd: "ld (cur_m d) (cur_l d) = Some x" by (simp add: same_cursor_def)
      show ?thesis
      proof (cases "x = 0")
        case x0: True
        with True c1 x r have j: "jumpcstruct (c\<lparr>cur_l := cur_l c + 1\<rparr>) = Some c1" by auto
        have "same_cursor (c\<lparr>cur_l := cur_l c + 1\<rparr>)
            (d\<lparr>mstructs := (mstructs d)(f := CAPI_DEFAULT), cur_l := cur_l d + 1\<rparr>)"
          using "1.prems"(2) by (simp add: same_cursor_def)
        from jumpcstruct_same [OF j this] True x0 xd show ?thesis by simp
      next
        case x0: False
        with True c1 x r obtain buf3 where b3: "bufprint (name @ NL) buf1 = Some buf3"
          and r3: "protocol_message_2_pars isalnum (level + 1)
                   (c\<lparr>cur_l := (if x = 255 then cur_l c + 3 else cur_l c + 1),
                      cur_p := cur_p c + 1\<rparr>) buf3 = Some (c1, buf2)" by auto
        have "same_cursor (c\<lparr>cur_l := (if x = 255 then cur_l c + 3 else cur_l c + 1), cur_p := cur_p c + 1\<rparr>)
            (d\<lparr>mstructs := (mstructs d)(f := CAPI_COMPOSE),
               cur_l := (if x = 255 then cur_l d + 3 else cur_l d + 1), cur_p := cur_p d + 1\<rparr>)"
          using "1.prems"(2) by (simp add: same_cursor_def)
        from "1.IH"(1) [OF t False b n True x x0 b3 r3 this] True x0 xd show ?thesis by simp
      qed
    next
      case False
      with c1 r print_par_same [OF _ "1.prems"(2)] show ?thesis by auto
    qed
    then obtain d1 where b1: "?body = Some d1" and s1: "same_cursor c1 d1" by blast
    have d1: "message_2_pars d = message_2_pars (d1\<lparr>cur_p := cur_p d1 + 1\<rparr>)"
      by (simp only: message_2_pars.simps [of d] td f b1 False if_False Option.bind.simps)
    from s1 have "same_cursor (c1\<lparr>cur_p := cur_p c1 + 1\<rparr>) (d1\<lparr>cur_p := cur_p d1 + 1\<rparr>)"
      by (simp add: same_cursor_def)
    from "1.IH"(2) [OF t False b n c1 r rest' this] d1 show ?thesis by simp
  qed
qed

section \<open>The print buffer\<close>

text \<open>Printing appends and stays inside the buffer.\<close>

definition grows :: "string \<Rightarrow> string \<Rightarrow> bool" where
  "grows buf buf' \<longleftrightarrow> (\<exists>r. buf' = buf @ r) \<and> (length buf < BUF_SIZE \<longrightarrow> length buf' < BUF_SIZE)"

lemma grows_refl [simp, intro]: "grows buf buf"
  by (simp add: grows_def)

lemma grows_trans [trans]: "grows a b \<Longrightarrow> grows b c \<Longrightarrow> grows a c"
  by (auto simp: grows_def)

lemma grows_length: "grows a b \<Longrightarrow> length a \<le> length b"
  by (auto simp: grows_def)

lemma bufprint_SomeD: "bufprint s buf = Some buf' \<Longrightarrow> buf' = buf @ s \<and> length buf' < BUF_SIZE"
  by (auto simp: bufprint_def split: if_splits)

lemma bufprint_grows: "bufprint s buf = Some buf' \<Longrightarrow> grows buf buf'"
  by (drule bufprint_SomeD) (auto simp: grows_def)

lemma printstructlen_grows:
  "printstructlen isalnum m len hex buf = Some buf' \<Longrightarrow>
     grows buf buf' \<and> length buf + len \<le> length buf'"
proof (induction isalnum m len hex buf arbitrary: buf' rule: printstructlen.induct)
  case (1 isalnum m hex buf)
  then show ?case by (auto dest: bufprint_SomeD bufprint_grows split: if_splits)
next
  case (2 isalnum m len hex buf)
  from "2.prems"(1) obtain b where b: "ld m 0 = Some b" by auto
  show ?case
  proof (cases "isalnum b \<or> b = 0x20")
    case True
    with b "2.prems" obtain buf1 buf2 where 1: "(if hex then bufprint ''>'' buf else Some buf) = Some buf1"
      and 2: "bufprint [char_of (unat b)] buf1 = Some buf2"
      and r: "printstructlen isalnum (tl m) len False buf2 = Some buf'" by auto
    from 1 have "grows buf buf1" by (auto dest: bufprint_grows split: if_splits)
    with bufprint_SomeD [OF 2] bufprint_grows [OF 2] "2.IH"(1) [OF b True 1 2 r] show ?thesis
      by (auto dest: grows_trans grows_length)
  next
    case False
    with b "2.prems" obtain buf1
      where 1: "bufprint ((if \<not> hex then ''<'' else '' '') @ hexs 2 (unat b)) buf = Some buf1"
      and r: "printstructlen isalnum (tl m) len True buf1 = Some buf'" by auto
    from bufprint_SomeD [OF 1] bufprint_grows [OF 1] "2.IH"(2) [OF b False 1 r] show ?thesis
      by (auto dest: grows_trans split: if_splits)
  qed
qed

lemma print_par_grows: "print_par isalnum t name c buf = Some (c', buf') \<Longrightarrow> grows buf buf'"
  by (auto simp: print_par_def printstruct_def dest!: bufprint_grows printstructlen_grows
      split: ctyp.splits if_splits) (blast intro: grows_trans)+

lemma protocol_message_2_pars_grows:
  "protocol_message_2_pars isalnum level c buf = Some (c', buf') \<Longrightarrow> grows buf buf'"
proof (induction isalnum level c buf arbitrary: c' buf' rule: protocol_message_2_pars.induct)
  case (1 isalnum level c buf)
  from "1.prems"(1) obtain t where t: "TYP c = Some t"
    by (auto simp: protocol_message_2_pars.simps [of isalnum level c])
  show ?case
  proof (cases "t = CEND")
    case True
    with t "1.prems" show ?thesis by (simp add: protocol_message_2_pars.simps [of isalnum level c])
  next
    case False
    with t "1.prems"(1) obtain buf1 name r
      where b: "bufprint (''  '' @ replicate (level - 1) CHR '' '') buf = Some buf1"
      and n: "NAME_padded level c = Some name"
      and c1: "(if t = CMSTRUCT
             then do {
               b \<leftarrow> ld (cur_m c) (cur_l c);
               if b = 0
               then do {
                 buf \<leftarrow> bufprint (name @ '' = default'' @ NL) buf1;
                 c1 \<leftarrow> jumpcstruct (c\<lparr>cur_l := cur_l c + 1\<rparr>);
                 Some (c1, buf) }
               else do {
                 buf \<leftarrow> bufprint (name @ NL) buf1;
                 protocol_message_2_pars isalnum (level + 1)
                   (c\<lparr>cur_l := (if b = 255 then cur_l c + 3 else cur_l c + 1),
                      cur_p := cur_p c + 1\<rparr>) buf } }
             else print_par isalnum t name c buf1) = Some r"
      and rest: "protocol_message_2_pars isalnum level ((fst r)\<lparr>cur_p := cur_p (fst r) + 1\<rparr>) (snd r) = Some (c', buf')"
      by (auto simp only: protocol_message_2_pars.simps [of isalnum level c buf] if_False
          Option.bind_eq_Some_conv option.inject case_prod_unfold)
    obtain c1 buf2 where r: "(c1, buf2) = r" by (cases r) auto
    have "grows buf1 buf2"
    proof (cases "t = CMSTRUCT")
      case True
      with c1 obtain x where x: "ld (cur_m c) (cur_l c) = Some x" by auto
      show ?thesis
      proof (cases "x = 0")
        case x0: True
        with True c1 x r show ?thesis by (auto dest: bufprint_grows)
      next
        case x0: False
        with True c1 x r obtain buf3 where b3: "bufprint (name @ NL) buf1 = Some buf3"
          and r3: "protocol_message_2_pars isalnum (level + 1)
                   (c\<lparr>cur_l := (if x = 255 then cur_l c + 3 else cur_l c + 1),
                      cur_p := cur_p c + 1\<rparr>) buf3 = Some (c1, buf2)" by auto
        from grows_trans [OF bufprint_grows [OF b3] "1.IH"(1) [OF t False b n True x x0 b3 r3]]
        show ?thesis .
      qed
    next
      case False
      with c1 r show ?thesis by (auto dest: print_par_grows)
    qed
    moreover have "protocol_message_2_pars isalnum level (c1\<lparr>cur_p := cur_p c1 + 1\<rparr>) buf2 = Some (c', buf')"
      using rest r by auto
    from "1.IH"(2) [OF t False b n c1 r this] have "grows buf2 buf'" .
    ultimately show ?thesis using bufprint_grows [OF b] by (blast intro: grows_trans)
  qed
qed

lemma message_2_pars_header:
  "message_2_pars c = Some c' \<Longrightarrow> Command c' = Command c \<and> Subcommand c' = Subcommand c"
proof (induction c arbitrary: c' rule: message_2_pars.induct)
  case (1 c)
  from "1.prems" obtain t where t: "TYP c = Some t" by (auto simp: message_2_pars.simps [of c])
  show ?case
  proof (cases "t = CEND")
    case True
    with t "1.prems" show ?thesis by (simp add: message_2_pars.simps [of c])
  next
    case False
    with t "1.prems" obtain f c1 where f: "OFF c = Some f"
      and c1: "(if t = CMSTRUCT
             then do {
               b \<leftarrow> ld (cur_m c) (cur_l c);
               if b = 0
               then jumpcstruct (c\<lparr>mstructs := (mstructs c)(f := CAPI_DEFAULT), cur_l := cur_l c + 1\<rparr>)
               else message_2_pars
                      (c\<lparr>mstructs := (mstructs c)(f := CAPI_COMPOSE),
                         cur_l := (if b = 255 then cur_l c + 3 else cur_l c + 1),
                         cur_p := cur_p c + 1\<rparr>) }
             else get_par t f c) = Some c1"
      and rest: "message_2_pars (c1\<lparr>cur_p := cur_p c1 + 1\<rparr>) = Some c'"
      by (auto simp only: message_2_pars.simps [of c] if_False Option.bind_eq_Some_conv option.inject)
    have "Command c1 = Command c \<and> Subcommand c1 = Subcommand c"
    proof (cases "t = CMSTRUCT")
      case True
      with c1 obtain b where b: "ld (cur_m c) (cur_l c) = Some b" by auto
      show ?thesis
      proof (cases "b = 0")
        case b0: True
        with True c1 b show ?thesis by (auto dest!: jumpcstruct_frame) (metis cmsg.select_convs cmsg.update_convs cmsg.surjective)+
      next
        case b0: False
        with True c1 b have r: "message_2_pars
                      (c\<lparr>mstructs := (mstructs c)(f := CAPI_COMPOSE),
                         cur_l := (if b = 255 then cur_l c + 3 else cur_l c + 1),
                         cur_p := cur_p c + 1\<rparr>) = Some c1" by simp
        from "1.IH"(1) [OF t False f True b b0 r] show ?thesis by simp
      qed
    next
      case False
      with c1 show ?thesis by (auto simp: get_par_def split: ctyp.splits)
    qed
    with "1.IH"(2) [OF t False f c1 rest] show ?thesis by simp
  qed
qed

text \<open>A message that can be printed can be decoded: \<open>capi_message2str\<close> walks over exactly
  the bytes that \<open>capi_message2cmsg\<close> reads, and its text begins with the name of the message
  and is shorter than the static buffer.\<close>

theorem capi_message2str_decodes:
  assumes "capi_message2str isalnum msg = Some s"
  shows "\<exists>c name r. capi_message2cmsg msg = Some c \<and>
     capi_cmd2str (Command c) (Subcommand c) = Some name \<and> s = pad_right 26 name @ r \<and> length s < BUF_SIZE"
proof -
  from assms obtain cmd sc par name a n len buf0 c where cmd: "ld msg 4 = Some cmd" and sc: "ld msg 5 = Some sc"
    and par: "cpars_at (command_2_index cmd sc) = Some par" and name: "mname_at cmd sc = Some name"
    and a: "CAPIMSG_U16 msg 2 = Some a" and n: "CAPIMSG_U16 msg 6 = Some n" and len: "CAPIMSG_U16 msg 0 = Some len"
    and b: "bufprint (pad_right 26 name @ '' ID='' @ decs 3 (unat a) @ '' #0x'' @ hexs 4 (unat n) @
               '' LEN='' @ decs 4 (unat len) @ NL) [] = Some buf0"
    and p: "protocol_message_2_pars isalnum 1
      (zero_cmsg\<lparr>cur_m := msg, cur_l := 8, cur_p := 0, Command := cmd, Subcommand := sc, cur_par := par\<rparr>) buf0 =
      Some (c, s)"
    unfolding capi_message2str_def Let_def
    by auto
  let ?c = "zero_cmsg\<lparr>cur_m := msg, cur_l := 8, cur_p := 0, Command := cmd, Subcommand := sc, cur_par := par\<rparr>"
  have "same_cursor ?c ?c" by (simp add: same_cursor_def)
  from message_2_pars_same [OF p this] obtain d where d: "message_2_pars ?c = Some d" by auto
  with cmd sc par a n len obtain c' where c': "capi_message2cmsg msg = Some c'"
    and "Command c' = Command d" and "Subcommand c' = Subcommand d"
    by (simp add: capi_message2cmsg_def)
  moreover from message_2_pars_header [OF d] have "Command d = cmd" and "Subcommand d = sc" by simp_all
  ultimately have "capi_cmd2str (Command c') (Subcommand c') = Some name"
    using name by (simp add: capi_cmd2str_def mname_at_def)
  moreover from bufprint_SomeD [OF b] protocol_message_2_pars_grows [OF p]
  have "\<exists>r. s = pad_right 26 name @ r" and "length s < BUF_SIZE" by (auto simp: grows_def)
  ultimately show ?thesis using c' by blast
qed

definition sample_active_resp :: bytes where
  "sample_active_resp = [12, 0, 1, 0, CAPI_CONNECT_ACTIVE, CAPI_RESP, 7, 0, 1, 1, 0, 0]"

lemma sample_active_resp_text:
  "capi_message2str (\<lambda>_. False) sample_active_resp =
     Some (''CONNECT_ACTIVE_RESP        ID=001 #0x0007 LEN=0012'' @ NL @
           ''  Controller/PLCI/NCCI            = 0x101'' @ NL)"
  by code_simp

theorem capi_message2str_decodes_witness:
  "\<exists>c name r. capi_message2cmsg sample_active_resp = Some c \<and>
     capi_cmd2str (Command c) (Subcommand c) = Some name \<and>
     ''CONNECT_ACTIVE_RESP        ID=001 #0x0007 LEN=0012'' @ NL @
       ''  Controller/PLCI/NCCI            = 0x101'' @ NL = pad_right 26 name @ r"
  using capi_message2str_decodes [OF sample_active_resp_text] by blast

text \<open>A structure parameter too long for the print buffer overruns it: \<open>printstruct\<close> has no bound
  on the length byte or word that it takes from the message.\<close>

theorem printstruct_overrun:
  assumes "struct_len m = Some n" and "BUF_SIZE + 3 \<le> n" and "length buf < BUF_SIZE"
  shows "printstruct isalnum m buf = None"
proof (cases "printstruct isalnum m buf")
  case (Some buf')
  with assms(1) have "n \<le> (length buf' - length buf) + 3 \<and> grows buf buf'"
    by (auto simp: printstruct_def struct_len_def buf_simps dest!: printstructlen_grows split: if_splits)
  with assms(2,3) show ?thesis by (auto simp: grows_def)
qed simp

theorem printstruct_overrun_witness:
  "printstruct (\<lambda>b. False) [0xff, 0xff, 0xff] [] = None"
  by (rule printstruct_overrun [where n = 65538]) (simp_all add: BUF_SIZE_def struct_len_def CAPIMSG_U16_def ld_def of_le16_def)

end
