(* ===== verification/CapiPrintText.thy ===== *)
theory CapiPrintText
  imports CapiPrint
begin

text \<open>
  What the message printer of \<^verbatim>\<open>capiutil.c\<close> prints: a reference definition of the text that goes over the
  parameters of a \<open>_cmsg\<close>, without a cursor and without a buffer, and the proof that the printer produces it from the bytes of
  the message, or overruns its buffer.
\<close>

section \<open>The text of a message\<close>

fun struct_text :: "(u8 \<Rightarrow> bool) \<Rightarrow> bool \<Rightarrow> bytes \<Rightarrow> string" where
  "struct_text isalnum hex [] = (if hex then ''>'' else [])"
| "struct_text isalnum hex (b # bs) =
     (if isalnum b \<or> b = 0x20
      then (if hex then ''>'' else []) @ [char_of (unat b)] @ struct_text isalnum False bs
      else (if hex then '' '' else ''<'') @ hexs 2 (unat b) @ struct_text isalnum True bs)"

definition struct_body :: "bytes \<Rightarrow> bytes" where
  "struct_body s = (if hd s \<noteq> 0xff then drop 1 s else drop 3 s)"

definition par_text :: "(u8 \<Rightarrow> bool) \<Rightarrow> cmsg \<Rightarrow> ctyp \<Rightarrow> cfield \<Rightarrow> string" where
  "par_text isalnum c t f =
     (case t of
        CWORD \<Rightarrow> '' = 0x'' @ hexs 1 (unat (words c f))
      | CDWORD \<Rightarrow> '' = 0x'' @ hexs 1 (unat (dwords c f))
      | CSTRUCT \<Rightarrow> '' = '' @ (let s = struct_bytes c f in if hd s = 0 then ''default'' else struct_text isalnum False (struct_body s))
      | _ \<Rightarrow> [])"

text \<open>The name of parameter \<open>i\<close>, indented and padded for its level.\<close>

definition name_text :: "nat \<Rightarrow> nat \<Rightarrow> string" where
  "name_text level i = (case pnames ! i of None \<Rightarrow> [] | Some n \<Rightarrow> pad_right (nat \<bar>29 + 3 - int level\<bar>) n)"

definition indent :: "nat \<Rightarrow> string" where
  "indent level = ''  '' @ replicate (level - 1) CHR '' ''"

fun item_text :: "(u8 \<Rightarrow> bool) \<Rightarrow> cmsg \<Rightarrow> nat \<Rightarrow> citem \<Rightarrow> string"
  and items_text :: "(u8 \<Rightarrow> bool) \<Rightarrow> cmsg \<Rightarrow> nat \<Rightarrow> citem list \<Rightarrow> string" where
  "item_text isalnum c level (Fld i) =
     (case cdef ! i of (t, None) \<Rightarrow> [] | (t, Some f) \<Rightarrow> indent level @ name_text level i @ par_text isalnum c t f @ NL)"
| "item_text isalnum c level (Grp i xs) =
     (case snd (cdef ! i) of None \<Rightarrow> [] | Some f \<Rightarrow> indent level @ name_text level i @
        (if mstructs c f = CAPI_DEFAULT then '' = default'' @ NL else NL @ items_text isalnum c (level + 1) xs))"
| "items_text isalnum c level [] = []"
| "items_text isalnum c level (x # xs) = item_text isalnum c level x @ items_text isalnum c level xs"

definition head_text :: "string \<Rightarrow> cmsg \<Rightarrow> nat \<Rightarrow> string" where
  "head_text name c len = pad_right 26 name @ '' ID='' @ decs 3 (unat (ApplId c)) @ '' #0x'' @ hexs 4 (unat (Messagenumber c)) @
     '' LEN='' @ decs 4 len @ NL"

definition capped :: "string \<Rightarrow> string option" where
  "capped s = (if length s < BUF_SIZE then Some s else None)"

lemma bufprint_capped: "bufprint s buf = capped (buf @ s)"
  by (simp add: bufprint_def capped_def)

lemma capped_bind: "Option.bind (capped s) f = (if length s < BUF_SIZE then f s else None)"
  by (simp add: capped_def)

section \<open>The printer prints this text\<close>

lemma printstructlen_text:
  assumes "length buf < BUF_SIZE"
  shows "printstructlen isalnum (bs @ r) (length bs) hex buf = capped (buf @ struct_text isalnum hex bs)"
  using assms
proof (induction bs arbitrary: hex buf)
  case Nil
  then show ?case by (simp add: bufprint_capped capped_def)
next
  case (Cons b bs)
  show ?case
  proof (cases "isalnum b \<or> b = 0x20")
    case True
    have "printstructlen isalnum (bs @ r) (length bs) False buf' = capped (buf' @ struct_text isalnum False bs)"
      if "length buf' < BUF_SIZE" for buf' using Cons.IH [OF that] .
    with True Cons.prems show ?thesis by (auto simp: ld_def bufprint_capped capped_bind) (auto simp: capped_def)
  next
    case False
    have "printstructlen isalnum (bs @ r) (length bs) True buf' = capped (buf' @ struct_text isalnum True bs)"
      if "length buf' < BUF_SIZE" for buf' using Cons.IH [OF that] .
    with False Cons.prems show ?thesis by (auto simp: ld_def bufprint_capped capped_bind) (auto simp: capped_def)
  qed
qed

lemma printstruct_text:
  assumes "length buf < BUF_SIZE" and "struct_len (s @ r) = Some (length s)" and "s \<noteq> []"
  shows "printstruct isalnum (s @ r) buf = capped (buf @ struct_text isalnum False (struct_body s))"
proof -
  from assms(3) obtain b s1 where s: "s = b # s1" by (cases s) auto
  show ?thesis
  proof (cases "b = 0xff")
    case False
    with assms(2) s have "unat b = length s1" by (simp add: struct_len_def ld_def)
    with s False printstructlen_text [OF assms(1), of isalnum s1 r False] show ?thesis
      by (simp add: printstruct_def ld_def struct_body_def)
  next
    case True
    with assms(2) s obtain w where w: "CAPIMSG_U16 (s @ r) 1 = Some w" and n: "3 + unat w = length s"
      by (auto simp: struct_len_def ld_def)
    have "drop 3 (s @ r) = drop 3 s @ r" and "length (drop 3 s) = unat w" using n by simp_all
    with s True w printstructlen_text [OF assms(1), of isalnum "drop 3 s" r False] show ?thesis
      by (simp add: printstruct_def ld_def struct_body_def)
  qed
qed

lemma print_par_text:
  assumes "simple_typ t" and "ready_par c0 t f" and "drop (cur_l c) (cur_m c) = enc_par c0 t f @ r" and "length buf < BUF_SIZE"
  shows "print_par isalnum t name c buf =
    map_option (\<lambda>s. (c\<lparr>cur_l := cur_l c + length (enc_par c0 t f)\<rparr>, s)) (capped (buf @ name @ par_text isalnum c0 t f @ NL))"
proof -
  from assms(1) consider "t = CWORD" | "t = CDWORD" | "t = CSTRUCT" by (auto simp: simple_typ_def)
  then show ?thesis
  proof cases
    case 1
    with assms(3) have "CAPIMSG_U16 (cur_m c) (cur_l c) = Some (words c0 f)"
      using CAPIMSG_U16_drop [of "cur_l c" "cur_m c" 0] by (simp add: enc_par_def)
    with 1 show ?thesis by (simp add: print_par_def par_text_def enc_par_def bufprint_capped capped_bind) (simp add: capped_def)
  next
    case 2
    with assms(3) have "CAPIMSG_U32 (cur_m c) (cur_l c) = Some (dwords c0 f)"
      using CAPIMSG_U32_drop [of "cur_l c" "cur_m c" 0] by (simp add: enc_par_def)
    with 2 show ?thesis by (simp add: print_par_def par_text_def enc_par_def bufprint_capped capped_bind) (simp add: capped_def)
  next
    case 3
    let ?s = "struct_bytes c0 f"
    from 3 assms(2,3) have d: "drop (cur_l c) (cur_m c) = ?s @ r" and n: "struct_len (?s @ r) = Some (length ?s)" and ne: "?s \<noteq> []"
      by (simp_all add: enc_par_def struct_bytes_len)
    have b: "ld (cur_m c) (cur_l c) = Some (hd ?s)"
      using ld_drop [of "cur_l c" "cur_m c" 0] ne unfolding d by (cases ?s) (simp_all add: ld_def)
    have p: "printstruct isalnum (?s @ r) b1 = capped (b1 @ struct_text isalnum False (struct_body ?s))" if "length b1 < BUF_SIZE" for b1
      by (rule printstruct_text [OF that n ne])
    show ?thesis using 3 d n b p
      by (auto simp: print_par_def par_text_def enc_par_def bufprint_capped capped_bind Let_def) (auto simp: capped_def)
  qed
qed

lemma pnames_named: "list_all (\<lambda>i. snd (cdef ! i) \<noteq> None \<longrightarrow> pnames ! i \<noteq> None) [0..<48] \<and> length pnames = 48"
  by code_simp

lemma NAME_at:
  assumes "cur_par c = pre @ i # post" and "cur_p c = length pre" and "i < length cdef" and "snd (cdef ! i) \<noteq> None"
  shows "NAME_padded level c = Some (name_text level i)"
proof -
  have "pnames ! i \<noteq> None" and "i < length pnames" using pnames_named assms(3,4) by (auto simp: list_all_iff length_cdef)
  with assms(1,2) show ?thesis by (auto simp: NAME_padded_def NAME_def name_text_def nth_opt_def)
qed

lemma protocol_end:
  assumes "cur_par c = pre @ 1 # post" and "cur_p c = length pre"
  shows "protocol_message_2_pars isalnum level c buf = Some (c, buf)"
  using TYP_at(1) [OF assms] cdef_1 by (subst protocol_message_2_pars.simps) (simp add: length_cdef)

text \<open>One parameter, and a list of them: the cursor moves over their bytes, and their text is in the buffer.\<close>

lemma protocol_text:
  shows "wf_item x \<Longrightarrow> ready c0 x \<Longrightarrow> cur_par c = pre @ flat x @ post \<Longrightarrow> cur_p c = length pre \<Longrightarrow>
      drop (cur_l c) (cur_m c) = enc c0 x @ r \<Longrightarrow> length buf < BUF_SIZE \<Longrightarrow>
      protocol_message_2_pars isalnum level c buf = Option.bind (capped (buf @ item_text isalnum c0 level x))
        (protocol_message_2_pars isalnum level (c\<lparr>cur_l := cur_l c + length (enc c0 x), cur_p := cur_p c + length (flat x)\<rparr>))"
    and "wf_items xs \<Longrightarrow> readys c0 xs \<Longrightarrow> cur_par c = pre @ flats xs @ post \<Longrightarrow> cur_p c = length pre \<Longrightarrow>
      drop (cur_l c) (cur_m c) = encs c0 xs @ r \<Longrightarrow> length buf < BUF_SIZE \<Longrightarrow>
      protocol_message_2_pars isalnum level c buf = Option.bind (capped (buf @ items_text isalnum c0 level xs))
        (protocol_message_2_pars isalnum level (c\<lparr>cur_l := cur_l c + length (encs c0 xs), cur_p := cur_p c + length (flats xs)\<rparr>))"
proof (induction x and xs arbitrary: c pre post r buf level and c pre post r buf level rule: flat_flats.induct)
  case (1 i)
  then obtain t f where i: "cdef ! i = (t, Some f)" and t: "simple_typ t" and il: "i < length cdef"
    by (cases "cdef ! i") auto
  with TYP_at [of c pre i post] 1 have T: "TYP c = Some t" by auto
  have N: "NAME_padded level c = Some (name_text level i)" by (rule NAME_at [of _ pre _ post]) (use 1 i il in simp_all)
  have ne: "t \<noteq> CEND" "t \<noteq> CMSTRUCT" using t by (auto simp: simple_typ_def)
  have P: "print_par isalnum t (name_text level i) c b1 = map_option (\<lambda>s. (c\<lparr>cur_l := cur_l c + length (enc_par c0 t f)\<rparr>, s))
      (capped (b1 @ name_text level i @ par_text isalnum c0 t f @ NL))" if "length b1 < BUF_SIZE" for b1
    by (rule print_par_text [OF t _ _ that]) (use 1 i in simp_all)
  show ?case
    unfolding protocol_message_2_pars.simps [of isalnum level c buf]
    using T N ne P i by (auto simp: bufprint_capped capped_bind indent_def) (auto simp: capped_def)
next
  case (2 i xs)
  then obtain f where i: "cdef ! i = (CMSTRUCT, Some f)" and il: "i < length cdef"
    and wf: "wf_items xs" by (cases "cdef ! i") auto
  with TYP_at [of c pre i "flats xs @ 1 # post"] "2.prems"(3,4) have T: "TYP c = Some CMSTRUCT" by auto
  have N: "NAME_padded level c = Some (name_text level i)"
    by (rule NAME_at [of _ pre _ "flats xs @ 1 # post"]) (use "2.prems" i il in simp_all)
  show ?case
  proof (cases "mstructs c0 f = CAPI_DEFAULT")
    case True
    let ?c1 = "c\<lparr>cur_l := cur_l c + 1\<rparr>"
    from True i "2.prems"(5) have b: "ld (cur_m c) (cur_l c) = Some 0"
      using ld_drop [of "cur_l c" "cur_m c" 0] by (simp add: ld_def)
    have "jumpcstruct ?c1 = Some (?c1\<lparr>cur_p := cur_p ?c1 + length (flats xs) + 1\<rparr>)"
      by (rule jumpcstruct_Grp [OF "2.prems"(1)]) (use "2.prems" in auto)
    then show ?thesis
      unfolding protocol_message_2_pars.simps [of isalnum level c buf]
      using T N b True i by (auto simp: bufprint_capped capped_bind indent_def)
  next
    case False
    let ?bs = "encs c0 xs"
    let ?b = "word_of_nat (length ?bs) :: u8"
    from False i "2.prems"(2) have n: "length ?bs < 255" and rdy: "readys c0 xs" by simp_all
    from encs_nonempty [OF "2.prems"(1) rdy] have "0 < length ?bs" by simp
    moreover from n have "unat ?b = length ?bs" by (simp add: unat_word_of_nat_u8)
    ultimately have b0: "?b \<noteq> 0" and b255: "?b \<noteq> 255" using n by auto
    from False i "2.prems"(5) have d: "drop (cur_l c) (cur_m c) = ?b # ?bs @ r" by simp
    then have b: "ld (cur_m c) (cur_l c) = Some ?b"
      using ld_drop [of "cur_l c" "cur_m c" 0] by (simp add: ld_def)
    let ?c1 = "c\<lparr>cur_l := cur_l c + 1, cur_p := cur_p c + 1\<rparr>"
    let ?c2 = "?c1\<lparr>cur_l := cur_l ?c1 + length ?bs, cur_p := cur_p ?c1 + length (flats xs)\<rparr>"
    have "drop (cur_l ?c1) (cur_m ?c1) = ?bs @ r"
      using arg_cong [OF d, of tl] by (simp add: drop_Suc tl_drop)
    with "2.IH" [OF wf rdy, of ?c1 "pre @ [i]" "1 # post" r] "2.prems"(3,4)
    have "protocol_message_2_pars isalnum (level + 1) ?c1 b1 = Option.bind (capped (b1 @ items_text isalnum c0 (level + 1) xs))
        (protocol_message_2_pars isalnum (level + 1) ?c2)" if "length b1 < BUF_SIZE" for b1 using that by simp
    moreover have "protocol_message_2_pars isalnum (level + 1) ?c2 b2 = Some (?c2, b2)" for b2
      by (rule protocol_end [of _ "pre @ i # flats xs" post]) (use "2.prems" in simp_all)
    ultimately show ?thesis
      unfolding protocol_message_2_pars.simps [of isalnum level c buf]
      using T N b b0 b255 False i by (auto simp: bufprint_capped capped_bind indent_def)
  qed
next
  case (3 c)
  have "c\<lparr>cur_l := cur_l c + length (encs c0 []), cur_p := cur_p c + length (flats [])\<rparr> = c" by simp
  with 3(6) show ?case by (simp only: items_text.simps append_Nil2 capped_bind if_True)
next
  case (4 x xs)
  let ?c1 = "c\<lparr>cur_l := cur_l c + length (enc c0 x), cur_p := cur_p c + length (flat x)\<rparr>"
  let ?c2 = "?c1\<lparr>cur_l := cur_l ?c1 + length (encs c0 xs), cur_p := cur_p ?c1 + length (flats xs)\<rparr>"
  have 1: "protocol_message_2_pars isalnum level c buf =
      Option.bind (capped (buf @ item_text isalnum c0 level x)) (protocol_message_2_pars isalnum level ?c1)"
    by (rule "4.IH"(1) [of _ pre "flats xs @ post" "encs c0 xs @ r"]) (use "4.prems" in simp_all)
  have "drop (cur_l ?c1) (cur_m ?c1) = drop (length (enc c0 x)) (drop (cur_l c) (cur_m c))" by (simp add: add.commute)
  with "4.prems"(5) have "drop (cur_l ?c1) (cur_m ?c1) = encs c0 xs @ r" by simp
  then have 2: "protocol_message_2_pars isalnum level ?c1 b1 = Option.bind (capped (b1 @ items_text isalnum c0 level xs))
      (protocol_message_2_pars isalnum level ?c2)" if "length b1 < BUF_SIZE" for b1
    using "4.IH"(2) [of ?c1 "pre @ flat x" post r b1 level] "4.prems" that by simp
  show ?case unfolding 1 using 2 by (auto simp: capped_bind add.assoc)
qed

text \<open>The same text from two \<open>_cmsg\<close>s that carry the same parameters.\<close>

lemma le16_inj: "le16 a = le16 b \<longleftrightarrow> a = b"
  unfolding le16_def by (auto intro: of_le16_le16 [of a, symmetric, THEN trans])

lemma le32_same: "le32 a = le32 b \<longleftrightarrow> a = b"
  unfolding le32_def by (auto intro: of_le32_le32 [of a, symmetric, THEN trans] simp: of_le32_le32)

lemma agree_text:
  shows "agree c d x \<Longrightarrow> wf_item x \<Longrightarrow> item_text isalnum d level x = item_text isalnum c level x"
    and "agrees c d xs \<Longrightarrow> wf_items xs \<Longrightarrow> items_text isalnum d level xs = items_text isalnum c level xs"
proof (induction x and xs arbitrary: level and level rule: flat_flats.induct)
  case (1 i)
  then obtain t f where i: "cdef ! i = (t, Some f)" and t: "simple_typ t" by (cases "cdef ! i") auto
  with 1 have "enc_par d t f = enc_par c t f" by (simp add: agree_par_def)
  with t i show ?case by (auto simp: simple_typ_def par_text_def enc_par_def le16_inj le32_same)
next
  case (2 i xs)
  then obtain f where "cdef ! i = (CMSTRUCT, Some f)" by (cases "cdef ! i") auto
  with 2 show ?case by (cases "mstructs c f") auto
qed auto

text \<open>C11: Printing a message prints what decoding it yields.  For every message of a known command whose parameters are complete,
  \<open>capi_message2cmsg\<close> gives back the parameters, and \<open>capi_message2str\<close> prints the name, the header and then one line for every
  parameter with its value, down into the composed structures, exactly as the reference text of the decoded
  \<open>_cmsg\<close> has it.  If this text does not fit in the static buffer of 8192 bytes with its NUL, the printer overruns the buffer.\<close>

theorem capi_message2str_text:
  assumes "layout (Command c) (Subcommand c) = Some xs" and "readys c xs" and "m = header_bytes c len @ encs c xs @ r"
  shows "\<exists>name d. capi_cmd2str (Command c) (Subcommand c) = Some name \<and> capi_message2cmsg m = Some d \<and> agrees c d xs \<and>
    capi_message2str isalnum m =
      (let s = head_text name d (len mod 65536) @ items_text isalnum d 1 xs in if length s < BUF_SIZE then Some s else None)"
proof -
  from layout_cases [OF assms(1)] have par: "cpars_at (command_2_index (Command c) (Subcommand c)) = Some (flats xs @ [1, 0])"
    and wf: "wf_items xs" by simp_all
  have "map fst cpars = map fst mnames" by code_simp
  then have "dom (map_of cpars) = dom (map_of mnames)" by (metis dom_map_of_conv_image_fst list.set_map)
  with par obtain name where name: "map_of mnames (command_2_index (Command c) (Subcommand c)) = Some name"
    by (auto simp: cpars_at_def)
  have hdr: "ld m 4 = Some (Command c)" "ld m 5 = Some (Subcommand c)" "CAPIMSG_U16 m 0 = Some (word_of_nat len)"
    "CAPIMSG_U16 m 2 = Some (ApplId c)" "CAPIMSG_U16 m 6 = Some (Messagenumber c)"
    by (simp_all add: assms(3) header_bytes_def le16_def CAPIMSG_U16_def ld_def)
  from capi_message2cmsg_enc [OF assms(1,2) refl refl, of len r] obtain d where d: "capi_message2cmsg m = Some d"
    "ApplId d = ApplId c" "Messagenumber d = Messagenumber c" "agrees c d xs" unfolding assms(3) by blast
  let ?c = "zero_cmsg\<lparr>cur_m := m, cur_l := 8, cur_p := 0, Command := Command c, Subcommand := Subcommand c, cur_par := flats xs @ [1, 0]\<rparr>"
  have lenw: "unat (word_of_nat len :: u16) = len mod 65536" by (simp add: unsigned_of_nat take_bit_eq_mod)
  have "protocol_message_2_pars isalnum 1 ?c buf = Option.bind (capped (buf @ items_text isalnum c 1 xs))
      (protocol_message_2_pars isalnum 1 (?c\<lparr>cur_l := 8 + length (encs c xs), cur_p := length (flats xs)\<rparr>))"
    if "length buf < BUF_SIZE" for buf
    using protocol_text(2) [OF wf assms(2), of ?c "[]" "[1, 0]" r buf] that by (simp add: assms(3))
  moreover have "protocol_message_2_pars isalnum 1 (?c\<lparr>cur_l := 8 + length (encs c xs), cur_p := length (flats xs)\<rparr>) b =
      Some (?c\<lparr>cur_l := 8 + length (encs c xs), cur_p := length (flats xs)\<rparr>, b)" for b
    by (rule protocol_end [of _ "flats xs" "[0]"]) simp_all
  ultimately have P: "protocol_message_2_pars isalnum 1 ?c buf =
      map_option (Pair (?c\<lparr>cur_l := 8 + length (encs c xs), cur_p := length (flats xs)\<rparr>)) (capped (buf @ items_text isalnum c 1 xs))"
    if "length buf < BUF_SIZE" for buf using that by (simp add: capped_bind) (simp add: capped_def)
  have "head_text name d (len mod 65536) = head_text name c (len mod 65536)" by (simp add: head_text_def d)
  moreover have "items_text isalnum d 1 xs = items_text isalnum c 1 xs" by (rule agree_text(2) [OF d(4) wf])
  moreover have "capi_message2str isalnum m = capped (head_text name c (len mod 65536) @ items_text isalnum c 1 xs)"
    using hdr par name P [of "head_text name c (len mod 65536)"]
    by (auto simp: capi_message2str_def mname_at_def Let_def lenw head_text_def bufprint_capped capped_bind) (auto simp: capped_def)
  moreover have "capi_cmd2str (Command c) (Subcommand c) = Some name" using name by (simp add: capi_cmd2str_def)
  ultimately show ?thesis using d(1,4) by (auto simp: capped_def Let_def)
qed

text \<open>An INFO_IND with a structure: characters are printed as they are, other bytes in hexadecimal.\<close>

definition demo_info :: cmsg where
  "demo_info = (capi_cmsg_header 1 CAPI_INFO CAPI_IND 7 0x101)\<lparr>words := (\<lambda>_. 0x70),
     structs := (\<lambda>_. Some [3, 0x81, 0x31, 0x32])\<rparr>"

theorem capi_message2str_text_witness:
  "capi_message2str (\<lambda>b. 0x30 \<le> b \<and> b \<le> 0x39) [18, 0, 1, 0, CAPI_INFO, CAPI_IND, 7, 0, 1, 1, 0, 0, 0x70, 0, 3, 0x81, 0x31, 0x32] =
    Some (''INFO_IND                   ID=001 #0x0007 LEN=0018'' @ NL @
      ''  Controller/PLCI/NCCI            = 0x101'' @ NL @
      ''  InfoNumber                      = 0x70'' @ NL @
      ''  InfoElement                     = <81>12'' @ NL)"
  (is "?p = Some ?s")
proof -
  let ?xs = "[Fld 3, Fld 38, Fld 36]" and ?al = "\<lambda>b. 0x30 \<le> b \<and> b \<le> (0x39 :: u8)"
  have l: "layout (Command demo_info) (Subcommand demo_info) = Some ?xs" and r: "readys demo_info ?xs"
    and m: "[18, 0, 1, 0, CAPI_INFO, CAPI_IND, 7, 0, 1, 1, 0, 0, 0x70, 0, 3, 0x81, 0x31, 0x32] = header_bytes demo_info 18 @ encs demo_info ?xs @ []"
    by code_simp+
  from capi_message2str_text [OF l r m, of ?al] obtain name d where n: "capi_cmd2str (Command demo_info) (Subcommand demo_info) = Some name"
    and a: "agrees demo_info d ?xs" and h: "capi_message2cmsg (header_bytes demo_info 18 @ encs demo_info ?xs @ []) = Some d"
    and p: "?p = (let s = head_text name d (18 mod 65536) @ items_text ?al d 1 ?xs in if length s < BUF_SIZE then Some s else None)"
    unfolding m by blast
  have "wf_items ?xs" by code_simp
  from agree_text(2) [OF a this] have it: "items_text ?al d 1 ?xs = items_text ?al demo_info 1 ?xs" .
  have "ApplId d = ApplId demo_info \<and> Messagenumber d = Messagenumber demo_info"
    using capi_message2cmsg_enc [OF l r refl refl, of 18 "[]"] h by auto
  then have hd: "head_text nn d k = head_text nn demo_info k" for nn k by (simp add: head_text_def)
  have nm: "capi_cmd2str (Command demo_info) (Subcommand demo_info) = Some ''INFO_IND''" by code_simp
  have nm: "name = ''INFO_IND''" using n nm by simp
  have s: "head_text ''INFO_IND'' demo_info 18 @ items_text ?al demo_info 1 ?xs = ?s" and len: "length ?s < BUF_SIZE" by code_simp+
  have mod: "18 mod 65536 = (18 :: nat)" by simp
  note p
  also have "(let s = head_text name d (18 mod 65536) @ items_text ?al d 1 ?xs in if length s < BUF_SIZE then Some s else None) =
      (let s = ?s in if length s < BUF_SIZE then Some s else None)"
    unfolding it hd nm mod s ..
  also have "\<dots> = Some ?s" unfolding Let_def by (rule if_P [OF len])
  finally show ?thesis .
qed

end
