(* ===== verification/CapiQueues.thy ===== *)
theory CapiQueues
  imports CapiPrelude "HOL-Library.Multiset"
begin

text \<open>
  The interface of a message queue, as the components of the CAPI use it: a sender appends, a reader takes from the
  front and may put a message back, and every operation is defined while the queue is in
  order.  The facts a client needs are proved once from the interface.
\<close>

text \<open>Taking up to \<open>n\<close> messages; an empty queue ends the run.\<close>

fun drain :: "('s \<Rightarrow> ('m option \<times> 's) option) \<Rightarrow> nat \<Rightarrow> 's \<Rightarrow> ('m list \<times> 's) option" where
  "drain deq 0 s = Some ([], s)"
| "drain deq (Suc n) s = do {
     (m, s) \<leftarrow> deq s;
     case m of
       None \<Rightarrow> Some ([], s)
     | Some m \<Rightarrow> do { (ms, s) \<leftarrow> drain deq n s; Some (m # ms, s) } }"

locale message_queue =
  fixes ok :: "'s \<Rightarrow> bool"
    and content :: "'s \<Rightarrow> 'm list"
    and enq :: "'m \<Rightarrow> 's \<Rightarrow> 's option"
    and deq :: "'s \<Rightarrow> ('m option \<times> 's) option"
    and unget :: "'m \<Rightarrow> 's \<Rightarrow> 's option"
  assumes enq_law: "ok s \<Longrightarrow> \<exists>s'. enq m s = Some s' \<and> ok s' \<and> content s' = content s @ [m]"
    and deq_empty_law: "ok s \<Longrightarrow> content s = [] \<Longrightarrow> deq s = Some (None, s)"
    and deq_law: "ok s \<Longrightarrow> content s = m # q \<Longrightarrow> \<exists>s'. deq s = Some (Some m, s') \<and> ok s' \<and> content s' = q"
    and unget_law: "ok s \<Longrightarrow> \<exists>s'. unget m s = Some s' \<and> ok s' \<and> content s' = m # content s"
begin

lemma enq_all: "ok s \<Longrightarrow> \<exists>s'. fold_opt enq ms s = Some s' \<and> ok s' \<and> content s' = content s @ ms"
proof (induction ms arbitrary: s)
  case (Cons m ms)
  from enq_law [OF Cons.prems] obtain s1 where s1: "enq m s = Some s1" "ok s1" "content s1 = content s @ [m]" by blast
  from Cons.IH [OF s1(2)] s1 show ?case by auto
qed simp

lemma drain_all:
  assumes "ok s" and "length (content s) \<le> n"
  shows "\<exists>s'. drain deq n s = Some (content s, s') \<and> ok s' \<and> content s' = []"
  using assms
proof (induction n arbitrary: s)
  case 0
  then show ?case by simp
next
  case (Suc n)
  show ?case
  proof (cases "content s")
    case Nil
    with deq_empty_law [OF Suc.prems(1)] Suc.prems(1) show ?thesis by simp
  next
    case (Cons m q)
    from deq_law [OF Suc.prems(1) Cons] obtain s1 where s1: "deq s = Some (Some m, s1)" "ok s1" "content s1 = q" by blast
    from Suc.IH [OF s1(2)] Suc.prems(2) Cons s1 show ?thesis by auto
  qed
qed

text \<open>First in, first out.\<close>

lemma fifo:
  assumes "ok s"
  shows "\<exists>s1 s2. fold_opt enq ms s = Some s1 \<and>
    drain deq (length (content s) + length ms) s1 = Some (content s @ ms, s2) \<and> ok s2 \<and> content s2 = []"
proof -
  from enq_all [OF assms] obtain s1 where s1: "fold_opt enq ms s = Some s1" "ok s1" "content s1 = content s @ ms" by blast
  from drain_all [OF s1(2), of "length (content s) + length ms"] s1 show ?thesis by auto
qed

lemma unget_deq:
  assumes "ok s"
  shows "\<exists>s1 s2. unget m s = Some s1 \<and> deq s1 = Some (Some m, s2) \<and> ok s2 \<and> content s2 = content s"
proof -
  from unget_law [OF assms] obtain s1 where s1: "unget m s = Some s1" "ok s1" "content s1 = m # content s" by blast
  from deq_law [OF s1(2,3)] s1(1) show ?thesis by blast
qed

end

section \<open>Windows of unacknowledged data\<close>

text \<open>
  The other queue of the code base holds the numbers of the data messages that have been sent and not yet been
  confirmed.  Sending adds a number if there is room; a confirmation deletes it.  The interface
  promises that only for confirmations that arrive in the order of the requests.
\<close>

locale ack_window =
  fixes ok :: "'s \<Rightarrow> bool"
    and room :: "'s \<Rightarrow> bool"
    and content :: "'s \<Rightarrow> 'h list"
    and add :: "'h \<Rightarrow> 's \<Rightarrow> (bool \<times> 's) option"
    and del :: "'h \<Rightarrow> 's \<Rightarrow> (bool \<times> 's) option"
  assumes add_law: "ok s \<Longrightarrow> room s \<Longrightarrow> \<exists>s'. add h s = Some (True, s') \<and> ok s' \<and> content s' = content s @ [h]"
    and add_full_law: "ok s \<Longrightarrow> \<not> room s \<Longrightarrow> add h s = Some (False, s)"
    and del_first_law: "ok s \<Longrightarrow> content s = h # q \<Longrightarrow> \<exists>s'. del h s = Some (True, s') \<and> ok s' \<and> content s' = q"
    and del_absent_law: "ok s \<Longrightarrow> h \<notin> set (content s) \<Longrightarrow> del h s = Some (False, s)"
begin

lemma add_cases:
  assumes "ok s"
  shows "\<exists>s'. add h s = Some (room s, s') \<and> ok s' \<and> content s' = (if room s then content s @ [h] else content s)"
  using assms add_law [OF assms, of h] add_full_law [OF assms, of h] by (cases "room s") auto

text \<open>Confirming everything in the order in which it was sent empties the window.\<close>

lemma confirm_all:
  assumes "ok s"
  shows "\<exists>s'. fold_opt (\<lambda>h s. map_option snd (del h s)) (content s) s = Some s' \<and> ok s' \<and> content s' = []"
  using assms
proof (induction "content s" arbitrary: s)
  case (Cons h q)
  from del_first_law [OF Cons.prems Cons.hyps(2) [symmetric]] obtain s1
    where s1: "del h s = Some (True, s1)" "ok s1" "content s1 = q" by blast
  from Cons.hyps(1) [OF s1(3) [symmetric] s1(2)] s1 Cons.hyps(2) [symmetric] show ?case by auto
qed (simp add: exI)

end

text \<open>A window that can be confirmed in any order.\<close>

locale ack_set = ack_window +
  assumes del_law: "ok s \<Longrightarrow> h \<in> set (content s) \<Longrightarrow>
    \<exists>s'. del h s = Some (True, s') \<and> ok s' \<and> content s' = remove1 h (content s)"
begin

lemma del_cases:
  assumes "ok s"
  shows "\<exists>s'. del h s = Some (h \<in> set (content s), s') \<and> ok s' \<and> content s' = remove1 h (content s)"
  using assms del_law [OF assms, of h] del_absent_law [OF assms, of h]
  by (cases "h \<in> set (content s)") (auto simp: remove1_idem)

lemma confirm_any_order:
  assumes "ok s" and "content s = xs" and "mset hs = mset xs"
  shows "\<exists>s'. fold_opt (\<lambda>h s. map_option snd (del h s)) hs s = Some s' \<and> ok s' \<and> content s' = []"
  using assms
proof (induction hs arbitrary: s xs)
  case (Cons h hs)
  from Cons.prems(3) have h: "h \<in> set xs" by (metis list.set_intros(1) set_mset_mset)
  from del_law [OF Cons.prems(1)] h Cons.prems(2) obtain s1
    where s1: "del h s = Some (True, s1)" "ok s1" "content s1 = remove1 h xs" by blast
  from Cons.prems(3) have "mset hs = mset (remove1 h xs)" by (simp add: mset_remove1 flip: Cons.prems(3))
  from Cons.IH [OF s1(2,3) this] s1(1) show ?case by simp
qed auto

end

end
