(* ===== verification/CapiLib.thy ===== *)
theory CapiLib
  imports CapiMsg CapiQueues
begin

text \<open>
  The bookkeeping of data messages for hardware drivers, \<^verbatim>\<open>drivers/isdn/capi/capilib.c\<close>: per NCCI a
  pool of \<open>CAPI_MAXDATAWINDOW\<close> queue entries with a queue of unconfirmed message numbers and
  a free list, linked by pointers.  A pointer into the pool is an index; \<open>None\<close> as a pointer is \<open>NULL\<close>,
  as a result it is undefined behaviour or a loop that does not end.

  \<open>CAPI_MAXDATAWINDOW\<close>, \<open>CAPI_NOERROR\<close> and \<open>CAPI_SENDQUEUEFULL\<close> come from the header
  \<^verbatim>\<open>capilli.h\<close>, which is not in the repository, and are parameters.
\<close>

section \<open>Data\<close>

record capilib_msgidqueue =
  mq_next :: "nat option"
  mq_msgid :: u16

record capilib_ncci =
  lib_applid :: u16
  lib_ncci :: u32
  winsize :: u32
  nmsg :: int
  msgidqueue :: "nat option"
  msgidlast :: "nat option"
  msgidfree :: "nat option"
  msgidpool :: "capilib_msgidqueue list"

record capilib_env =
  CAPI_MAXDATAWINDOW :: nat
  CAPI_NOERROR :: u16
  CAPI_SENDQUEUEFULL :: u16

definition upd_mq :: "nat \<Rightarrow> (capilib_msgidqueue \<Rightarrow> capilib_msgidqueue) \<Rightarrow> capilib_ncci \<Rightarrow> capilib_ncci option" where
  "upd_mq i f np = do {
     e \<leftarrow> nth_opt (msgidpool np) i;
     Some (np\<lparr>msgidpool := (msgidpool np)[i := f e]\<rparr>) }"

section \<open>The queue of message numbers\<close>

definition mq_init :: "capilib_env \<Rightarrow> capilib_ncci \<Rightarrow> capilib_ncci option" where
  "mq_init env np =
     (let np = np\<lparr>msgidqueue := None, msgidlast := None, nmsg := 0,
            msgidpool := replicate (CAPI_MAXDATAWINDOW env) \<lparr>mq_next = None, mq_msgid = 0\<rparr>,
            msgidfree := Some 0\<rparr>
      in fold_opt (\<lambda>i np. do {
           np \<leftarrow> upd_mq i (\<lambda>e. e\<lparr>mq_next := msgidfree np\<rparr>) np;
           Some (np\<lparr>msgidfree := Some i\<rparr>) }) [1..<unat (winsize np)] np)"

definition mq_enqueue :: "u16 \<Rightarrow> capilib_ncci \<Rightarrow> (bool \<times> capilib_ncci) option" where
  "mq_enqueue msgid np =
     (case msgidfree np of
        None \<Rightarrow> Some (False, np)
      | Some mq \<Rightarrow> do {
          e \<leftarrow> nth_opt (msgidpool np) mq;
          let np = np\<lparr>msgidfree := mq_next e\<rparr>;
          np \<leftarrow> upd_mq mq (\<lambda>e. e\<lparr>mq_msgid := msgid, mq_next := None\<rparr>) np;
          np \<leftarrow> (case msgidlast np of
                  None \<Rightarrow> Some np
                | Some l \<Rightarrow> upd_mq l (\<lambda>e. e\<lparr>mq_next := Some mq\<rparr>) np);
          let np = np\<lparr>msgidlast := Some mq\<rparr>;
          let np = (if msgidqueue np = None then np\<lparr>msgidqueue := Some mq\<rparr> else np);
          Some (True, np\<lparr>nmsg := nmsg np + 1\<rparr>) })"

text \<open>The pointer \<open>pp\<close> of the loop is the address of the queue head or of the link in an entry.\<close>

datatype mq_link = Head | Link nat

fun get_link :: "capilib_ncci \<Rightarrow> mq_link \<Rightarrow> nat option option" where
  "get_link np Head = Some (msgidqueue np)"
| "get_link np (Link i) = map_option mq_next (nth_opt (msgidpool np) i)"

fun set_link :: "mq_link \<Rightarrow> nat option \<Rightarrow> capilib_ncci \<Rightarrow> capilib_ncci option" where
  "set_link Head p np = Some (np\<lparr>msgidqueue := p\<rparr>)"
| "set_link (Link i) p np = upd_mq i (\<lambda>e. e\<lparr>mq_next := p\<rparr>) np"

partial_function (option) mq_find :: "capilib_ncci \<Rightarrow> u16 \<Rightarrow> mq_link \<Rightarrow> mq_link option option" where
  "mq_find np msgid pp = do {
     p \<leftarrow> get_link np pp;
     (case p of
        None \<Rightarrow> Some None
      | Some i \<Rightarrow> do {
          e \<leftarrow> nth_opt (msgidpool np) i;
          if mq_msgid e = msgid then Some (Some pp) else mq_find np msgid (Link i) }) }"

definition mq_dequeue :: "u16 \<Rightarrow> capilib_ncci \<Rightarrow> (bool \<times> capilib_ncci) option" where
  "mq_dequeue msgid np = do {
     r \<leftarrow> mq_find np msgid Head;
     case r of
       None \<Rightarrow> Some (False, np)
     | Some pp \<Rightarrow> do {
         p \<leftarrow> get_link np pp;
         mq \<leftarrow> p;
         e \<leftarrow> nth_opt (msgidpool np) mq;
         np \<leftarrow> set_link pp (mq_next e) np;
         let np = (if Some mq = msgidlast np then np\<lparr>msgidlast := None\<rparr> else np);
         np \<leftarrow> upd_mq mq (\<lambda>e. e\<lparr>mq_next := msgidfree np\<rparr>) np;
         Some (True, np\<lparr>msgidfree := Some mq, nmsg := nmsg np - 1\<rparr>) } }"

section \<open>NCCIs\<close>

text \<open>
  The list of NCCIs of a controller is the list of its structures.  The argument \<open>mem\<close> tells whether
  \<open>kmalloc\<close> succeeds; what it returns is \<open>raw\<close>.
\<close>

definition capilib_new_ncci :: "capilib_env \<Rightarrow> bool \<Rightarrow> capilib_ncci \<Rightarrow> u16 \<Rightarrow> u32 \<Rightarrow> u32 \<Rightarrow> capilib_ncci list \<Rightarrow>
    capilib_ncci list option" where
  "capilib_new_ncci env mem raw applid ncci wsize nps =
     (if \<not> mem then Some nps
      else do {
        let wsize = (if unat wsize > CAPI_MAXDATAWINDOW env then word_of_nat (CAPI_MAXDATAWINDOW env) else wsize);
        np \<leftarrow> mq_init env (raw\<lparr>lib_applid := applid, lib_ncci := ncci, winsize := wsize\<rparr>);
        Some (nps @ [np]) })"

definition is_ncci :: "u16 \<Rightarrow> u32 \<Rightarrow> capilib_ncci \<Rightarrow> bool" where
  "is_ncci applid ncci np \<longleftrightarrow> lib_applid np = applid \<and> lib_ncci np = ncci"

fun capilib_free_ncci :: "u16 \<Rightarrow> u32 \<Rightarrow> capilib_ncci list \<Rightarrow> capilib_ncci list" where
  "capilib_free_ncci applid ncci [] = []"
| "capilib_free_ncci applid ncci (np # nps) =
     (if is_ncci applid ncci np then nps else np # capilib_free_ncci applid ncci nps)"

fun capilib_release_appl :: "u16 \<Rightarrow> capilib_ncci list \<Rightarrow> capilib_ncci list" where
  "capilib_release_appl applid [] = []"
| "capilib_release_appl applid (np # nps) =
     (if lib_applid np \<noteq> applid then np # capilib_release_appl applid nps else capilib_release_appl applid nps)"

fun capilib_release :: "capilib_ncci list \<Rightarrow> capilib_ncci list" where
  "capilib_release [] = []"
| "capilib_release (np # nps) = capilib_release nps"

fun capilib_data_b3_req :: "capilib_env \<Rightarrow> u16 \<Rightarrow> u32 \<Rightarrow> u16 \<Rightarrow> capilib_ncci list \<Rightarrow> (u16 \<times> capilib_ncci list) option" where
  "capilib_data_b3_req env applid ncci msgid [] = Some (CAPI_NOERROR env, [])"
| "capilib_data_b3_req env applid ncci msgid (np # nps) =
     (if is_ncci applid ncci np then do {
        (done, np) \<leftarrow> mq_enqueue msgid np;
        Some (if done then CAPI_NOERROR env else CAPI_SENDQUEUEFULL env, np # nps) }
      else map_option (apsnd (Cons np)) (capilib_data_b3_req env applid ncci msgid nps))"

fun capilib_data_b3_conf :: "u16 \<Rightarrow> u32 \<Rightarrow> u16 \<Rightarrow> capilib_ncci list \<Rightarrow> capilib_ncci list option" where
  "capilib_data_b3_conf applid ncci msgid [] = Some []"
| "capilib_data_b3_conf applid ncci msgid (np # nps) =
     (if is_ncci applid ncci np then map_option (\<lambda>(_, np). np # nps) (mq_dequeue msgid np)
      else map_option (Cons np) (capilib_data_b3_conf applid ncci msgid nps))"

end
