(* ===== verification/CapiLibProps.thy ===== *)
theory CapiLibProps
  imports CapiLib
begin

text \<open>
  What the message number queue of \<^verbatim>\<open>capilib.c\<close> promises: seen through the pointers it is a bounded window
  (the interface \<open>ack_window\<close>) as long as confirmations arrive in order.  It is not an
  \<open>ack_set\<close>: a confirmation out of order makes a later message number disappear.
\<close>

section \<open>Chains in the pool\<close>

fun chain :: "capilib_msgidqueue list \<Rightarrow> nat option \<Rightarrow> nat list \<Rightarrow> bool" where
  "chain pool p [] \<longleftrightarrow> p = None"
| "chain pool p (i # is) \<longleftrightarrow> p = Some i \<and> i < length pool \<and> chain pool (mq_next (pool ! i)) is"

fun mq_walk :: "capilib_msgidqueue list \<Rightarrow> nat \<Rightarrow> nat option \<Rightarrow> nat list" where
  "mq_walk pool 0 p = []"
| "mq_walk pool (Suc n) p =
     (case p of None \<Rightarrow> [] | Some i \<Rightarrow> if i < length pool then i # mq_walk pool n (mq_next (pool ! i)) else [])"

definition ids :: "capilib_ncci \<Rightarrow> nat list \<Rightarrow> u16 list" where
  "ids np is = map (\<lambda>i. mq_msgid (msgidpool np ! i)) is"

definition mq_content :: "capilib_ncci \<Rightarrow> u16 list" where
  "mq_content np = ids np (mq_walk (msgidpool np) (length (msgidpool np)) (msgidqueue np))"

lemma ids_simps [simp]: "ids np [] = []" "ids np (i # is) = mq_msgid (msgidpool np ! i) # ids np is"
  "ids np (is @ js) = ids np is @ ids np js" "length (ids np is) = length is"
  by (simp_all add: ids_def)

lemma chain_bound: "chain pool p is \<Longrightarrow> set is \<subseteq> {..<length pool}"
  by (induction "is" arbitrary: p) auto

lemma chain_in: "chain pool p is \<Longrightarrow> i \<in> set is \<Longrightarrow> i < length pool"
  using chain_bound by blast

lemma chain_next: "chain pool p (as @ [j, i] @ bs) \<Longrightarrow> mq_next (pool ! j) = Some i"
  by (induction as arbitrary: p) auto

lemma chain_walk: "chain pool p is \<Longrightarrow> length is \<le> n \<Longrightarrow> mq_walk pool n p = is"
proof (induction "is" arbitrary: p n)
  case Nil
  then show ?case by (cases n) auto
next
  case (Cons i "is")
  then obtain k where "n = Suc k" by (cases n) auto
  with Cons show ?case by auto
qed

lemma chain_length: "chain pool p is \<Longrightarrow> distinct is \<Longrightarrow> length is \<le> length pool"
  using card_mono [OF finite_lessThan chain_bound [of pool p "is"]] by (simp add: distinct_card)

lemma chain_upd [simp]: "i \<notin> set is \<Longrightarrow> chain (pool[i := e]) p is = chain pool p is"
  by (induction "is" arbitrary: p) auto

lemma chain_snoc:
  assumes "chain pool p (is @ [l])" and "distinct (is @ [l])" and "i \<notin> set (is @ [l])" and "i < length pool"
  shows "chain (pool[i := e\<lparr>mq_next := None\<rparr>, l := (pool ! l)\<lparr>mq_next := Some i\<rparr>]) p (is @ [l, i])"
  using assms
proof (induction "is" arbitrary: p)
  case (Cons j js)
  then show ?case by (auto simp: nth_list_update)
qed (auto simp: nth_list_update)

lemma chain_unlink:
  assumes "chain pool p (as @ [j, i] @ bs)" and "distinct (as @ [j, i] @ bs)"
  shows "chain (pool[j := (pool ! j)\<lparr>mq_next := mq_next (pool ! i)\<rparr>]) p (as @ [j] @ bs)"
  using assms by (induction as arbitrary: p) (auto simp: nth_list_update)

section \<open>Queue and free list\<close>

definition mq_lists :: "capilib_ncci \<Rightarrow> nat list \<Rightarrow> nat list \<Rightarrow> bool" where
  "mq_lists np qs fs \<longleftrightarrow> chain (msgidpool np) (msgidqueue np) qs \<and> chain (msgidpool np) (msgidfree np) fs \<and>
     distinct (qs @ fs)"

definition mq_cap :: "capilib_ncci \<Rightarrow> nat" where
  "mq_cap np = max 1 (unat (winsize np))"

definition mq_inv :: "capilib_ncci \<Rightarrow> nat list \<Rightarrow> nat list \<Rightarrow> bool" where
  "mq_inv np qs fs \<longleftrightarrow> mq_lists np qs fs \<and> length qs + length fs = mq_cap np \<and>
     msgidlast np = (if qs = [] then None else Some (last qs)) \<and> nmsg np = int (length qs)"

definition mq_ok :: "capilib_ncci \<Rightarrow> bool" where
  "mq_ok np \<longleftrightarrow> (\<exists>qs fs. mq_inv np qs fs)"

definition mq_room :: "capilib_ncci \<Rightarrow> bool" where
  "mq_room np \<longleftrightarrow> nmsg np < int (mq_cap np)"

lemma mq_content_lists: "mq_lists np qs fs \<Longrightarrow> mq_content np = ids np qs"
  unfolding mq_lists_def mq_content_def using chain_walk chain_length by (metis distinct_append)

lemma upd_mq_in [simp]: "i < length (msgidpool np) \<Longrightarrow>
    upd_mq i f np = Some (np\<lparr>msgidpool := (msgidpool np)[i := f (msgidpool np ! i)]\<rparr>)"
  by (simp add: upd_mq_def)

lemma upt_Suc_rev: "rev [0..<Suc k] = k # rev [0..<k]" by simp

lemma mq_init_ok:
  assumes "0 < CAPI_MAXDATAWINDOW env" and "unat (winsize np) \<le> CAPI_MAXDATAWINDOW env"
  shows "\<exists>np'. mq_init env np = Some np' \<and> mq_ok np' \<and> mq_content np' = [] \<and>
     lib_applid np' = lib_applid np \<and> lib_ncci np' = lib_ncci np \<and> winsize np' = winsize np"
proof -
  let ?e = "\<lparr>mq_next = None, mq_msgid = 0\<rparr>" and ?n = "CAPI_MAXDATAWINDOW env"
  let ?np = "np\<lparr>msgidqueue := None, msgidlast := None, nmsg := 0, msgidpool := replicate ?n ?e, msgidfree := Some 0\<rparr>"
  define P where "P k t \<longleftrightarrow> length (msgidpool t) = ?n \<and> chain (msgidpool t) (msgidfree t) (rev [0..<Suc k]) \<and>
     msgidqueue t = None \<and> msgidlast t = None \<and> nmsg t = 0 \<and> winsize t = winsize np \<and>
     lib_applid t = lib_applid np \<and> lib_ncci t = lib_ncci np" for k and t :: capilib_ncci
  let ?f = "\<lambda>i np. Option.bind (upd_mq i (\<lambda>e. e\<lparr>mq_next := msgidfree np\<rparr>) np) (\<lambda>np. Some (np\<lparr>msgidfree := Some i\<rparr>))"
  have "P 0 ?np" using assms(1) by (simp add: P_def)
  moreover have "\<exists>t'. ?f ([1..<unat (winsize np)] ! i) t = Some t' \<and> P (Suc i) t'"
    if "i < length [1..<unat (winsize np)]" and "P i t" for i t
    using that assms(2) unfolding P_def upt_Suc_rev [of "Suc i"] by (simp del: upt_Suc)
  ultimately obtain t where t: "fold_opt ?f [1..<unat (winsize np)] ?np = Some t" "P (length [1..<unat (winsize np)]) t"
    using fold_opt_rule [of P ?np _ ?f] by blast
  let ?k = "Suc (unat (winsize np) - 1)"
  have "mq_inv t [] (rev [0..<?k])"
    using t(2) by (simp add: P_def mq_inv_def mq_lists_def mq_cap_def del: upt_Suc)
  then have "mq_ok t" and "mq_lists t [] (rev [0..<?k])" unfolding mq_ok_def
    by (blast, simp only: mq_inv_def)
  from mq_content_lists [OF this(2)] have "mq_content t = []" by simp
  with t \<open>mq_ok t\<close> show ?thesis by (auto simp: mq_init_def P_def)
qed

lemma mq_enqueue_full: "mq_lists np qs [] \<Longrightarrow> mq_enqueue h np = Some (False, np)"
  by (simp add: mq_lists_def mq_enqueue_def)

lemma mq_enqueue_inv:
  assumes "mq_inv np qs (i # fs)"
  shows "\<exists>np'. mq_enqueue h np = Some (True, np') \<and> mq_inv np' (qs @ [i]) fs \<and> ids np' (qs @ [i]) = ids np qs @ [h]"
proof -
  from assms have free: "msgidfree np = Some i" and i: "i < length (msgidpool np)"
    and fs: "chain (msgidpool np) (mq_next (msgidpool np ! i)) fs"
    and qs: "chain (msgidpool np) (msgidqueue np) qs" and dist: "distinct (qs @ i # fs)"
    by (auto simp: mq_inv_def mq_lists_def)
  show ?thesis
  proof (cases qs rule: rev_cases)
    case Nil
    with assms show ?thesis by (auto simp: mq_enqueue_def mq_inv_def mq_lists_def mq_cap_def)
  next
    case (snoc as l)
    from assms snoc have last: "msgidlast np = Some l" by (simp add: mq_inv_def)
    from snoc have l: "l < length (msgidpool np)" using chain_in [OF qs] by simp
    from dist snoc have ne: "l \<noteq> i" and dist': "distinct (as @ [l])" "i \<notin> set (as @ [l])" by auto
    from qs snoc have "msgidqueue np \<noteq> None" by (cases as) auto
    with i l ne dist snoc fs chain_snoc [OF qs [unfolded snoc] dist' i, of "(msgidpool np ! i)\<lparr>mq_msgid := h\<rparr>"] assms
    show ?thesis
      by (auto simp: mq_enqueue_def free last mq_inv_def mq_lists_def mq_cap_def ids_def nth_list_update)
  qed
qed

lemma mq_find_absent:
  assumes "chain (msgidpool np) p is" and "get_link np pp = Some p" and "h \<notin> set (ids np is)"
  shows "mq_find np h pp = Some None"
  using assms
proof (induction "is" arbitrary: p pp)
  case Nil
  then show ?case by (subst mq_find.simps) simp
next
  case (Cons i "is")
  then have "mq_find np h (Link i) = Some None" by (intro Cons.IH) auto
  with Cons.prems show ?case by (subst mq_find.simps) auto
qed

lemma mq_find_first:
  assumes "chain (msgidpool np) p (as @ i # bs)" and "get_link np pp = Some p"
    and "h \<notin> set (ids np as)" and "mq_msgid (msgidpool np ! i) = h"
  shows "mq_find np h pp = Some (Some (if as = [] then pp else Link (last as)))"
  using assms
proof (induction as arbitrary: p pp)
  case Nil
  then show ?case by (subst mq_find.simps) simp
next
  case (Cons j as)
  then have "mq_find np h (Link j) = Some (Some (if as = [] then Link j else Link (last as)))" by (intro Cons.IH) auto
  with Cons.prems show ?case by (subst mq_find.simps) auto
qed

text \<open>Deleting the first entry with the number, wherever it is.\<close>

lemma mq_dequeue_lists:
  assumes "mq_lists np (as @ i # bs) fs" and "h \<notin> set (ids np as)" and "mq_msgid (msgidpool np ! i) = h"
  shows "\<exists>np'. mq_dequeue h np = Some (True, np') \<and> mq_lists np' (as @ bs) (i # fs) \<and>
     ids np' (as @ bs) = ids np (as @ bs) \<and> winsize np' = winsize np \<and> nmsg np' = nmsg np - 1 \<and>
     msgidlast np' = (if msgidlast np = Some i then None else msgidlast np)"
proof -
  from assms(1) have c: "chain (msgidpool np) (msgidqueue np) (as @ i # bs)"
    and f: "chain (msgidpool np) (msgidfree np) fs" and d: "distinct ((as @ i # bs) @ fs)" by (simp_all add: mq_lists_def)
  from chain_bound [OF c] have i: "i < length (msgidpool np)" by auto
  from mq_find_first [OF c _ assms(2,3), of Head]
  have find: "mq_find np h Head = Some (Some (if as = [] then Head else Link (last as)))" by simp
  show ?thesis
  proof (cases as rule: rev_cases)
    case Nil
    with c f d i find show ?thesis
      by (auto simp: mq_dequeue_def mq_lists_def ids_def nth_list_update)
  next
    case (snoc as' j)
    from snoc have j: "j < length (msgidpool np)" using chain_in [OF c] by simp
    from c snoc have link: "mq_next (msgidpool np ! j) = Some i" by (intro chain_next) simp
    have "chain ((msgidpool np)[j := (msgidpool np ! j)\<lparr>mq_next := mq_next (msgidpool np ! i)\<rparr>]) (msgidqueue np) (as @ bs)"
      using chain_unlink [of "msgidpool np" "msgidqueue np" as' j i bs] c d snoc by auto
    with c f d i j link find snoc show ?thesis
      by (auto simp: mq_dequeue_def mq_lists_def ids_def nth_list_update)
  qed
qed

lemma mq_okI: "mq_inv np qs fs \<Longrightarrow> mq_ok np \<and> mq_content np = ids np qs"
  unfolding mq_ok_def mq_inv_def using mq_content_lists by blast

lemma mq_okE:
  assumes "mq_ok np"
  obtains qs fs where "mq_inv np qs fs" and "mq_content np = ids np qs"
  using assms mq_okI unfolding mq_ok_def by blast

lemma mq_dequeue_first:
  assumes "mq_inv np (i # bs) fs" and "mq_msgid (msgidpool np ! i) = h"
  shows "\<exists>np'. mq_dequeue h np = Some (True, np') \<and> mq_inv np' bs (i # fs) \<and> ids np' bs = ids np bs"
proof -
  from assms(1) have l: "mq_lists np ([] @ i # bs) fs" and d: "i \<notin> set bs"
    and last: "msgidlast np = Some (last (i # bs))" by (auto simp: mq_inv_def mq_lists_def)
  from mq_dequeue_lists [OF l _ assms(2)] obtain np' where np': "mq_dequeue h np = Some (True, np')"
    "mq_lists np' bs (i # fs)" "ids np' bs = ids np bs" "winsize np' = winsize np" "nmsg np' = nmsg np - 1"
    "msgidlast np' = (if msgidlast np = Some i then None else msgidlast np)" by auto
  have "last (i # bs) = i \<longleftrightarrow> bs = []" using d last_in_set [of bs] by auto
  with np' assms(1) last have "mq_inv np' bs (i # fs)" by (simp add: mq_inv_def mq_cap_def)
  with np' show ?thesis by blast
qed

lemma mq_dequeue_absent: "mq_lists np qs fs \<Longrightarrow> h \<notin> set (ids np qs) \<Longrightarrow> mq_dequeue h np = Some (False, np)"
  using mq_find_absent [of np "msgidqueue np" qs Head h] by (simp add: mq_dequeue_def mq_lists_def)

section \<open>The window\<close>

interpretation libq: ack_window mq_ok mq_room mq_content mq_enqueue mq_dequeue
proof (unfold_locales, goal_cases)
  case (1 np h)
  from 1(1) obtain qs fs where inv: "mq_inv np qs fs" and c: "mq_content np = ids np qs" by (rule mq_okE)
  with 1(2) obtain i fs' where "fs = i # fs'" by (cases fs) (simp_all add: mq_room_def mq_inv_def)
  with mq_enqueue_inv [of np qs i fs' h] inv obtain np' where np': "mq_enqueue h np = Some (True, np')"
    "mq_inv np' (qs @ [i]) fs'" "ids np' (qs @ [i]) = ids np qs @ [h]" by blast
  from mq_okI [OF np'(2)] np'(1,3) show ?case by (auto simp: c)
next
  case (2 np h)
  from 2(1) obtain qs fs where inv: "mq_inv np qs fs" and c: "mq_content np = ids np qs" by (rule mq_okE)
  with 2(2) have "fs = []" by (cases fs) (simp_all add: mq_room_def mq_inv_def)
  with inv show ?case using mq_enqueue_full [of np qs h] by (simp add: mq_inv_def)
next
  case (3 np h q)
  from 3(1) obtain qs fs where inv: "mq_inv np qs fs" and c: "mq_content np = ids np qs" by (rule mq_okE)
  with 3(2) obtain i bs where i: "qs = i # bs" "mq_msgid (msgidpool np ! i) = h" "ids np bs = q" by (cases qs) auto
  with mq_dequeue_first [of np i bs fs h] inv obtain np' where np': "mq_dequeue h np = Some (True, np')"
    "mq_inv np' bs (i # fs)" "ids np' bs = q" by blast
  from mq_okI [OF np'(2)] np'(1,3) show ?case by auto
next
  case (4 np h)
  from 4(1) obtain qs fs where inv: "mq_inv np qs fs" and c: "mq_content np = ids np qs" by (rule mq_okE)
  with 4(2) show ?case using mq_dequeue_absent [of np qs fs h] by (simp add: mq_inv_def)
qed

lemma upd_mq_keeps:
  "upd_mq i f np = Some np' \<Longrightarrow> winsize np' = winsize np \<and> lib_applid np' = lib_applid np \<and> lib_ncci np' = lib_ncci np"
  by (auto simp: upd_mq_def)

lemma set_link_keeps:
  "set_link pp p np = Some np' \<Longrightarrow> winsize np' = winsize np \<and> lib_applid np' = lib_applid np \<and> lib_ncci np' = lib_ncci np"
  by (cases pp) (auto dest: upd_mq_keeps)

lemma mq_enqueue_keeps:
  assumes "mq_enqueue h np = Some (b, np')"
  shows "mq_cap np' = mq_cap np \<and> is_ncci a n np' = is_ncci a n np"
proof -
  have "winsize np' = winsize np \<and> lib_applid np' = lib_applid np \<and> lib_ncci np' = lib_ncci np"
    using assms by (auto simp: mq_enqueue_def Let_def dest!: upd_mq_keeps split: option.splits if_splits)
  then show ?thesis by (simp add: mq_cap_def is_ncci_def)
qed

lemma mq_dequeue_keeps:
  assumes "mq_dequeue h np = Some (b, np')"
  shows "mq_cap np' = mq_cap np \<and> is_ncci a n np' = is_ncci a n np"
proof -
  have "winsize np' = winsize np \<and> lib_applid np' = lib_applid np \<and> lib_ncci np' = lib_ncci np"
    using assms by (auto simp: mq_dequeue_def Let_def dest!: upd_mq_keeps set_link_keeps split: option.splits if_splits)
  then show ?thesis by (simp add: mq_cap_def is_ncci_def)
qed

lemma mq_dequeue_pool:
  assumes "mq_dequeue h np = Some (b, np')"
  shows "length (msgidpool np') = length (msgidpool np)"
proof -
  have u: "upd_mq i f n1 = Some n2 \<Longrightarrow> length (msgidpool n2) = length (msgidpool n1)" for i f n1 n2 by (auto simp: upd_mq_def)
  have l: "set_link pp p n1 = Some n2 \<Longrightarrow> length (msgidpool n2) = length (msgidpool n1)" for pp p n1 n2 by (cases pp) (auto dest: u)
  show ?thesis using assms by (auto simp: mq_dequeue_def Let_def dest!: u l split: option.splits if_splits)
qed

lemma mq_room_content: "mq_ok np \<Longrightarrow> mq_room np \<longleftrightarrow> length (mq_content np) < mq_cap np"
  by (elim mq_okE) (simp add: mq_room_def mq_inv_def)

lemma b3_req_at:
  "\<lbrakk>\<forall>x\<in>set pre. \<not> is_ncci a n x; is_ncci a n np; mq_enqueue h np = Some (d, np')\<rbrakk> \<Longrightarrow>
   capilib_data_b3_req env a n h (pre @ np # post) =
     Some (if d then CAPI_NOERROR env else CAPI_SENDQUEUEFULL env, pre @ np' # post)"
  by (induction pre) auto

lemma b3_conf_at:
  "\<lbrakk>\<forall>x\<in>set pre. \<not> is_ncci a n x; is_ncci a n np; mq_dequeue h np = Some (d, np')\<rbrakk> \<Longrightarrow>
   capilib_data_b3_conf a n h (pre @ np # post) = Some (pre @ np' # post)"
  by (induction pre) auto

text \<open>Sending that has to be accepted.\<close>

definition b3_send :: "capilib_env \<Rightarrow> u16 \<Rightarrow> u32 \<Rightarrow> u16 \<Rightarrow> capilib_ncci list \<Rightarrow> capilib_ncci list option" where
  "b3_send env a n h nps = do {
     (r, nps) \<leftarrow> capilib_data_b3_req env a n h nps;
     if r = CAPI_NOERROR env then Some nps else None }"

lemma b3_send_all:
  assumes "\<forall>x\<in>set pre. \<not> is_ncci a n x" and "is_ncci a n np" and "mq_ok np"
    and "length (mq_content np) + length hs \<le> mq_cap np"
  shows "\<exists>np'. fold_opt (b3_send env a n) hs (pre @ np # post) = Some (pre @ np' # post) \<and> is_ncci a n np' \<and>
    mq_ok np' \<and> mq_content np' = mq_content np @ hs \<and> mq_cap np' = mq_cap np"
  using assms(2-4)
proof (induction hs arbitrary: np)
  case (Cons h hs)
  then have "mq_room np" by (simp add: mq_room_content)
  with libq.add_law [OF Cons.prems(2)] obtain np1 where np1: "mq_enqueue h np = Some (True, np1)" "mq_ok np1"
    "mq_content np1 = mq_content np @ [h]" by blast
  note k = mq_enqueue_keeps [OF np1(1), of a n]
  from Cons.IH [OF _ np1(2)] k np1 Cons.prems
  show ?case by (simp add: b3_send_def b3_req_at [OF assms(1) Cons.prems(1) np1(1)])
qed simp

lemma b3_conf_all:
  assumes "\<forall>x\<in>set pre. \<not> is_ncci a n x" and "is_ncci a n np" and "mq_ok np" and "mq_content np = hs @ q"
  shows "\<exists>np'. fold_opt (capilib_data_b3_conf a n) hs (pre @ np # post) = Some (pre @ np' # post) \<and> is_ncci a n np' \<and>
    mq_ok np' \<and> mq_content np' = q \<and> mq_cap np' = mq_cap np"
  using assms(2-4)
proof (induction hs arbitrary: np)
  case (Cons h hs)
  from libq.del_first_law [OF Cons.prems(2)] Cons.prems(3) obtain np1 where np1: "mq_dequeue h np = Some (True, np1)"
    "mq_ok np1" "mq_content np1 = hs @ q" by auto
  note k = mq_dequeue_keeps [OF np1(1), of a n]
  from Cons.IH [OF _ np1(2,3)] k np1 Cons.prems
  show ?case by (simp add: b3_conf_at [OF assms(1) Cons.prems(1) np1(1)])
qed simp

text \<open>C34: The window of \<^verbatim>\<open>capilib.c\<close>.  A new NCCI with window size \<open>w\<close> accepts \<open>w\<close> data messages (at most
  \<open>CAPI_MAXDATAWINDOW\<close>, and one when the size is 0), refuses the next one with
  \<open>CAPI_SENDQUEUEFULL\<close> and changes nothing then, and when the messages are confirmed in order it accepts
  data again.\<close>

theorem capilib_window:
  assumes "0 < CAPI_MAXDATAWINDOW env" and "CAPI_MAXDATAWINDOW env < 2 ^ 32"
    and "CAPI_NOERROR env \<noteq> CAPI_SENDQUEUEFULL env"
    and "\<forall>x\<in>set nps. \<not> is_ncci a n x"
    and "length hs \<le> max 1 (min (unat w) (CAPI_MAXDATAWINDOW env))"
  shows "\<exists>nps1 nps2 nps3. capilib_new_ncci env True raw a n w nps = Some nps1 \<and>
     fold_opt (b3_send env a n) hs nps1 = Some nps2 \<and>
     (length hs = max 1 (min (unat w) (CAPI_MAXDATAWINDOW env)) \<longrightarrow>
        capilib_data_b3_req env a n h nps2 = Some (CAPI_SENDQUEUEFULL env, nps2)) \<and>
     fold_opt (capilib_data_b3_conf a n) hs nps2 = Some nps3 \<and>
     (\<exists>nps4. b3_send env a n h nps3 = Some nps4)"
proof -
  let ?m = "CAPI_MAXDATAWINDOW env"
  let ?w = "if unat w > ?m then word_of_nat ?m else w"
  let ?np = "raw\<lparr>lib_applid := a, lib_ncci := n, winsize := ?w\<rparr>"
  have w: "unat ?w = min (unat w) ?m" using assms(2) by (simp add: unsigned_of_nat take_bit_nat_eq_self)
  have "winsize ?np = ?w" by simp
  with w have "unat (winsize ?np) \<le> ?m" by (simp only: min.cobounded2)
  from mq_init_ok [OF assms(1) this] obtain np where np: "mq_init env ?np = Some np" "mq_ok np" "mq_content np = []"
    "is_ncci a n np" "winsize np = ?w" by (auto simp: is_ncci_def)
  have cap: "mq_cap np = max 1 (min (unat w) ?m)" unfolding mq_cap_def np(5) w ..
  have new: "capilib_new_ncci env True raw a n w nps = Some (nps @ [np])"
    using np(1) by (simp add: capilib_new_ncci_def Let_def)
  from b3_send_all [OF assms(4) np(4,2), of hs env "[]"] assms(5) np(3) cap obtain np2
    where np2: "fold_opt (b3_send env a n) hs (nps @ [np]) = Some (nps @ [np2])" "is_ncci a n np2" "mq_ok np2"
      "mq_content np2 = hs" "mq_cap np2 = mq_cap np" by auto
  have full: "capilib_data_b3_req env a n h (nps @ [np2]) = Some (CAPI_SENDQUEUEFULL env, nps @ [np2])"
    if "length hs = mq_cap np"
    using b3_req_at [OF assms(4) np2(2) libq.add_full_law [OF np2(3)], where env = env and post = "[]"] that np2
    by (simp add: mq_room_content)
  from b3_conf_all [OF assms(4) np2(2,3), of hs "[]" "[]"] np2 obtain np3
    where np3: "fold_opt (capilib_data_b3_conf a n) hs (nps @ [np2]) = Some (nps @ [np3])" "is_ncci a n np3" "mq_ok np3"
      "mq_content np3 = []" "mq_cap np3 = mq_cap np" by auto
  from b3_send_all [OF assms(4) np3(2,3), of "[h]" env "[]"] np3 have "\<exists>nps4. b3_send env a n h (nps @ [np3]) = Some nps4"
    by (auto simp: mq_cap_def)
  with new np2(1) np3(1) full cap show ?thesis by metis
qed

definition libenv :: capilib_env where
  "libenv = \<lparr>CAPI_MAXDATAWINDOW = 8, CAPI_NOERROR = 0, CAPI_SENDQUEUEFULL = 1\<rparr>"

definition raw_ncci :: capilib_ncci where
  "raw_ncci = \<lparr>lib_applid = 0, lib_ncci = 0, winsize = 0, nmsg = 0, msgidqueue = None, msgidlast = None,
     msgidfree = None, msgidpool = []\<rparr>"

theorem capilib_window_witness:
  "\<exists>nps1 nps2 nps3. capilib_new_ncci libenv True raw_ncci 1 0x10101 2 [] = Some nps1 \<and>
     fold_opt (b3_send libenv 1 0x10101) [5, 6] nps1 = Some nps2 \<and>
     capilib_data_b3_req libenv 1 0x10101 7 nps2 = Some (1, nps2) \<and>
     fold_opt (capilib_data_b3_conf 1 0x10101) [5, 6] nps2 = Some nps3 \<and>
     (\<exists>nps4. b3_send libenv 1 0x10101 7 nps3 = Some nps4)"
  using capilib_window [of libenv "[]" 1 "0x10101" "[5, 6]" 2 raw_ncci 7] by (simp add: libenv_def)

lemma mq_enqueue_lost:
  assumes "mq_lists np qs (i # fs)" and "msgidlast np = None" and "qs \<noteq> []"
  shows "\<exists>np'. mq_enqueue h np = Some (True, np') \<and> mq_lists np' qs fs \<and> ids np' qs = ids np qs \<and>
    nmsg np' = nmsg np + 1 \<and> msgidlast np' = Some i \<and> length (msgidpool np') = length (msgidpool np)"
proof -
  from assms(3,1) have "msgidqueue np \<noteq> None" by (cases qs) (auto simp: mq_lists_def)
  with assms show ?thesis by (auto simp: mq_enqueue_def mq_lists_def ids_def nth_list_update)
qed

section \<open>Confirmations out of order\<close>

text \<open>A confirmation in the middle of the queue does no harm.\<close>

lemma mq_dequeue_middle:
  assumes "mq_ok np" and "mq_content np = q1 @ h # q2" and "h \<notin> set q1" and "q2 \<noteq> []"
  shows "\<exists>np'. mq_dequeue h np = Some (True, np') \<and> mq_ok np' \<and> mq_content np' = q1 @ q2"
proof -
  from assms(1) obtain qs fs where inv: "mq_inv np qs fs" and c: "mq_content np = ids np qs" by (rule mq_okE)
  have "map (\<lambda>i. mq_msgid (msgidpool np ! i)) qs = q1 @ h # q2" using c assms(2) by (simp add: ids_def)
  then obtain as i bs where qs: "qs = as @ i # bs" and i: "ids np as = q1" "mq_msgid (msgidpool np ! i) = h" "ids np bs = q2"
    by (auto simp: ids_def map_eq_append_conv map_eq_Cons_conv)
  with assms(4) have bs: "bs \<noteq> []" by auto
  from inv qs have l: "mq_lists np (as @ i # bs) fs" and d: "i \<notin> set bs" by (auto simp: mq_inv_def mq_lists_def)
  from mq_dequeue_lists [OF l _ i(2)] assms(3) i obtain np' where np': "mq_dequeue h np = Some (True, np')"
    "mq_lists np' (as @ bs) (i # fs)" "ids np' (as @ bs) = q1 @ q2" "winsize np' = winsize np" "nmsg np' = nmsg np - 1"
    "msgidlast np' = (if msgidlast np = Some i then None else msgidlast np)" by auto
  have "last bs \<noteq> i" using d bs last_in_set by metis
  with np' inv qs bs have "mq_inv np' (as @ bs) (i # fs)" by (simp add: mq_inv_def mq_cap_def)
  from mq_okI [OF this] np'(1,3) show ?thesis by auto
qed

text \<open>
  The state after the newest message has been confirmed first: besides the queue and the free list there are entries in
  neither, \<open>ls\<close>.  They are counted in \<open>nmsg\<close>.
\<close>

definition mq_leak :: "capilib_ncci \<Rightarrow> nat list \<Rightarrow> nat list \<Rightarrow> nat list \<Rightarrow> bool" where
  "mq_leak np qs fs ls \<longleftrightarrow> mq_lists np qs fs \<and> distinct ls \<and> set ls \<inter> set (qs @ fs) = {} \<and> set ls \<subseteq> {..<length (msgidpool np)} \<and>
     length qs + length fs + length ls = mq_cap np \<and> nmsg np = int (length qs + length ls) \<and>
     (case msgidlast np of None \<Rightarrow> True | Some l \<Rightarrow> l \<in> set ls \<or> qs \<noteq> [] \<and> l = last qs)"

text \<open>A request in such a state: it is queued, or its entry is lost too.\<close>

lemma mq_enqueue_leak:
  assumes "mq_leak np qs fs ls"
  shows "\<exists>np' qs' fs' ls'. mq_enqueue h np = Some (fs \<noteq> [], np') \<and> mq_leak np' qs' fs' ls' \<and> set ls \<subseteq> set ls' \<and> mq_cap np' = mq_cap np"
proof (cases fs)
  case Nil
  with assms have "mq_enqueue h np = Some (fs \<noteq> [], np)" using mq_enqueue_full [of np qs h] by (simp add: mq_leak_def)
  with assms show ?thesis by blast
next
  case (Cons i fs')
  from assms Cons have free: "msgidfree np = Some i" and i: "i < length (msgidpool np)" "i \<notin> set qs" "i \<notin> set fs'" "i \<notin> set ls"
    and fs: "chain (msgidpool np) (mq_next (msgidpool np ! i)) fs'" and qs: "chain (msgidpool np) (msgidqueue np) qs"
    and d: "distinct qs" "distinct fs'" "set qs \<inter> set fs' = {}" by (auto simp: mq_leak_def mq_lists_def)
  let ?e = "(msgidpool np ! i)\<lparr>mq_msgid := h, mq_next := None\<rparr>"
  consider (none) "msgidlast np = None" | (lost) l where "msgidlast np = Some l" "l \<in> set ls"
    | (last) as l where "msgidlast np = Some l" "qs = as @ [l]" "l \<notin> set ls"
  proof (cases "msgidlast np")
    case (Some l)
    with assms that(2,3) show ?thesis by (cases "l \<in> set ls"; cases qs rule: rev_cases) (auto simp: mq_leak_def)
  qed (use that(1) in blast)
  then show ?thesis
  proof cases
    case none
    show ?thesis
    proof (cases "qs = []")
      case True
      with none assms Cons free i fs d show ?thesis
        by (intro exI [of _ "snd (the (mq_enqueue h np))"] exI [of _ "[i]"] exI [of _ fs'] exI [of _ ls])
          (auto simp: mq_enqueue_def mq_leak_def mq_lists_def mq_cap_def Let_def)
    next
      case False
      then have "msgidqueue np \<noteq> None" using qs by (cases qs) auto
      with none False assms Cons free i fs d qs show ?thesis
        by (intro exI [of _ "snd (the (mq_enqueue h np))"] exI [of _ qs] exI [of _ fs'] exI [of _ "i # ls"])
          (auto simp: mq_enqueue_def mq_leak_def mq_lists_def mq_cap_def Let_def)
    qed
  next
    case (lost l)
    from lost(2) assms have l: "l < length (msgidpool np)" "l \<notin> set qs" "l \<notin> set fs'" "l \<noteq> i" using Cons by (auto simp: mq_leak_def)
    show ?thesis
    proof (cases "qs = []")
      case True
      with lost assms Cons free i fs d l show ?thesis
        by (intro exI [of _ "snd (the (mq_enqueue h np))"] exI [of _ "[i]"] exI [of _ fs'] exI [of _ ls])
          (auto simp: mq_enqueue_def mq_leak_def mq_lists_def mq_cap_def Let_def nth_list_update)
    next
      case False
      then have "msgidqueue np \<noteq> None" using qs by (cases qs) auto
      with lost False assms Cons free i fs d qs l show ?thesis
        by (intro exI [of _ "snd (the (mq_enqueue h np))"] exI [of _ qs] exI [of _ fs'] exI [of _ "i # ls"])
          (auto simp: mq_enqueue_def mq_leak_def mq_lists_def mq_cap_def Let_def nth_list_update)
    qed
  next
    case (last as l)
    from last(2) d have da: "distinct (as @ [l])" by simp
    have ia: "i \<notin> set (as @ [l])" using i(2) last(2) by simp
    have l: "l < length (msgidpool np)" "l \<notin> set fs'" "l \<noteq> i" using chain_in [OF qs] last(2) d i(2) by auto
    have "msgidqueue np \<noteq> None" using qs last(2) by (cases as) auto
    with last assms Cons free i fs d l chain_snoc [OF qs [unfolded last(2)] da ia i(1), of "(msgidpool np ! i)\<lparr>mq_msgid := h\<rparr>"]
    show ?thesis
      by (intro exI [of _ "snd (the (mq_enqueue h np))"] exI [of _ "qs @ [i]"] exI [of _ fs'] exI [of _ ls])
        (auto simp: mq_enqueue_def mq_leak_def mq_lists_def mq_cap_def Let_def nth_list_update)
  qed
qed

text \<open>A confirmation never finds a lost entry.\<close>

lemma mq_dequeue_leak:
  assumes "mq_leak np qs fs ls"
  shows "\<exists>b np' qs' fs'. mq_dequeue h np = Some (b, np') \<and> mq_leak np' qs' fs' ls \<and> mq_cap np' = mq_cap np"
proof (cases "h \<in> set (ids np qs)")
  case False
  with assms mq_dequeue_absent [of np qs fs h] show ?thesis unfolding mq_leak_def by blast
next
  case True
  then have "\<exists>i\<in>set qs. mq_msgid (msgidpool np ! i) = h" by (auto simp: ids_def)
  then obtain as i bs where "qs = as @ i # bs" "mq_msgid (msgidpool np ! i) = h" "\<forall>j\<in>set as. mq_msgid (msgidpool np ! j) \<noteq> h"
    by (elim split_list_first_propE)
  then have qs: "qs = as @ i # bs" "mq_msgid (msgidpool np ! i) = h" "h \<notin> set (ids np as)" by (auto simp: ids_def)
  from assms have l: "mq_lists np qs fs" by (simp add: mq_leak_def)
  from mq_dequeue_lists [OF l [unfolded qs(1)] qs(3,2)] obtain np' where np': "mq_dequeue h np = Some (True, np')"
    "mq_lists np' (as @ bs) (i # fs)" "winsize np' = winsize np" "nmsg np' = nmsg np - 1"
    "msgidlast np' = (if msgidlast np = Some i then None else msgidlast np)" by blast
  have len: "length (msgidpool np') = length (msgidpool np)" using mq_dequeue_pool [OF np'(1)] .
  have i: "i \<notin> set ls" "i \<notin> set bs" "i \<notin> set as" using assms qs(1) by (auto simp: mq_leak_def mq_lists_def)
  have "mq_leak np' (as @ bs) (i # fs) ls"
    using assms np'(2-5) len i qs(1) by (auto simp: mq_leak_def mq_cap_def split: option.splits if_splits)
  moreover have "mq_cap np' = mq_cap np" using np'(3) by (simp add: mq_cap_def)
  ultimately show ?thesis using np'(1) by blast
qed

text \<open>Requests and confirmations in any order.\<close>

datatype mq_op = Request u16 | Confirm u16

fun mq_step :: "mq_op \<Rightarrow> capilib_ncci \<Rightarrow> capilib_ncci option" where
  "mq_step (Request h) np = map_option snd (mq_enqueue h np)"
| "mq_step (Confirm h) np = map_option snd (mq_dequeue h np)"

lemma mq_leak_run:
  assumes "mq_leak np qs fs ls"
  shows "\<exists>np' qs' fs' ls'. fold_opt mq_step ops np = Some np' \<and> mq_leak np' qs' fs' ls' \<and> set ls \<subseteq> set ls' \<and> mq_cap np' = mq_cap np"
  using assms
proof (induction ops arbitrary: np qs fs ls)
  case (Cons op ops)
  have "\<exists>np' qs' fs' ls'. mq_step op np = Some np' \<and> mq_leak np' qs' fs' ls' \<and> set ls \<subseteq> set ls' \<and> mq_cap np' = mq_cap np"
  proof (cases op)
    case (Request h)
    with mq_enqueue_leak [OF Cons.prems, of h] show ?thesis by fastforce
  next
    case (Confirm h)
    with mq_dequeue_leak [OF Cons.prems, of h] show ?thesis by fastforce
  qed
  then obtain np' qs' fs' ls' where 1: "mq_step op np = Some np'" "mq_leak np' qs' fs' ls'" "set ls \<subseteq> set ls'" "mq_cap np' = mq_cap np"
    by blast
  from Cons.IH [OF 1(2)] 1 show ?case by fastforce
qed auto

text \<open>C35: Confirming the newest of several unconfirmed messages first loses a place of the window for ever.  \<open>msgidlast\<close> becomes
  \<open>NULL\<close> while the queue is not empty, so the next message is accepted but not linked into the queue, and its confirmation is
  not found.  From then on, whatever requests and confirmations follow, one accepted message at least is counted that no
  confirmation finds: even when everything else is confirmed, at most one message less than the window size is accepted.\<close>

theorem capilib_lost_slot:
  assumes "mq_ok np" and "mq_content np = q @ [h]" and "q \<noteq> []" and "h \<notin> set q" and "h' \<notin> set q"
  shows "\<exists>np1 np2. mq_dequeue h np = Some (True, np1) \<and> mq_enqueue h' np1 = Some (True, np2) \<and>
     mq_content np2 = q \<and> mq_dequeue h' np2 = Some (False, np2) \<and>
     (\<forall>ops. \<exists>np3. fold_opt mq_step ops np2 = Some np3 \<and>
        int (length (mq_content np3)) + 1 \<le> nmsg np3 \<and> nmsg np3 \<le> int (mq_cap np) \<and>
        (\<forall>k. \<exists>np4. mq_enqueue k np3 = Some (nmsg np3 < int (mq_cap np), np4)))"
proof -
  from assms(1) obtain qs0 fs where inv: "mq_inv np qs0 fs" and c: "mq_content np = ids np qs0" by (rule mq_okE)
  from c assms(2) obtain qs l where qs0: "qs0 = qs @ [l]" and q: "ids np qs = q" and l: "mq_msgid (msgidpool np ! l) = h"
    by (cases qs0 rule: rev_cases) auto
  from inv qs0 have lists: "mq_lists np (qs @ l # []) fs" and last: "msgidlast np = Some l"
    and n: "nmsg np = int (length q) + 1" using arg_cong [OF q, of length] by (auto simp: mq_inv_def)
  from mq_dequeue_lists [OF lists _ l] assms(4) q obtain np1 where np1: "mq_dequeue h np = Some (True, np1)"
    "mq_lists np1 qs (l # fs)" "ids np1 qs = q" "nmsg np1 = nmsg np - 1" "msgidlast np1 = None"
    using last by auto
  have "qs \<noteq> []" using q assms(3) by auto
  from mq_enqueue_lost [OF np1(2,5) this, of h'] np1 obtain np2 where np2: "mq_enqueue h' np1 = Some (True, np2)"
    "mq_lists np2 qs fs" "ids np2 qs = q" "nmsg np2 = nmsg np" "msgidlast np2 = Some l" "length (msgidpool np2) = length (msgidpool np1)"
    by auto
  have cap: "mq_cap np2 = mq_cap np" using mq_dequeue_keeps [OF np1(1)] mq_enqueue_keeps [OF np2(1)] by simp
  have "l \<notin> set qs" "l \<notin> set fs" "l < length (msgidpool np2)" using np1(2) np2(6) by (auto simp: mq_lists_def)
  with np2 cap inv qs0 n arg_cong [OF q, of length] have leak: "mq_leak np2 qs fs [l]"
    by (auto simp: mq_leak_def mq_inv_def)
  have "\<exists>np3. fold_opt mq_step ops np2 = Some np3 \<and> int (length (mq_content np3)) + 1 \<le> nmsg np3 \<and> nmsg np3 \<le> int (mq_cap np) \<and>
      (\<forall>k. \<exists>np4. mq_enqueue k np3 = Some (nmsg np3 < int (mq_cap np), np4))" for ops
  proof -
    from mq_leak_run [OF leak, of ops] obtain np3 qs3 fs3 ls3 where 3: "fold_opt mq_step ops np2 = Some np3"
      "mq_leak np3 qs3 fs3 ls3" "l \<in> set ls3" "mq_cap np3 = mq_cap np" using cap by auto
    have "mq_content np3 = ids np3 qs3" using 3(2) mq_content_lists [of np3 qs3 fs3] by (simp add: mq_leak_def)
    moreover obtain x xs where "ls3 = x # xs" using 3(3) by (cases ls3) auto
    moreover have n3: "nmsg np3 = int (length qs3 + length ls3)" "length qs3 + length fs3 + length ls3 = mq_cap np"
      using 3(2,4) by (simp_all add: mq_leak_def)
    ultimately have "int (length (mq_content np3)) + 1 \<le> nmsg np3" "nmsg np3 \<le> int (mq_cap np)" by simp_all
    moreover have "(fs3 \<noteq> []) = (nmsg np3 < int (mq_cap np))" using n3 by (cases fs3) simp_all
    then have "\<exists>np4. mq_enqueue k np3 = Some (nmsg np3 < int (mq_cap np), np4)" for k
      using mq_enqueue_leak [OF 3(2), of k] by (simp only:) blast
    ultimately show ?thesis using 3(1) by blast
  qed
  moreover have "mq_content np2 = q" using mq_content_lists [OF np2(2)] np2(3) by simp
  moreover have "mq_dequeue h' np2 = Some (False, np2)" by (rule mq_dequeue_absent [OF np2(2)]) (use assms(5) np2(3) in simp)
  ultimately show ?thesis using np1(1) np2(1) by blast
qed

definition two_sent :: capilib_ncci where
  "two_sent = \<lparr>lib_applid = 1, lib_ncci = 0x10101, winsize = 3, nmsg = 2, msgidqueue = Some 2, msgidlast = Some 1,
     msgidfree = Some 0, msgidpool = [\<lparr>mq_next = None, mq_msgid = 0\<rparr>, \<lparr>mq_next = None, mq_msgid = 6\<rparr>,
       \<lparr>mq_next = Some 1, mq_msgid = 5\<rparr>]\<rparr>"

theorem capilib_lost_slot_witness:
  "\<exists>np1 np2. mq_dequeue 6 two_sent = Some (True, np1) \<and> mq_enqueue 7 np1 = Some (True, np2) \<and>
     mq_dequeue 7 np2 = Some (False, np2)"
proof -
  have "mq_inv two_sent [2, 1] [0]" by (simp add: mq_inv_def mq_lists_def mq_cap_def two_sent_def)
  from mq_okI [OF this] have "mq_ok two_sent" and "mq_content two_sent = [5] @ [6]"
    by (simp_all add: two_sent_def ids_def)
  from capilib_lost_slot [OF this, of 7] show ?thesis by auto
qed

end
