(* ===== verification/CapiCore.thy ===== *)
theory CapiCore
  imports CapiMsg
begin

text \<open>
  The capicore: the registry of CAPI devices and applications of
  \<^verbatim>\<open>drivers/isdn/capi/core.c\<close> with the inline operations of
  \<^verbatim>\<open>include/linux/isdn/capiappl.h\<close> and \<^verbatim>\<open>include/linux/isdn/capidevice.h\<close>.

  Device and application structures live at addresses, natural numbers; \<open>devs\<close> and \<open>appls\<close> are the
  allocated ones.  The lists \<open>capi_appls_list\<close> and \<open>capi_devs_list\<close> are the addresses in list order,
  \<open>capi_devs_table\<close> is a list of nullable addresses.  A message (an \<open>sk_buff\<close>) is its byte list.

  Each function is one atomic step of the model, as the code holds its semaphores over it.  A
  device semaphore is held for writing exactly while \<open>sem_write\<close> is set; a reader that cannot take it
  at once gets the answer of \<open>down_read_trylock\<close>.  The answers of a device driver's callbacks are parameters
  (\<open>drv_register\<close>, \<open>drv_put_message\<close>) that may depend on everything the driver has been told before; the
  calls are recorded in \<open>drv_trace\<close>, newest first, the signal handler calls in \<open>signals\<close>.
  The value \<open>None\<close> stands for undefined behaviour and for \<open>BUG_ON\<close>.
\<close>

section \<open>Data\<close>

text \<open>capi.h\<close>

record capi_register_params =
  level3cnt :: u32
  datablkcnt :: u32
  datablklen :: u32

record capi_version =
  majorversion :: u32
  minorversion :: u32
  majormanuversion :: u32
  minormanuversion :: u32

record capi_profile =
  ncontroller :: u16
  nbchannel :: u16
  goptions :: u32
  support1 :: u32
  support2 :: u32
  support3 :: u32
  profile_reserved :: "u32 list"
  profile_manu :: "u32 list"

definition CAPI_MANUFACTURER_LEN :: nat where "CAPI_MANUFACTURER_LEN = 64"
definition CAPI_SERIAL_LEN :: nat where "CAPI_SERIAL_LEN = 8"

text \<open>capiappl.h; an \<open>unsigned long\<close> has 32 bits.\<close>

record capi_stats =
  rx_bytes :: u32
  tx_bytes :: u32
  rx_packets :: u32
  tx_packets :: u32

definition zero_stats :: capi_stats where
  "zero_stats = \<lparr>rx_bytes = 0, tx_bytes = 0, rx_packets = 0, tx_packets = 0\<rparr>"

record capi_appl =
  appl_id :: u16
  appl_sig :: "nat option"
  appl_sig_param :: nat
  msg_queue :: "bytes list"
  appl_info :: u16
  appl_devs :: "nat set"
  appl_stats :: capi_stats
  appl_params :: capi_register_params
  appl_data :: "nat option"

text \<open>capidevice.h; \<open>dev_refs\<close> is the reference counter inside \<open>class_dev\<close>.\<close>

record capi_device =
  dev_id :: nat
  dev_product :: bytes
  dev_manufacturer :: bytes
  dev_serial :: bytes
  dev_version :: capi_version
  dev_profile :: capi_profile
  sem_write :: bool
  dev_stats :: capi_stats
  dev_refs :: nat
  dev_data :: "nat option"
  dev_dev :: "nat option"

text \<open>
  What a driver is told: an application is registered (with the driver's answer) or
  released, a message is handed over; and \<open>Delisted\<close>, the point at which the capicore forgets the
  device.
\<close>

datatype drv_event =
    Registered nat nat u16
  | Released nat nat
  | PutMsg nat nat bytes
  | Delisted nat

record core =
  devs :: "nat \<rightharpoonup> capi_device"
  appls :: "nat \<rightharpoonup> capi_appl"
  capi_devs_table :: "nat option list"
  capi_appls_list :: "nat list"
  capi_devs_list :: "nat list"
  nr_capi_devs :: int
  drv_trace :: "drv_event list"
  signals :: "(nat \<times> nat \<times> nat) list"

record core_env =
  CAPI_MAX_DEVS :: nat
  CAPI_MAX_APPLS :: nat
  drv_register :: "drv_event list \<Rightarrow> nat \<Rightarrow> nat \<Rightarrow> u16"
  drv_put_message :: "drv_event list \<Rightarrow> nat \<Rightarrow> nat \<Rightarrow> bytes \<Rightarrow> u16"

definition core_init :: "core_env \<Rightarrow> core" where
  "core_init env = \<lparr>devs = (\<lambda>_. None), appls = (\<lambda>_. None),
     capi_devs_table = replicate (CAPI_MAX_DEVS env) None,
     capi_appls_list = [], capi_devs_list = [], nr_capi_devs = 0, drv_trace = [], signals = []\<rparr>"

definition upd_dev :: "nat \<Rightarrow> (capi_device \<Rightarrow> capi_device) \<Rightarrow> core \<Rightarrow> core option" where
  "upd_dev d f s = do { dev \<leftarrow> devs s d; Some (s\<lparr>devs := (devs s)(d \<mapsto> f dev)\<rparr>) }"

definition upd_appl :: "nat \<Rightarrow> (capi_appl \<Rightarrow> capi_appl) \<Rightarrow> core \<Rightarrow> core option" where
  "upd_appl a f s = do { ap \<leftarrow> appls s a; Some (s\<lparr>appls := (appls s)(a \<mapsto> f ap)\<rparr>) }"

definition log_drv :: "drv_event \<Rightarrow> core \<Rightarrow> core" where
  "log_drv e s = s\<lparr>drv_trace := e # drv_trace s\<rparr>"

section \<open>Device references (capidevice.h)\<close>

definition zero_dev :: capi_device where
  "zero_dev = \<lparr>dev_id = 0, dev_product = replicate 20 0,
     dev_manufacturer = replicate CAPI_MANUFACTURER_LEN 0, dev_serial = replicate CAPI_SERIAL_LEN 0,
     dev_version = \<lparr>majorversion = 0, minorversion = 0, majormanuversion = 0, minormanuversion = 0\<rparr>,
     dev_profile = \<lparr>ncontroller = 0, nbchannel = 0, goptions = 0, support1 = 0, support2 = 0, support3 = 0,
       profile_reserved = replicate 6 0, profile_manu = replicate 5 0\<rparr>,
     sem_write = False, dev_stats = zero_stats, dev_refs = 1, dev_data = None, dev_dev = None\<rparr>"

text \<open>The argument is the result of \<open>kmalloc\<close>.\<close>

definition capi_device_alloc :: "nat option \<Rightarrow> core \<Rightarrow> nat option \<times> core" where
  "capi_device_alloc p s =
     (case p of
        None \<Rightarrow> (None, s)
      | Some d \<Rightarrow> (Some d, s\<lparr>devs := (devs s)(d \<mapsto> zero_dev)\<rparr>))"

definition free_capi_device :: "nat \<Rightarrow> core \<Rightarrow> core option" where
  "free_capi_device d s = do {
     dev \<leftarrow> devs s d;
     s \<leftarrow> (if dev_id dev \<noteq> 0
          then if dev_id dev - 1 < length (capi_devs_table s)
               then Some (s\<lparr>capi_devs_table := (capi_devs_table s)[dev_id dev - 1 := None]\<rparr>)
               else None
          else Some s);
     Some (s\<lparr>devs := (devs s)(d := None)\<rparr>) }"

definition capi_device_get :: "nat option \<Rightarrow> core \<Rightarrow> (nat option \<times> core) option" where
  "capi_device_get p s =
     (case p of
        None \<Rightarrow> Some (None, s)
      | Some d \<Rightarrow> do {
          s \<leftarrow> upd_dev d (\<lambda>dev. dev\<lparr>dev_refs := dev_refs dev + 1\<rparr>) s;
          Some (Some d, s) })"

text \<open>\<open>class_device_put\<close> calls the release function of \<open>capi_class\<close> for the last reference.\<close>

definition capi_device_put :: "nat \<Rightarrow> core \<Rightarrow> core option" where
  "capi_device_put d s = do {
     dev \<leftarrow> devs s d;
     if dev_refs dev = 0 then None
     else if dev_refs dev = 1 then free_capi_device d s
     else upd_dev d (\<lambda>dev. dev\<lparr>dev_refs := dev_refs dev - 1\<rparr>) s }"

definition capi_device_set_devdata :: "nat \<Rightarrow> nat option \<Rightarrow> core \<Rightarrow> core option" where
  "capi_device_set_devdata d p s = upd_dev d (\<lambda>dev. dev\<lparr>dev_data := p\<rparr>) s"

definition capi_device_get_devdata :: "nat \<Rightarrow> core \<Rightarrow> nat option option" where
  "capi_device_get_devdata d s = map_option dev_data (devs s d)"

definition capi_device_set_dev :: "nat \<Rightarrow> nat option \<Rightarrow> core \<Rightarrow> core option" where
  "capi_device_set_dev d p s = upd_dev d (\<lambda>dev. dev\<lparr>dev_dev := p\<rparr>) s"

definition capi_device_get_dev :: "nat \<Rightarrow> core \<Rightarrow> nat option option" where
  "capi_device_get_dev d s = map_option dev_dev (devs s d)"

section \<open>Registering devices\<close>

text \<open>The first free slot at or after \<open>i\<close> of the table.\<close>

fun first_free :: "nat option list \<Rightarrow> nat \<Rightarrow> nat option" where
  "first_free [] i = None"
| "first_free (x # xs) i = (if x = None then Some i else first_free xs (i + 1))"

definition add_capi_device :: "nat \<Rightarrow> core \<Rightarrow> (nat \<times> core) option" where
  "add_capi_device d s =
     (case first_free (capi_devs_table s) 0 of
        Some i \<Rightarrow> do {
          let s = s\<lparr>capi_devs_table := (capi_devs_table s)[i := Some d]\<rparr>;
          s \<leftarrow> upd_dev d (\<lambda>dev. dev\<lparr>dev_id := i + 1\<rparr>) s;
          Some (i + 1, s) }
      | None \<Rightarrow> do {
          s \<leftarrow> upd_dev d (\<lambda>dev. dev\<lparr>dev_id := 0\<rparr>) s;
          Some (0, s) })"

definition register_capi_appl :: "core_env \<Rightarrow> nat \<Rightarrow> nat \<Rightarrow> core \<Rightarrow> core option" where
  "register_capi_appl env a d s = do {
     dev \<leftarrow> devs s d;
     ap \<leftarrow> appls s a;
     let info = drv_register env (drv_trace s) d a;
     let s = log_drv (Registered d a info) s;
     if info \<noteq> 0 then Some s
     else do {
       s \<leftarrow> upd_appl a (\<lambda>ap. ap\<lparr>appl_devs := insert (dev_id dev - 1) (appl_devs ap)\<rparr>) s;
       (_, s) \<leftarrow> capi_device_get (Some d) s;
       Some s } }"

definition bind_capi_device :: "core_env \<Rightarrow> nat \<Rightarrow> core \<Rightarrow> (nat \<times> core) option" where
  "bind_capi_device env d s = do {
     (i, s) \<leftarrow> add_capi_device d s;
     s \<leftarrow> (if i \<noteq> 0 then do {
            s \<leftarrow> fold_opt (\<lambda>a. register_capi_appl env a d) (capi_appls_list s) s;
            s \<leftarrow> upd_dev d (\<lambda>dev. dev\<lparr>sem_write := False\<rparr>) s;
            let s = s\<lparr>nr_capi_devs := nr_capi_devs s + 1\<rparr>;
            Some (s\<lparr>capi_devs_list := capi_devs_list s @ [d]\<rparr>) }
          else Some s);
     dev \<leftarrow> devs s d;
     Some (dev_id dev, s) }"

text \<open>
  A device that was never bound has no list links (its entry is zero): unlinking it would
  dereference NULL.  A device whose semaphore is already held for writing would block forever.
\<close>

definition unregister_capi_device :: "nat \<Rightarrow> core \<Rightarrow> core option" where
  "unregister_capi_device d s = do {
     dev \<leftarrow> devs s d;
     if dev_id dev = 0 \<or> sem_write dev then None
     else do {
       let s = log_drv (Delisted d) (s\<lparr>capi_devs_list := remove1 d (capi_devs_list s)\<rparr>);
       s \<leftarrow> upd_dev d (\<lambda>dev. dev\<lparr>sem_write := True\<rparr>) s;
       Some (s\<lparr>nr_capi_devs := nr_capi_devs s - 1\<rparr>) } }"

definition EINVAL :: int where "EINVAL = 22"
definition EMFILE :: int where "EMFILE = 24"

text \<open>The second argument is the result of \<open>capi_device_register_sysfs\<close>.\<close>

definition capi_device_register :: "core_env \<Rightarrow> int \<Rightarrow> nat option \<Rightarrow> core \<Rightarrow> (int \<times> core) option" where
  "capi_device_register env sysfs_res p s =
     (case p of
        None \<Rightarrow> Some (- EINVAL, s)
      | Some d \<Rightarrow> do {
          s \<leftarrow> upd_dev d (\<lambda>dev. dev\<lparr>sem_write := True\<rparr>) s;
          (i, s) \<leftarrow> bind_capi_device env d s;
          if i = 0 then Some (- EMFILE, s)
          else if sysfs_res \<noteq> 0 then do {
            s \<leftarrow> unregister_capi_device d s;
            Some (sysfs_res, s) }
          else Some (sysfs_res, s) })"

definition capi_device_unregister :: "nat \<Rightarrow> core \<Rightarrow> core option" where
  "capi_device_unregister d s = unregister_capi_device d s"

section \<open>Registering applications\<close>

text \<open>
  The scan of the ordered application list: the number found and the entries before the
  insertion point.
\<close>

fun scan_appls :: "core \<Rightarrow> u16 \<Rightarrow> nat list \<Rightarrow> (u16 \<times> nat list \<times> nat list) option" where
  "scan_appls s i [] = Some (i, [], [])"
| "scan_appls s i (a # as) = do {
     ap \<leftarrow> appls s a;
     if appl_id ap > i then Some (i, [], a # as)
     else do {
       (j, before, after) \<leftarrow> scan_appls s (i + 1) as;
       Some (j, a # before, after) } }"

definition add_capi_appl :: "core_env \<Rightarrow> nat \<Rightarrow> core \<Rightarrow> (u16 \<times> core) option" where
  "add_capi_appl env a s = do {
     (i, before, after) \<leftarrow> scan_appls s 1 (capi_appls_list s);
     if unat i > CAPI_MAX_APPLS env then do {
       s \<leftarrow> upd_appl a (\<lambda>ap. ap\<lparr>appl_id := 0\<rparr>) s;
       Some (0, s) }
     else do {
       s \<leftarrow> upd_appl a (\<lambda>ap. ap\<lparr>appl_id := i\<rparr>) s;
       Some (i, s\<lparr>capi_appls_list := before @ a # after\<rparr>) } }"

definition bind_capi_appl :: "core_env \<Rightarrow> nat \<Rightarrow> core \<Rightarrow> (u16 \<times> core) option" where
  "bind_capi_appl env a s = do {
     (i, s) \<leftarrow> add_capi_appl env a s;
     s \<leftarrow> (if i \<noteq> 0 then fold_opt (register_capi_appl env a) (capi_devs_list s) s else Some s);
     ap \<leftarrow> appls s a;
     Some (appl_id ap, s) }"

definition capi_register :: "core_env \<Rightarrow> nat option \<Rightarrow> core \<Rightarrow> (u16 \<times> core) option" where
  "capi_register env p s =
     (case p of
        None \<Rightarrow> Some (CAPINFO_0X10_OSRESERR, s)
      | Some a \<Rightarrow> do {
          ap \<leftarrow> appls s a;
          if datablklen (appl_params ap) < 128 then Some (CAPINFO_0X10_LOGBLKSIZETOSMALL, s)
          else do {
            s \<leftarrow> upd_appl a (\<lambda>ap. ap\<lparr>msg_queue := [], appl_info := CAPINFO_0X11_NOERR,
                   appl_stats := zero_stats, appl_devs := {}\<rparr>) s;
            (i, s) \<leftarrow> bind_capi_appl env a s;
            if i = 0 then Some (CAPINFO_0X10_TOOMANYAPPLS, s)
            else Some (CAPINFO_0X10_NOERR, s) } })"

definition capi_device_listed :: "nat \<Rightarrow> core \<Rightarrow> bool" where
  "capi_device_listed d s = (d \<in> set (capi_devs_list s))"

text \<open>One turn of the loop of \<open>capi_release\<close>, for the set bit \<open>i\<close>.\<close>

definition release_slot :: "nat \<Rightarrow> nat \<Rightarrow> core \<Rightarrow> core option" where
  "release_slot a i s = do {
     p \<leftarrow> nth_opt (capi_devs_table s) i;
     d \<leftarrow> p;
     let s = (if capi_device_listed d s then log_drv (Released d a) s else s);
     capi_device_put d s }"

definition capi_release :: "core_env \<Rightarrow> nat \<Rightarrow> core \<Rightarrow> (u16 \<times> core) option" where
  "capi_release env a s = do {
     ap \<leftarrow> appls s a;
     s \<leftarrow> fold_opt (release_slot a) (filter (\<lambda>i. i \<in> appl_devs ap) [0..<CAPI_MAX_DEVS env]) s;
     let s = s\<lparr>capi_appls_list := remove1 a (capi_appls_list s)\<rparr>;
     s \<leftarrow> upd_appl a (\<lambda>ap. ap\<lparr>msg_queue := []\<rparr>) s;
     ap \<leftarrow> appls s a;
     Some (appl_info ap, s) }"

section \<open>Messages\<close>

definition capi_put_message :: "core_env \<Rightarrow> nat \<Rightarrow> bytes option \<Rightarrow> core \<Rightarrow> (u16 \<times> core) option" where
  "capi_put_message env a msg s = do {
     ap \<leftarrow> appls s a;
     if appl_info ap \<noteq> 0 then Some (appl_info ap, s)
     else (case msg of
        None \<Rightarrow> Some (CAPINFO_0X11_ILLCMDORMSGTOSMALL, s)
      | Some m \<Rightarrow>
          if length m < CAPIMSG_BASELEN + 4 then Some (CAPINFO_0X11_ILLCMDORMSGTOSMALL, s)
          else do {
            c \<leftarrow> CAPIMSG_CONTROLLER m;
            let id = unat c;
            if \<not> (id \<noteq> 0 \<and> id \<le> CAPI_MAX_DEVS env \<and> id - 1 \<in> appl_devs ap)
            then Some (CAPINFO_0X11_OSRESERR, s)
            else do {
              p \<leftarrow> nth_opt (capi_devs_table s) (id - 1);
              d \<leftarrow> p;
              dev \<leftarrow> devs s d;
              if sem_write dev then Some (CAPINFO_0X11_OSRESERR, s)
              else Some (drv_put_message env (drv_trace s) d a m, log_drv (PutMsg d a m) s) } }) }"

definition capi_isinstalled :: "core \<Rightarrow> u16" where
  "capi_isinstalled s = (if nr_capi_devs s \<noteq> 0 then CAPINFO_0X11_NOERR else CAPINFO_0X11_NOTINSTALLED)"

definition capi_set_signal :: "nat option \<Rightarrow> nat option \<Rightarrow> nat \<Rightarrow> core \<Rightarrow> core option" where
  "capi_set_signal p sg param s =
     (case p of
        None \<Rightarrow> Some s
      | Some a \<Rightarrow> upd_appl a (\<lambda>ap. ap\<lparr>appl_sig := sg, appl_sig_param := param\<rparr>) s)"

text \<open>The second component is what is stored through \<open>msg\<close>, if anything.\<close>

definition capi_get_message :: "nat \<Rightarrow> core \<Rightarrow> (u16 \<times> bytes option option \<times> core) option" where
  "capi_get_message a s = do {
     ap \<leftarrow> appls s a;
     if appl_info ap \<noteq> 0 then Some (appl_info ap, None, s)
     else (case msg_queue ap of
        [] \<Rightarrow> Some (CAPINFO_0X11_QUEUEEMPTY, Some None, s)
      | m # q \<Rightarrow> do {
          s \<leftarrow> upd_appl a (\<lambda>ap. ap\<lparr>msg_queue := q\<rparr>) s;
          Some (CAPINFO_0X11_NOERR, Some (Some m), s) }) }"

definition capi_unget_message :: "nat \<Rightarrow> bytes \<Rightarrow> core \<Rightarrow> core option" where
  "capi_unget_message a m s = upd_appl a (\<lambda>ap. ap\<lparr>msg_queue := m # msg_queue ap\<rparr>) s"

definition capi_peek_message :: "nat \<Rightarrow> core \<Rightarrow> u16 option" where
  "capi_peek_message a s = do {
     ap \<leftarrow> appls s a;
     Some (if appl_info ap \<noteq> 0 then appl_info ap
           else if msg_queue ap = [] then CAPINFO_0X11_QUEUEEMPTY else CAPINFO_0X11_NOERR) }"

definition capi_appl_enqueue_message :: "nat \<Rightarrow> bytes \<Rightarrow> core \<Rightarrow> core option" where
  "capi_appl_enqueue_message a m s = upd_appl a (\<lambda>ap. ap\<lparr>msg_queue := msg_queue ap @ [m]\<rparr>) s"

definition capi_appl_signal :: "nat \<Rightarrow> core \<Rightarrow> core option" where
  "capi_appl_signal a s = do {
     ap \<leftarrow> appls s a;
     h \<leftarrow> appl_sig ap;
     Some (s\<lparr>signals := (h, a, appl_sig_param ap) # signals s\<rparr>) }"

definition capi_appl_signal_error :: "nat \<Rightarrow> u16 \<Rightarrow> core \<Rightarrow> core option" where
  "capi_appl_signal_error a info s = do {
     s \<leftarrow> upd_appl a (\<lambda>ap. if appl_info ap = 0 then ap\<lparr>appl_info := info\<rparr> else ap) s;
     capi_appl_signal a s }"

section \<open>Device information\<close>

text \<open>The device is returned with its semaphore held for reading; the callers release it again.\<close>

definition try_get_capi_device_by_id :: "core_env \<Rightarrow> int \<Rightarrow> core \<Rightarrow> capi_device option option" where
  "try_get_capi_device_by_id env contr s =
     (if contr < 1 \<or> contr > int (CAPI_MAX_DEVS env) then Some None
      else do {
        p \<leftarrow> nth_opt (capi_devs_table s) (nat contr - 1);
        case p of
          None \<Rightarrow> Some None
        | Some d \<Rightarrow> do {
            dev \<leftarrow> devs s d;
            Some (if sem_write dev then None else Some dev) } })"

text \<open>\<open>strlcpy\<close> into a buffer of \<open>n\<close> bytes and \<open>memcpy\<close> of \<open>n\<close> bytes.\<close>

definition strlcpy :: "bytes \<Rightarrow> string \<Rightarrow> nat \<Rightarrow> bytes option" where
  "strlcpy dst src n =
     sts dst 0 (take (n - 1) (map (\<lambda>c. of_char c) src) @ [0])"

definition memcpy :: "bytes \<Rightarrow> bytes \<Rightarrow> nat \<Rightarrow> bytes option" where
  "memcpy dst src n = do { bs \<leftarrow> lds src 0 n; sts dst 0 bs }"

text \<open>
  The outer \<open>None\<close> is undefined behaviour, the inner one the NULL that the functions return
  when there is no such device; otherwise the result is the new content of the target buffer.
\<close>

definition capi_get_manufacturer :: "core_env \<Rightarrow> int \<Rightarrow> bytes \<Rightarrow> core \<Rightarrow> bytes option option" where
  "capi_get_manufacturer env contr manufacturer s =
     (if contr \<noteq> 0 then do {
        dev \<leftarrow> try_get_capi_device_by_id env contr s;
        case dev of
          None \<Rightarrow> Some None
        | Some dev \<Rightarrow> map_option Some (memcpy manufacturer (dev_manufacturer dev) CAPI_MANUFACTURER_LEN) }
      else map_option Some (strlcpy manufacturer ''NGC4Linux'' CAPI_MANUFACTURER_LEN))"

definition capi_get_serial_number :: "core_env \<Rightarrow> int \<Rightarrow> bytes \<Rightarrow> core \<Rightarrow> bytes option option" where
  "capi_get_serial_number env contr serial s =
     (if contr \<noteq> 0 then do {
        dev \<leftarrow> try_get_capi_device_by_id env contr s;
        case dev of
          None \<Rightarrow> Some None
        | Some dev \<Rightarrow> map_option Some (memcpy serial (dev_serial dev) CAPI_SERIAL_LEN) }
      else map_option Some (strlcpy serial ''0'' CAPI_SERIAL_LEN))"

definition capi_get_version :: "core_env \<Rightarrow> int \<Rightarrow> core \<Rightarrow> capi_version option option" where
  "capi_get_version env contr s =
     (if contr \<noteq> 0 then do {
        dev \<leftarrow> try_get_capi_device_by_id env contr s;
        case dev of
          None \<Rightarrow> Some None
        | Some dev \<Rightarrow> Some (Some (dev_version dev)) }
      else Some (Some \<lparr>majorversion = 2, minorversion = 0, majormanuversion = 0, minormanuversion = 0\<rparr>))"

definition capi_get_profile :: "core_env \<Rightarrow> int \<Rightarrow> capi_profile \<Rightarrow> core \<Rightarrow> (u16 \<times> capi_profile) option" where
  "capi_get_profile env contr profile s =
     (if contr \<noteq> 0 then do {
        dev \<leftarrow> try_get_capi_device_by_id env contr s;
        case dev of
          None \<Rightarrow> Some (CAPINFO_0X11_OSRESERR, profile)
        | Some dev \<Rightarrow>
            Some (CAPINFO_0X11_NOERR, (dev_profile dev)\<lparr>ncontroller := word_of_int (nr_capi_devs s)\<rparr>) }
      else Some (CAPINFO_0X11_NOERR, profile\<lparr>ncontroller := word_of_int (nr_capi_devs s)\<rparr>))"

text \<open>\<open>KOBJ_NAME_LEN\<close> is 20.\<close>

definition capi_get_product :: "core_env \<Rightarrow> int \<Rightarrow> bytes \<Rightarrow> core \<Rightarrow> bytes option option" where
  "capi_get_product env contr product s =
     (if contr \<noteq> 0 then do {
        dev \<leftarrow> try_get_capi_device_by_id env contr s;
        case dev of
          None \<Rightarrow> Some None
        | Some dev \<Rightarrow> map_option Some (memcpy product (dev_product dev) 20) }
      else Some None)"

end
