(* ===== verification/CapiCoreInv.thy ===== *)
theory CapiCoreInv
  imports CapiCore
begin

text \<open>
  The invariant of the capicore and its preservation by every operation.  The invariant is stated over
  four parameters besides the state, so that it also describes the states inside the loops of
  \<open>bind_capi_device\<close>, \<open>bind_capi_appl\<close> and \<open>capi_release\<close>: the registered applications \<open>A\<close>, the
  devices \<open>L\<close> that count as listed, and the device bits \<open>H a\<close> of each application.
\<close>

section \<open>What a driver may be told\<close>

text \<open>The application is registered with the device according to the driver's trace.\<close>

fun in_session :: "drv_event list \<Rightarrow> nat \<Rightarrow> nat \<Rightarrow> bool" where
  "in_session [] d a = False"
| "in_session (Registered d' a' r # t) d a = (if d' = d \<and> a' = a then r = 0 else in_session t d a)"
| "in_session (Released d' a' # t) d a = ((d' = d \<longrightarrow> a' \<noteq> a) \<and> in_session t d a)"
| "in_session (PutMsg d' a' m # t) d a = in_session t d a"
| "in_session (Delisted d' # t) d a = (d' \<noteq> d \<and> in_session t d a)"

text \<open>Sessions are opened once and closed once, and messages are sent inside a session only.\<close>

fun protocol_ok :: "drv_event list \<Rightarrow> bool" where
  "protocol_ok [] = True"
| "protocol_ok (Registered d a r # t) \<longleftrightarrow> \<not> in_session t d a \<and> protocol_ok t"
| "protocol_ok (Released d a # t) \<longleftrightarrow> in_session t d a \<and> protocol_ok t"
| "protocol_ok (PutMsg d a m # t) \<longleftrightarrow> in_session t d a \<and> protocol_ok t"
| "protocol_ok (Delisted d # t) \<longleftrightarrow> protocol_ok t"

section \<open>The invariant\<close>

text \<open>The number, the reference count and the write lock of a device.\<close>

definition dinfo :: "core \<Rightarrow> nat \<Rightarrow> (nat \<times> nat \<times> bool) option" where
  "dinfo s d = map_option (\<lambda>dev. (dev_id dev, dev_refs dev, sem_write dev)) (devs s d)"

definition table_ok :: "core_env \<Rightarrow> core \<Rightarrow> bool" where
  "table_ok env s \<longleftrightarrow>
     length (capi_devs_table s) = CAPI_MAX_DEVS env \<and>
     (\<forall>i d. i < CAPI_MAX_DEVS env \<longrightarrow> capi_devs_table s ! i = Some d \<longrightarrow>
        (\<exists>r w. dinfo s d = Some (i + 1, r, w))) \<and>
     (\<forall>d n r w. dinfo s d = Some (n, r, w) \<longrightarrow> n \<noteq> 0 \<longrightarrow>
        n \<le> CAPI_MAX_DEVS env \<and> capi_devs_table s ! (n - 1) = Some d)"

definition bits_ok :: "nat set \<Rightarrow> (nat \<Rightarrow> nat set) \<Rightarrow> core \<Rightarrow> bool" where
  "bits_ok A H s \<longleftrightarrow>
     finite A \<and>
     (\<forall>a\<in>A. \<forall>i\<in>H a. i < length (capi_devs_table s) \<and> capi_devs_table s ! i \<noteq> None)"

definition holders :: "nat set \<Rightarrow> (nat \<Rightarrow> nat set) \<Rightarrow> nat \<Rightarrow> nat set" where
  "holders A H i = {a \<in> A. i \<in> H a}"

definition refs_ok :: "nat set \<Rightarrow> nat set \<Rightarrow> (nat \<Rightarrow> nat set) \<Rightarrow> core \<Rightarrow> bool" where
  "refs_ok A L H s \<longleftrightarrow>
     (\<forall>d n r w. dinfo s d = Some (n, r, w) \<longrightarrow> 0 < r \<and>
        (n \<noteq> 0 \<longrightarrow> card (holders A H (n - 1)) + (if d \<in> L then 1 else 0) \<le> r))"

definition trace_ok :: "nat set \<Rightarrow> nat set \<Rightarrow> (nat \<Rightarrow> nat set) \<Rightarrow> core \<Rightarrow> bool" where
  "trace_ok A L H s \<longleftrightarrow>
     protocol_ok (drv_trace s) \<and>
     (\<forall>d a. in_session (drv_trace s) d a \<longleftrightarrow>
        a \<in> A \<and> d \<in> L \<and> (\<exists>n r w. dinfo s d = Some (n, r, w) \<and> n - 1 \<in> H a))"

definition numbered :: "nat set \<Rightarrow> core \<Rightarrow> bool" where
  "numbered L s \<longleftrightarrow> (\<forall>d\<in>L. \<exists>n r w. dinfo s d = Some (n, r, w) \<and> n \<noteq> 0)"

definition body_ok :: "core_env \<Rightarrow> nat set \<Rightarrow> nat set \<Rightarrow> (nat \<Rightarrow> nat set) \<Rightarrow> core \<Rightarrow> bool" where
  "body_ok env A L H s \<longleftrightarrow>
     table_ok env s \<and> bits_ok A H s \<and> refs_ok A L H s \<and> trace_ok A L H s \<and> numbered L s"

text \<open>A numbered device is listed exactly while its semaphore can be taken by readers.\<close>

definition devs_list_ok :: "core \<Rightarrow> bool" where
  "devs_list_ok s \<longleftrightarrow>
     distinct (capi_devs_list s) \<and> nr_capi_devs s = int (length (capi_devs_list s)) \<and>
     (\<forall>d n r w. dinfo s d = Some (n, r, w) \<longrightarrow> n \<noteq> 0 \<longrightarrow>
        (d \<in> set (capi_devs_list s) \<longleftrightarrow> \<not> w))"

definition id_of :: "core \<Rightarrow> nat \<Rightarrow> u16" where
  "id_of s a = (case appls s a of None \<Rightarrow> 0 | Some ap \<Rightarrow> appl_id ap)"

definition bits :: "core \<Rightarrow> nat \<Rightarrow> nat set" where
  "bits s a = (case appls s a of None \<Rightarrow> {} | Some ap \<Rightarrow> appl_devs ap)"

definition appls_ok :: "core_env \<Rightarrow> core \<Rightarrow> bool" where
  "appls_ok env s \<longleftrightarrow>
     set (capi_appls_list s) \<subseteq> dom (appls s) \<and>
     sorted_wrt (<) (map (id_of s) (capi_appls_list s)) \<and>
     (\<forall>a\<in>set (capi_appls_list s). id_of s a \<noteq> 0 \<and> unat (id_of s a) \<le> CAPI_MAX_APPLS env)"

definition core_inv :: "core_env \<Rightarrow> core \<Rightarrow> bool" where
  "core_inv env s \<longleftrightarrow>
     body_ok env (set (capi_appls_list s)) (set (capi_devs_list s)) (bits s) s \<and>
     devs_list_ok s \<and> appls_ok env s"

lemmas body_defs = body_ok_def table_ok_def bits_ok_def refs_ok_def trace_ok_def numbered_def
lemmas core_inv_defs = core_inv_def body_defs devs_list_ok_def appls_ok_def

lemma core_inv_init: "core_inv env (core_init env)"
  by (simp add: core_inv_defs core_init_def holders_def dinfo_def)

section \<open>Changes the invariant does not see\<close>

lemma holders_cong: "(\<And>a. a \<in> A \<Longrightarrow> H' a = H a) \<Longrightarrow> holders A H' i = holders A H i"
  by (auto simp: holders_def)

lemma body_ok_same:
  assumes "body_ok env A L H s" and "dinfo s' = dinfo s"
    and "capi_devs_table s' = capi_devs_table s" and "drv_trace s' = drv_trace s"
    and "\<And>a. a \<in> A \<Longrightarrow> H' a = H a"
  shows "body_ok env A L H' s'"
proof -
  have h: "holders A H' i = holders A H i" for i by (rule holders_cong) (rule assms(5))
  have "(a \<in> A \<and> d \<in> L \<and> (\<exists>n r w. dinfo s d = Some (n, r, w) \<and> n - 1 \<in> H' a)) \<longleftrightarrow>
      (a \<in> A \<and> d \<in> L \<and> (\<exists>n r w. dinfo s d = Some (n, r, w) \<and> n - 1 \<in> H a))" for d a
    using assms(5) [of a] by auto
  with assms have "trace_ok A L H' s'" by (simp add: body_ok_def trace_ok_def)
  moreover from assms have "table_ok env s'" by (simp add: body_ok_def table_ok_def)
  moreover from assms have "bits_ok A H' s'" by (simp add: body_ok_def bits_ok_def)
  moreover from assms have "refs_ok A L H' s'" by (simp add: body_ok_def refs_ok_def h)
  moreover from assms have "numbered L s'" by (simp add: body_ok_def numbered_def)
  ultimately show ?thesis by (simp add: body_ok_def)
qed

text \<open>
  The two states agree on everything the invariant speaks of.
\<close>

definition same_core :: "core \<Rightarrow> core \<Rightarrow> bool" where
  "same_core s s' \<longleftrightarrow>
     dinfo s' = dinfo s \<and>
     (\<forall>a\<in>set (capi_appls_list s). id_of s' a = id_of s a \<and> bits s' a = bits s a \<and> appls s' a \<noteq> None) \<and>
     capi_devs_table s' = capi_devs_table s \<and> capi_appls_list s' = capi_appls_list s \<and>
     capi_devs_list s' = capi_devs_list s \<and> nr_capi_devs s' = nr_capi_devs s \<and>
     drv_trace s' = drv_trace s"

lemma core_inv_same:
  assumes "core_inv env s" and "same_core s s'"
  shows "core_inv env s'"
proof -
  have "body_ok env (set (capi_appls_list s)) (set (capi_devs_list s)) (bits s') s'"
    by (rule body_ok_same [of _ _ _ "bits s" s]) (use assms in \<open>auto simp: core_inv_def same_core_def\<close>)
  moreover have "appls_ok env s'"
  proof -
    have "map (id_of s') (capi_appls_list s) = map (id_of s) (capi_appls_list s)"
      using assms(2) by (simp add: same_core_def)
    then have "sorted_wrt (<) (map (id_of s') (capi_appls_list s))"
      using assms(1) by (simp only: core_inv_def appls_ok_def)
    then show ?thesis using assms by (auto simp: core_inv_def same_core_def appls_ok_def)
  qed
  ultimately show ?thesis
    using assms by (auto simp: core_inv_def same_core_def devs_list_ok_def)
qed

lemma dinfo_simps [simp]:
  "dinfo (s\<lparr>appls := x1\<rparr>) = dinfo s" "dinfo (s\<lparr>capi_devs_table := x2\<rparr>) = dinfo s"
  "dinfo (s\<lparr>capi_appls_list := x3\<rparr>) = dinfo s" "dinfo (s\<lparr>capi_devs_list := x4\<rparr>) = dinfo s"
  "dinfo (s\<lparr>nr_capi_devs := x5\<rparr>) = dinfo s" "dinfo (s\<lparr>drv_trace := x6\<rparr>) = dinfo s"
  "dinfo (s\<lparr>signals := x7\<rparr>) = dinfo s"
  "dinfo (s\<lparr>devs := (devs s)(d \<mapsto> dev)\<rparr>) = (dinfo s)(d \<mapsto> (dev_id dev, dev_refs dev, sem_write dev))"
  "dinfo (s\<lparr>devs := (devs s)(d := None)\<rparr>) = (dinfo s)(d := None)"
  by (auto simp: dinfo_def fun_eq_iff)

lemma appl_view_simps [simp]:
  "id_of (s\<lparr>devs := x1\<rparr>) = id_of s" "id_of (s\<lparr>capi_devs_table := x2\<rparr>) = id_of s"
  "id_of (s\<lparr>capi_appls_list := x3\<rparr>) = id_of s" "id_of (s\<lparr>capi_devs_list := x4\<rparr>) = id_of s"
  "id_of (s\<lparr>nr_capi_devs := x5\<rparr>) = id_of s" "id_of (s\<lparr>drv_trace := x6\<rparr>) = id_of s"
  "id_of (s\<lparr>signals := x7\<rparr>) = id_of s"
  "id_of (s\<lparr>appls := (appls s)(a \<mapsto> ap)\<rparr>) = (id_of s)(a := appl_id ap)"
  "bits (s\<lparr>devs := x1\<rparr>) = bits s" "bits (s\<lparr>capi_devs_table := x2\<rparr>) = bits s"
  "bits (s\<lparr>capi_appls_list := x3\<rparr>) = bits s" "bits (s\<lparr>capi_devs_list := x4\<rparr>) = bits s"
  "bits (s\<lparr>nr_capi_devs := x5\<rparr>) = bits s" "bits (s\<lparr>drv_trace := x6\<rparr>) = bits s"
  "bits (s\<lparr>signals := x7\<rparr>) = bits s"
  "bits (s\<lparr>appls := (appls s)(a \<mapsto> ap)\<rparr>) = (bits s)(a := appl_devs ap)"
  by (auto simp: id_of_def bits_def fun_eq_iff)

lemma id_of_Some: "appls s a = Some ap \<Longrightarrow> id_of s a = appl_id ap"
  and bits_Some: "appls s a = Some ap \<Longrightarrow> bits s a = appl_devs ap"
  and dinfo_Some: "devs s d = Some dev \<Longrightarrow> dinfo s d = Some (dev_id dev, dev_refs dev, sem_write dev)"
  by (simp_all add: id_of_def bits_def dinfo_def)

lemma core_inv_upd_appl:
  assumes "core_inv env s" and "upd_appl a f s = Some s'"
    and "a \<in> set (capi_appls_list s) \<Longrightarrow> appl_id (f ap) = appl_id ap \<and> appl_devs (f ap) = appl_devs ap"
    and "appls s a = Some ap"
  shows "core_inv env s'"
proof (rule core_inv_same [OF assms(1)])
  have "a \<in> set (capi_appls_list s) \<Longrightarrow> \<exists>y. appls s a = Some y" for a
    using assms(1) by (auto simp: core_inv_def appls_ok_def)
  then show "same_core s s'" using assms(2-4) by (auto simp: upd_appl_def same_core_def id_of_Some bits_Some split: if_splits)
qed

lemma core_inv_upd_dev:
  assumes "core_inv env s" and "upd_dev d f s = Some s'" and "devs s d = Some dev"
    and "dev_id (f dev) = dev_id dev" and "dev_refs (f dev) = dev_refs dev" and "sem_write (f dev) = sem_write dev"
  shows "core_inv env s'"
proof (rule core_inv_same [OF assms(1)])
  have "a \<in> set (capi_appls_list s) \<Longrightarrow> \<exists>y. appls s a = Some y" for a
    using assms(1) by (auto simp: core_inv_def appls_ok_def)
  then show "same_core s s'"
    using assms(2-6) by (auto simp: upd_dev_def same_core_def fun_upd_idem_iff dinfo_Some)
qed

section \<open>Registering one application with one device\<close>

lemma table_unique:
  assumes "table_ok env s" and "dinfo s d = Some (n, r, w)" and "dinfo s d' = Some (n, r', w')" and "n \<noteq> 0"
  shows "d = d'"
  using assms unfolding table_ok_def by (metis option.inject)

lemma table_unique_slot:
  assumes "table_ok env s" and "dinfo s d = Some (n, r, w)" and "dinfo s d' = Some (n', r', w')"
    and "n \<noteq> 0" and "n' \<noteq> 0" and "d' \<noteq> d"
  shows "n' - 1 \<noteq> n - 1"
proof
  assume "n' - 1 = n - 1"
  with assms(4,5) have "n' = n" by simp
  with table_unique [of env s d n r w d' r' w'] assms show False by simp
qed

lemma table_at:
  assumes "table_ok env s" and "dinfo s d = Some (n, r, w)" and "n \<noteq> 0"
  shows "capi_devs_table s ! (n - 1) = Some d" and "n \<le> CAPI_MAX_DEVS env"
    and "length (capi_devs_table s) = CAPI_MAX_DEVS env" and "n - 1 < CAPI_MAX_DEVS env"
proof -
  from assms show "capi_devs_table s ! (n - 1) = Some d" and n: "n \<le> CAPI_MAX_DEVS env"
    and "length (capi_devs_table s) = CAPI_MAX_DEVS env"
    unfolding table_ok_def by metis+
  from n assms(3) show "n - 1 < CAPI_MAX_DEVS env" by simp
qed

lemma holders_upd:
  "holders A (H(a := insert i (H a))) j = (if i = j \<and> a \<in> A then insert a (holders A H j) else holders A H j)"
  by (auto simp: holders_def)

text \<open>
  Everything but the trace, the reference counts and the device bits stays as it is; registering \<open>a\<close> with
  \<open>d\<close> changes no bit but that of \<open>d\<close> in \<open>a\<close>.
\<close>

definition dnum :: "core \<Rightarrow> nat \<Rightarrow> (nat \<times> bool) option" where
  "dnum s d = map_option (\<lambda>(n, r, w). (n, w)) (dinfo s d)"

definition kept :: "core \<Rightarrow> core \<Rightarrow> bool" where
  "kept s s' \<longleftrightarrow>
     capi_devs_table s' = capi_devs_table s \<and> capi_appls_list s' = capi_appls_list s \<and>
     capi_devs_list s' = capi_devs_list s \<and> nr_capi_devs s' = nr_capi_devs s \<and>
     dom (appls s') = dom (appls s) \<and> id_of s' = id_of s \<and> dnum s' = dnum s"

lemma kept_refl [simp]: "kept s s"
  by (simp add: kept_def)

lemma kept_trans: "kept a b \<Longrightarrow> kept b c \<Longrightarrow> kept a c"
  by (simp add: kept_def)

lemma kept_sym: "kept s s' \<Longrightarrow> kept s' s"
  by (simp add: kept_def)

lemma kept_dinfo:
  assumes "kept s s'" and "dinfo s' d = Some (n, r, w)"
  shows "\<exists>r'. dinfo s d = Some (n, r', w)"
proof -
  from assms(2) have "dnum s' d = Some (n, w)" by (simp add: dnum_def)
  with assms(1) have "dnum s d = Some (n, w)" by (simp add: kept_def)
  then show ?thesis by (auto simp: dnum_def)
qed

lemmas kept_dinfo' = kept_dinfo [OF kept_sym]

definition register_frame :: "nat \<Rightarrow> nat \<Rightarrow> core \<Rightarrow> core \<Rightarrow> bool" where
  "register_frame a d s s' \<longleftrightarrow> kept s s' \<and>
     (\<forall>a'. a' \<noteq> a \<longrightarrow> bits s' a' = bits s a') \<and>
     (\<forall>n r w. dinfo s d = Some (n, r, w) \<longrightarrow> bits s' a \<subseteq> insert (n - 1) (bits s a))"

lemma register_step:
  assumes inv: "body_ok env A L (bits s) s" and "d \<in> L" and "a \<in> A" and "appls s a \<noteq> None"
    and num: "dinfo s d = Some (n, r, w)" and new: "n - 1 \<notin> bits s a"
  shows "\<exists>s'. register_capi_appl env a d s = Some s' \<and> body_ok env A L (bits s') s' \<and> register_frame a d s s'"
proof -
  from num obtain dev where dev: "devs s d = Some dev" and n: "dev_id dev = n" "dev_refs dev = r" "sem_write dev = w"
    by (auto simp: dinfo_def)
  from \<open>appls s a \<noteq> None\<close> obtain ap where ap: "appls s a = Some ap" by auto
  let ?info = "drv_register env (drv_trace s) d a"
  let ?s1 = "log_drv (Registered d a ?info) s"
  from inv \<open>d \<in> L\<close> num have n0: "n \<noteq> 0" by (auto simp: body_ok_def numbered_def)
  have tn: "capi_devs_table s ! (n - 1) = Some d" "n \<le> length (capi_devs_table s)" "n \<le> CAPI_MAX_DEVS env"
    using table_at [OF _ num n0] inv by (auto simp: body_ok_def)
  from inv have prot: "protocol_ok (drv_trace s)"
    and sess: "\<And>d a. in_session (drv_trace s) d a \<longleftrightarrow>
        a \<in> A \<and> d \<in> L \<and> (\<exists>n r w. dinfo s d = Some (n, r, w) \<and> n - 1 \<in> bits s a)"
    by (auto simp: body_ok_def trace_ok_def)
  with num new have closed: "\<not> in_session (drv_trace s) d a" by simp
  show ?thesis
  proof (cases "?info = 0")
    case False
    then have "register_capi_appl env a d s = Some ?s1"
      by (simp add: register_capi_appl_def dev ap Let_def)
    moreover have "trace_ok A L (bits ?s1) ?s1"
      using prot sess closed False num new by (auto simp: trace_ok_def log_drv_def)
    then have "body_ok env A L (bits ?s1) ?s1"
      using inv by (auto simp: body_defs log_drv_def)
    ultimately show ?thesis
      by (auto simp: register_frame_def kept_def dnum_def log_drv_def)
  next
    case True
    let ?s2 = "?s1\<lparr>appls := (appls s)(a \<mapsto> ap\<lparr>appl_devs := insert (n - 1) (appl_devs ap)\<rparr>)\<rparr>"
    let ?s3 = "?s2\<lparr>devs := (devs s)(d \<mapsto> dev\<lparr>dev_refs := r + 1\<rparr>)\<rparr>"
    have eq: "register_capi_appl env a d s = Some ?s3"
      by (simp add: register_capi_appl_def dev ap True Let_def upd_appl_def upd_dev_def capi_device_get_def n log_drv_def)
    have di: "dinfo ?s3 = (dinfo s)(d \<mapsto> (n, r + 1, w))"
      by (auto simp: dinfo_def fun_eq_iff n log_drv_def)
    have bi: "bits ?s3 = (bits s)(a := insert (n - 1) (bits s a))"
      by (auto simp: bits_def fun_eq_iff ap log_drv_def)
    have tbl: "capi_devs_table ?s3 = capi_devs_table s" by (simp add: log_drv_def)
    have "table_ok env ?s3"
      using inv num tn unfolding body_ok_def table_ok_def tbl di by auto
    moreover have "bits_ok A (bits ?s3) ?s3"
      using inv tn n0 unfolding body_ok_def bits_ok_def tbl bi by auto
    moreover have "refs_ok A L (bits ?s3) ?s3"
      unfolding refs_ok_def bi di
    proof (intro allI impI)
      fix d' n' r' w'
      assume d': "((dinfo s)(d \<mapsto> (n, r + 1, w))) d' = Some (n', r', w')"
      show "0 < r' \<and> (n' \<noteq> 0 \<longrightarrow> card (holders A ((bits s)(a := insert (n - 1) (bits s a))) (n' - 1)) +
          (if d' \<in> L then 1 else 0) \<le> r')"
      proof (cases "d' = d")
        case True
        from inv num n0 have "card (holders A (bits s) (n - 1)) + (if d \<in> L then 1 else 0) \<le> r" and "finite A"
          by (auto simp: body_ok_def refs_ok_def bits_ok_def)
        moreover from this have "card (insert a (holders A (bits s) (n - 1))) \<le> Suc (card (holders A (bits s) (n - 1)))"
          by (simp add: holders_def card_insert_if)
        ultimately show ?thesis using True d' \<open>a \<in> A\<close> by (auto simp: holders_upd)
      next
        case False
        with d' have "dinfo s d' = Some (n', r', w')" by simp
        moreover from table_unique_slot [OF _ num this n0 _ False] have "n' \<noteq> 0 \<longrightarrow> n - 1 \<noteq> n' - 1"
          using inv by (auto simp: body_ok_def)
        ultimately show ?thesis using inv by (auto simp: body_ok_def refs_ok_def holders_upd)
      qed
    qed
    moreover have "trace_ok A L (bits ?s3) ?s3"
    proof -
      have "drv_trace ?s3 = Registered d a 0 # drv_trace s" using True by (simp add: log_drv_def)
      moreover have "(a' \<in> A \<and> d' \<in> L \<and> (\<exists>n' r' w'. dinfo ?s3 d' = Some (n', r', w') \<and> n' - 1 \<in> bits ?s3 a')) \<longleftrightarrow>
          (if d = d' \<and> a = a' then True else in_session (drv_trace s) d' a')" for d' a'
      proof (cases "d' = d")
        case True
        with num \<open>d \<in> L\<close> \<open>a \<in> A\<close> show ?thesis unfolding di bi sess by auto
      next
        case False
        have "n' - 1 \<noteq> n - 1" if "d' \<in> L" and "dinfo s d' = Some (n', r', w')" for n' r' w'
        proof -
          from that inv have "n' \<noteq> 0" by (auto simp: body_ok_def numbered_def)
          from table_unique_slot [OF _ num that(2) n0 this False] inv show ?thesis by (auto simp only: body_ok_def)
        qed
        with False show ?thesis unfolding di bi sess by auto
      qed
      ultimately show ?thesis using prot closed unfolding trace_ok_def by simp
    qed
    moreover have "numbered L ?s3"
      using inv n0 num unfolding body_ok_def numbered_def di by auto
    moreover have "register_frame a d s ?s3"
    proof -
      have "id_of ?s3 = id_of s" by (auto simp: id_of_def fun_eq_iff ap log_drv_def)
      moreover have "dnum ?s3 = dnum s"
        unfolding dnum_def di by (auto simp: fun_eq_iff num)
      ultimately show ?thesis
        unfolding register_frame_def kept_def bi using num ap by (auto simp: log_drv_def)
    qed
    ultimately show ?thesis using eq by (simp add: body_ok_def)
  qed
qed

section \<open>Registering a device\<close>

lemma first_free_None: "first_free xs i = None \<longleftrightarrow> None \<notin> set xs"
  by (induction xs arbitrary: i) auto

lemma first_free_Some:
  "first_free xs i = Some j \<Longrightarrow> i \<le> j \<and> j - i < length xs \<and> xs ! (j - i) = None"
proof (induction xs arbitrary: i)
  case (Cons x xs)
  show ?case
  proof (cases "x = None")
    case False
    with Cons.prems have "first_free xs (i + 1) = Some j" by simp
    from Cons.IH [OF this] show ?thesis by (auto simp: nth_Cons' not_less_eq_eq)
  qed (use Cons.prems in auto)
qed simp

text \<open>A loop of registrations keeps the invariant when each pair is new to the trace.\<close>

lemma register_all_appls:
  assumes "body_ok env A L (bits s) s" and "d \<in> L" and "set as \<subseteq> A" and "distinct as"
    and "set as \<subseteq> dom (appls s)" and "dinfo s d = Some (n, r, w)" and "\<forall>a\<in>set as. n - 1 \<notin> bits s a"
  shows "\<exists>s'. fold_opt (\<lambda>a. register_capi_appl env a d) as s = Some s' \<and> body_ok env A L (bits s') s' \<and> kept s s'"
  using assms
proof (induction as arbitrary: s r)
  case Nil
  then show ?case by simp
next
  case (Cons a as)
  then have "d \<in> L" and "a \<in> A" and "appls s a \<noteq> None" and "n - 1 \<notin> bits s a" by auto
  from register_step [OF Cons.prems(1) this(1-3) Cons.prems(6) this(4)]
  obtain s1 where s1: "register_capi_appl env a d s = Some s1" and b1: "body_ok env A L (bits s1) s1"
    and f: "register_frame a d s s1" by auto
  from f have k: "kept s s1" by (simp add: register_frame_def)
  from kept_dinfo' [OF k Cons.prems(6)] obtain r1 where d1: "dinfo s1 d = Some (n, r1, w)" by auto
  have "\<forall>a'\<in>set as. n - 1 \<notin> bits s1 a'"
    using f Cons.prems by (auto simp: register_frame_def)
  moreover have "set as \<subseteq> dom (appls s1)" using k Cons.prems(5) by (simp add: kept_def)
  ultimately obtain s2 where "fold_opt (\<lambda>a. register_capi_appl env a d) as s1 = Some s2"
    and "body_ok env A L (bits s2) s2" and "kept s1 s2"
    using Cons.IH [OF b1 \<open>d \<in> L\<close> _ _ _ d1] Cons.prems(3,4) by auto
  with s1 k show ?case by (auto intro: kept_trans)
qed

lemma register_all_devs:
  assumes "body_ok env A L (bits s) s" and "a \<in> A" and "set ds \<subseteq> L" and "distinct ds"
    and "a \<in> dom (appls s)" and "\<forall>d\<in>set ds. \<forall>n r w. dinfo s d = Some (n, r, w) \<longrightarrow> n - 1 \<notin> bits s a"
  shows "\<exists>s'. fold_opt (register_capi_appl env a) ds s = Some s' \<and> body_ok env A L (bits s') s' \<and> kept s s'"
  using assms
proof (induction ds arbitrary: s)
  case Nil
  then show ?case by simp
next
  case (Cons d ds)
  then have "d \<in> L" by simp
  with Cons.prems(1) obtain n r w where d: "dinfo s d = Some (n, r, w)" and n0: "n \<noteq> 0"
    unfolding body_ok_def numbered_def by blast
  have "appls s a \<noteq> None" and "n - 1 \<notin> bits s a" using Cons.prems d by auto
  from register_step [OF Cons.prems(1) \<open>d \<in> L\<close> \<open>a \<in> A\<close> this(1) d this(2)]
  obtain s1 where s1: "register_capi_appl env a d s = Some s1" and b1: "body_ok env A L (bits s1) s1"
    and f: "register_frame a d s s1" by auto
  from f have k: "kept s s1" by (simp add: register_frame_def)
  have "n' - 1 \<notin> bits s1 a" if "d' \<in> set ds" and d': "dinfo s1 d' = Some (n', r', w')" for d' n' r' w'
  proof -
    from kept_dinfo [OF k d'] obtain r'' where d'': "dinfo s d' = Some (n', r'', w')" by auto
    from Cons.prems that have "d' \<noteq> d" "d' \<in> L" by auto
    then have "n' \<noteq> 0" using Cons.prems(1) d'' unfolding body_ok_def numbered_def by force
    from table_unique_slot [OF _ d d'' n0 this \<open>d' \<noteq> d\<close>] Cons.prems(1)
    have "n' - 1 \<noteq> n - 1" by (auto simp only: body_ok_def)
    moreover have "n' - 1 \<notin> bits s a" using Cons.prems(6) that(1) d'' by auto
    ultimately show ?thesis using f d by (auto simp: register_frame_def)
  qed
  moreover have "a \<in> dom (appls s1)" using k Cons.prems(5) by (simp add: kept_def)
  ultimately obtain s2 where "fold_opt (register_capi_appl env a) ds s1 = Some s2"
    and "body_ok env A L (bits s2) s2" and "kept s1 s2"
    using Cons.IH [OF b1 \<open>a \<in> A\<close>] Cons.prems(3,4) by auto
  with s1 k show ?case by (auto intro: kept_trans)
qed

end
