(* ===== verification/CapiCoreOps.thy ===== *)
theory CapiCoreOps
  imports CapiCoreInv
begin

text \<open>
  Every operation of the capicore, called as its documentation demands, is defined (no
  \<open>BUG_ON\<close>, no access to a freed structure) and keeps the invariant of \<open>CapiCoreInv\<close>; the
  step relation \<open>core_step\<close> collects the operations, and the reachable states satisfy the invariant.
\<close>

section \<open>Devices without a number\<close>

lemma body_ok_unnumbered:
  assumes "body_ok env A L H s" and "\<And>n r w. dinfo s d = Some (n, r, w) \<Longrightarrow> n = 0"
    and "dinfo s' = (dinfo s)(d := x)" and "\<And>n r w. x = Some (n, r, w) \<Longrightarrow> n = 0 \<and> 0 < r"
    and "capi_devs_table s' = capi_devs_table s" and "drv_trace s' = drv_trace s"
  shows "body_ok env A L H s'"
proof -
  from assms(1,2) have dL: "d \<notin> L" by (fastforce simp: body_ok_def numbered_def)
  from assms(1,2) have notbl: "capi_devs_table s ! i \<noteq> Some d" if "i < CAPI_MAX_DEVS env" for i
    using that by (fastforce simp: body_ok_def table_ok_def)
  have "table_ok env s'"
    using assms(1) assms(4) notbl unfolding body_ok_def table_ok_def assms(3,5) by auto
  moreover have "bits_ok A H s'"
    using assms(1) by (simp add: body_ok_def bits_ok_def assms(5))
  moreover have "refs_ok A L H s'"
    using assms(1) assms(4) unfolding body_ok_def refs_ok_def assms(3) by auto
  moreover have "trace_ok A L H s'"
    using assms(1) dL unfolding body_ok_def trace_ok_def assms(3,6) by auto
  moreover have "numbered L s'"
    using assms(1) dL unfolding body_ok_def numbered_def assms(3) by auto
  ultimately show ?thesis by (simp add: body_ok_def)
qed

text \<open>Giving the free slot \<open>i\<close> to the device \<open>d\<close> and counting it as listed.\<close>

lemma body_ok_number:
  assumes inv: "body_ok env A L H s" and d: "dinfo s d = Some (0, r, w)"
    and i: "i < CAPI_MAX_DEVS env" "capi_devs_table s ! i = None"
    and s': "dinfo s' = (dinfo s)(d \<mapsto> (i + 1, r, w'))" "capi_devs_table s' = (capi_devs_table s)[i := Some d]"
      "drv_trace s' = drv_trace s"
  shows "body_ok env A (insert d L) H s'"
proof -
  have len: "length (capi_devs_table s) = CAPI_MAX_DEVS env" using inv by (simp add: body_ok_def table_ok_def)
  from inv d have dL: "d \<notin> L" by (fastforce simp: body_ok_def numbered_def)
  from inv i have free: "i \<notin> H a" if "a \<in> A" for a
    using that by (auto simp: body_ok_def bits_ok_def dest!: bspec)
  then have nohold: "holders A H i = {}" by (auto simp: holders_def)
  have other: "n - 1 \<noteq> i" if "dinfo s d' = Some (n, r', v)" and "n \<noteq> 0" for d' n r' v
    using table_at(1) [of env s d' n r' v] that inv i by (auto simp: body_ok_def)
  have "table_ok env s'"
    using inv i other len d unfolding body_ok_def table_ok_def s' by (auto simp: nth_list_update)
  moreover have "bits_ok A H s'"
    using inv i len unfolding body_ok_def bits_ok_def s' by (auto simp: nth_list_update)
  moreover have "refs_ok A (insert d L) H s'"
  proof -
    from inv d have "0 < r" unfolding body_ok_def refs_ok_def by blast
    with inv nohold show ?thesis unfolding body_ok_def refs_ok_def s' by auto
  qed
  moreover have "trace_ok A (insert d L) H s'"
    using inv d dL free unfolding body_ok_def trace_ok_def s' by auto
  moreover have "numbered (insert d L) s'"
    using inv dL unfolding body_ok_def numbered_def s' by auto
  ultimately show ?thesis by (simp add: body_ok_def)
qed

text \<open>Taking or leaving a semaphore.\<close>

lemma body_ok_relock:
  assumes "body_ok env A L H s" and "dinfo s d = Some (n, r, w)"
    and "dinfo s' = (dinfo s)(d \<mapsto> (n, r, w'))"
    and "capi_devs_table s' = capi_devs_table s" and "drv_trace s' = drv_trace s"
  shows "body_ok env A L H s'"
proof -
  have "n = 0 \<or> n \<le> CAPI_MAX_DEVS env \<and> capi_devs_table s ! (n - 1) = Some d"
    using table_at [OF _ assms(2), of env] assms(1) by (cases "n = 0") (simp_all add: body_ok_def)
  then have "table_ok env s'"
    using assms(1,2) unfolding body_ok_def table_ok_def assms(3,4) by auto
  moreover have "bits_ok A H s'" and "numbered L s'"
    using assms(1,2) unfolding body_ok_def bits_ok_def numbered_def assms(3,4) by auto
  moreover from assms(1,2) have "0 < r \<and> (n \<noteq> 0 \<longrightarrow> card (holders A H (n - 1)) + (if d \<in> L then 1 else 0) \<le> r)"
    unfolding body_ok_def refs_ok_def by blast
  then have "refs_ok A L H s'"
    using assms(1) unfolding body_ok_def refs_ok_def assms(3) by auto
  moreover have "trace_ok A L H s'"
    using assms(1,2) unfolding body_ok_def trace_ok_def assms(3,5) by auto
  ultimately show ?thesis by (simp add: body_ok_def)
qed

section \<open>Registering and unregistering a device\<close>

lemma core_inv_distinct: "core_inv env s \<Longrightarrow> distinct (capi_appls_list s)"
  by (auto simp: core_inv_def appls_ok_def strict_sorted_iff distinct_map)

lemma core_inv_body: "core_inv env s \<Longrightarrow> body_ok env (set (capi_appls_list s)) (set (capi_devs_list s)) (bits s) s"
  by (simp add: core_inv_def)

lemma appls_ok_kept:
  assumes "appls_ok env s" and "kept s s'"
  shows "appls_ok env s'"
proof -
  from assms(2) have "id_of s' = id_of s" "dom (appls s') = dom (appls s)" "capi_appls_list s' = capi_appls_list s"
    by (simp_all add: kept_def)
  with assms(1) show ?thesis by (simp add: appls_ok_def)
qed

lemma devs_list_ok_kept:
  assumes "devs_list_ok s" and "kept s s'"
  shows "devs_list_ok s'"
proof -
  have "(d \<in> set (capi_devs_list s)) = (\<not> w)" if "dinfo s' d = Some (n, r, w)" and "n \<noteq> 0" for d n r w
  proof -
    from kept_dinfo [OF assms(2) that(1)] obtain r' where "dinfo s d = Some (n, r', w)" ..
    with assms(1) that(2) show ?thesis unfolding devs_list_ok_def by blast
  qed
  with assms show ?thesis by (simp add: devs_list_ok_def kept_def)
qed

lemma bind_capi_device_inv:
  assumes inv: "core_inv env s" and d: "dinfo s d = Some (0, r, True)"
  shows "\<exists>n s'. bind_capi_device env d s = Some (n, s') \<and> core_inv env s' \<and>
     capi_appls_list s' = capi_appls_list s \<and>
     (if None \<in> set (capi_devs_table s)
      then n \<noteq> 0 \<and> n \<le> CAPI_MAX_DEVS env \<and> capi_devs_table s ! (n - 1) = None \<and>
           capi_devs_list s' = capi_devs_list s @ [d] \<and> (\<exists>r'. dinfo s' d = Some (n, r', False))
      else n = 0 \<and> s' = s)"
proof -
  from d obtain dev where dev: "devs s d = Some dev" and num: "dev_id dev = 0" "dev_refs dev = r" "sem_write dev"
    by (auto simp: dinfo_def)
  let ?A = "set (capi_appls_list s)" and ?L = "set (capi_devs_list s)"
  have body: "body_ok env ?A ?L (bits s) s" by (rule core_inv_body [OF inv])
  then have len: "length (capi_devs_table s) = CAPI_MAX_DEVS env" by (simp add: body_ok_def table_ok_def)
  show ?thesis
  proof (cases "first_free (capi_devs_table s) 0")
    case None
    from num have "dev\<lparr>dev_id := 0\<rparr> = dev" by simp
    then have "bind_capi_device env d s = Some (0, s)"
      using dev num None by (simp add: bind_capi_device_def add_capi_device_def upd_dev_def fun_upd_idem)
    with None inv show ?thesis by (simp add: first_free_None)
  next
    case (Some i)
    from first_free_Some [OF Some] len have i: "i < CAPI_MAX_DEVS env" "capi_devs_table s ! i = None" by auto
    from i len have free: "None \<in> set (capi_devs_table s)" by (metis nth_mem)
    let ?s1 = "s\<lparr>capi_devs_table := (capi_devs_table s)[i := Some d], devs := (devs s)(d \<mapsto> dev\<lparr>dev_id := i + 1\<rparr>)\<rparr>"
    have add: "add_capi_device d s = Some (i + 1, ?s1)"
      by (simp add: add_capi_device_def Some upd_dev_def dev Let_def)
    have di1: "dinfo ?s1 = (dinfo s)(d \<mapsto> (i + 1, r, True))"
      using num by (auto simp: dinfo_def fun_eq_iff)
    have bits1: "bits ?s1 = bits s" and id1: "id_of ?s1 = id_of s" by (simp_all add: bits_def id_of_def fun_eq_iff)
    have b1: "body_ok env ?A (insert d ?L) (bits ?s1) ?s1"
      unfolding bits1 by (rule body_ok_number [OF body d i di1]) simp_all
    have "set (capi_appls_list s) \<subseteq> dom (appls ?s1)"
      using inv by (simp add: core_inv_def appls_ok_def)
    moreover have "\<forall>a\<in>set (capi_appls_list s). i + 1 - 1 \<notin> bits ?s1 a"
      using body i unfolding bits1 by (auto simp: body_ok_def bits_ok_def dest!: bspec)
    ultimately obtain s2 where s2: "fold_opt (\<lambda>a. register_capi_appl env a d) (capi_appls_list s) ?s1 = Some s2"
      and b2: "body_ok env ?A (insert d ?L) (bits s2) s2" and k2: "kept ?s1 s2"
      using register_all_appls [OF b1 insertI1 subset_refl core_inv_distinct [OF inv], of "i + 1" r True] di1 by auto
    from kept_dinfo' [OF k2, of d "i + 1" r True] di1 obtain r2 where d2: "dinfo s2 d = Some (i + 1, r2, True)" by auto
    then obtain dev2 where dev2: "devs s2 d = Some dev2" "dev_id dev2 = i + 1" "dev_refs dev2 = r2"
      by (auto simp: dinfo_def)
    let ?s3 = "s2\<lparr>devs := (devs s2)(d \<mapsto> dev2\<lparr>sem_write := False\<rparr>), nr_capi_devs := nr_capi_devs s2 + 1,
        capi_devs_list := capi_devs_list s2 @ [d]\<rparr>"
    have bind: "bind_capi_device env d s = Some (i + 1, ?s3)"
      using s2 add dev2 by (simp add: bind_capi_device_def upd_dev_def Let_def)
    have di3: "dinfo ?s3 = (dinfo s2)(d \<mapsto> (i + 1, r2, False))" using dev2 by (auto simp: dinfo_def fun_eq_iff)
    have lists: "capi_appls_list s2 = capi_appls_list s" "capi_devs_list s2 = capi_devs_list s"
      "nr_capi_devs s2 = nr_capi_devs s"
      using k2 by (simp_all add: kept_def)
    have "body_ok env ?A (insert d ?L) (bits ?s3) ?s3"
    proof -
      have "bits ?s3 = bits s2" "capi_devs_table ?s3 = capi_devs_table s2" "drv_trace ?s3 = drv_trace s2"
        by (simp_all add: bits_def fun_eq_iff)
      then show ?thesis using body_ok_relock [OF b2 d2 di3] by simp
    qed
    moreover have "devs_list_ok ?s3"
    proof -
      have "d \<notin> ?L" using body d by (fastforce simp: body_ok_def numbered_def)
      moreover have "(d' \<in> ?L) = (\<not> w)" if "d' \<noteq> d" "dinfo s2 d' = Some (n, r', w)" "n \<noteq> 0" for d' n r' w
      proof -
        from kept_dinfo [OF k2 that(2)] di1 that(1) obtain r'' where "dinfo s d' = Some (n, r'', w)" by auto
        with inv that(3) show ?thesis by (auto simp: core_inv_def devs_list_ok_def)
      qed
      ultimately show ?thesis using inv lists di3
        by (auto simp: core_inv_def devs_list_ok_def)
    qed
    moreover have "appls_ok env ?s3"
    proof -
      have "appls_ok env ?s1" using inv by (simp add: core_inv_def appls_ok_def id1)
      from appls_ok_kept [OF this k2] show ?thesis by (simp add: appls_ok_def id_of_def)
    qed
    ultimately have "core_inv env ?s3" by (simp add: core_inv_def lists)
    with bind free i di3 lists show ?thesis by auto
  qed
qed

lemma unregister_capi_device_inv:
  assumes inv: "core_inv env s" and "d \<in> set (capi_devs_list s)"
  shows "\<exists>s'. unregister_capi_device d s = Some s' \<and> core_inv env s' \<and>
     capi_devs_list s' = remove1 d (capi_devs_list s) \<and> capi_appls_list s' = capi_appls_list s \<and>
     (\<exists>n r. dinfo s d = Some (n, r, False) \<and> dinfo s' = (dinfo s)(d \<mapsto> (n, r, True)))"
proof -
  let ?A = "set (capi_appls_list s)" and ?L = "set (capi_devs_list s)"
  have body: "body_ok env ?A ?L (bits s) s" by (rule core_inv_body [OF inv])
  from body assms(2) obtain n r w where d: "dinfo s d = Some (n, r, w)" and n0: "n \<noteq> 0"
    unfolding body_ok_def numbered_def by blast
  from inv d n0 assms(2) have w: "\<not> w" and dist: "distinct (capi_devs_list s)"
    by (auto simp: core_inv_def devs_list_ok_def)
  from d obtain dev where dev: "devs s d = Some dev" "dev_id dev = n" "dev_refs dev = r" "sem_write dev = w"
    by (auto simp: dinfo_def)
  let ?s1 = "s\<lparr>drv_trace := Delisted d # drv_trace s\<rparr>"
  let ?s' = "s\<lparr>capi_devs_list := remove1 d (capi_devs_list s), drv_trace := Delisted d # drv_trace s,
      devs := (devs s)(d \<mapsto> dev\<lparr>sem_write := True\<rparr>), nr_capi_devs := nr_capi_devs s - 1\<rparr>"
  have eq: "unregister_capi_device d s = Some ?s'"
    using dev n0 w by (simp add: unregister_capi_device_def log_drv_def upd_dev_def Let_def)
  have di: "dinfo ?s' = (dinfo s)(d \<mapsto> (n, r, True))" using dev by (auto simp: dinfo_def fun_eq_iff)
  have "refs_ok ?A (?L - {d}) (bits s) ?s1"
    using body unfolding body_ok_def refs_ok_def by (fastforce split: if_splits)
  moreover have "trace_ok ?A (?L - {d}) (bits s) ?s1"
    using body unfolding body_ok_def trace_ok_def by auto
  moreover have "table_ok env ?s1" using body by (simp add: body_ok_def table_ok_def)
  moreover have "bits_ok ?A (bits s) ?s1" using body by (simp add: body_ok_def bits_ok_def)
  moreover have "numbered (?L - {d}) ?s1" using body by (simp add: body_ok_def numbered_def)
  ultimately have b1: "body_ok env ?A (?L - {d}) (bits s) ?s1" by (simp add: body_ok_def)
  have "body_ok env ?A (?L - {d}) (bits s) ?s'"
    by (rule body_ok_relock [OF b1, of d n r w]) (use d di in simp_all)
  moreover have "bits ?s' = bits s" "id_of ?s' = id_of s" by (simp_all add: bits_def id_of_def fun_eq_iff)
  moreover have "devs_list_ok ?s'"
  proof -
    have "int (length (remove1 d (capi_devs_list s))) = nr_capi_devs s - 1"
    proof -
      have "int (length (capi_devs_list s) - 1) = int (length (capi_devs_list s)) - 1"
        using length_pos_if_in_set [OF assms(2)] by presburger
      with inv assms(2) show ?thesis by (simp add: core_inv_def devs_list_ok_def length_remove1)
    qed
    with inv dist show ?thesis unfolding devs_list_ok_def di by (auto simp: core_inv_def devs_list_ok_def)
  qed
  moreover have "appls_ok env ?s'" using inv by (simp add: core_inv_def appls_ok_def id_of_def)
  ultimately have "core_inv env ?s'" using dist by (simp add: core_inv_def)
  with eq di d w show ?thesis by auto
qed

text \<open>The outcomes of registering a device that has no number yet.\<close>

lemma capi_device_register_inv:
  assumes inv: "core_inv env s" and d: "dinfo s d = Some (0, r, w)"
  shows "\<exists>res s'. capi_device_register env sysfs_res (Some d) s = Some (res, s') \<and> core_inv env s' \<and>
     capi_appls_list s' = capi_appls_list s \<and>
     (if None \<notin> set (capi_devs_table s) then res = - EMFILE \<and> capi_devs_list s' = capi_devs_list s
      else (\<exists>n r'. n \<noteq> 0 \<and> n \<le> CAPI_MAX_DEVS env \<and> capi_devs_table s ! (n - 1) = None \<and>
              dinfo s' d = Some (n, r', sysfs_res \<noteq> 0)) \<and>
           res = sysfs_res \<and>
           capi_devs_list s' = (if sysfs_res = 0 then capi_devs_list s @ [d] else capi_devs_list s))"
proof -
  from d obtain dev where dev: "devs s d = Some dev" and num: "dev_id dev = 0" "dev_refs dev = r"
    by (auto simp: dinfo_def)
  let ?s1 = "s\<lparr>devs := (devs s)(d \<mapsto> dev\<lparr>sem_write := True\<rparr>)\<rparr>"
  have di: "dinfo ?s1 = (dinfo s)(d \<mapsto> (0, r, True))" using num by (auto simp: dinfo_def fun_eq_iff)
  have v: "bits ?s1 = bits s" "id_of ?s1 = id_of s" by (simp_all add: bits_def id_of_def fun_eq_iff)
  have body: "body_ok env (set (capi_appls_list s)) (set (capi_devs_list s)) (bits s) s"
    by (rule core_inv_body [OF inv])
  have "body_ok env (set (capi_appls_list s)) (set (capi_devs_list s)) (bits s) ?s1"
    using body d by (rule body_ok_relock) (use di in simp_all)
  then have inv1: "core_inv env ?s1"
    using inv di v by (auto simp: core_inv_def devs_list_ok_def appls_ok_def)
  have d1: "dinfo ?s1 d = Some (0, r, True)" using di by simp
  from bind_capi_device_inv [OF inv1 d1] obtain n s2 where b: "bind_capi_device env d ?s1 = Some (n, s2)"
    and inv2: "core_inv env s2" and al: "capi_appls_list s2 = capi_appls_list s"
    and res: "if None \<in> set (capi_devs_table s)
      then n \<noteq> 0 \<and> n \<le> CAPI_MAX_DEVS env \<and> capi_devs_table s ! (n - 1) = None \<and>
           capi_devs_list s2 = capi_devs_list s @ [d] \<and> (\<exists>r'. dinfo s2 d = Some (n, r', False))
      else n = 0 \<and> s2 = ?s1" by (auto split: if_splits)
  have reg: "capi_device_register env sysfs_res (Some d) s =
      (if n = 0 then Some (- EMFILE, s2)
       else if sysfs_res \<noteq> 0 then do { s \<leftarrow> unregister_capi_device d s2; Some (sysfs_res, s) }
       else Some (sysfs_res, s2))"
    by (simp add: capi_device_register_def upd_dev_def dev b)
  have dL: "d \<notin> set (capi_devs_list s)"
    using body d by (fastforce simp: body_ok_def numbered_def)
  show ?thesis
  proof (cases "None \<in> set (capi_devs_table s) \<and> sysfs_res \<noteq> 0")
    case True
    with res have "d \<in> set (capi_devs_list s2)" by simp
    from unregister_capi_device_inv [OF inv2 this] True res dL reg al show ?thesis
      by (auto simp: remove1_append)
  next
    case False
    with res reg inv2 al show ?thesis by (auto split: if_splits)
  qed
qed

section \<open>Registering an application\<close>

lemma unat_Suc_u16: "unat (i :: u16) < 65535 \<Longrightarrow> unat (i + 1) = unat i + 1"
  by (simp add: unat_word_ariths)

text \<open>
  The scan finds the least number from \<open>i\<close> on that no entry has, and the place where the
  list stays ordered, as long as the 16-bit number does not wrap.
\<close>

lemma scan_appls_sorted:
  assumes "set as \<subseteq> dom (appls s)" and "sorted_wrt (<) (map (id_of s) as)"
    and "\<forall>a\<in>set as. i \<le> id_of s a" and "unat i + length as \<le> 65535"
  shows "\<exists>j before after. scan_appls s i as = Some (j, before, after) \<and> before @ after = as \<and>
     unat j = unat i + length before \<and>
     (\<forall>a\<in>set before. id_of s a < j) \<and> (\<forall>a\<in>set after. j < id_of s a) \<and>
     (\<forall>m. i \<le> m \<longrightarrow> m < j \<longrightarrow> m \<in> id_of s ` set before)"
  using assms
proof (induction as arbitrary: i)
  case Nil
  then show ?case by auto
next
  case (Cons a as)
  then obtain ap where ap: "appls s a = Some ap" by auto
  then have ida: "id_of s a = appl_id ap" by (simp add: id_of_Some)
  show ?case
  proof (cases "appl_id ap > i")
    case True
    then have "scan_appls s i (a # as) = Some (i, [], a # as)" by (simp add: ap)
    moreover have "\<forall>x\<in>set (a # as). i < id_of s x" using Cons.prems(2) True by (auto simp: ida)
    ultimately show ?thesis by auto
  next
    case False
    with Cons.prems(3) ida have eq: "appl_id ap = i" by auto
    from Cons.prems(4) have "unat i < 65535" by simp
    then have suc: "unat (i + 1) = unat i + 1" by (rule unat_Suc_u16)
    then have up: "i < m \<longleftrightarrow> i + 1 \<le> m" for m by (simp add: word_less_nat_alt word_le_nat_alt less_eq_Suc_le)
    from Cons.prems(2) have "\<forall>x\<in>set as. i < id_of s x" by (auto simp: ida eq)
    with up have "\<forall>x\<in>set as. i + 1 \<le> id_of s x" by blast
    with Cons.IH [of "i + 1"] Cons.prems suc obtain j before after
      where sc: "scan_appls s (i + 1) as = Some (j, before, after)" and "before @ after = as"
      and j: "unat j = unat i + 1 + length before" and lo: "\<forall>a\<in>set before. id_of s a < j"
      and hi: "\<forall>a\<in>set after. j < id_of s a" and all: "\<forall>m. i + 1 \<le> m \<longrightarrow> m < j \<longrightarrow> m \<in> id_of s ` set before"
      by auto
    have "scan_appls s i (a # as) = Some (j, a # before, after)" using False by (simp add: ap sc)
    moreover have "id_of s a < j" using j by (simp add: ida eq word_less_nat_alt)
    moreover have "m \<in> id_of s ` set (a # before)" if "i \<le> m" "m < j" for m
    proof (cases "m = i")
      case True
      then show ?thesis by (simp add: ida eq)
    next
      case False
      with that(1) have "i < m" by simp
      with up have "i + 1 \<le> m" by simp
      with all that(2) show ?thesis by auto
    qed
    ultimately show ?thesis using \<open>before @ after = as\<close> j lo hi by (intro exI [of _ j] exI [of _ "a # before"] exI [of _ after]) auto
  qed
qed

lemma ids_length:
  assumes "core_inv env s"
  shows "length (capi_appls_list s) \<le> CAPI_MAX_APPLS env"
proof -
  let ?f = "\<lambda>a. unat (id_of s a)"
  from assms have "inj_on (id_of s) (set (capi_appls_list s))"
    by (auto simp: core_inv_def appls_ok_def strict_sorted_iff distinct_map)
  then have inj: "inj_on ?f (set (capi_appls_list s))" unfolding inj_on_def by (metis word_unat_eq_iff)
  have "0 < unat (id_of s a) \<and> unat (id_of s a) \<le> CAPI_MAX_APPLS env" if "a \<in> set (capi_appls_list s)" for a
    using assms that by (auto simp: core_inv_def appls_ok_def unat_gt_0)
  then have "?f ` set (capi_appls_list s) \<subseteq> {1..CAPI_MAX_APPLS env}" by fastforce
  then have "card (?f ` set (capi_appls_list s)) \<le> CAPI_MAX_APPLS env"
    using card_mono [of "{1..CAPI_MAX_APPLS env}"] by fastforce
  then show ?thesis
    using card_image [OF inj] distinct_card [OF core_inv_distinct [OF assms]] by simp
qed

lemma sorted_last_bound:
  fixes f :: "'a \<Rightarrow> u16"
  assumes "sorted_wrt (<) (map f xs)" and "\<forall>x\<in>set xs. j < f x" and "xs \<noteq> []"
  shows "unat j + length xs \<le> unat (f (last xs))"
  using assms
proof (induction xs rule: rev_induct)
  case (snoc x xs)
  show ?case
  proof (cases "xs = []")
    case True
    with snoc.prems show ?thesis by (simp add: word_less_nat_alt Suc_le_eq)
  next
    case False
    with snoc have "unat j + length xs \<le> unat (f (last xs))" by (simp add: sorted_wrt_append)
    moreover have "f (last xs) < f x" using snoc.prems(1) False by (simp add: sorted_wrt_append)
    ultimately show ?thesis by (simp add: word_less_nat_alt)
  qed
qed simp

text \<open>Entering an application without device bits into the list.\<close>

lemma body_ok_enter:
  assumes "body_ok env A L (bits s) s" and "a \<notin> A" and "bits s' a = {}"
    and "dinfo s' = dinfo s" and "capi_devs_table s' = capi_devs_table s" and "drv_trace s' = drv_trace s"
    and "\<And>b. b \<in> A \<Longrightarrow> bits s' b = bits s b"
  shows "body_ok env (insert a A) L (bits s') s'"
proof -
  have h: "holders (insert a A) (bits s') i = holders A (bits s) i" for i
    using assms(3,7) by (auto simp: holders_def)
  have "table_ok env s'" using assms(1) unfolding body_ok_def table_ok_def assms(4,5) by simp
  moreover have "bits_ok (insert a A) (bits s') s'"
    using assms(1,3,7) unfolding body_ok_def bits_ok_def assms(5) by auto
  moreover have "refs_ok (insert a A) L (bits s') s'"
    using assms(1) unfolding body_ok_def refs_ok_def h assms(4) by simp
  moreover have "trace_ok (insert a A) L (bits s') s'"
    using assms(1,2,3,7) unfolding body_ok_def trace_ok_def assms(4,6) by auto
  moreover have "numbered L s'" using assms(1) unfolding body_ok_def numbered_def assms(4) by simp
  ultimately show ?thesis by (simp add: body_ok_def)
qed

text \<open>
  Entering \<open>a\<close> gives it the least number that is not in use, or the list is full.
\<close>

definition entered :: "core_env \<Rightarrow> core \<Rightarrow> nat \<Rightarrow> u16 \<Rightarrow> core \<Rightarrow> bool" where
  "entered env s a j s' \<longleftrightarrow>
     (if length (capi_appls_list s) = CAPI_MAX_APPLS env then j = 0 \<and> capi_appls_list s' = capi_appls_list s
      else set (capi_appls_list s') = insert a (set (capi_appls_list s)) \<and> j \<noteq> 0 \<and>
           j \<notin> id_of s ` set (capi_appls_list s) \<and>
           (\<forall>m. m \<noteq> 0 \<longrightarrow> m < j \<longrightarrow> m \<in> id_of s ` set (capi_appls_list s)))"

lemma add_capi_appl_inv:
  assumes inv: "core_inv env s" and a: "a \<notin> set (capi_appls_list s)" and ap: "appls s a = Some ap" "appl_devs ap = {}"
    and max: "CAPI_MAX_APPLS env < 65535"
  shows "\<exists>j s'. add_capi_appl env a s = Some (j, s') \<and> core_inv env s' \<and> dinfo s' = dinfo s \<and>
     capi_devs_list s' = capi_devs_list s \<and> capi_devs_table s' = capi_devs_table s \<and> bits s' = bits s \<and>
     id_of s' = (id_of s)(a := j) \<and> a \<in> dom (appls s') \<and>
     entered env s a j s'"
proof -
  let ?as = "capi_appls_list s"
  have len: "length ?as \<le> CAPI_MAX_APPLS env" by (rule ids_length [OF inv])
  have ok: "set ?as \<subseteq> dom (appls s)" "sorted_wrt (<) (map (id_of s) ?as)"
    and rng: "\<And>b. b \<in> set ?as \<Longrightarrow> id_of s b \<noteq> 0 \<and> unat (id_of s b) \<le> CAPI_MAX_APPLS env"
    using inv by (auto simp: core_inv_def appls_ok_def)
  have one: "(1 :: u16) \<le> m \<longleftrightarrow> m \<noteq> 0" for m by (simp add: word_le_nat_alt unat_gt_0 Suc_le_eq)
  from scan_appls_sorted [OF ok, of 1] rng one len max
  obtain j before after where sc: "scan_appls s 1 ?as = Some (j, before, after)" and ba: "before @ after = ?as"
    and j: "unat j = 1 + length before" and lo: "\<forall>a\<in>set before. id_of s a < j"
    and hi: "\<forall>a\<in>set after. j < id_of s a" and least: "\<forall>m. 1 \<le> m \<longrightarrow> m < j \<longrightarrow> m \<in> id_of s ` set before"
    by auto
  have j0: "j \<noteq> 0" using j by auto
  have lenba: "length before + length after = length ?as" using ba by (metis length_append)
  have full: "unat j > CAPI_MAX_APPLS env \<longleftrightarrow> length ?as = CAPI_MAX_APPLS env"
  proof
    assume "unat j > CAPI_MAX_APPLS env"
    with j lenba len show "length ?as = CAPI_MAX_APPLS env" by simp
  next
    assume eq: "length ?as = CAPI_MAX_APPLS env"
    show "unat j > CAPI_MAX_APPLS env"
    proof (cases after)
      case Nil
      with eq lenba j show ?thesis by simp
    next
      case (Cons b bs)
      have "sorted_wrt (<) (map (id_of s) after)" using ok(2) ba by (metis map_append sorted_wrt_append)
      from sorted_last_bound [OF this hi] Cons have "unat j + length after \<le> unat (id_of s (last after))" by simp
      moreover have "last after \<in> set ?as" using Cons ba by (metis UnCI last_in_set list.distinct(1) set_append)
      ultimately have "unat j + length after \<le> CAPI_MAX_APPLS env" using rng by fastforce
      with eq lenba j show ?thesis by simp
    qed
  qed
  have notin: "j \<notin> id_of s ` set ?as" using lo hi ba by (metis (no_types, lifting) Un_iff image_iff order_less_irrefl set_append)
  let ?s1 = "s\<lparr>appls := (appls s)(a \<mapsto> ap\<lparr>appl_id := if unat j > CAPI_MAX_APPLS env then 0 else j\<rparr>)\<rparr>"
  let ?s2 = "?s1\<lparr>capi_appls_list := before @ a # after\<rparr>"
  have b1: "bits ?s1 = bits s" "bits ?s2 = bits s" using ap by (auto simp: bits_def fun_eq_iff)
  show ?thesis
  proof (cases "unat j > CAPI_MAX_APPLS env")
    case True
    then have "add_capi_appl env a s = Some (0, ?s1)"
      by (simp add: add_capi_appl_def sc upd_appl_def ap)
    moreover have "core_inv env ?s1"
      by (rule core_inv_same [OF inv]) (use a ok(1) b1 in \<open>auto simp: same_core_def\<close>)
    ultimately show ?thesis using True full b1 by (auto simp: entered_def)
  next
    case False
    then have "add_capi_appl env a s = Some (j, ?s2)"
      by (simp add: add_capi_appl_def sc upd_appl_def ap)
    moreover have set2: "set (capi_appls_list ?s2) = insert a (set ?as)" by (auto simp: ba [symmetric])
    have ids: "id_of ?s2 = (id_of s)(a := j)" using False by (auto simp: id_of_def fun_eq_iff)
    have "core_inv env ?s2"
    proof -
      have "body_ok env (insert a (set ?as)) (set (capi_devs_list s)) (bits ?s2) ?s2"
        by (rule body_ok_enter [OF core_inv_body [OF inv] a]) (use b1 ap in \<open>auto simp: bits_Some\<close>)
      moreover have "appls_ok env ?s2"
      proof -
        have m: "map (id_of ?s2) (capi_appls_list ?s2) = map (id_of s) before @ j # map (id_of s) after"
          unfolding ids using a by (auto simp: map_eq_conv ba [symmetric])
        moreover have "sorted_wrt (<) (map (id_of s) before @ j # map (id_of s) after)"
          using ok(2) lo hi by (auto simp: sorted_wrt_append ba [symmetric] dest: order_less_trans)
        ultimately have "sorted_wrt (<) (map (id_of ?s2) (capi_appls_list ?s2))" by (simp only: m)
        moreover have "\<forall>b\<in>insert a (set ?as). id_of ?s2 b \<noteq> 0 \<and> unat (id_of ?s2 b) \<le> CAPI_MAX_APPLS env"
          unfolding ids using False j0 rng by auto
        ultimately show ?thesis using ok(1) unfolding appls_ok_def set2 by auto
      qed
      ultimately show ?thesis using inv set2 by (simp add: core_inv_def devs_list_ok_def)
    qed
    moreover have "entered env s a j ?s2"
    proof -
      have "m \<in> id_of s ` set ?as" if "m \<noteq> 0" "m < j" for m
        using least one that by (auto simp: ba [symmetric])
      with False full set2 j0 notin show ?thesis by (simp add: entered_def)
    qed
    ultimately show ?thesis using b1 ids by (intro exI [of _ j] exI [of _ ?s2]) auto
  qed
qed

lemma bind_capi_appl_inv:
  assumes inv: "core_inv env s" and a: "a \<notin> set (capi_appls_list s)" and ap: "appls s a = Some ap" "appl_devs ap = {}"
    and max: "CAPI_MAX_APPLS env < 65535"
  shows "\<exists>j s'. bind_capi_appl env a s = Some (j, s') \<and> core_inv env s' \<and>
     capi_devs_list s' = capi_devs_list s \<and> id_of s' = (id_of s)(a := j) \<and>
     entered env s a j s'"
proof -
  from add_capi_appl_inv [OF assms] obtain j s1 where add: "add_capi_appl env a s = Some (j, s1)"
    and inv1: "core_inv env s1" and same: "dinfo s1 = dinfo s" "capi_devs_list s1 = capi_devs_list s" "bits s1 = bits s"
    and id1: "id_of s1 = (id_of s)(a := j)" and dom1: "a \<in> dom (appls s1)"
    and res: "entered env s a j s1" by (elim exE conjE) (rule that)
  from dom1 obtain ap1 where ap1: "appls s1 a = Some ap1" by auto
  show ?thesis
  proof (cases "j = 0")
    case True
    then have "appl_id ap1 = 0" using id1 id_of_Some [OF ap1] by simp
    with True add ap1 have "bind_capi_appl env a s = Some (0, s1)" by (simp add: bind_capi_appl_def)
    with True inv1 res id1 same(2) show ?thesis by (intro exI [of _ j] exI [of _ s1]) simp
  next
    case False
    with res have aA: "a \<in> set (capi_appls_list s1)" by (auto simp: entered_def split: if_splits)
    have "distinct (capi_devs_list s1)" using inv1 by (simp add: core_inv_def devs_list_ok_def)
    moreover have "bits s1 a = {}" using same(3) ap by (simp add: bits_Some)
    ultimately obtain s2 where s2: "fold_opt (register_capi_appl env a) (capi_devs_list s1) s1 = Some s2"
      and b2: "body_ok env (set (capi_appls_list s1)) (set (capi_devs_list s1)) (bits s2) s2" and k2: "kept s1 s2"
      using register_all_devs [OF core_inv_body [OF inv1] aA subset_refl _ dom1] by auto
    have l2: "capi_appls_list s2 = capi_appls_list s1" "capi_devs_list s2 = capi_devs_list s1"
      "nr_capi_devs s2 = nr_capi_devs s1" "id_of s2 = id_of s1" "dom (appls s2) = dom (appls s1)"
      using k2 by (simp_all add: kept_def)
    have "devs_list_ok s2"
      using inv1 devs_list_ok_kept [OF _ k2] by (simp add: core_inv_def)
    with b2 appls_ok_kept [OF _ k2] inv1 have inv2: "core_inv env s2" by (simp add: core_inv_def l2)
    from dom1 l2 obtain ap2 where ap2: "appls s2 a = Some ap2" by blast
    then have "appl_id ap2 = j" using id1 l2 id_of_Some [OF ap2] by simp
    with False add s2 ap2 have "bind_capi_appl env a s = Some (j, s2)" by (simp add: bind_capi_appl_def)
    moreover have "entered env s a j s2" using res by (simp add: entered_def l2)
    ultimately show ?thesis using inv2 id1 same(2) l2(2,4) by (intro exI [of _ j] exI [of _ s2]) simp
  qed
qed

text \<open>The outcomes of registering an application that is not registered.\<close>

lemma capi_register_inv:
  assumes inv: "core_inv env s" and a: "a \<notin> set (capi_appls_list s)" and ap: "appls s a = Some ap"
    and max: "CAPI_MAX_APPLS env < 65535"
  shows "\<exists>res s'. capi_register env (Some a) s = Some (res, s') \<and> core_inv env s' \<and>
     capi_devs_list s' = capi_devs_list s \<and>
     (if datablklen (appl_params ap) < 128 then res = CAPINFO_0X10_LOGBLKSIZETOSMALL \<and> s' = s
      else if length (capi_appls_list s) = CAPI_MAX_APPLS env
      then res = CAPINFO_0X10_TOOMANYAPPLS \<and> capi_appls_list s' = capi_appls_list s
      else res = CAPINFO_0X10_NOERR \<and>
           set (capi_appls_list s') = insert a (set (capi_appls_list s)) \<and> id_of s' a \<noteq> 0 \<and>
           (\<forall>b\<in>set (capi_appls_list s). id_of s' b = id_of s b \<and> id_of s' b \<noteq> id_of s' a) \<and>
           (\<forall>m. m \<noteq> 0 \<longrightarrow> m < id_of s' a \<longrightarrow> (\<exists>b\<in>set (capi_appls_list s). id_of s b = m)))"
proof (cases "datablklen (appl_params ap) < 128")
  case True
  then have "capi_register env (Some a) s = Some (CAPINFO_0X10_LOGBLKSIZETOSMALL, s)"
    by (simp add: capi_register_def ap)
  with True inv show ?thesis by simp
next
  case False
  let ?f = "\<lambda>ap. ap\<lparr>msg_queue := [], appl_info := CAPINFO_0X11_NOERR, appl_stats := zero_stats, appl_devs := {}\<rparr>"
  let ?s1 = "s\<lparr>appls := (appls s)(a \<mapsto> ?f ap)\<rparr>"
  have u: "upd_appl a ?f s = Some ?s1" by (simp add: upd_appl_def ap)
  have inv1: "core_inv env ?s1" by (rule core_inv_upd_appl [OF inv u _ ap]) (use a in simp)
  have a1: "a \<notin> set (capi_appls_list ?s1)" and ap1: "appls ?s1 a = Some (?f ap)" "appl_devs (?f ap) = {}"
    using a by simp_all
  from bind_capi_appl_inv [OF inv1 a1 ap1 max] obtain j s2 where b: "bind_capi_appl env a ?s1 = Some (j, s2)"
    and inv2: "core_inv env s2" and l2: "capi_devs_list s2 = capi_devs_list s"
    and id2: "id_of s2 = (id_of ?s1)(a := j)"
    and res: "entered env ?s1 a j s2" by auto
  have img: "id_of ?s1 ` set (capi_appls_list s) = id_of s ` set (capi_appls_list s)"
    using a by (auto simp: image_iff)
  have l1: "capi_appls_list ?s1 = capi_appls_list s" by simp
  from res have res': "entered env s a j s2" unfolding entered_def l1 img .
  have eq: "capi_register env (Some a) s =
      Some (if j = 0 then CAPINFO_0X10_TOOMANYAPPLS else CAPINFO_0X10_NOERR, s2)"
    using False by (simp add: capi_register_def ap u b)
  have idb: "id_of s2 b = id_of s b" if "b \<in> set (capi_appls_list s)" for b
    using id2 a that by (auto simp: fun_eq_iff)
  show ?thesis
  proof (cases "length (capi_appls_list s) = CAPI_MAX_APPLS env")
    case True
    with res' have "j = 0" and "capi_appls_list s2 = capi_appls_list s" by (simp_all add: entered_def)
    with True eq inv2 l2 False show ?thesis by auto
  next
    case notfull: False
    with res' have r: "set (capi_appls_list s2) = insert a (set (capi_appls_list s))" "j \<noteq> 0"
      "j \<notin> id_of s ` set (capi_appls_list s)"
      "\<And>m. m \<noteq> 0 \<Longrightarrow> m < j \<Longrightarrow> m \<in> id_of s ` set (capi_appls_list s)" by (simp_all add: entered_def)
    have "id_of s2 a = j" using id2 by simp
    with r idb have "\<forall>b\<in>set (capi_appls_list s). id_of s2 b = id_of s b \<and> id_of s2 b \<noteq> id_of s2 a"
      and "\<forall>m. m \<noteq> 0 \<longrightarrow> m < id_of s2 a \<longrightarrow> (\<exists>b\<in>set (capi_appls_list s). id_of s b = m)"
      by (metis imageI, metis imageE)
    with notfull False r \<open>id_of s2 a = j\<close> eq inv2 l2 show ?thesis by auto
  qed
qed

end
