(* ===== verification/CapiCoreSteps.thy ===== *)
theory CapiCoreSteps
  imports CapiCoreOps
begin

text \<open>
  Releasing devices and applications, message transfer, and the step relation of the capicore
  with its reachable states.
\<close>

section \<open>Dropping a device reference\<close>

lemma table_ok_free:
  assumes ok: "table_ok env s" and d: "dinfo s d = Some (n, r, w)" and di: "dinfo s' = (dinfo s)(d := None)"
    and tbl: "capi_devs_table s' = (if n \<noteq> 0 then (capi_devs_table s)[n - 1 := None] else capi_devs_table s)"
  shows "table_ok env s'"
proof -
  let ?t = "capi_devs_table s'"
  have len: "length (capi_devs_table s) = CAPI_MAX_DEVS env" using ok by (simp add: table_ok_def)
  have keep: "?t ! (n' - 1) = capi_devs_table s ! (n' - 1)"
    if "d' \<noteq> d" "dinfo s d' = Some (n', r', w')" "n' \<noteq> 0" for d' n' r' w'
    using table_unique_slot [OF ok d that(2) _ that(3,1)] by (metis nth_list_update_neq tbl)
  have old: "capi_devs_table s ! j = Some d' \<and> (n = 0 \<or> j \<noteq> n - 1)"
    if "?t ! j = Some d'" "j < CAPI_MAX_DEVS env" for j d'
    using that len by (cases "j = n - 1"; cases "n = 0") (simp_all add: tbl nth_list_update)
  have bwd: "\<exists>r w. ((dinfo s)(d := None)) d' = Some (j + 1, r, w)"
    if "j < CAPI_MAX_DEVS env" "?t ! j = Some d'" for j d'
  proof -
    from old [OF that(2,1)] ok that(1) obtain r' w' where "dinfo s d' = Some (j + 1, r', w')"
      and "n = 0 \<or> j \<noteq> n - 1" unfolding table_ok_def by metis
    with d show ?thesis by auto
  qed
  have fwd: "n' \<le> CAPI_MAX_DEVS env \<and> ?t ! (n' - 1) = Some d'"
    if "((dinfo s)(d := None)) d' = Some (n', r', w')" "n' \<noteq> 0" for d' n' r' w'
  proof -
    from that have "d' \<noteq> d" and dd: "dinfo s d' = Some (n', r', w')" by (auto split: if_splits)
    with keep table_at [OF ok dd that(2)] that(2) show ?thesis by simp
  qed
  have "length ?t = CAPI_MAX_DEVS env" using len by (simp add: tbl)
  with bwd fwd show ?thesis unfolding table_ok_def di by blast
qed

lemma capi_device_put_body:
  assumes parts: "table_ok env s" "bits_ok A H s" "refs_ok A L H s" "numbered L s"
    and d: "dinfo s d = Some (n, r, w)"
    and sub: "\<And>a j. a \<in> A \<Longrightarrow> j \<in> H' a \<Longrightarrow> j \<in> H a"
    and sup: "\<And>a j. a \<in> A \<Longrightarrow> j \<in> H a \<Longrightarrow> n = 0 \<or> j \<noteq> n - 1 \<Longrightarrow> j \<in> H' a"
    and spare: "n \<noteq> 0 \<Longrightarrow> card (holders A H' (n - 1)) + (if d \<in> L then 1 else 0) < r"
    and tr: "trace_ok A L H' s"
  shows "\<exists>s'. capi_device_put d s = Some s' \<and> body_ok env A L H' s' \<and> appls s' = appls s \<and>
     capi_appls_list s' = capi_appls_list s \<and> capi_devs_list s' = capi_devs_list s \<and>
     nr_capi_devs s' = nr_capi_devs s \<and> drv_trace s' = drv_trace s \<and>
     dinfo s' = (dinfo s)(d := if r = 1 then None else Some (n, r - 1, w))"
proof -
  from d obtain dev where dev: "devs s d = Some dev" "dev_id dev = n" "dev_refs dev = r" "sem_write dev = w"
    by (auto simp: dinfo_def)
  from parts(3) d have r0: "0 < r" unfolding refs_ok_def by blast
  have len: "length (capi_devs_table s) = CAPI_MAX_DEVS env" using parts(1) by (simp add: table_ok_def)
  have n0: "n = 0 \<or> n \<le> CAPI_MAX_DEVS env \<and> capi_devs_table s ! (n - 1) = Some d \<and> n - 1 < length (capi_devs_table s)"
    using table_at [OF parts(1) d] len by (cases "n = 0") simp_all
  have other: "holders A H' (n' - 1) = holders A H (n' - 1)"
    if "d' \<noteq> d" "dinfo s d' = Some (n', r', w')" "n' \<noteq> 0" for d' n' r' w'
  proof -
    have "n = 0 \<or> n' - 1 \<noteq> n - 1" using table_unique_slot [OF parts(1) d that(2) _ that(3,1)] by auto
    with sub sup show ?thesis by (auto simp: holders_def)
  qed
  show ?thesis
  proof (cases "r = 1")
    case False
    let ?s' = "s\<lparr>devs := (devs s)(d \<mapsto> dev\<lparr>dev_refs := r - 1\<rparr>)\<rparr>"
    have eq: "capi_device_put d s = Some ?s'"
      using dev False r0 by (simp add: capi_device_put_def upd_dev_def)
    have di: "dinfo ?s' = (dinfo s)(d \<mapsto> (n, r - 1, w))" using dev by (auto simp: dinfo_def fun_eq_iff)
    have "table_ok env ?s'" using parts(1) n0 d unfolding table_ok_def di by auto
    moreover have "bits_ok A H' ?s'" using parts(2) sub unfolding bits_ok_def by auto
    moreover have "refs_ok A L H' ?s'"
      unfolding refs_ok_def
    proof (intro allI impI)
      fix d' n' r' w'
      assume d': "dinfo ?s' d' = Some (n', r', w')"
      show "0 < r' \<and> (n' \<noteq> 0 \<longrightarrow> card (holders A H' (n' - 1)) + (if d' \<in> L then 1 else 0) \<le> r')"
      proof (cases "d' = d")
        case True
        then have "n' = n" and "r' = r - 1" using d' unfolding di by auto
        with True False r0 spare show ?thesis by (cases "n = 0") (auto split: if_splits)
      next
        case d'd: False
        with d' di have dd: "dinfo s d' = Some (n', r', w')" by simp
        with parts(3) have "0 < r' \<and> (n' \<noteq> 0 \<longrightarrow> card (holders A H (n' - 1)) + (if d' \<in> L then 1 else 0) \<le> r')"
          unfolding refs_ok_def by blast
        with other [OF d'd dd] show ?thesis by simp
      qed
    qed
    moreover have "trace_ok A L H' ?s'" using tr d unfolding trace_ok_def di by auto
    moreover have "numbered L ?s'" using parts(4) d unfolding numbered_def di by force
    ultimately show ?thesis using eq di False by (simp add: body_ok_def)
  next
    case True
    let ?t = "if n \<noteq> 0 then (capi_devs_table s)[n - 1 := None] else capi_devs_table s"
    let ?s' = "s\<lparr>capi_devs_table := ?t, devs := (devs s)(d := None)\<rparr>"
    have eq: "capi_device_put d s = Some ?s'"
      using dev True n0 by (auto simp: capi_device_put_def free_capi_device_def)
    have di: "dinfo ?s' = (dinfo s)(d := None)" by (auto simp: dinfo_def fun_eq_iff)
    have tbl: "capi_devs_table ?s' = ?t" by simp
    have dL: "d \<notin> L" using spare True parts(4) d by (cases "n = 0") (auto simp: numbered_def split: if_splits)
    have free: "n - 1 \<notin> H' a" if "a \<in> A" "n \<noteq> 0" for a
    proof -
      have "finite (holders A H' (n - 1))" using parts(2) by (simp add: bits_ok_def holders_def)
      with spare that(2) True have "holders A H' (n - 1) = {}" by auto
      with that show ?thesis by (auto simp: holders_def)
    qed
    have "table_ok env ?s'" by (rule table_ok_free [OF parts(1) d di tbl])
    moreover have "bits_ok A H' ?s'"
      unfolding bits_ok_def
    proof (intro conjI ballI)
      show "finite A" using parts(2) by (simp add: bits_ok_def)
      fix a j assume a: "a \<in> A" "j \<in> H' a"
      with sub parts(2) have j: "j < length (capi_devs_table s)" "capi_devs_table s ! j \<noteq> None"
        unfolding bits_ok_def by blast+
      from a free have "n = 0 \<or> j \<noteq> n - 1" by blast
      with j show "j < length (capi_devs_table ?s')" and "capi_devs_table ?s' ! j \<noteq> None"
        unfolding tbl by (cases "n = 0"; simp add: nth_list_update)+
    qed
    moreover have "refs_ok A L H' ?s'"
      unfolding refs_ok_def
    proof (intro allI impI)
      fix d' n' r' w'
      assume d': "dinfo ?s' d' = Some (n', r', w')"
      with di have d'd: "d' \<noteq> d" and dd: "dinfo s d' = Some (n', r', w')" by (auto split: if_splits)
      with parts(3) have "0 < r' \<and> (n' \<noteq> 0 \<longrightarrow> card (holders A H (n' - 1)) + (if d' \<in> L then 1 else 0) \<le> r')"
        unfolding refs_ok_def by blast
      with other [OF d'd dd] show "0 < r' \<and> (n' \<noteq> 0 \<longrightarrow> card (holders A H' (n' - 1)) + (if d' \<in> L then 1 else 0) \<le> r')"
        by simp
    qed
    moreover have "trace_ok A L H' ?s'" using tr dL unfolding trace_ok_def di by auto
    moreover have "numbered L ?s'" using parts(4) dL unfolding numbered_def di by auto
    ultimately show ?thesis using eq di True by (simp add: body_ok_def)
  qed
qed

lemma release_slot_body:
  assumes body: "body_ok env A L H s" and L: "L = set (capi_devs_list s)" and "a \<in> A" and "i \<in> H a"
  shows "\<exists>s'. release_slot a i s = Some s' \<and> body_ok env A L (H(a := H a - {i})) s' \<and> appls s' = appls s \<and>
     capi_appls_list s' = capi_appls_list s \<and> capi_devs_list s' = capi_devs_list s \<and>
     nr_capi_devs s' = nr_capi_devs s \<and>
     (\<forall>d n r w. dinfo s' d = Some (n, r, w) \<longrightarrow> (\<exists>r'. dinfo s d = Some (n, r', w)))"
proof -
  from body assms(3,4) obtain d where i: "i < length (capi_devs_table s)" and d: "capi_devs_table s ! i = Some d"
    unfolding body_ok_def bits_ok_def by blast
  with body obtain r w where di: "dinfo s d = Some (i + 1, r, w)"
    unfolding body_ok_def table_ok_def by metis
  let ?H = "H(a := H a - {i})"
  let ?s1 = "if d \<in> L then s\<lparr>drv_trace := Released d a # drv_trace s\<rparr> else s"
  have s1: "dinfo ?s1 = dinfo s" "capi_devs_table ?s1 = capi_devs_table s" "appls ?s1 = appls s"
    "capi_appls_list ?s1 = capi_appls_list s" "capi_devs_list ?s1 = capi_devs_list s"
    "nr_capi_devs ?s1 = nr_capi_devs s" by simp_all
  have eq: "release_slot a i s = capi_device_put d ?s1"
    using i d L by (simp add: release_slot_def capi_device_listed_def log_drv_def Let_def)
  have other: "n - 1 \<noteq> i" if "d' \<in> L" "d' \<noteq> d" "dinfo s d' = Some (n, r', w')" for d' n r' w'
  proof -
    from that body have n0: "n \<noteq> 0" by (auto simp: body_ok_def numbered_def)
    have "table_ok env s" using body by (simp add: body_ok_def)
    from table_unique_slot [OF this di that(3) _ n0 that(2)] show ?thesis by simp
  qed
  from body have prot: "protocol_ok (drv_trace s)" and sess: "\<And>d a. in_session (drv_trace s) d a \<longleftrightarrow>
      a \<in> A \<and> d \<in> L \<and> (\<exists>n r w. dinfo s d = Some (n, r, w) \<and> n - 1 \<in> H a)"
    by (simp_all add: body_ok_def trace_ok_def)
  have sess': "(a' \<in> A \<and> d' \<in> L \<and> (\<exists>n r w. dinfo s d' = Some (n, r, w) \<and> n - 1 \<in> ?H a')) \<longleftrightarrow>
      in_session (drv_trace s) d' a' \<and> (d' = d \<longrightarrow> a' \<noteq> a)" for d' a'
    using di other [of d'] by (cases "d' = d") (auto simp: sess)
  have tr: "trace_ok A L ?H ?s1"
  proof (cases "d \<in> L")
    case True
    have "in_session (drv_trace s) d a" using di True assms(3,4) by (simp add: sess)
    with True prot show ?thesis unfolding trace_ok_def s1(1) sess' by auto
  next
    case False
    with prot sess [of d] show ?thesis unfolding trace_ok_def s1(1) sess' by auto
  qed
  have "finite (holders A H i)" using body by (simp add: body_ok_def bits_ok_def holders_def)
  moreover have "holders A ?H i = holders A H i - {a}" by (auto simp: holders_def)
  moreover have "a \<in> holders A H i" using assms(3,4) by (simp add: holders_def)
  ultimately have "card (holders A ?H i) < card (holders A H i)"
    by (metis card_Diff1_less)
  moreover from body di have "card (holders A H i) + (if d \<in> L then 1 else 0) \<le> r"
    unfolding body_ok_def refs_ok_def by fastforce
  ultimately have spare: "card (holders A ?H (i + 1 - 1)) + (if d \<in> L then 1 else 0) < r" by simp
  have "\<exists>s'. capi_device_put d ?s1 = Some s' \<and> body_ok env A L ?H s' \<and> appls s' = appls ?s1 \<and>
     capi_appls_list s' = capi_appls_list ?s1 \<and> capi_devs_list s' = capi_devs_list ?s1 \<and>
     nr_capi_devs s' = nr_capi_devs ?s1 \<and> drv_trace s' = drv_trace ?s1 \<and>
     dinfo s' = (dinfo ?s1)(d := if r = 1 then None else Some (i + 1, r - 1, w))"
    by (rule capi_device_put_body [where H = H and n = "i + 1"])
      (use body tr spare di in \<open>auto simp: body_defs split: if_splits\<close>)
  then obtain s' where "capi_device_put d ?s1 = Some s'" and "body_ok env A L ?H s'" and "appls s' = appls s"
    and "capi_appls_list s' = capi_appls_list s" and "capi_devs_list s' = capi_devs_list s"
    and "nr_capi_devs s' = nr_capi_devs s"
    and di': "dinfo s' = (dinfo s)(d := if r = 1 then None else Some (i + 1, r - 1, w))"
    unfolding s1 by blast
  moreover have "\<exists>r'. dinfo s d' = Some (n', r', w')" if "dinfo s' d' = Some (n', r'', w')" for d' n' r'' w'
    using that di unfolding di' by (auto split: if_splits)
  ultimately show ?thesis using eq by auto
qed

lemma sorted_wrt_remove1: "sorted_wrt P xs \<Longrightarrow> sorted_wrt P (remove1 x xs)"
  by (induction xs) (auto dest: set_remove1_subset [THEN subsetD])

text \<open>Releasing a registered application.\<close>

lemma capi_release_inv:
  assumes inv: "core_inv env s" and a: "a \<in> set (capi_appls_list s)"
  shows "\<exists>s' ap. capi_release env a s = Some (appl_info ap, s') \<and> appls s a = Some ap \<and> core_inv env s' \<and>
     capi_appls_list s' = remove1 a (capi_appls_list s) \<and> capi_devs_list s' = capi_devs_list s"
proof -
  let ?A = "set (capi_appls_list s)" and ?L = "set (capi_devs_list s)"
  have body: "body_ok env ?A ?L (bits s) s" by (rule core_inv_body [OF inv])
  from inv a obtain ap where ap: "appls s a = Some ap" by (auto simp: core_inv_def appls_ok_def)
  let ?xs = "filter (\<lambda>i. i \<in> appl_devs ap) [0..<CAPI_MAX_DEVS env]"
  have "bits s a \<subseteq> {..<CAPI_MAX_DEVS env}"
    using body a by (auto simp: body_ok_def bits_ok_def table_ok_def dest!: bspec)
  then have xs: "set ?xs = bits s a" by (auto simp: bits_Some [OF ap])
  define P where "P k t \<longleftrightarrow> body_ok env ?A ?L ((bits s)(a := set (drop k ?xs))) t \<and> appls t = appls s \<and>
     capi_appls_list t = capi_appls_list s \<and> capi_devs_list t = capi_devs_list s \<and>
     nr_capi_devs t = nr_capi_devs s \<and>
     (\<forall>d n r w. dinfo t d = Some (n, r, w) \<longrightarrow> (\<exists>r'. dinfo s d = Some (n, r', w)))" for k t
  have "P 0 s" using body xs by (simp add: P_def fun_upd_idem)
  moreover have "\<exists>t'. release_slot a (?xs ! k) t = Some t' \<and> P (Suc k) t'" if k: "k < length ?xs" and "P k t" for k t
  proof -
    let ?H = "(bits s)(a := set (drop k ?xs))"
    from k have drop: "drop k ?xs = ?xs ! k # drop (Suc k) ?xs" by (rule Cons_nth_drop_Suc [symmetric])
    have "distinct (drop k ?xs)" by simp
    with drop have step: "?H(a := ?H a - {?xs ! k}) = (bits s)(a := set (drop (Suc k) ?xs))" by simp
    from \<open>P k t\<close> have b: "body_ok env ?A ?L ?H t" and l: "?L = set (capi_devs_list t)" by (simp_all add: P_def)
    have "?xs ! k \<in> ?H a" by (simp add: drop)
    from release_slot_body [OF b l a this] \<open>P k t\<close> show ?thesis unfolding step P_def by fastforce
  qed
  ultimately obtain s1 where loop: "fold_opt (release_slot a) ?xs s = Some s1" and "P (length ?xs) s1"
    using fold_opt_rule [of P s ?xs "release_slot a"] by blast
  then have b1: "body_ok env ?A ?L ((bits s)(a := {})) s1" and s1: "appls s1 = appls s"
    "capi_appls_list s1 = capi_appls_list s" "capi_devs_list s1 = capi_devs_list s" "nr_capi_devs s1 = nr_capi_devs s"
    and di: "\<And>d n r w. dinfo s1 d = Some (n, r, w) \<Longrightarrow> \<exists>r'. dinfo s d = Some (n, r', w)" by (auto simp: P_def)
  let ?s' = "s1\<lparr>capi_appls_list := remove1 a (capi_appls_list s), appls := (appls s)(a \<mapsto> ap\<lparr>msg_queue := []\<rparr>)\<rparr>"
  have eq: "capi_release env a s = Some (appl_info ap, ?s')"
    by (simp add: capi_release_def ap loop upd_appl_def s1)
  have v: "bits ?s' = bits s" "id_of ?s' = id_of s" "dinfo ?s' = dinfo s1"
    using ap by (auto simp: bits_def id_of_def dinfo_def fun_eq_iff)
  have set': "set (remove1 a (capi_appls_list s)) = ?A - {a}"
    using core_inv_distinct [OF inv] by (rule set_remove1_eq)
  have "body_ok env (?A - {a}) ?L (bits s) ?s'"
  proof -
    have h: "holders ?A ((bits s)(a := {})) i = holders (?A - {a}) (bits s) i" for i
      by (auto simp: holders_def)
    have "table_ok env ?s'" using b1 unfolding body_ok_def table_ok_def v by simp
    moreover have "bits_ok (?A - {a}) (bits s) ?s'" using b1 unfolding body_ok_def bits_ok_def
      by (auto split: if_splits)
    moreover have "refs_ok (?A - {a}) ?L (bits s) ?s'"
      using b1 unfolding body_ok_def refs_ok_def v h by simp
    moreover have "trace_ok (?A - {a}) ?L (bits s) ?s'"
      using b1 unfolding body_ok_def trace_ok_def v by auto
    moreover have "numbered ?L ?s'" using b1 unfolding body_ok_def numbered_def v by simp
    ultimately show ?thesis by (simp add: body_ok_def)
  qed
  moreover have "devs_list_ok ?s'"
    using inv di unfolding core_inv_def devs_list_ok_def v by (simp add: s1) blast
  moreover have "appls_ok env ?s'"
  proof -
    have "sorted_wrt (<) (map (id_of s) (remove1 a (capi_appls_list s)))"
      using inv by (auto simp: core_inv_def appls_ok_def sorted_wrt_map intro: sorted_wrt_remove1)
    moreover have "?A \<subseteq> dom (appls s)" using inv by (simp add: core_inv_def appls_ok_def)
    ultimately show ?thesis using inv unfolding appls_ok_def v by (auto simp: core_inv_def appls_ok_def set')
  qed
  ultimately have "core_inv env ?s'" by (simp add: core_inv_def set' s1 v)
  with eq ap s1 show ?thesis by auto
qed

section \<open>The other operations\<close>

lemma capi_device_alloc_inv:
  assumes inv: "core_inv env s" and new: "devs s d = None"
  shows "core_inv env (snd (capi_device_alloc (Some d) s))"
proof -
  let ?s' = "s\<lparr>devs := (devs s)(d \<mapsto> zero_dev)\<rparr>"
  have di: "dinfo ?s' = (dinfo s)(d \<mapsto> (0, 1, False))"
    by (auto simp: dinfo_def fun_eq_iff zero_dev_def)
  have "body_ok env (set (capi_appls_list s)) (set (capi_devs_list s)) (bits s) ?s'"
    by (rule body_ok_unnumbered [OF core_inv_body [OF inv] _ di]) (use new in \<open>auto simp: dinfo_def\<close>)
  moreover have "devs_list_ok ?s'"
    using inv unfolding core_inv_def devs_list_ok_def di by auto
  ultimately show ?thesis
    using inv by (simp add: capi_device_alloc_def core_inv_def appls_ok_def)
qed

text \<open>A holder gives its reference back: the listed devices keep the one of their driver.\<close>

definition spare_ref :: "core \<Rightarrow> nat \<Rightarrow> bool" where
  "spare_ref s d \<longleftrightarrow>
     (\<exists>n r w. dinfo s d = Some (n, r, w) \<and>
        (n \<noteq> 0 \<longrightarrow> card (holders (set (capi_appls_list s)) (bits s) (n - 1)) +
                     (if d \<in> set (capi_devs_list s) then 1 else 0) < r))"

lemma capi_device_put_inv:
  assumes inv: "core_inv env s" and spare: "spare_ref s d"
  shows "\<exists>s'. capi_device_put d s = Some s' \<and> core_inv env s'"
proof -
  let ?A = "set (capi_appls_list s)" and ?L = "set (capi_devs_list s)"
  have body: "body_ok env ?A ?L (bits s) s" by (rule core_inv_body [OF inv])
  from spare obtain n r w where d: "dinfo s d = Some (n, r, w)"
    and sp: "n \<noteq> 0 \<Longrightarrow> card (holders ?A (bits s) (n - 1)) + (if d \<in> ?L then 1 else 0) < r"
    by (auto simp: spare_ref_def)
  from body have parts: "table_ok env s" "bits_ok ?A (bits s) s" "refs_ok ?A ?L (bits s) s" "numbered ?L s"
    "trace_ok ?A ?L (bits s) s" by (simp_all add: body_ok_def)
  have "\<exists>s'. capi_device_put d s = Some s' \<and> body_ok env ?A ?L (bits s) s' \<and> appls s' = appls s \<and>
     capi_appls_list s' = capi_appls_list s \<and> capi_devs_list s' = capi_devs_list s \<and>
     nr_capi_devs s' = nr_capi_devs s \<and> drv_trace s' = drv_trace s \<and>
     dinfo s' = (dinfo s)(d := if r = 1 then None else Some (n, r - 1, w))"
    by (rule capi_device_put_body [OF parts(1-4) d _ _ sp parts(5)]) assumption+
  then obtain s' where s': "capi_device_put d s = Some s'" "body_ok env ?A ?L (bits s) s'" "appls s' = appls s"
    "capi_appls_list s' = capi_appls_list s" "capi_devs_list s' = capi_devs_list s" "nr_capi_devs s' = nr_capi_devs s"
    and di: "dinfo s' = (dinfo s)(d := if r = 1 then None else Some (n, r - 1, w))" by blast
  have v: "bits s' = bits s" "id_of s' = id_of s" using s'(3) by (simp_all add: bits_def id_of_def fun_eq_iff)
  have "devs_list_ok s'"
  proof -
    have "\<exists>r''. dinfo s d' = Some (n', r'', w')" if "dinfo s' d' = Some (n', r', w')" for d' n' r' w'
      using that d unfolding di by (auto split: if_splits)
    with inv s'(5,6) show ?thesis unfolding core_inv_def devs_list_ok_def by (metis (no_types, lifting))
  qed
  with inv s' v have "core_inv env s'" by (simp add: core_inv_def appls_ok_def)
  with s'(1) show ?thesis by blast
qed

lemma capi_device_get_inv:
  assumes inv: "core_inv env s" and "devs s d \<noteq> None"
  shows "\<exists>s'. capi_device_get (Some d) s = Some (Some d, s') \<and> core_inv env s'"
proof -
  from assms(2) obtain dev where dev: "devs s d = Some dev" by auto
  let ?s' = "s\<lparr>devs := (devs s)(d \<mapsto> dev\<lparr>dev_refs := dev_refs dev + 1\<rparr>)\<rparr>"
  have body: "body_ok env (set (capi_appls_list s)) (set (capi_devs_list s)) (bits s) s"
    by (rule core_inv_body [OF inv])
  have d: "dinfo s d = Some (dev_id dev, dev_refs dev, sem_write dev)" by (rule dinfo_Some [OF dev])
  have di: "dinfo ?s' = (dinfo s)(d \<mapsto> (dev_id dev, dev_refs dev + 1, sem_write dev))" by simp
  have n: "dev_id dev = 0 \<or> dev_id dev \<le> CAPI_MAX_DEVS env \<and> capi_devs_table s ! (dev_id dev - 1) = Some d"
    using table_at [OF _ d] body by (cases "dev_id dev = 0") (auto simp: body_ok_def)
  have "table_ok env ?s'" using body n d unfolding body_ok_def table_ok_def di by auto
  moreover have "bits_ok (set (capi_appls_list s)) (bits s) ?s'" using body by (simp add: body_ok_def bits_ok_def)
  moreover have "refs_ok (set (capi_appls_list s)) (set (capi_devs_list s)) (bits s) ?s'"
    using body d unfolding body_ok_def refs_ok_def di by (auto simp: le_SucI)
  moreover have "trace_ok (set (capi_appls_list s)) (set (capi_devs_list s)) (bits s) ?s'"
    using body d unfolding body_ok_def trace_ok_def di by auto
  moreover have "numbered (set (capi_devs_list s)) ?s'" using body d unfolding body_ok_def numbered_def di by force
  ultimately have "body_ok env (set (capi_appls_list s)) (set (capi_devs_list s)) (bits s) ?s'"
    by (simp add: body_ok_def)
  moreover have "devs_list_ok ?s'" using inv d unfolding core_inv_def devs_list_ok_def di by auto
  ultimately have "core_inv env ?s'" using inv by (simp add: core_inv_def appls_ok_def)
  then show ?thesis by (simp add: capi_device_get_def upd_dev_def dev)
qed

text \<open>The device that \<open>capi_put_message\<close> reaches.\<close>

definition reaches :: "core \<Rightarrow> nat \<Rightarrow> bytes \<Rightarrow> nat \<Rightarrow> bool" where
  "reaches s a m d \<longleftrightarrow>
     d \<in> set (capi_devs_list s) \<and>
     (\<exists>n r. dinfo s d = Some (n, r, False) \<and> unat (m ! 8 AND 0x7f) = n \<and> n - 1 \<in> bits s a)"

lemma core_inv_log:
  assumes inv: "core_inv env s" and "in_session (drv_trace s) d a"
  shows "core_inv env (log_drv (PutMsg d a m) s)"
proof -
  let ?s' = "s\<lparr>drv_trace := PutMsg d a m # drv_trace s\<rparr>"
  have body: "body_ok env (set (capi_appls_list s)) (set (capi_devs_list s)) (bits s) s"
    by (rule core_inv_body [OF inv])
  have "table_ok env ?s'" using body by (simp add: body_ok_def table_ok_def)
  moreover have "bits_ok (set (capi_appls_list s)) (bits s) ?s'" using body by (simp add: body_ok_def bits_ok_def)
  moreover have "refs_ok (set (capi_appls_list s)) (set (capi_devs_list s)) (bits s) ?s'"
    using body by (simp add: body_ok_def refs_ok_def)
  moreover have "trace_ok (set (capi_appls_list s)) (set (capi_devs_list s)) (bits s) ?s'"
    using body assms(2) by (simp add: body_ok_def trace_ok_def)
  moreover have "numbered (set (capi_devs_list s)) ?s'" using body by (simp add: body_ok_def numbered_def)
  ultimately have "core_inv env ?s'"
    using inv by (simp add: core_inv_def body_ok_def devs_list_ok_def appls_ok_def)
  then show ?thesis by (simp add: log_drv_def)
qed

lemma capi_put_message_inv:
  assumes inv: "core_inv env s" and a: "a \<in> set (capi_appls_list s)" and ap: "appls s a = Some ap"
    and info: "appl_info ap = 0" and m: "12 \<le> length m"
  shows "\<exists>res s'. capi_put_message env a (Some m) s = Some (res, s') \<and> core_inv env s' \<and>
     (if \<exists>d. reaches s a m d
      then \<exists>d. reaches s a m d \<and> res = drv_put_message env (drv_trace s) d a m \<and> s' = log_drv (PutMsg d a m) s
      else res = CAPINFO_0X11_OSRESERR \<and> s' = s)"
proof -
  let ?id = "unat (m ! 8 AND 0x7f)"
  have body: "body_ok env (set (capi_appls_list s)) (set (capi_devs_list s)) (bits s) s"
    by (rule core_inv_body [OF inv])
  have c: "CAPIMSG_CONTROLLER m = Some (m ! 8 AND 0x7f)" using m by (simp add: CAPIMSG_CONTROLLER_def)
  have b: "bits s a = appl_devs ap" by (rule bits_Some [OF ap])
  have d0: "n \<noteq> 0" if "d \<in> set (capi_devs_list s)" "dinfo s d = Some (n, r, w)" for d n r w
    using body that by (auto simp: body_ok_def numbered_def)
  show ?thesis
  proof (cases "?id \<noteq> 0 \<and> ?id \<le> CAPI_MAX_DEVS env \<and> ?id - 1 \<in> appl_devs ap")
    case False
    have "capi_put_message env a (Some m) s = Some (CAPINFO_0X11_OSRESERR, s)"
      using ap info m c False by (simp add: capi_put_message_def Let_def)
    moreover have "\<not> reaches s a m d" for d
    proof
      assume "reaches s a m d"
      then obtain n r where d: "d \<in> set (capi_devs_list s)" "dinfo s d = Some (n, r, False)" "?id = n" "n - 1 \<in> bits s a"
        by (auto simp: reaches_def)
      with d0 [OF d(1,2)] False b table_at(2) [of env s d n r False] body show False by (auto simp: body_ok_def)
    qed
    ultimately show ?thesis using inv by auto
  next
    case True
    with body a b obtain d where d: "capi_devs_table s ! (?id - 1) = Some d" "?id - 1 < length (capi_devs_table s)"
      unfolding body_ok_def bits_ok_def by blast
    with True body obtain r w where di: "dinfo s d = Some (?id, r, w)"
      unfolding body_ok_def table_ok_def by (metis One_nat_def Suc_eq_plus1 Suc_pred gr0I)
    then obtain dev where dev: "devs s d = Some dev" "sem_write dev = w" by (auto simp: dinfo_def)
    have listed: "d \<in> set (capi_devs_list s) \<longleftrightarrow> \<not> w" using inv di True by (auto simp: core_inv_def devs_list_ok_def)
    have uniq: "d' = d" if "reaches s a m d'" for d'
    proof -
      from that obtain r' where "dinfo s d' = Some (?id, r', False)" by (auto simp: reaches_def)
      with table_unique [of env s d' ?id r' False d r w] di True body show ?thesis by (simp add: body_ok_def)
    qed
    show ?thesis
    proof (cases w)
      case w: True
      have "capi_put_message env a (Some m) s = Some (CAPINFO_0X11_OSRESERR, s)"
        using ap info m c True d dev w by (simp add: capi_put_message_def Let_def)
      moreover have "\<not> reaches s a m d'" for d' using uniq [of d'] listed w by (auto simp: reaches_def)
      ultimately show ?thesis using inv by auto
    next
      case w: False
      have eq: "capi_put_message env a (Some m) s =
          Some (drv_put_message env (drv_trace s) d a m, log_drv (PutMsg d a m) s)"
        using ap info m c True d dev w by (simp add: capi_put_message_def Let_def)
      have r: "reaches s a m d" using listed w di True b by (auto simp: reaches_def)
      have "in_session (drv_trace s) d a"
        using body a listed w di True b by (auto simp: body_ok_def trace_ok_def)
      from core_inv_log [OF inv this] have "core_inv env (log_drv (PutMsg d a m) s)" .
      with eq r show ?thesis by auto
    qed
  qed
qed

section \<open>Steps and reachable states\<close>

text \<open>
  One step is one call of the interface, made the way its documentation allows: \<open>kmalloc\<close> returns a fresh
  address, a device is registered while it has no number and unregistered while it is listed, an
  application is registered while it is not and released while it is, and references are
  given back by their holders.  Application structures belong to their users, who may
  write those that are not registered at will.
\<close>

inductive core_step :: "core_env \<Rightarrow> core \<Rightarrow> core \<Rightarrow> bool" for env where
  dev_alloc: "devs s d = None \<Longrightarrow> capi_device_alloc (Some d) s = (p, s') \<Longrightarrow> core_step env s s'"
| dev_fill: "devs s d = Some dev \<Longrightarrow> upd_dev d f s = Some s' \<Longrightarrow>
    dev_id (f dev) = dev_id dev \<Longrightarrow> dev_refs (f dev) = dev_refs dev \<Longrightarrow> sem_write (f dev) = sem_write dev \<Longrightarrow>
    core_step env s s'"
| dev_register: "dinfo s d = Some (0, r, w) \<Longrightarrow>
    capi_device_register env sysfs_res (Some d) s = Some (res, s') \<Longrightarrow> core_step env s s'"
| dev_unregister: "d \<in> set (capi_devs_list s) \<Longrightarrow> capi_device_unregister d s = Some s' \<Longrightarrow> core_step env s s'"
| dev_get: "devs s d \<noteq> None \<Longrightarrow> capi_device_get (Some d) s = Some (p, s') \<Longrightarrow> core_step env s s'"
| dev_put: "spare_ref s d \<Longrightarrow> capi_device_put d s = Some s' \<Longrightarrow> core_step env s s'"
| appl_write: "a \<notin> set (capi_appls_list s) \<Longrightarrow> core_step env s (s\<lparr>appls := (appls s)(a \<mapsto> ap)\<rparr>)"
| appl_register: "a \<notin> set (capi_appls_list s) \<Longrightarrow> capi_register env (Some a) s = Some (res, s') \<Longrightarrow>
    core_step env s s'"
| appl_release: "a \<in> set (capi_appls_list s) \<Longrightarrow> capi_release env a s = Some (info, s') \<Longrightarrow> core_step env s s'"
| appl_set_signal: "capi_set_signal (Some a) sg param s = Some s' \<Longrightarrow> core_step env s s'"
| put_message: "a \<in> set (capi_appls_list s) \<Longrightarrow> capi_put_message env a msg s = Some (info, s') \<Longrightarrow>
    core_step env s s'"
| get_message: "capi_get_message a s = Some (info, msg, s') \<Longrightarrow> core_step env s s'"
| unget_message: "capi_unget_message a m s = Some s' \<Longrightarrow> core_step env s s'"
| enqueue_message: "capi_appl_enqueue_message a m s = Some s' \<Longrightarrow> core_step env s s'"
| appl_signal: "capi_appl_signal a s = Some s' \<Longrightarrow> core_step env s s'"
| appl_signal_error: "capi_appl_signal_error a info s = Some s' \<Longrightarrow> core_step env s s'"

inductive reachable :: "core_env \<Rightarrow> core \<Rightarrow> bool" for env where
  reach_init: "reachable env (core_init env)"
| reach_step: "reachable env s \<Longrightarrow> core_step env s s' \<Longrightarrow> reachable env s'"

lemma upd_appl_exD: "upd_appl a f s = Some s' \<Longrightarrow> \<exists>ap. appls s a = Some ap"
  by (auto simp: upd_appl_def)

lemma core_inv_upd_queue:
  assumes "core_inv env s" and "upd_appl a f s = Some s'"
    and "\<And>ap. appl_id (f ap) = appl_id ap" and "\<And>ap. appl_devs (f ap) = appl_devs ap"
  shows "core_inv env s'"
  using core_inv_upd_appl [OF assms(1,2)] upd_appl_exD [OF assms(2)] assms(3,4) by blast

lemma capi_put_message_defined:
  assumes "core_inv env s" and "a \<in> set (capi_appls_list s)"
  shows "\<exists>x. capi_put_message env a msg s = Some x"
proof -
  from assms obtain ap where ap: "appls s a = Some ap" by (auto simp: core_inv_def appls_ok_def)
  show ?thesis
  proof (cases "appl_info ap = 0 \<and> (\<exists>m. msg = Some m \<and> 12 \<le> length m)")
    case True
    then obtain m where "msg = Some m" and "12 \<le> length m" and "appl_info ap = 0" by auto
    with capi_put_message_inv [OF assms ap, of m] show ?thesis by auto
  next
    case False
    show ?thesis
    proof (cases msg)
      case None
      with ap show ?thesis by (simp add: capi_put_message_def)
    next
      case (Some m)
      with ap False show ?thesis by (cases "appl_info ap = 0") (simp_all add: capi_put_message_def)
    qed
  qed
qed

lemma capi_put_message_keeps:
  assumes "core_inv env s" and "a \<in> set (capi_appls_list s)" and "capi_put_message env a msg s = Some (res, s')"
  shows "core_inv env s'"
proof -
  from assms(3) obtain ap where ap: "appls s a = Some ap" by (auto simp: capi_put_message_def)
  show ?thesis
  proof (cases "appl_info ap = 0 \<and> (\<exists>m. msg = Some m \<and> 12 \<le> length m)")
    case True
    then obtain m where "msg = Some m" and "12 \<le> length m" and "appl_info ap = 0" by auto
    with capi_put_message_inv [OF assms(1,2) ap, of m] assms(3) show ?thesis by auto
  next
    case False
    have "s' = s"
    proof (cases msg)
      case None
      with ap assms(3) show ?thesis by (simp add: capi_put_message_def split: if_splits)
    next
      case (Some m)
      with ap assms(3) False show ?thesis by (cases "appl_info ap = 0") (simp_all add: capi_put_message_def)
    qed
    with assms(1) show ?thesis by simp
  qed
qed

lemma core_step_inv:
  assumes "core_step env s s'" and "core_inv env s" and max: "CAPI_MAX_APPLS env < 65535"
  shows "core_inv env s'"
  using assms(1)
proof cases
  case (dev_alloc d p)
  with capi_device_alloc_inv [OF assms(2)] show ?thesis by (metis snd_conv)
next
  case (dev_fill d dev f)
  then show ?thesis using core_inv_upd_dev [OF assms(2)] by blast
next
  case (dev_register d r w sysfs_res res)
  with capi_device_register_inv [OF assms(2), of d r w sysfs_res] show ?thesis by auto
next
  case (dev_unregister d)
  with unregister_capi_device_inv [OF assms(2)] show ?thesis by (fastforce simp: capi_device_unregister_def)
next
  case (dev_get d p)
  with capi_device_get_inv [OF assms(2)] show ?thesis by fastforce
next
  case (dev_put d)
  with capi_device_put_inv [OF assms(2)] show ?thesis by fastforce
next
  case (appl_write a ap)
  have "same_core s s'"
    using assms(2) appl_write by (auto simp: same_core_def core_inv_def appls_ok_def)
  with assms(2) show ?thesis by (rule core_inv_same)
next
  case (appl_register a res)
  then obtain ap where "appls s a = Some ap" by (auto simp: capi_register_def)
  with appl_register capi_register_inv [OF assms(2) _ _ max] show ?thesis by fastforce
next
  case (appl_release a info)
  with capi_release_inv [OF assms(2)] show ?thesis by fastforce
next
  case (appl_set_signal a sg param)
  with core_inv_upd_queue [OF assms(2)] show ?thesis by (auto simp: capi_set_signal_def)
next
  case (put_message a msg info)
  with capi_put_message_keeps [OF assms(2)] show ?thesis by blast
next
  case (get_message a info msg)
  then show ?thesis
    using core_inv_upd_queue [OF assms(2)] assms(2)
    by (auto simp: capi_get_message_def split: if_splits list.splits)
next
  case (unget_message a m)
  with core_inv_upd_queue [OF assms(2)] show ?thesis by (auto simp: capi_unget_message_def)
next
  case (enqueue_message a m)
  with core_inv_upd_queue [OF assms(2)] show ?thesis by (auto simp: capi_appl_enqueue_message_def)
next
  case (appl_signal a)
  then have "same_core s s'"
    using assms(2) by (auto simp: capi_appl_signal_def same_core_def core_inv_def appls_ok_def)
  with assms(2) show ?thesis by (rule core_inv_same)
next
  case (appl_signal_error a info)
  then obtain s1 where u: "upd_appl a (\<lambda>ap. if appl_info ap = 0 then ap\<lparr>appl_info := info\<rparr> else ap) s = Some s1"
    and sg: "capi_appl_signal a s1 = Some s'" by (auto simp: capi_appl_signal_error_def)
  from core_inv_upd_queue [OF assms(2) u] have "core_inv env s1" by simp
  moreover from this sg have "same_core s1 s'"
    by (auto simp: capi_appl_signal_def same_core_def core_inv_def appls_ok_def)
  ultimately show ?thesis by (rule core_inv_same)
qed

lemma reachable_inv:
  assumes "reachable env s" and "CAPI_MAX_APPLS env < 65535"
  shows "core_inv env s"
  using assms(1) by induction (use core_inv_init core_step_inv assms(2) in blast)+

end
