(* ===== verification/CapiCoreProps.thy ===== *)
theory CapiCoreProps
  imports CapiCoreSteps CapiQueues
begin

text \<open>
  What the capicore guarantees to its device drivers and applications, and a run of it that shows the
  hypotheses to be satisfiable.  The message queue of an application is stated as an
  interface, the locale \<open>message_queue\<close>, which the inline operations of
  \<^verbatim>\<open>capiappl.h\<close> and \<^verbatim>\<open>capidevice.h\<close> implement.
\<close>

section \<open>A run\<close>

definition demo_env :: core_env where
  "demo_env = \<lparr>CAPI_MAX_DEVS = 1, CAPI_MAX_APPLS = 2, drv_register = (\<lambda>t d a. 0),
     drv_put_message = (\<lambda>t d a m. 0)\<rparr>"

definition demo_appl :: capi_appl where
  "demo_appl = \<lparr>appl_id = 0, appl_sig = Some 7, appl_sig_param = 0, msg_queue = [], appl_info = 0,
     appl_devs = {}, appl_stats = zero_stats,
     appl_params = \<lparr>level3cnt = 2, datablkcnt = 7, datablklen = 2048\<rparr>, appl_data = None\<rparr>"

definition demo_msg :: bytes where
  "demo_msg = [12, 0, 1, 0, CAPI_LISTEN, CAPI_REQ, 1, 0, 1, 0, 0, 0]"

text \<open>One device (at 1) and one application (at 2).\<close>

definition demo :: "core option" where
  "demo = do {
     let s = snd (capi_device_alloc (Some 1) (core_init demo_env));
     (_, s) \<leftarrow> capi_device_register demo_env 0 (Some 1) s;
     let s = s\<lparr>appls := (appls s)(2 \<mapsto> demo_appl)\<rparr>;
     (_, s) \<leftarrow> capi_register demo_env (Some 2) s;
     Some s }"

lemmas demo_simps =
  demo_env_def demo_appl_def core_init_def capi_device_alloc_def zero_dev_def capi_device_register_def
  upd_dev_def upd_appl_def bind_capi_device_def add_capi_device_def capi_register_def bind_capi_appl_def
  add_capi_appl_def register_capi_appl_def capi_device_get_def log_drv_def Let_def

lemma demo_state:
  "\<exists>s. demo = Some s \<and> capi_appls_list s = [2] \<and> capi_devs_list s = [1] \<and>
     drv_trace s = [Registered 1 2 0] \<and> id_of s 2 = 1 \<and> bits s 2 = {0} \<and> dinfo s 1 = Some (1, 2, False) \<and>
     appls s 2 = Some (demo_appl\<lparr>appl_id := 1, appl_devs := {0}\<rparr>) \<and> appls s 3 = None"
  by (simp add: demo_def demo_simps id_of_def bits_def dinfo_def)

lemma demo_the: "demo = Some s \<Longrightarrow> the demo = s"
  by (erule ssubst) (rule option.sel)

lemma demo_reachable: "reachable demo_env (the demo)"
proof -
  let ?s1 = "snd (capi_device_alloc (Some 1) (core_init demo_env))"
  have 1: "reachable demo_env ?s1"
    by (rule reach_step [OF reach_init], rule core_step.dev_alloc [of _ 1 "fst (capi_device_alloc (Some 1) (core_init demo_env))"])
      (simp_all add: core_init_def)
  have "\<exists>r s2. capi_device_register demo_env 0 (Some 1) ?s1 = Some (r, s2) \<and> capi_appls_list s2 = []"
    by (simp add: demo_simps)
  then obtain r s2 where s2: "capi_device_register demo_env 0 (Some 1) ?s1 = Some (r, s2)"
    and l2: "capi_appls_list s2 = []" by blast
  have "dinfo ?s1 1 = Some (0, 1, False)" by (simp add: demo_simps dinfo_def)
  from reach_step [OF 1 core_step.dev_register [OF this s2]] have 2: "reachable demo_env s2" .
  let ?s3 = "s2\<lparr>appls := (appls s2)(2 \<mapsto> demo_appl)\<rparr>"
  have 3: "reachable demo_env ?s3" by (rule reach_step [OF 2 core_step.appl_write]) (simp add: l2)
  from demo_state s2 obtain r' s4 where s4: "capi_register demo_env (Some 2) ?s3 = Some (r', s4)" and "demo = Some s4"
    by (auto simp: demo_def Let_def)
  have "2 \<notin> set (capi_appls_list ?s3)" by (simp add: l2)
  from reach_step [OF 3 core_step.appl_register [OF this s4]] have "reachable demo_env s4" .
  moreover have "the demo = s4" by (rule demo_the) (rule \<open>demo = Some s4\<close>)
  ultimately show ?thesis by (rule ssubst [rotated])
qed

lemma demo_facts:
  "capi_appls_list (the demo) = [2]" "capi_devs_list (the demo) = [1]" "drv_trace (the demo) = [Registered 1 2 0]"
  "appls (the demo) 2 = Some (demo_appl\<lparr>appl_id := 1, appl_devs := {0}\<rparr>)" "appls (the demo) 3 = None"
  "dinfo (the demo) 1 = Some (1, 2, False)" "bits (the demo) 2 = {0}" "id_of (the demo) 2 = 1"
  using demo_state demo_the by metis+

lemma demo_max: "CAPI_MAX_APPLS demo_env < 65535"
  by (simp add: demo_env_def)

section \<open>Safety\<close>

text \<open>C3: A device driver is used as its interface promises.  In every reachable state, whatever the drivers
  answer, each application is registered with a device at most once at a time, released only
  while it is registered, and sends messages only while it is registered; and the
  capicore's own record of who is registered is right.\<close>

theorem core_driver_protocol:
  assumes "reachable env s" and "CAPI_MAX_APPLS env < 65535"
  shows "protocol_ok (drv_trace s) \<and>
    (\<forall>d a. in_session (drv_trace s) d a =
       (a \<in> set (capi_appls_list s) \<and> d \<in> set (capi_devs_list s) \<and>
        (\<exists>n r w. dinfo s d = Some (n, r, w) \<and> n - 1 \<in> bits s a)))"
  using reachable_inv [OF assms] by (simp add: core_inv_def body_ok_def trace_ok_def)

theorem core_driver_protocol_witness:
  "protocol_ok (drv_trace (the demo)) \<and> in_session (drv_trace (the demo)) 1 2"
proof -
  have "in_session (drv_trace (the demo)) 1 2" by (simp add: demo_facts)
  with core_driver_protocol [OF demo_reachable demo_max] show ?thesis by blast
qed

text \<open>C2: The registry never runs into a \<open>BUG_ON\<close> or a freed structure.  In every reachable state the
  calls that the documentation allows are defined: registering and unregistering devices,
  registering and releasing applications, sending messages, and giving back references.\<close>

theorem core_no_bug:
  assumes "reachable env s" and "CAPI_MAX_APPLS env < 65535"
  shows "(\<forall>d r w res. dinfo s d = Some (0, r, w) \<longrightarrow> (\<exists>x. capi_device_register env res (Some d) s = Some x)) \<and>
    (\<forall>d\<in>set (capi_devs_list s). \<exists>s'. capi_device_unregister d s = Some s') \<and>
    (\<forall>d. spare_ref s d \<longrightarrow> (\<exists>s'. capi_device_put d s = Some s')) \<and>
    (\<forall>a. a \<notin> set (capi_appls_list s) \<longrightarrow> appls s a \<noteq> None \<longrightarrow> (\<exists>x. capi_register env (Some a) s = Some x)) \<and>
    (\<forall>a\<in>set (capi_appls_list s).
       (\<exists>x. capi_release env a s = Some x) \<and> (\<forall>msg. \<exists>x. capi_put_message env a msg s = Some x))"
proof (intro conjI allI ballI impI)
  note inv = reachable_inv [OF assms]
  show "\<exists>x. capi_device_register env res (Some d) s = Some x" if "dinfo s d = Some (0, r, w)" for d r w res
    using capi_device_register_inv [OF inv that, of res] by blast
  show "\<exists>s'. capi_device_unregister d s = Some s'" if "d \<in> set (capi_devs_list s)" for d
    using unregister_capi_device_inv [OF inv that] by (auto simp: capi_device_unregister_def)
  show "\<exists>s'. capi_device_put d s = Some s'" if "spare_ref s d" for d
    using capi_device_put_inv [OF inv that] by blast
  show "\<exists>x. capi_register env (Some a) s = Some x" if "a \<notin> set (capi_appls_list s)" "appls s a \<noteq> None" for a
    using capi_register_inv [OF inv that(1) _ assms(2)] that(2) by fast
  fix a assume a: "a \<in> set (capi_appls_list s)"
  show "\<exists>x. capi_release env a s = Some x" using capi_release_inv [OF inv a] by blast
  show "\<exists>x. capi_put_message env a msg s = Some x" for msg
    using capi_put_message_defined [OF inv a] .
qed

theorem core_no_bug_witness: "\<exists>x. capi_release demo_env 2 (the demo) = Some x"
  by (rule core_no_bug [OF demo_reachable demo_max, THEN conjunct2, THEN conjunct2, THEN conjunct2,
        THEN conjunct2, rule_format, THEN conjunct1]) (simp add: demo_facts)

text \<open>C6: Numbers identify.  In every reachable state two different devices, and two different registered
  applications, have different numbers within the configured limits, and the table maps the
  number of a device to the device until its last reference is gone.\<close>

theorem core_numbers_unique:
  assumes "reachable env s" and "CAPI_MAX_APPLS env < 65535"
  shows "(\<forall>d d' dev dev'. devs s d = Some dev \<longrightarrow> devs s d' = Some dev' \<longrightarrow> d \<noteq> d' \<longrightarrow> dev_id dev \<noteq> 0 \<longrightarrow>
       dev_id dev \<noteq> dev_id dev') \<and>
    (\<forall>d dev. devs s d = Some dev \<longrightarrow> dev_id dev \<noteq> 0 \<longrightarrow>
       dev_id dev \<le> CAPI_MAX_DEVS env \<and> capi_devs_table s ! (dev_id dev - 1) = Some d) \<and>
    (\<forall>a\<in>set (capi_appls_list s). id_of s a \<noteq> 0 \<and> unat (id_of s a) \<le> CAPI_MAX_APPLS env \<and>
       (\<forall>b\<in>set (capi_appls_list s). a \<noteq> b \<longrightarrow> id_of s a \<noteq> id_of s b))"
proof (intro conjI allI impI ballI)
  note inv = reachable_inv [OF assms]
  then have t: "table_ok env s" by (simp add: core_inv_def body_ok_def)
  fix d d' dev dev'
  assume "devs s d = Some dev" "devs s d' = Some dev'" "d \<noteq> d'" "dev_id dev \<noteq> 0"
  with table_unique [OF t, of d "dev_id dev" "dev_refs dev" "sem_write dev" d' "dev_refs dev'" "sem_write dev'"]
  show "dev_id dev \<noteq> dev_id dev'" by (auto simp: dinfo_Some)
next
  have t: "table_ok env s" using reachable_inv [OF assms] by (simp add: core_inv_def body_ok_def)
  fix d dev assume "devs s d = Some dev" "dev_id dev \<noteq> 0"
  with table_at [OF t dinfo_Some] show "dev_id dev \<le> CAPI_MAX_DEVS env"
    and "capi_devs_table s ! (dev_id dev - 1) = Some d" by simp_all
next
  fix a assume a: "a \<in> set (capi_appls_list s)"
  with reachable_inv [OF assms] show "id_of s a \<noteq> 0" and "unat (id_of s a) \<le> CAPI_MAX_APPLS env"
    by (auto simp: core_inv_def appls_ok_def)
  fix b assume "b \<in> set (capi_appls_list s)" "a \<noteq> b"
  moreover have "inj_on (id_of s) (set (capi_appls_list s))"
    using reachable_inv [OF assms] by (simp add: core_inv_def appls_ok_def strict_sorted_iff distinct_map)
  ultimately show "id_of s a \<noteq> id_of s b" using a by (auto dest: inj_onD)
qed

theorem core_numbers_unique_witness: "id_of (the demo) 2 \<noteq> 0"
  by (rule core_numbers_unique [OF demo_reachable demo_max, THEN conjunct2, THEN conjunct2, rule_format,
        THEN conjunct1]) (simp add: demo_facts)

section \<open>Functional behaviour\<close>

text \<open>C4: \<open>capi_register\<close> gives the application the least number that no registered application has,
  leaves the numbers of the others alone, and refuses only a block length below 128 (without
  an effect) or a full registry; the number is reported as an info value of class 0x10.\<close>

theorem capi_register_least_number:
  assumes "reachable env s" and "CAPI_MAX_APPLS env < 65535"
    and "a \<notin> set (capi_appls_list s)" and "appls s a = Some ap"
  shows "\<exists>res s'. capi_register env (Some a) s = Some (res, s') \<and>
     (if datablklen (appl_params ap) < 128 then res = CAPINFO_0X10_LOGBLKSIZETOSMALL \<and> s' = s
      else if length (capi_appls_list s) = CAPI_MAX_APPLS env
      then res = CAPINFO_0X10_TOOMANYAPPLS \<and> capi_appls_list s' = capi_appls_list s
      else res = CAPINFO_0X10_NOERR \<and>
           set (capi_appls_list s') = insert a (set (capi_appls_list s)) \<and> id_of s' a \<noteq> 0 \<and>
           (\<forall>b\<in>set (capi_appls_list s). id_of s' b = id_of s b \<and> id_of s' b \<noteq> id_of s' a) \<and>
           (\<forall>m. m \<noteq> 0 \<longrightarrow> m < id_of s' a \<longrightarrow> (\<exists>b\<in>set (capi_appls_list s). id_of s b = m)))"
  using capi_register_inv [OF reachable_inv [OF assms(1,2)] assms(3,4,2)] by blast

definition demo2 :: core where
  "demo2 = (the demo)\<lparr>appls := (appls (the demo))(3 \<mapsto> demo_appl)\<rparr>"

lemma demo2_reachable: "reachable demo_env demo2"
  unfolding demo2_def
  by (rule reach_step [OF demo_reachable core_step.appl_write]) (simp add: demo_facts)

theorem capi_register_least_number_witness:
  "\<exists>res s'. capi_register demo_env (Some 3) demo2 = Some (res, s') \<and> res = CAPINFO_0X10_NOERR \<and>
     id_of s' 3 \<noteq> 0 \<and> id_of s' 2 = 1"
proof -
  have n: "3 \<notin> set (capi_appls_list demo2)" and a: "appls demo2 3 = Some demo_appl"
    and l: "capi_appls_list demo2 = [2]" and i: "id_of demo2 2 = 1"
    by (simp_all add: demo2_def demo_facts)
  show ?thesis
    using capi_register_least_number [OF demo2_reachable demo_max n a] l i
    by (simp add: demo_appl_def demo_env_def) blast
qed

text \<open>C5: \<open>capi_put_message\<close> hands a message of at least 12 bytes to the driver of the listed device whose number is
  in the message's controller field, if the application is registered with it, and returns
  the driver's answer; there is at most one such device.  In every other case no driver is called and an
  error is returned.\<close>

theorem capi_put_message_routes:
  assumes "reachable env s" and "CAPI_MAX_APPLS env < 65535"
    and "a \<in> set (capi_appls_list s)" and "appls s a = Some ap" and "appl_info ap = 0" and "12 \<le> length m"
  shows "\<exists>res s'. capi_put_message env a (Some m) s = Some (res, s') \<and>
     (if \<exists>d. reaches s a m d
      then \<exists>d. reaches s a m d \<and> (\<forall>d'. reaches s a m d' \<longrightarrow> d' = d) \<and>
             res = drv_put_message env (drv_trace s) d a m \<and> drv_trace s' = PutMsg d a m # drv_trace s
      else res = CAPINFO_0X11_OSRESERR \<and> s' = s)"
proof -
  note inv = reachable_inv [OF assms(1,2)]
  have "d' = d" if "reaches s a m d" "reaches s a m d'" for d d'
  proof -
    from that obtain n r r' where "dinfo s d = Some (n, r, False)" "dinfo s d' = Some (n, r', False)"
      and "d \<in> set (capi_devs_list s)" by (auto simp: reaches_def)
    moreover from this inv have "n \<noteq> 0" by (auto simp: core_inv_def body_ok_def numbered_def)
    ultimately show ?thesis
      using table_unique [of env s d n r False d' r' False] inv by (auto simp: core_inv_def body_ok_def)
  qed
  note uniq = this
  from capi_put_message_inv [OF inv assms(3-6)] obtain res s' where
    eq: "capi_put_message env a (Some m) s = Some (res, s')"
    and r: "if \<exists>d. reaches s a m d
      then \<exists>d. reaches s a m d \<and> res = drv_put_message env (drv_trace s) d a m \<and> s' = log_drv (PutMsg d a m) s
      else res = CAPINFO_0X11_OSRESERR \<and> s' = s" by (elim exE conjE) (rule that)
  show ?thesis
  proof (cases "\<exists>d. reaches s a m d")
    case True
    from r [unfolded if_P [OF True]] obtain d where d: "reaches s a m d" "res = drv_put_message env (drv_trace s) d a m"
      "s' = log_drv (PutMsg d a m) s" by blast
    have only: "\<forall>d'. reaches s a m d' \<longrightarrow> d' = d" using uniq [OF d(1)] by blast
    have "drv_trace s' = PutMsg d a m # drv_trace s" using d(3) by (simp add: log_drv_def)
    with eq d(1,2) only show ?thesis unfolding if_P [OF True] by blast
  next
    case False
    with r have "res = CAPINFO_0X11_OSRESERR \<and> s' = s" by (simp only: if_False)
    with eq show ?thesis unfolding if_not_P [OF False] by (intro exI conjI) simp_all
  qed
qed

theorem capi_put_message_routes_witness:
  "\<exists>res s'. capi_put_message demo_env 2 (Some demo_msg) (the demo) = Some (res, s') \<and>
     drv_trace s' = [PutMsg 1 2 demo_msg, Registered 1 2 0]"
proof -
  have r: "reaches (the demo) 2 demo_msg d \<longleftrightarrow> d = 1" for d
    by (auto simp: reaches_def demo_facts demo_facts(6) [simplified] demo_msg_def)
  have "appl_info (demo_appl\<lparr>appl_id := 1, appl_devs := {0}\<rparr>) = 0" and "12 \<le> length demo_msg"
    by (simp_all add: demo_appl_def demo_msg_def)
  from capi_put_message_routes [OF demo_reachable demo_max _ demo_facts(4) this]
  show ?thesis by (simp add: r demo_facts) blast
qed

text \<open>C7: After \<open>capi_release\<close> no driver has an open session of the application, and after
  \<open>capi_device_unregister\<close> the driver has no open session at all and receives no further
  message, although applications may still refer to the device by its number.\<close>

theorem core_no_calls_after_release:
  assumes "reachable env s" and "CAPI_MAX_APPLS env < 65535"
  shows "(\<forall>a info s'. a \<in> set (capi_appls_list s) \<longrightarrow> capi_release env a s = Some (info, s') \<longrightarrow>
       (\<forall>d. \<not> in_session (drv_trace s') d a)) \<and>
    (\<forall>d s'. d \<in> set (capi_devs_list s) \<longrightarrow> capi_device_unregister d s = Some s' \<longrightarrow>
       (\<forall>a. \<not> in_session (drv_trace s') d a) \<and>
       (\<forall>a m res s''. a \<in> set (capi_appls_list s') \<longrightarrow> capi_put_message env a (Some m) s' = Some (res, s'') \<longrightarrow>
          PutMsg d a m # drv_trace s' \<noteq> drv_trace s''))"
proof (intro conjI allI impI)
  note inv = reachable_inv [OF assms]
  fix a info s' d
  assume a: "a \<in> set (capi_appls_list s)" and rel: "capi_release env a s = Some (info, s')"
  from capi_release_inv [OF inv a] rel have inv': "core_inv env s'"
    and "capi_appls_list s' = remove1 a (capi_appls_list s)" by auto
  then have "a \<notin> set (capi_appls_list s')" using core_inv_distinct [OF inv] by simp
  with inv' show "\<not> in_session (drv_trace s') d a" by (auto simp: core_inv_def body_ok_def trace_ok_def)
next
  fix d s'
  assume d: "d \<in> set (capi_devs_list s)" and un: "capi_device_unregister d s = Some s'"
  from unregister_capi_device_inv [OF reachable_inv [OF assms] d] un have inv': "core_inv env s'"
    and l: "capi_devs_list s' = remove1 d (capi_devs_list s)" by (auto simp: capi_device_unregister_def)
  have "distinct (capi_devs_list s)" using reachable_inv [OF assms] by (simp add: core_inv_def devs_list_ok_def)
  with l have nd: "d \<notin> set (capi_devs_list s')" by simp
  with inv' show none: "\<not> in_session (drv_trace s') d a" for a
    by (auto simp: core_inv_def body_ok_def trace_ok_def)
  fix a m res s''
  assume a: "a \<in> set (capi_appls_list s')" and "capi_put_message env a (Some m) s' = Some (res, s'')"
  then have "core_inv env s''" using capi_put_message_keeps [OF inv'] by blast
  then have "protocol_ok (drv_trace s'')" by (simp add: core_inv_def body_ok_def trace_ok_def)
  with none [of a] show "PutMsg d a m # drv_trace s' \<noteq> drv_trace s''" by (metis protocol_ok.simps(4))
qed

theorem core_no_calls_after_release_witness:
  "\<exists>info s'. capi_release demo_env 2 (the demo) = Some (info, s') \<and> \<not> in_session (drv_trace s') 1 2"
proof -
  have a: "2 \<in> set (capi_appls_list (the demo))" by (simp add: demo_facts)
  with capi_release_inv [OF reachable_inv [OF demo_reachable demo_max]] obtain info s'
    where rel: "capi_release demo_env 2 (the demo) = Some (info, s')" by blast
  from core_no_calls_after_release [OF demo_reachable demo_max, THEN conjunct1, rule_format, OF a rel]
  show ?thesis using rel by blast
qed

text \<open>The device counter tells whether any device is listed, in every reachable state.\<close>

theorem capi_isinstalled_iff:
  assumes "reachable env s" and "CAPI_MAX_APPLS env < 65535"
  shows "capi_isinstalled s = (if capi_devs_list s = [] then CAPINFO_0X11_NOTINSTALLED else CAPINFO_0X11_NOERR)"
  using reachable_inv [OF assms] by (simp add: capi_isinstalled_def core_inv_def devs_list_ok_def)

theorem capi_isinstalled_iff_witness: "capi_isinstalled (the demo) = CAPINFO_0X11_NOERR"
  using capi_isinstalled_iff [OF demo_reachable demo_max] by (simp add: demo_facts)

section \<open>The message queue of an application\<close>

definition queue_ok :: "nat \<Rightarrow> core \<Rightarrow> bool" where
  "queue_ok a s \<longleftrightarrow> (\<exists>ap. appls s a = Some ap \<and> appl_info ap = 0)"

definition queue_of :: "nat \<Rightarrow> core \<Rightarrow> bytes list" where
  "queue_of a s = (case appls s a of None \<Rightarrow> [] | Some ap \<Rightarrow> msg_queue ap)"

definition take_message :: "nat \<Rightarrow> core \<Rightarrow> (bytes option \<times> core) option" where
  "take_message a s = map_option (\<lambda>(info, msg, s). (Option.bind msg (\<lambda>m. m), s)) (capi_get_message a s)"

interpretation core_mq: message_queue
  "queue_ok a" "queue_of a" "capi_appl_enqueue_message a" "take_message a" "capi_unget_message a" for a
  by unfold_locales
    (auto simp: queue_ok_def queue_of_def take_message_def capi_appl_enqueue_message_def capi_get_message_def
      capi_unget_message_def upd_appl_def)

text \<open>C8: The queue between a device driver and an application is first in, first out: whatever
  was pending and whatever a driver enqueues is fetched in that order by \<open>capi_get_message\<close>, and
  then the queue is reported empty.\<close>

theorem appl_queue_fifo:
  assumes "appls s a = Some ap" and "appl_info ap = 0"
  shows "\<exists>s1 s2. fold_opt (capi_appl_enqueue_message a) ms s = Some s1 \<and>
    drain (take_message a) (length (msg_queue ap) + length ms) s1 = Some (msg_queue ap @ ms, s2) \<and>
    capi_peek_message a s2 = Some CAPINFO_0X11_QUEUEEMPTY"
proof -
  have "queue_ok a s" and "queue_of a s = msg_queue ap" using assms by (simp_all add: queue_ok_def queue_of_def)
  with core_mq.fifo [of a s ms] obtain s1 s2 where
    "fold_opt (capi_appl_enqueue_message a) ms s = Some s1"
    and "drain (take_message a) (length (msg_queue ap) + length ms) s1 = Some (msg_queue ap @ ms, s2)"
    and "queue_ok a s2" and "queue_of a s2 = []" by auto
  then show ?thesis by (auto simp: queue_ok_def queue_of_def capi_peek_message_def)
qed

theorem appl_queue_fifo_witness:
  "\<exists>s1 s2. fold_opt (capi_appl_enqueue_message 2) [[1], [2]] (the demo) = Some s1 \<and>
    drain (take_message 2) 2 s1 = Some ([[1], [2]], s2) \<and> capi_peek_message 2 s2 = Some CAPINFO_0X11_QUEUEEMPTY"
  using appl_queue_fifo [OF demo_facts(4), of "[[1], [2]]"] by (simp add: demo_appl_def numeral_2_eq_2)

text \<open>The first error that a driver signals to an application sticks: every later
  \<open>capi_put_message\<close>, \<open>capi_get_message\<close> and \<open>capi_peek_message\<close> returns it without an effect, later errors do not replace it,
  and \<open>capi_release\<close> reports it.\<close>

theorem signalled_error_sticks:
  assumes "appls s a = Some ap" and "appl_info ap = 0" and "e \<noteq> 0" and "capi_appl_signal_error a e s = Some s1"
  shows "(\<forall>env msg. capi_put_message env a msg s1 = Some (e, s1)) \<and>
    capi_get_message a s1 = Some (e, None, s1) \<and> capi_peek_message a s1 = Some e \<and>
    (\<forall>e' s2. capi_appl_signal_error a e' s1 = Some s2 \<longrightarrow> capi_peek_message a s2 = Some e) \<and>
    (\<forall>env info s2. capi_release env a s1 = Some (info, s2) \<longrightarrow> core_inv env s1 \<longrightarrow>
       a \<in> set (capi_appls_list s1) \<longrightarrow> info = e)"
proof -
  from assms obtain ap1 where ap1: "appls s1 a = Some ap1" "appl_info ap1 = e"
    by (auto simp: capi_appl_signal_error_def upd_appl_def capi_appl_signal_def)
  have "info = e" if "capi_release env a s1 = Some (info, s2)" "core_inv env s1" "a \<in> set (capi_appls_list s1)"
    for env info s2
    using capi_release_inv [OF that(2,3)] that(1) ap1 by auto
  with ap1 assms(3) show ?thesis
    by (auto simp: capi_put_message_def capi_get_message_def capi_peek_message_def capi_appl_signal_error_def
        upd_appl_def capi_appl_signal_def)
qed

theorem signalled_error_sticks_witness:
  "\<exists>s1. capi_appl_signal_error 2 0x1108 (the demo) = Some s1 \<and> capi_get_message 2 s1 = Some (0x1108, None, s1)"
proof -
  have "appl_info (demo_appl\<lparr>appl_id := 1, appl_devs := {0}\<rparr>) = 0"
    and "appl_sig (demo_appl\<lparr>appl_id := 1, appl_devs := {0}\<rparr>) = Some 7" by (simp_all add: demo_appl_def)
  moreover from this obtain s1 where "capi_appl_signal_error 2 0x1108 (the demo) = Some s1"
    using demo_facts(4) by (auto simp: capi_appl_signal_error_def upd_appl_def capi_appl_signal_def)
  ultimately show ?thesis using signalled_error_sticks [OF demo_facts(4), of "0x1108"] by auto
qed

section \<open>The largest registry\<close>

lemma scan_appls_full:
  assumes "set as \<subseteq> dom (appls s)" and "\<And>k. k < length as \<Longrightarrow> id_of s (as ! k) = i + word_of_nat k"
  shows "scan_appls s i as = Some (i + word_of_nat (length as), as, [])"
  using assms
proof (induction as arbitrary: i)
  case (Cons a as)
  from Cons.prems(1) obtain ap where ap: "appls s a = Some ap" by auto
  from Cons.prems(2) [of 0] have "appl_id ap = i" by (simp add: id_of_Some [OF ap])
  moreover have "scan_appls s (i + 1) as = Some (i + 1 + word_of_nat (length as), as, [])"
  proof (rule Cons.IH)
    show "set as \<subseteq> dom (appls s)" using Cons.prems(1) by simp
    show "id_of s (as ! k) = i + 1 + word_of_nat k" if "k < length as" for k
      using Cons.prems(2) [of "Suc k"] that by (simp add: ac_simps)
  qed
  ultimately show ?case by (simp add: ap ac_simps)
qed simp

text \<open>With the largest configurable registry, 65535 applications, the 16-bit number of
  \<open>add_capi_appl\<close> wraps to 0 when every number is taken: the bound check passes, \<open>capi_register\<close> reports
  that there are too many applications, and yet enters the application, with number 0, into the list.\<close>

theorem capi_register_wraps:
  assumes "CAPI_MAX_APPLS env = 65535" and "length (capi_appls_list s) = 65535"
    and "\<And>k. k < 65535 \<Longrightarrow> id_of s (capi_appls_list s ! k) = 1 + word_of_nat k"
    and "set (capi_appls_list s) \<subseteq> dom (appls s)" and "a \<notin> set (capi_appls_list s)"
    and "appls s a = Some ap" and "128 \<le> datablklen (appl_params ap)"
  shows "\<exists>s'. capi_register env (Some a) s = Some (CAPINFO_0X10_TOOMANYAPPLS, s') \<and>
    capi_appls_list s' = capi_appls_list s @ [a] \<and> id_of s' a = 0"
proof -
  let ?f = "\<lambda>ap. ap\<lparr>msg_queue := [], appl_info := CAPINFO_0X11_NOERR, appl_stats := zero_stats, appl_devs := {}\<rparr>"
  let ?s1 = "s\<lparr>appls := (appls s)(a \<mapsto> ?f ap)\<rparr>"
  have "id_of ?s1 (capi_appls_list s ! k) = 1 + word_of_nat k" if "k < 65535" for k
  proof -
    have "capi_appls_list s ! k \<noteq> a" using assms(2,5) that by (metis nth_mem)
    with assms(3) [OF that] show ?thesis by simp
  qed
  with assms(2,4) have "scan_appls ?s1 1 (capi_appls_list s) =
      Some (1 + word_of_nat (length (capi_appls_list s)), capi_appls_list s, [])"
    by (intro scan_appls_full) auto
  moreover have "(1 + word_of_nat (length (capi_appls_list s)) :: u16) = 0" by (simp add: assms(2))
  ultimately have scan: "scan_appls ?s1 1 (capi_appls_list s) = Some (0, capi_appls_list s, [])" by simp
  show ?thesis using assms(7)
    by (auto simp: capi_register_def assms(6) upd_appl_def bind_capi_appl_def add_capi_appl_def scan not_less [symmetric])
qed

definition full_ids :: "nat list" where "full_ids = [1..<65536]"

definition full_core :: core where
  "full_core = (core_init demo_env)\<lparr>appls := (\<lambda>a. Some (demo_appl\<lparr>appl_id := word_of_nat a\<rparr>)), capi_appls_list := full_ids\<rparr>"

theorem capi_register_wraps_witness:
  "\<exists>s'. capi_register (demo_env\<lparr>CAPI_MAX_APPLS := 65535\<rparr>) (Some 0) full_core = Some (CAPINFO_0X10_TOOMANYAPPLS, s') \<and>
    capi_appls_list s' = full_ids @ [0] \<and> id_of s' 0 = 0"
proof -
  have l: "capi_appls_list full_core = full_ids" by (simp add: full_core_def)
  have len: "length full_ids = 65535" unfolding full_ids_def by (simp only: length_upt)
  have n: "full_ids ! k = 1 + k" if "k < 65535" for k using that unfolding full_ids_def by (subst nth_upt) simp_all
  have z: "0 \<notin> set full_ids" unfolding full_ids_def by (simp only: set_upt) simp
  show ?thesis unfolding l [symmetric]
    by (rule capi_register_wraps [where ap = "demo_appl\<lparr>appl_id := 0\<rparr>"])
      (simp_all add: l len n z id_of_def full_core_def demo_appl_def dom_def)
qed

end
