(* ===== verification/CapiClients.thy ===== *)
theory CapiClients
  imports CapiCoreProps
begin

text \<open>
  What the two users of the capicore, \<^verbatim>\<open>kernelcapi.c\<close> and \<^verbatim>\<open>capi.c\<close>, share: counting the
  traffic of an application, and the facts about the capicore that they rest on.
\<close>

section \<open>Statistics\<close>

text \<open>The number of bytes that the statistics count: header, and data of data messages.\<close>

definition msg_count :: "u16 \<Rightarrow> bytes \<Rightarrow> nat option" where
  "msg_count data_cmd m = do {
     n \<leftarrow> CAPIMSG_LEN m;
     cmd \<leftarrow> CAPIMSG_CMD m;
     if cmd = data_cmd then do { d \<leftarrow> CAPIMSG_DATALEN m; Some (unat n + unat d) } else Some (unat n) }"

definition count_tx :: "nat \<Rightarrow> nat \<Rightarrow> core \<Rightarrow> core option" where
  "count_tx a n = upd_appl a (\<lambda>ap. ap\<lparr>appl_stats := (appl_stats ap)
      \<lparr>tx_packets := tx_packets (appl_stats ap) + 1, tx_bytes := tx_bytes (appl_stats ap) + word_of_nat n\<rparr>\<rparr>)"

definition count_rx :: "nat \<Rightarrow> nat \<Rightarrow> core \<Rightarrow> core option" where
  "count_rx a n = upd_appl a (\<lambda>ap. ap\<lparr>appl_stats := (appl_stats ap)
      \<lparr>rx_packets := rx_packets (appl_stats ap) + 1, rx_bytes := rx_bytes (appl_stats ap) + word_of_nat n\<rparr>\<rparr>)"

section \<open>What the capicore leaves alone\<close>

definition same_ids :: "core \<Rightarrow> core \<Rightarrow> bool" where
  "same_ids s s' \<longleftrightarrow> id_of s' = id_of s \<and> capi_appls_list s' = capi_appls_list s"

lemma same_ids_refl [simp]: "same_ids s s" by (simp add: same_ids_def)
lemma same_ids_trans [trans]: "same_ids s t \<Longrightarrow> same_ids t u \<Longrightarrow> same_ids s u" by (simp add: same_ids_def)

lemma upd_dev_ids: "upd_dev d f s = Some s' \<Longrightarrow> same_ids s s'"
  by (auto simp: upd_dev_def same_ids_def)

lemma upd_appl_ids: "upd_appl a f s = Some s' \<Longrightarrow> (\<And>ap. appl_id (f ap) = appl_id ap) \<Longrightarrow> same_ids s s'"
  by (auto simp: upd_appl_def same_ids_def fun_eq_iff id_of_def)

lemma fold_opt_same_ids:
  assumes "\<And>x s s'. f x s = Some s' \<Longrightarrow> same_ids s s'" and "fold_opt f xs s = Some s'"
  shows "same_ids s s'"
  using assms(2) by (induction xs arbitrary: s) (auto intro: same_ids_trans assms(1))

lemma capi_device_put_ids: "capi_device_put d s = Some s' \<Longrightarrow> same_ids s s'"
  by (auto simp: capi_device_put_def free_capi_device_def same_ids_def dest!: upd_dev_ids split: if_splits)

lemma capi_device_get_ids: "capi_device_get p s = Some (q, s') \<Longrightarrow> same_ids s s'"
  by (auto simp: capi_device_get_def dest!: upd_dev_ids split: option.splits)

lemma register_capi_appl_ids: "register_capi_appl env a d s = Some s' \<Longrightarrow> same_ids s s'"
  by (auto simp: register_capi_appl_def Let_def log_drv_def same_ids_def dest!: capi_device_get_ids upd_appl_ids split: if_splits)

lemma register_loop_ids:
  "fold_opt (\<lambda>a. register_capi_appl env a d) as s = Some s' \<Longrightarrow> same_ids s s'"
  "fold_opt (register_capi_appl env a) ds s = Some s' \<Longrightarrow> same_ids s s'"
  by (erule fold_opt_same_ids [rotated], erule register_capi_appl_ids)+

lemma unregister_capi_device_ids: "unregister_capi_device d s = Some s' \<Longrightarrow> same_ids s s'"
  by (auto simp: unregister_capi_device_def same_ids_def Let_def log_drv_def dest!: upd_dev_ids split: if_splits)

lemma bind_capi_device_ids:
  assumes "bind_capi_device env d s = Some (n, s')"
  shows "same_ids s s'"
  using assms
  by (fastforce simp: bind_capi_device_def add_capi_device_def same_ids_def Let_def
      dest!: upd_dev_ids register_loop_ids(1) split: if_splits option.splits)

lemma capi_device_register_ids:
  assumes "capi_device_register env r (Some d) s = Some (res, s')"
  shows "same_ids s s'"
  using assms
  by (auto simp: capi_device_register_def same_ids_def dest!: upd_dev_ids bind_capi_device_ids
      unregister_capi_device_ids split: if_splits)

lemma release_slot_ids: "release_slot a i s = Some s' \<Longrightarrow> same_ids s s'"
  by (auto simp: release_slot_def Let_def log_drv_def same_ids_def dest!: capi_device_put_ids split: if_splits)

lemma capi_release_ids:
  assumes "capi_release env a s = Some (info, s')"
  shows "id_of s' = id_of s \<and> capi_appls_list s' = remove1 a (capi_appls_list s)"
proof -
  from assms obtain ap ap' :: capi_appl and s1 s2
    where loop: "fold_opt (release_slot a) (filter (\<lambda>i. i \<in> appl_devs ap) [0..<CAPI_MAX_DEVS env]) s = Some s1"
      and u: "upd_appl a (\<lambda>ap. ap\<lparr>msg_queue := []\<rparr>) (s1\<lparr>capi_appls_list := remove1 a (capi_appls_list s1)\<rparr>) = Some s2"
      and e: "Some (appl_info ap', s2) = Some (info, s')"
    unfolding capi_release_def Let_def by (elim bind_SomeE) blast
  from fold_opt_same_ids [OF release_slot_ids loop] upd_appl_ids [OF u] e show ?thesis by (simp add: same_ids_def)
qed

lemma add_capi_appl_ids:
  assumes "add_capi_appl env a s = Some (i, s')" and "b \<noteq> a"
  shows "id_of s' b = id_of s b"
  using assms by (auto simp: add_capi_appl_def upd_appl_def id_of_def split: if_splits)

lemma capi_register_ids:
  assumes "capi_register env (Some a) s = Some (res, s')" and "b \<noteq> a"
  shows "id_of s' b = id_of s b"
  using assms
  by (auto simp: capi_register_def bind_capi_appl_def same_ids_def add_capi_appl_ids
      dest!: upd_appl_ids register_loop_ids(2) split: if_splits)

lemma capi_put_message_ids: "capi_put_message env a msg s = Some (res, s') \<Longrightarrow> same_ids s s'"
  by (auto simp: capi_put_message_def Let_def log_drv_def same_ids_def split: if_splits option.splits)

text \<open>A step of the capicore leaves the numbers of the applications alone that stay registered.\<close>

lemma core_step_ids:
  assumes "core_step env s s'" and "b \<in> set (capi_appls_list s)"
  shows "id_of s' b = id_of s b"
  using assms
proof cases
  case (appl_register a res)
  with capi_register_ids [OF this(2), of b] assms(2) show ?thesis by auto
next
  case (dev_put d)
  with capi_device_put_ids show ?thesis by (fastforce simp: same_ids_def)
qed (auto simp: capi_device_alloc_def capi_set_signal_def capi_get_message_def capi_unget_message_def
      capi_appl_enqueue_message_def capi_appl_signal_def capi_appl_signal_error_def same_ids_def
      capi_device_unregister_def
    dest!: upd_dev_ids upd_appl_ids capi_device_register_ids unregister_capi_device_ids capi_put_message_ids
      capi_device_get_ids capi_release_ids
    split: if_splits option.splits list.splits)

text \<open>\<open>kfree\<close> of an application that is not registered.\<close>

lemma core_inv_free_appl:
  assumes "core_inv env c" and "a \<notin> set (capi_appls_list c)"
  shows "core_inv env (c\<lparr>appls := (appls c)(a := None)\<rparr>)"
proof (rule core_inv_same [OF assms(1)])
  let ?c = "c\<lparr>appls := (appls c)(a := None)\<rparr>"
  have "id_of ?c b = id_of c b \<and> bits ?c b = bits c b \<and> appls ?c b \<noteq> None" if b: "b \<in> set (capi_appls_list c)" for b
  proof -
    have "set (capi_appls_list c) \<subseteq> dom (appls c)" using assms(1) by (simp add: core_inv_def appls_ok_def)
    with b have "appls c b \<noteq> None" by blast
    moreover have "b \<noteq> a" using b assms(2) by blast
    ultimately show ?thesis by (simp add: id_of_def bits_def)
  qed
  then show "same_core c ?c" unfolding same_core_def by simp
qed

lemma count_ids: "count_tx a n c = Some c' \<Longrightarrow> same_ids c c'" "count_rx a n c = Some c' \<Longrightarrow> same_ids c c'"
  unfolding count_tx_def count_rx_def by (erule upd_appl_ids, simp)+

lemma count_inv:
  "core_inv env c \<Longrightarrow> count_tx a n c = Some c' \<Longrightarrow> core_inv env c'"
  "core_inv env c \<Longrightarrow> count_rx a n c = Some c' \<Longrightarrow> core_inv env c'"
  unfolding count_tx_def count_rx_def by (erule (1) core_inv_upd_queue; simp)+

lemma capi_get_message_same:
  assumes "core_inv env c" and "capi_get_message a c = Some (info, msg, c')"
  shows "core_inv env c' \<and> same_ids c c'"
proof -
  from assms(2) have "c' = c \<or> (\<exists>q. upd_appl a (\<lambda>ap. ap\<lparr>msg_queue := q\<rparr>) c = Some c')"
    by (auto simp: capi_get_message_def split: if_splits list.splits)
  then show ?thesis
  proof
    assume "\<exists>q. upd_appl a (\<lambda>ap. ap\<lparr>msg_queue := q\<rparr>) c = Some c'"
    then obtain q where u: "upd_appl a (\<lambda>ap. ap\<lparr>msg_queue := q\<rparr>) c = Some c'" by blast
    from core_inv_upd_queue [OF assms(1) u] upd_appl_ids [OF u] show ?thesis by simp
  qed (use assms(1) in simp)
qed

end
