(* ===== verification/KernelCapi.thy ===== *)
theory KernelCapi
  imports CapiClients
begin

text \<open>
  The interface for kernel clients, \<^verbatim>\<open>drivers/isdn/capi/kernelcapi.c\<close>: applications are known by number.  A
  \<open>struct kernelcapi_appl\<close> lies at the address of the \<open>capi_appl\<close> inside it; its other fields are in
  \<open>kc_appls\<close>, the \<open>capi_appl\<close> itself is in the capicore.  The table \<open>kernelcapi_appls\<close> maps numbers
  to addresses.  The clients' callbacks are recorded in \<open>kc_calls\<close>, newest first.
\<close>

section \<open>Data\<close>

record kernelcapi_appl =
  kc_signal :: "nat option"
  kc_param :: u32

record capi_interface_user =
  callback :: "nat option"
  if_next :: "nat option"

datatype user_cmd = CAPI_INTERFACE_USER_DEVADD | CAPI_INTERFACE_USER_DEVREMOVE

datatype kc_call =
    SignalCall nat u16 u32
  | IfaceCall nat user_cmd nat "capi_profile option"

record kcapi =
  kc_core :: core
  kc_appls :: "nat \<rightharpoonup> kernelcapi_appl"
  kernelcapi_appls :: "nat option list"
  kc_ifaces :: "nat \<rightharpoonup> capi_interface_user"
  kernelcapi_iface_list :: "nat option"
  kc_calls :: "kc_call list"

text \<open>The handler that the capicore calls for every application of this interface.\<close>

definition kernelcapi_handler :: nat where "kernelcapi_handler = 1"

section \<open>Applications\<close>

definition kernelcapi_isinstalled :: "kcapi \<Rightarrow> u16" where
  "kernelcapi_isinstalled s = capi_isinstalled (kc_core s)"

text \<open>
  The argument \<open>p\<close> is the result of \<open>kmalloc\<close>: an address with what the memory there contains.  The second
  component of the result is what is stored through \<open>applid\<close>.
\<close>

definition kernelcapi_register :: "core_env \<Rightarrow> (nat \<times> capi_appl \<times> kernelcapi_appl) option \<Rightarrow> capi_register_params \<Rightarrow>
    kcapi \<Rightarrow> (u16 \<times> u16 option \<times> kcapi) option" where
  "kernelcapi_register env p param s =
     (case p of
        None \<Rightarrow> Some (CAPINFO_0X10_OSRESERR, None, s)
      | Some (a, raw, kraw) \<Rightarrow> do {
          let s = s\<lparr>kc_appls := (kc_appls s)(a \<mapsto> kraw)\<rparr>;
          let c = (kc_core s)\<lparr>appls := (appls (kc_core s))(a \<mapsto> raw\<lparr>appl_params := param\<rparr>)\<rparr>;
          c \<leftarrow> capi_set_signal (Some a) None 0 c;
          (info, c) \<leftarrow> capi_register env (Some a) c;
          let kfree = (\<lambda>s. s\<lparr>kc_core := c\<lparr>appls := (appls c)(a := None)\<rparr>, kc_appls := (kc_appls s)(a := None)\<rparr>);
          if info \<noteq> 0 then Some (info, None, kfree s)
          else do {
            ap \<leftarrow> appls c a;
            let i = uint (appl_id ap) - 1;
            if i \<ge> int (CAPI_MAX_APPLS env) then Some (CAPINFO_0X10_TOOMANYAPPLS, None, kfree s)
            else if i < 0 \<or> nat i \<ge> length (kernelcapi_appls s) then None
            else Some (CAPINFO_0X10_NOERR, Some (appl_id ap),
                   s\<lparr>kc_core := c, kernelcapi_appls := (kernelcapi_appls s)[nat i := Some a]\<rparr>) } })"

text \<open>
  \<open>kernelcapi_appls[applid - 1]\<close>, an \<open>int\<close> index: the outer \<open>None\<close> is an index outside the table, the inner
  one a NULL entry, whose use is undefined in all four callers.
\<close>

definition kernelcapi_appl :: "u16 \<Rightarrow> kcapi \<Rightarrow> nat option option" where
  "kernelcapi_appl applid s = (if applid = 0 then None else nth_opt (kernelcapi_appls s) (unat applid - 1))"

definition kernelcapi_release :: "core_env \<Rightarrow> u16 \<Rightarrow> kcapi \<Rightarrow> (u16 \<times> kcapi) option" where
  "kernelcapi_release env applid s =
     (if uint applid - 1 \<ge> int (CAPI_MAX_APPLS env) then Some (CAPINFO_0X11_ILLAPPNR, s)
      else do {
        p \<leftarrow> kernelcapi_appl applid s;
        a \<leftarrow> p;
        (info, c) \<leftarrow> capi_release env a (kc_core s);
        Some (info, s\<lparr>kc_core := c\<lparr>appls := (appls c)(a := None)\<rparr>, kc_appls := (kc_appls s)(a := None),
                kernelcapi_appls := (kernelcapi_appls s)[unat applid - 1 := None]\<rparr>) })"

definition kernelcapi_put_message :: "core_env \<Rightarrow> u16 \<Rightarrow> bytes \<Rightarrow> kcapi \<Rightarrow> (u16 \<times> kcapi) option" where
  "kernelcapi_put_message env applid msg s =
     (if uint applid - 1 \<ge> int (CAPI_MAX_APPLS env) then Some (CAPINFO_0X11_ILLAPPNR, s)
      else do {
        n \<leftarrow> msg_count CAPI_DATA_B3_REQ msg;
        p \<leftarrow> kernelcapi_appl applid s;
        a \<leftarrow> p;
        (info, c) \<leftarrow> capi_put_message env a (Some msg) (kc_core s);
        c \<leftarrow> (if info = 0 then count_tx a n c else Some c);
        Some (info, s\<lparr>kc_core := c\<rparr>) })"

definition kernelcapi_get_message :: "core_env \<Rightarrow> u16 \<Rightarrow> kcapi \<Rightarrow> (u16 \<times> bytes option option \<times> kcapi) option" where
  "kernelcapi_get_message env applid s =
     (if uint applid - 1 \<ge> int (CAPI_MAX_APPLS env) then Some (CAPINFO_0X11_ILLAPPNR, None, s)
      else do {
        p \<leftarrow> kernelcapi_appl applid s;
        a \<leftarrow> p;
        (info, msg, c) \<leftarrow> capi_get_message a (kc_core s);
        c \<leftarrow> (if info = 0 then do {
               m \<leftarrow> msg;
               m \<leftarrow> m;
               n \<leftarrow> msg_count CAPI_DATA_B3_IND m;
               count_rx a n c }
             else Some c);
        Some (info, msg, s\<lparr>kc_core := c\<rparr>) })"

definition kernelcapi_signal_handler :: "nat \<Rightarrow> kcapi \<Rightarrow> kcapi option" where
  "kernelcapi_signal_handler a s = do {
     ka \<leftarrow> kc_appls s a;
     ap \<leftarrow> appls (kc_core s) a;
     f \<leftarrow> kc_signal ka;
     Some (s\<lparr>kc_calls := SignalCall f (appl_id ap) (kc_param ka) # kc_calls s\<rparr>) }"

definition kernelcapi_set_signal :: "core_env \<Rightarrow> u16 \<Rightarrow> nat option \<Rightarrow> u32 \<Rightarrow> kcapi \<Rightarrow> (u16 \<times> kcapi) option" where
  "kernelcapi_set_signal env applid sg param s =
     (if uint applid - 1 \<ge> int (CAPI_MAX_APPLS env) then Some (CAPINFO_0X11_ILLAPPNR, s)
      else do {
        p \<leftarrow> kernelcapi_appl applid s;
        a \<leftarrow> p;
        ka \<leftarrow> kc_appls s a;
        c \<leftarrow> capi_set_signal (Some a) (if sg \<noteq> None then Some kernelcapi_handler else None) 0 (kc_core s);
        Some (CAPINFO_0X11_NOERR, s\<lparr>kc_appls := (kc_appls s)(a \<mapsto> ka\<lparr>kc_signal := sg, kc_param := param\<rparr>),
                kc_core := c\<rparr>) })"

section \<open>Device information\<close>

text \<open>The second component is the new content of the caller's buffer, if it is written.\<close>

definition kernelcapi_get_version :: "core_env \<Rightarrow> u32 \<Rightarrow> kcapi \<Rightarrow> (u16 \<times> capi_version option) option" where
  "kernelcapi_get_version env devid s = do {
     r \<leftarrow> capi_get_version env (sint devid) (kc_core s);
     Some (if r \<noteq> None then CAPINFO_0X11_NOERR else CAPINFO_0X11_OSRESERR, r) }"

definition kernelcapi_get_serial :: "core_env \<Rightarrow> u32 \<Rightarrow> bytes \<Rightarrow> kcapi \<Rightarrow> (u16 \<times> bytes option) option" where
  "kernelcapi_get_serial env devid serial s = do {
     r \<leftarrow> capi_get_serial_number env (sint devid) serial (kc_core s);
     Some (if r \<noteq> None then CAPINFO_0X11_NOERR else CAPINFO_0X11_OSRESERR, r) }"

definition kernelcapi_get_profile :: "core_env \<Rightarrow> u32 \<Rightarrow> capi_profile \<Rightarrow> kcapi \<Rightarrow> (u16 \<times> capi_profile) option" where
  "kernelcapi_get_profile env devid profile s = capi_get_profile env (sint devid) profile (kc_core s)"

definition kernelcapi_get_manufacturer :: "core_env \<Rightarrow> u32 \<Rightarrow> bytes \<Rightarrow> kcapi \<Rightarrow> (u16 \<times> bytes option) option" where
  "kernelcapi_get_manufacturer env devid manufacturer s = do {
     r \<leftarrow> capi_get_manufacturer env (sint devid) manufacturer (kc_core s);
     Some (if r \<noteq> None then CAPINFO_0X11_NOERR else CAPINFO_0X11_OSRESERR, r) }"

definition kernelcapi_manufacturer :: "u32 \<Rightarrow> kcapi \<Rightarrow> int" where
  "kernelcapi_manufacturer cmd s = 0"

section \<open>Clients\<close>

definition attach_capi_interface :: "nat \<Rightarrow> kcapi \<Rightarrow> kcapi option" where
  "attach_capi_interface iface s = do {
     u \<leftarrow> kc_ifaces s iface;
     Some (if callback u \<noteq> None
           then s\<lparr>kc_ifaces := (kc_ifaces s)(iface \<mapsto> u\<lparr>if_next := kernelcapi_iface_list s\<rparr>),
                  kernelcapi_iface_list := Some iface\<rparr>
           else s) }"

text \<open>The pointer \<open>i\<close> of the loop always points to the list head.\<close>

partial_function (option) detach_loop :: "nat \<Rightarrow> kcapi \<Rightarrow> kcapi option" where
  "detach_loop iface s =
     (case kernelcapi_iface_list s of
        None \<Rightarrow> Some s
      | Some h \<Rightarrow> do {
          u \<leftarrow> kc_ifaces s h;
          let s = s\<lparr>kernelcapi_iface_list := if_next u\<rparr>;
          if h = iface then Some s else detach_loop iface s })"

definition detach_capi_interface :: "nat \<Rightarrow> kcapi \<Rightarrow> (int \<times> kcapi) option" where
  "detach_capi_interface iface s = do { s \<leftarrow> detach_loop iface s; Some (0, s) }"

partial_function (option) call_ifaces :: "user_cmd \<Rightarrow> nat \<Rightarrow> capi_profile option \<Rightarrow> nat option \<Rightarrow> kcapi \<Rightarrow> kcapi option" where
  "call_ifaces cmd dev_nr prof i s =
     (case i of
        None \<Rightarrow> Some s
      | Some h \<Rightarrow> do {
          u \<leftarrow> kc_ifaces s h;
          f \<leftarrow> callback u;
          call_ifaces cmd dev_nr prof (if_next u) (s\<lparr>kc_calls := IfaceCall f cmd dev_nr prof # kc_calls s\<rparr>) })"

definition kernelcapi_devadd :: "nat \<Rightarrow> kcapi \<Rightarrow> (int \<times> kcapi) option" where
  "kernelcapi_devadd d s = do {
     dev \<leftarrow> devs (kc_core s) d;
     s \<leftarrow> call_ifaces CAPI_INTERFACE_USER_DEVADD (dev_id dev) (Some (dev_profile dev)) (kernelcapi_iface_list s) s;
     Some (0, s) }"

definition kernelcapi_devremove :: "nat \<Rightarrow> kcapi \<Rightarrow> kcapi option" where
  "kernelcapi_devremove d s = do {
     dev \<leftarrow> devs (kc_core s) d;
     call_ifaces CAPI_INTERFACE_USER_DEVREMOVE (dev_id dev) None (kernelcapi_iface_list s) s }"

definition kcapi_init :: "core_env \<Rightarrow> kcapi" where
  "kcapi_init env = \<lparr>kc_core = core_init env, kc_appls = (\<lambda>_. None),
     kernelcapi_appls = replicate (CAPI_MAX_APPLS env) None, kc_ifaces = (\<lambda>_. None),
     kernelcapi_iface_list = None, kc_calls = []\<rparr>"

end
