(* ===== verification/KernelCapiProps.thy ===== *)
theory KernelCapiProps
  imports KernelCapi
begin

text \<open>
  Correctness of \<^verbatim>\<open>kernelcapi.c\<close> on top of the capicore: in every reachable state the table maps each number to the
  application that the capicore has registered under it, whatever the other users of the
  capicore and the device drivers do.
\<close>

section \<open>The table of numbers\<close>

definition kc_table_ok :: "kcapi \<Rightarrow> bool" where
  "kc_table_ok s \<longleftrightarrow>
     (\<forall>i a. i < length (kernelcapi_appls s) \<longrightarrow> kernelcapi_appls s ! i = Some a \<longrightarrow>
        a \<in> set (capi_appls_list (kc_core s)) \<and> unat (id_of (kc_core s) a) = i + 1 \<and> kc_appls s a \<noteq> None)"

definition kc_inv :: "core_env \<Rightarrow> kcapi \<Rightarrow> bool" where
  "kc_inv env s \<longleftrightarrow> core_inv env (kc_core s) \<and> length (kernelcapi_appls s) = CAPI_MAX_APPLS env \<and> kc_table_ok s"

lemma kc_inv_init: "kc_inv env (kcapi_init env)"
  by (simp add: kc_inv_def kc_table_ok_def kcapi_init_def core_inv_init)

lemma kernelcapi_applD:
  assumes "kernelcapi_appl n s = Some (Some a)"
  shows "n \<noteq> 0" and "unat n - 1 < length (kernelcapi_appls s)" and "kernelcapi_appls s ! (unat n - 1) = Some a"
  using assms by (auto simp: kernelcapi_appl_def nth_opt_def split: if_splits)

text \<open>A change of the capicore under which all applications of the table stay registered under their numbers.\<close>

lemma kc_inv_core:
  assumes "kc_inv env s" and "core_inv env c"
    and "\<And>a. Some a \<in> set (kernelcapi_appls s) \<Longrightarrow>
           a \<in> set (capi_appls_list c) \<and> id_of c a = id_of (kc_core s) a"
  shows "kc_inv env (s\<lparr>kc_core := c\<rparr>)"
  using assms unfolding kc_inv_def kc_table_ok_def by (simp, metis nth_mem)

lemma kc_inv_same_ids:
  assumes "kc_inv env s" and "core_inv env c" and "same_ids (kc_core s) c"
  shows "kc_inv env (s\<lparr>kc_core := c\<rparr>)"
proof (rule kc_inv_core [OF assms(1,2)])
  fix a assume "Some a \<in> set (kernelcapi_appls s)"
  then obtain i where "i < length (kernelcapi_appls s)" "kernelcapi_appls s ! i = Some a" by (auto simp: in_set_conv_nth)
  with assms(1,3) show "a \<in> set (capi_appls_list c) \<and> id_of c a = id_of (kc_core s) a"
    by (auto simp: kc_inv_def kc_table_ok_def same_ids_def)
qed

lemma kc_registered:
  assumes "kc_inv env s" and "kernelcapi_appl n s = Some (Some a)"
  shows "a \<in> set (capi_appls_list (kc_core s)) \<and> id_of (kc_core s) a = n \<and> kc_appls s a \<noteq> None \<and>
    unat n \<le> CAPI_MAX_APPLS env"
proof -
  note n = kernelcapi_applD [OF assms(2)]
  have "0 < unat n" using n(1) by (simp add: unat_gt_0)
  with assms(1) n have "a \<in> set (capi_appls_list (kc_core s))" and "unat (id_of (kc_core s) a) = unat n"
    and "kc_appls s a \<noteq> None" and "unat n \<le> CAPI_MAX_APPLS env" by (auto simp: kc_inv_def kc_table_ok_def)
  then show ?thesis by (simp add: word_unat_eq_iff)
qed

lemma kc_in_range: "unat n \<le> m \<Longrightarrow> \<not> (uint (n :: u16) - 1 \<ge> int m)"
  unfolding uint_nat [of n] by linarith

lemma kernelcapi_release_inv:
  assumes inv: "kc_inv env s" and n: "kernelcapi_appl n s = Some (Some a)"
  shows "\<exists>info s'. kernelcapi_release env n s = Some (info, s') \<and> kc_inv env s' \<and> kernelcapi_appl n s' = Some None \<and>
     a \<notin> set (capi_appls_list (kc_core s')) \<and> appls (kc_core s') a = None"
proof -
  note r = kc_registered [OF inv n] and t = kernelcapi_applD [OF n]
  from inv have ci: "core_inv env (kc_core s)" by (simp add: kc_inv_def)
  from capi_release_inv [OF ci] r obtain info c where rel: "capi_release env a (kc_core s) = Some (info, c)"
    and c: "core_inv env c" "capi_appls_list c = remove1 a (capi_appls_list (kc_core s))" by blast
  have out: "a \<notin> set (capi_appls_list c)" using c(2) core_inv_distinct [OF ci] by simp
  let ?c = "c\<lparr>appls := (appls c)(a := None)\<rparr>"
  let ?s = "s\<lparr>kc_core := ?c, kc_appls := (kc_appls s)(a := None),
      kernelcapi_appls := (kernelcapi_appls s)[unat n - 1 := None]\<rparr>"
  have eq: "kernelcapi_release env n s = Some (info, ?s)"
    using r n rel kc_in_range [of n] by (simp add: kernelcapi_release_def)
  have "kc_table_ok ?s"
    unfolding kc_table_ok_def
  proof (intro allI impI)
    fix i b assume i: "i < length (kernelcapi_appls ?s)" and b: "kernelcapi_appls ?s ! i = Some b"
    then have ne: "i \<noteq> unat n - 1" and b': "kernelcapi_appls s ! i = Some b" and i': "i < length (kernelcapi_appls s)"
      by (cases "i = unat n - 1"; simp)+
    with inv have bi: "b \<in> set (capi_appls_list (kc_core s))" "unat (id_of (kc_core s) b) = i + 1" "kc_appls s b \<noteq> None"
      by (auto simp: kc_inv_def kc_table_ok_def)
    with r ne have "b \<noteq> a" by auto
    moreover have "id_of ?c b = id_of (kc_core s) b"
      using capi_release_ids [OF rel] \<open>b \<noteq> a\<close> by (auto simp: id_of_def fun_eq_iff)
    ultimately show "b \<in> set (capi_appls_list (kc_core ?s)) \<and> unat (id_of (kc_core ?s) b) = i + 1 \<and> kc_appls ?s b \<noteq> None"
      using bi c(2) by simp
  qed
  with core_inv_free_appl [OF c(1) out] inv have "kc_inv env ?s" by (simp add: kc_inv_def)
  moreover have "kernelcapi_appl n ?s = Some None" using t by (simp add: kernelcapi_appl_def)
  ultimately show ?thesis using eq out by auto
qed

lemma kernelcapi_register_inv:
  assumes inv: "kc_inv env s" and new: "appls (kc_core s) a = None" and max: "CAPI_MAX_APPLS env < 65535"
  shows "\<exists>info r s'. kernelcapi_register env (Some (a, raw, kraw)) param s = Some (info, r, s') \<and> kc_inv env s' \<and>
     (if datablklen param < 128 then info = CAPINFO_0X10_LOGBLKSIZETOSMALL \<and> r = None
      else if length (capi_appls_list (kc_core s)) = CAPI_MAX_APPLS env then info = CAPINFO_0X10_TOOMANYAPPLS \<and> r = None
      else info = CAPINFO_0X10_NOERR \<and>
        (\<exists>n. r = Some n \<and> kernelcapi_appl n s = Some None \<and> kernelcapi_appl n s' = Some (Some a) \<and>
           (\<forall>m. m \<noteq> n \<longrightarrow> kernelcapi_appl m s' = kernelcapi_appl m s)))"
proof -
  let ?C = "kc_core s"
  from inv have ci: "core_inv env ?C" and len: "length (kernelcapi_appls s) = CAPI_MAX_APPLS env"
    and tab: "kc_table_ok s" by (simp_all add: kc_inv_def)
  have out: "a \<notin> set (capi_appls_list ?C)" using ci new by (auto simp: core_inv_def appls_ok_def)
  define ap where "ap = raw\<lparr>appl_params := param, appl_sig := None, appl_sig_param := 0\<rparr>"
  define c0 where "c0 = ?C\<lparr>appls := (appls ?C)(a \<mapsto> ap)\<rparr>"
  have inv0: "core_inv env c0"
  proof (rule core_inv_same [OF ci])
    show "same_core ?C c0" using ci out
      by (auto simp: same_core_def c0_def core_inv_def appls_ok_def)
  qed
  have out0: "a \<notin> set (capi_appls_list c0)" and ap0: "appls c0 a = Some ap" and l0: "capi_appls_list c0 = capi_appls_list ?C"
    using out by (simp_all add: c0_def)
  have par: "datablklen (appl_params ap) = datablklen param" by (simp add: ap_def)
  note big = capi_register_inv [OF inv0 out0 ap0 max, unfolded par l0]
  then obtain info c where reg: "capi_register env (Some a) c0 = Some (info, c)" and c: "core_inv env c" and three: "if datablklen param < 128 then info = CAPINFO_0X10_LOGBLKSIZETOSMALL \<and> c = c0
      else if length (capi_appls_list ?C) = CAPI_MAX_APPLS env
      then info = CAPINFO_0X10_TOOMANYAPPLS \<and> capi_appls_list c = capi_appls_list ?C
      else info = CAPINFO_0X10_NOERR \<and> set (capi_appls_list c) = insert a (set (capi_appls_list ?C)) \<and> id_of c a \<noteq> 0 \<and>
           (\<forall>b\<in>set (capi_appls_list ?C). id_of c b = id_of c0 b \<and> id_of c b \<noteq> id_of c a) \<and>
           (\<forall>m. m \<noteq> 0 \<longrightarrow> m < id_of c a \<longrightarrow> (\<exists>b\<in>set (capi_appls_list ?C). id_of c0 b = m))"
    by (elim exE conjE) (rule that)
  consider (small) "datablklen param < 128" "info = CAPINFO_0X10_LOGBLKSIZETOSMALL" "c = c0"
    | (full) "\<not> datablklen param < 128" "length (capi_appls_list ?C) = CAPI_MAX_APPLS env"
        "info = CAPINFO_0X10_TOOMANYAPPLS" "capi_appls_list c = capi_appls_list ?C"
    | (ok) "\<not> datablklen param < 128" "length (capi_appls_list ?C) \<noteq> CAPI_MAX_APPLS env" "info = 0"
        "set (capi_appls_list c) = insert a (set (capi_appls_list ?C))" "id_of c a \<noteq> 0"
        "\<forall>b\<in>set (capi_appls_list ?C). id_of c b \<noteq> id_of c a"
    using three by (cases "datablklen param < 128"; cases "length (capi_appls_list ?C) = CAPI_MAX_APPLS env"; simp)
  note cases = this
  have ids: "id_of c b = id_of ?C b" if "b \<noteq> a" for b
    using capi_register_ids [OF reg that] that by (simp add: c0_def)
  let ?S = "s\<lparr>kc_appls := (kc_appls s)(a \<mapsto> kraw)\<rparr>"
  let ?free = "?S\<lparr>kc_core := c\<lparr>appls := (appls c)(a := None)\<rparr>, kc_appls := (kc_appls ?S)(a := None)\<rparr>"
  have set0: "capi_set_signal (Some a) None 0 (?C\<lparr>appls := (appls ?C)(a \<mapsto> raw\<lparr>appl_params := param\<rparr>)\<rparr>) = Some c0"
    by (simp add: capi_set_signal_def upd_appl_def c0_def ap_def)
  have entry: "b \<noteq> a \<and> b \<in> set (capi_appls_list ?C) \<and> unat (id_of ?C b) = i + 1 \<and> kc_appls s b \<noteq> None"
    if "i < length (kernelcapi_appls s)" "kernelcapi_appls s ! i = Some b" for i b
    using tab that out by (auto simp: kc_table_ok_def)
  show ?thesis
  proof (cases "info = 0")
    case False
    have eq: "kernelcapi_register env (Some (a, raw, kraw)) param s = Some (info, None, ?free)"
      by (simp add: kernelcapi_register_def Let_def set0 reg False)
    have lc: "capi_appls_list c = capi_appls_list ?C" using False l0 by (rule_tac cases) simp_all
    have "kc_table_ok ?free"
      unfolding kc_table_ok_def using entry ids lc by (simp add: id_of_def)
    moreover have "core_inv env (c\<lparr>appls := (appls c)(a := None)\<rparr>)" using core_inv_free_appl [OF c] lc out by simp
    ultimately have "kc_inv env ?free" using len by (simp add: kc_inv_def)
    with eq False show ?thesis by (rule_tac cases) simp_all
  next
    case True
    then have new': "set (capi_appls_list c) = insert a (set (capi_appls_list ?C))" "id_of c a \<noteq> 0"
      "\<forall>b\<in>set (capi_appls_list ?C). id_of c b \<noteq> id_of c a" and nf: "\<not> datablklen param < 128"
      "length (capi_appls_list ?C) \<noteq> CAPI_MAX_APPLS env" by (rule_tac [!] cases) simp_all
    define n where "n = id_of c a"
    from c new'(1) have nmax: "unat n \<le> CAPI_MAX_APPLS env" and da: "appls c a \<noteq> None"
      by (auto simp: core_inv_def appls_ok_def n_def)
    from da obtain apc where apc: "appls c a = Some apc" "appl_id apc = n" by (auto simp: n_def id_of_def)
    have n0: "n \<noteq> 0" and n0': "0 < unat n" using new'(2) by (simp_all add: n_def unat_gt_0)
    have i: "\<not> int (CAPI_MAX_APPLS env) < uint n" "\<not> uint n < 1" "nat (uint n - 1) = unat n - 1"
      unfolding uint_nat [of n] using n0' nmax by linarith+
    then have i3: "\<not> length (kernelcapi_appls s) \<le> nat (uint n - 1)" using n0' nmax len by linarith
    let ?s = "?S\<lparr>kc_core := c, kernelcapi_appls := (kernelcapi_appls s)[unat n - 1 := Some a]\<rparr>"
    have eq: "kernelcapi_register env (Some (a, raw, kraw)) param s = Some (0, Some n, ?s)"
      using i3 by (simp add: kernelcapi_register_def Let_def set0 reg True apc i)
    have free: "kernelcapi_appls s ! (unat n - 1) = None"
    proof (rule ccontr)
      assume "kernelcapi_appls s ! (unat n - 1) \<noteq> None"
      then obtain b where "kernelcapi_appls s ! (unat n - 1) = Some b" by auto
      with entry [of "unat n - 1" b] nmax n0' len have "b \<noteq> a" "b \<in> set (capi_appls_list ?C)" "unat (id_of ?C b) = unat n"
        by auto
      with ids new'(3) show False by (auto simp: n_def word_unat_eq_iff)
    qed
    have "kc_table_ok ?s"
      unfolding kc_table_ok_def
    proof (intro allI impI)
      fix i b assume i: "i < length (kernelcapi_appls ?s)" and b: "kernelcapi_appls ?s ! i = Some b"
      show "b \<in> set (capi_appls_list (kc_core ?s)) \<and> unat (id_of (kc_core ?s) b) = i + 1 \<and> kc_appls ?s b \<noteq> None"
      proof (cases "i = unat n - 1")
        case True
        with i b have "b = a" by simp
        with True n0' new'(1) show ?thesis by (simp add: n_def)
      next
        case False
        with i b entry [of i b] ids [of b] new'(1) show ?thesis by simp
      qed
    qed
    with c len have inv': "kc_inv env ?s" by (simp add: kc_inv_def)
    have k: "kernelcapi_appl n s = Some None" "kernelcapi_appl n ?s = Some (Some a)"
      using free n0 n0' nmax len by (simp_all add: kernelcapi_appl_def)
    have "kernelcapi_appl m ?s = kernelcapi_appl m s" if "m \<noteq> n" for m
    proof (cases "m = 0")
      case False
      then have "unat m - 1 \<noteq> unat n - 1" using that n0' by (metis Suc_diff_1 unat_gt_0 word_unat_eq_iff)
      with False show ?thesis by (simp add: kernelcapi_appl_def nth_opt_def)
    qed (simp add: kernelcapi_appl_def)
    with eq inv' k nf True show ?thesis by auto
  qed
qed

section \<open>Steps\<close>

text \<open>The other operations change nothing that the invariant speaks of.\<close>

definition kc_same :: "kcapi \<Rightarrow> kcapi \<Rightarrow> bool" where
  "kc_same s s' \<longleftrightarrow> kc_core s' = kc_core s \<and> kernelcapi_appls s' = kernelcapi_appls s \<and>
     dom (kc_appls s') = dom (kc_appls s)"

lemma kc_inv_same: "kc_inv env s \<Longrightarrow> kc_same s s' \<Longrightarrow> kc_inv env s'"
  unfolding kc_inv_def kc_table_ok_def kc_same_def by (metis domIff)

lemma detach_loop_frame: "detach_loop iface s = Some s' \<Longrightarrow>
    kc_core s' = kc_core s \<and> kernelcapi_appls s' = kernelcapi_appls s \<and> kc_appls s' = kc_appls s"
  by (rule detach_loop.raw_induct [where P = "\<lambda>_ s s'. kc_core s' = kc_core s \<and>
        kernelcapi_appls s' = kernelcapi_appls s \<and> kc_appls s' = kc_appls s", rotated])
     (auto simp: Let_def split: option.splits if_splits)

lemma detach_loop_same: "detach_loop iface s = Some s' \<Longrightarrow> kc_same s s'"
  by (simp add: kc_same_def detach_loop_frame)

lemma call_ifaces_frame: "call_ifaces cmd dev_nr prof i s = Some s' \<Longrightarrow>
    kc_core s' = kc_core s \<and> kernelcapi_appls s' = kernelcapi_appls s \<and> kc_appls s' = kc_appls s"
  by (rule call_ifaces.raw_induct [where P = "\<lambda>_ _ _ _ s s'. kc_core s' = kc_core s \<and>
        kernelcapi_appls s' = kernelcapi_appls s \<and> kc_appls s' = kc_appls s", rotated])
     (auto split: option.splits)

lemma call_ifaces_same: "call_ifaces cmd dev_nr prof i s = Some s' \<Longrightarrow> kc_same s s'"
  by (simp add: kc_same_def call_ifaces_frame)

lemma kernelcapi_put_message_inv:
  assumes inv: "kc_inv env s" and put: "kernelcapi_put_message env n m s = Some (info, s')"
  shows "kc_inv env s'"
proof (cases "uint n - 1 \<ge> int (CAPI_MAX_APPLS env)")
  case True
  with put inv show ?thesis by (simp add: kernelcapi_put_message_def)
next
  case False
  with put obtain a k c c' where a: "kernelcapi_appl n s = Some (Some a)"
    and p: "capi_put_message env a (Some m) (kc_core s) = Some (info, c)"
    and c': "(if info = 0 then count_tx a k c else Some c) = Some c'" and s': "s' = s\<lparr>kc_core := c'\<rparr>"
    by (auto simp: kernelcapi_put_message_def)
  from kc_registered [OF inv a] have "a \<in> set (capi_appls_list (kc_core s))" by simp
  with inv p have "core_inv env c" using capi_put_message_keeps by (auto simp: kc_inv_def)
  with c' count_inv(1) have "core_inv env c'" by (auto split: if_splits)
  moreover have "same_ids (kc_core s) c'"
    using capi_put_message_ids [OF p] c' count_ids(1) by (auto split: if_splits intro: same_ids_trans)
  ultimately show ?thesis unfolding s' by (rule kc_inv_same_ids [OF inv])
qed

lemma kernelcapi_get_message_inv:
  assumes inv: "kc_inv env s" and get: "kernelcapi_get_message env n s = Some (info, r, s')"
  shows "kc_inv env s'"
proof (cases "uint n - 1 \<ge> int (CAPI_MAX_APPLS env)")
  case True
  with get inv show ?thesis by (simp add: kernelcapi_get_message_def)
next
  case False
  with get have "\<exists>a c. capi_get_message a (kc_core s) = Some (info, r, c) \<and>
      ((\<exists>k. count_rx a k c = Some (kc_core s')) \<or> kc_core s' = c) \<and> s' = s\<lparr>kc_core := kc_core s'\<rparr>"
    by (fastforce simp: kernelcapi_get_message_def split: if_splits)
  then obtain a c where g: "capi_get_message a (kc_core s) = Some (info, r, c)"
    and k: "(\<exists>k. count_rx a k c = Some (kc_core s')) \<or> kc_core s' = c" and s': "s' = s\<lparr>kc_core := kc_core s'\<rparr>"
    by blast
  from capi_get_message_same [OF _ g] k inv have "core_inv env (kc_core s')" and "same_ids (kc_core s) (kc_core s')"
    by (auto simp: kc_inv_def intro: count_inv(2) same_ids_trans count_ids(2))
  with kc_inv_same_ids [OF inv] s' show ?thesis by metis
qed

lemma kernelcapi_set_signal_inv:
  assumes inv: "kc_inv env s" and ss: "kernelcapi_set_signal env n sg p s = Some (info, s')"
  shows "kc_inv env s'"
proof (cases "uint n - 1 \<ge> int (CAPI_MAX_APPLS env)")
  case True
  with ss inv show ?thesis by (simp add: kernelcapi_set_signal_def)
next
  case False
  with ss obtain a ka c where ka: "kc_appls s a = Some ka"
    and u: "upd_appl a (\<lambda>ap. ap\<lparr>appl_sig := if sg \<noteq> None then Some kernelcapi_handler else None, appl_sig_param := 0\<rparr>)
        (kc_core s) = Some c"
    and s': "s' = s\<lparr>kc_appls := (kc_appls s)(a \<mapsto> ka\<lparr>kc_signal := sg, kc_param := p\<rparr>), kc_core := c\<rparr>"
    by (auto simp: kernelcapi_set_signal_def capi_set_signal_def)
  have "core_inv env c" using core_inv_upd_queue [OF _ u] inv by (simp add: kc_inv_def)
  from kc_inv_same_ids [OF inv this] upd_appl_ids [OF u] have "kc_inv env (s\<lparr>kc_core := c\<rparr>)" by simp
  then show ?thesis unfolding s' by (rule kc_inv_same) (use ka in \<open>auto simp: kc_same_def\<close>)
qed

text \<open>
  A step is an operation of this interface, or a step that someone else takes in the capicore: a device
  driver, or another user of the capicore, who does not release our applications.  Clients own
  their \<open>capi_interface_user\<close> structures.
\<close>

inductive kc_step :: "core_env \<Rightarrow> kcapi \<Rightarrow> kcapi \<Rightarrow> bool" for env where
  kc_other: "core_step env (kc_core s) c \<Longrightarrow>
    (\<forall>a. Some a \<in> set (kernelcapi_appls s) \<longrightarrow> a \<in> set (capi_appls_list c)) \<Longrightarrow> kc_step env s (s\<lparr>kc_core := c\<rparr>)"
| kc_register: "appls (kc_core s) a = None \<Longrightarrow>
    kernelcapi_register env (Some (a, raw, kraw)) param s = Some (info, r, s') \<Longrightarrow> kc_step env s s'"
| kc_release: "kernelcapi_release env n s = Some (info, s') \<Longrightarrow> kc_step env s s'"
| kc_put: "kernelcapi_put_message env n m s = Some (info, s') \<Longrightarrow> kc_step env s s'"
| kc_get: "kernelcapi_get_message env n s = Some (info, r, s') \<Longrightarrow> kc_step env s s'"
| kc_set_signal: "kernelcapi_set_signal env n sg p s = Some (info, s') \<Longrightarrow> kc_step env s s'"
| kc_handler: "kernelcapi_signal_handler a s = Some s' \<Longrightarrow> kc_step env s s'"
| kc_client: "kc_step env s (s\<lparr>kc_ifaces := ifs\<rparr>)"
| kc_attach: "attach_capi_interface i s = Some s' \<Longrightarrow> kc_step env s s'"
| kc_detach: "detach_capi_interface i s = Some (r, s') \<Longrightarrow> kc_step env s s'"
| kc_devadd: "kernelcapi_devadd d s = Some (r, s') \<Longrightarrow> kc_step env s s'"
| kc_devremove: "kernelcapi_devremove d s = Some s' \<Longrightarrow> kc_step env s s'"

inductive kc_reachable :: "core_env \<Rightarrow> kcapi \<Rightarrow> bool" for env where
  kc_init: "kc_reachable env (kcapi_init env)"
| kc_next: "kc_reachable env s \<Longrightarrow> kc_step env s s' \<Longrightarrow> kc_reachable env s'"

lemma kc_step_inv:
  assumes "kc_step env s s'" and inv: "kc_inv env s" and max: "CAPI_MAX_APPLS env < 65535"
  shows "kc_inv env s'"
  using assms(1)
proof cases
  case (kc_other c)
  have "a \<in> set (capi_appls_list (kc_core s))" if "Some a \<in> set (kernelcapi_appls s)" for a
    using that inv by (auto simp: kc_inv_def kc_table_ok_def in_set_conv_nth)
  with kc_other(3) core_step_ids [OF kc_other(2)] show ?thesis unfolding kc_other(1)
    by (intro kc_inv_core [OF inv core_step_inv [OF kc_other(2) _ max]]) (use inv in \<open>auto simp: kc_inv_def\<close>)
next
  case (kc_register a raw kraw param info r)
  from kernelcapi_register_inv [OF inv kc_register(1) max, of raw kraw param] kc_register(2) show ?thesis by auto
next
  case (kc_release n info)
  show ?thesis
  proof (cases "uint n - 1 \<ge> int (CAPI_MAX_APPLS env)")
    case False
    with kc_release obtain a where "kernelcapi_appl n s = Some (Some a)" by (auto simp: kernelcapi_release_def)
    from kernelcapi_release_inv [OF inv this] kc_release show ?thesis by auto
  qed (use kc_release inv in \<open>simp add: kernelcapi_release_def\<close>)
next
  case (kc_put n m info)
  then show ?thesis by (rule kernelcapi_put_message_inv [OF inv])
next
  case (kc_get n info r)
  then show ?thesis by (rule kernelcapi_get_message_inv [OF inv])
next
  case (kc_set_signal n sg p info)
  then show ?thesis by (rule kernelcapi_set_signal_inv [OF inv])
next
  case (kc_handler a)
  then have "kc_same s s'" by (auto simp: kernelcapi_signal_handler_def kc_same_def)
  with inv show ?thesis by (rule kc_inv_same)
next
  case (kc_client ifs)
  then have "kc_same s s'" by (simp add: kc_same_def)
  with inv show ?thesis by (rule kc_inv_same)
next
  case (kc_attach i)
  then have "kc_same s s'" by (auto simp: attach_capi_interface_def kc_same_def split: if_splits)
  with inv show ?thesis by (rule kc_inv_same)
next
  case (kc_detach i r)
  then have "kc_same s s'" by (auto simp: detach_capi_interface_def dest: detach_loop_same)
  with inv show ?thesis by (rule kc_inv_same)
next
  case (kc_devadd d r)
  then have "kc_same s s'" by (auto simp: kernelcapi_devadd_def dest: call_ifaces_same)
  with inv show ?thesis by (rule kc_inv_same)
next
  case (kc_devremove d)
  then have "kc_same s s'" by (auto simp: kernelcapi_devremove_def dest: call_ifaces_same)
  with inv show ?thesis by (rule kc_inv_same)
qed

lemma kc_reachable_inv: "kc_reachable env s \<Longrightarrow> CAPI_MAX_APPLS env < 65535 \<Longrightarrow> kc_inv env s"
  by (induction rule: kc_reachable.induct) (auto intro: kc_inv_init kc_step_inv)

section \<open>Properties\<close>

text \<open>C25: Numbers of kernel applications.  In every reachable state a number of the table belongs to an application that the
  capicore has registered under exactly this number; releasing it is defined, frees the structure and the number,
  and a message of at least 18 bytes can be sent under it.\<close>

theorem kernelcapi_numbers:
  assumes "kc_reachable env s" and "CAPI_MAX_APPLS env < 65535" and "kernelcapi_appl n s = Some (Some a)"
  shows "a \<in> set (capi_appls_list (kc_core s)) \<and> id_of (kc_core s) a = n \<and>
    (\<exists>info s'. kernelcapi_release env n s = Some (info, s') \<and> kernelcapi_appl n s' = Some None \<and>
       a \<notin> set (capi_appls_list (kc_core s')) \<and> appls (kc_core s') a = None) \<and>
    (\<forall>m. 18 \<le> length m \<longrightarrow> (\<exists>info s'. kernelcapi_put_message env n m s = Some (info, s')))"
proof (intro conjI allI impI)
  note inv = kc_reachable_inv [OF assms(1,2)]
  note r = kc_registered [OF inv assms(3)]
  from r show "a \<in> set (capi_appls_list (kc_core s))" and "id_of (kc_core s) a = n" by simp_all
  from kernelcapi_release_inv [OF inv assms(3)]
  show "\<exists>info s'. kernelcapi_release env n s = Some (info, s') \<and> kernelcapi_appl n s' = Some None \<and>
       a \<notin> set (capi_appls_list (kc_core s')) \<and> appls (kc_core s') a = None" by blast
  fix m :: bytes assume m: "18 \<le> length m"
  from inv r obtain info c where put: "capi_put_message env a (Some m) (kc_core s) = Some (info, c)"
    using capi_put_message_defined [of env "kc_core s" a "Some m"] by (auto simp: kc_inv_def)
  from m have "m \<noteq> []" by auto
  with m have "\<exists>k. msg_count CAPI_DATA_B3_REQ m = Some k"
    by (cases "m ! 4 = 134 \<and> m ! 5 = 128") (simp_all add: msg_count_def CAPIMSG_LEN_def CAPIMSG_CMD_def CAPIMSG_COMMAND_def CAPIMSG_SUBCOMMAND_def CAPIMSG_DATALEN_def
        CAPIMSG_U16_def CAPIMSG_U8_def)
  then obtain k where k: "msg_count CAPI_DATA_B3_REQ m = Some k" by blast
  have "appls c a \<noteq> None"
    using put r inv capi_put_message_keeps [OF _ _ put] capi_put_message_ids [OF put]
    by (auto simp: kc_inv_def core_inv_def appls_ok_def same_ids_def)
  then have "\<exists>c'. count_tx a k c = Some c'" by (auto simp: count_tx_def upd_appl_def)
  with put k assms(3) kc_in_range [of n] r
  show "\<exists>info s'. kernelcapi_put_message env n m s = Some (info, s')"
    by (auto simp: kernelcapi_put_message_def)
qed

definition demo_params :: capi_register_params where
  "demo_params = \<lparr>level3cnt = 2, datablkcnt = 7, datablklen = 2048\<rparr>"

definition demo_kc :: "kcapi option" where
  "demo_kc = do {
     (_, _, s) \<leftarrow> kernelcapi_register demo_env (Some (5, demo_appl, \<lparr>kc_signal = None, kc_param = 0\<rparr>)) demo_params
       (kcapi_init demo_env);
     Some s }"

lemma demo_kc_facts:
  "\<exists>s. demo_kc = Some s \<and> kc_reachable demo_env s \<and> kernelcapi_appl 1 s = Some (Some 5) \<and> appls (kc_core s) 6 = None \<and>
     length (capi_appls_list (kc_core s)) = 1"
proof -
  let ?k = "\<lparr>kc_signal = None, kc_param = 0\<rparr>" and ?s0 = "kcapi_init demo_env"
  have "\<exists>r s. kernelcapi_register demo_env (Some (5, demo_appl, ?k)) demo_params ?s0 = Some (0, r, s) \<and>
      kernelcapi_appl 1 s = Some (Some 5) \<and> appls (kc_core s) 6 = None \<and> length (capi_appls_list (kc_core s)) = 1"
    by (simp add: kernelcapi_register_def demo_params_def kcapi_init_def demo_simps capi_set_signal_def kernelcapi_appl_def)
  then obtain r s where s: "kernelcapi_register demo_env (Some (5, demo_appl, ?k)) demo_params ?s0 = Some (0, r, s)"
    "kernelcapi_appl 1 s = Some (Some 5)" "appls (kc_core s) 6 = None" "length (capi_appls_list (kc_core s)) = 1" by blast
  have "kc_reachable demo_env s"
    by (rule kc_next [OF kc_init kc_step.kc_register [OF _ s(1)]]) (simp add: kcapi_init_def core_init_def)
  with s show ?thesis by (simp add: demo_kc_def)
qed

theorem kernelcapi_numbers_witness:
  "\<exists>s info s'. demo_kc = Some s \<and> kernelcapi_release demo_env 1 s = Some (info, s') \<and> kernelcapi_appl 1 s' = Some None"
proof -
  from demo_kc_facts obtain s where s: "demo_kc = Some s" "kc_reachable demo_env s" "kernelcapi_appl 1 s = Some (Some 5)"
    by blast
  from kernelcapi_numbers [OF s(2) demo_max s(3)] s(1) show ?thesis by blast
qed

text \<open>Registration gives the new application a number that was free, which is reported through \<open>applid\<close>, and changes
  no other number; it fails only for a block length below 128 or a full registry, and then the
  structure is freed again.\<close>

theorem kernelcapi_register_number:
  assumes "kc_reachable env s" and "CAPI_MAX_APPLS env < 65535" and "appls (kc_core s) a = None"
  shows "\<exists>info r s'. kernelcapi_register env (Some (a, raw, kraw)) param s = Some (info, r, s') \<and>
     (if datablklen param < 128 then info = CAPINFO_0X10_LOGBLKSIZETOSMALL \<and> r = None
      else if length (capi_appls_list (kc_core s)) = CAPI_MAX_APPLS env then info = CAPINFO_0X10_TOOMANYAPPLS \<and> r = None
      else info = CAPINFO_0X10_NOERR \<and>
        (\<exists>n. r = Some n \<and> kernelcapi_appl n s = Some None \<and> kernelcapi_appl n s' = Some (Some a) \<and>
           (\<forall>m. m \<noteq> n \<longrightarrow> kernelcapi_appl m s' = kernelcapi_appl m s)))"
  using kernelcapi_register_inv [OF kc_reachable_inv [OF assms(1,2)] assms(3,2)] by blast

theorem kernelcapi_register_number_witness:
  "\<exists>s n s'. demo_kc = Some s \<and> kernelcapi_register demo_env (Some (6, demo_appl, \<lparr>kc_signal = None, kc_param = 0\<rparr>)) demo_params s = Some (0, Some n, s') \<and>
     kernelcapi_appl n s' = Some (Some 6) \<and> kernelcapi_appl n s = Some None"
proof -
  from demo_kc_facts obtain s where s: "demo_kc = Some s" "kc_reachable demo_env s" "appls (kc_core s) 6 = None"
    "length (capi_appls_list (kc_core s)) = 1" by blast
  from kernelcapi_register_number [OF s(2) demo_max s(3), of demo_appl "\<lparr>kc_signal = None, kc_param = 0\<rparr>" demo_params] s(1,4) show ?thesis
    by (auto simp: demo_params_def demo_env_def)
qed

text \<open>A number that is not in use is an undefined access: the bound check compares \<open>applid - 1\<close>
  as an \<open>int\<close>, so that the number 0 reads the table at index -1, and the entry of a number that was never assigned or has been
  released is NULL; only numbers above the limit are answered with \<open>ILLAPPNR\<close>.\<close>

theorem kernelcapi_bad_number:
  assumes "\<And>a. kernelcapi_appl n s \<noteq> Some (Some a)"
  shows "kernelcapi_release env n s = (if unat n \<le> CAPI_MAX_APPLS env then None else Some (CAPINFO_0X11_ILLAPPNR, s)) \<and>
    kernelcapi_put_message env n m s = (if unat n \<le> CAPI_MAX_APPLS env then None else Some (CAPINFO_0X11_ILLAPPNR, s)) \<and>
    kernelcapi_get_message env n s = (if unat n \<le> CAPI_MAX_APPLS env then None else Some (CAPINFO_0X11_ILLAPPNR, None, s)) \<and>
    kernelcapi_set_signal env n sg p s = (if unat n \<le> CAPI_MAX_APPLS env then None else Some (CAPINFO_0X11_ILLAPPNR, s))"
proof -
  have eq: "(int (CAPI_MAX_APPLS env) \<le> uint n - 1) = (\<not> unat n \<le> CAPI_MAX_APPLS env)"
    unfolding uint_nat [of n] by linarith
  have u: "Option.bind (kernelcapi_appl n s) (\<lambda>p. Option.bind p f) = None" for f :: "nat \<Rightarrow> 'b option"
    using assms by (cases "kernelcapi_appl n s"; cases "the (kernelcapi_appl n s)") auto
  show ?thesis
    unfolding kernelcapi_release_def kernelcapi_put_message_def kernelcapi_get_message_def kernelcapi_set_signal_def eq u
    by simp
qed

theorem kernelcapi_bad_number_witness:
  "kernelcapi_release demo_env 0 (kcapi_init demo_env) = None \<and>
   kernelcapi_put_message demo_env 2 demo_msg (kcapi_init demo_env) = None"
  using kernelcapi_bad_number [of 0 "kcapi_init demo_env" demo_env]
    kernelcapi_bad_number [of 2 "kcapi_init demo_env" demo_env demo_msg]
  by (simp add: kernelcapi_appl_def kcapi_init_def demo_env_def nth_opt_def)

fun iface_chain :: "(nat \<rightharpoonup> capi_interface_user) \<Rightarrow> nat option \<Rightarrow> nat list \<Rightarrow> bool" where
  "iface_chain m p [] \<longleftrightarrow> p = None"
| "iface_chain m p (i # is) \<longleftrightarrow>
     p = Some i \<and> (case m i of None \<Rightarrow> False | Some u \<Rightarrow> iface_chain m (if_next u) is)"

lemma detach_loop_chain:
  assumes "iface_chain (kc_ifaces s) (kernelcapi_iface_list s) (xs @ i # ys)" and "i \<notin> set xs"
  shows "\<exists>s'. detach_loop i s = Some s' \<and> kc_ifaces s' = kc_ifaces s \<and>
    iface_chain (kc_ifaces s) (kernelcapi_iface_list s') ys"
  using assms
proof (induction xs arbitrary: s)
  case Nil
  then show ?case by (subst detach_loop.simps) (auto split: option.splits)
next
  case (Cons x xs)
  then obtain u where u: "kernelcapi_iface_list s = Some x" "kc_ifaces s x = Some u"
    "iface_chain (kc_ifaces s) (if_next u) (xs @ i # ys)" by (auto split: option.splits)
  with Cons.IH [of "s\<lparr>kernelcapi_iface_list := if_next u\<rparr>"] Cons.prems(2) show ?case
    by (subst detach_loop.simps) simp
qed

lemma call_ifaces_chain:
  assumes "iface_chain (kc_ifaces s) p is" and "\<forall>i\<in>set is. callback (the (kc_ifaces s i)) = Some (f i)"
  shows "call_ifaces cmd n prof p s = Some (s\<lparr>kc_calls := rev (map (\<lambda>i. IfaceCall (f i) cmd n prof) is) @ kc_calls s\<rparr>)"
  using assms
proof (induction "is" arbitrary: p s)
  case Nil
  then show ?case by (subst call_ifaces.simps) simp
next
  case (Cons i "is")
  then obtain u where u: "p = Some i" "kc_ifaces s i = Some u" "iface_chain (kc_ifaces s) (if_next u) is"
    by (auto split: option.splits)
  with Cons.IH [of "s\<lparr>kc_calls := IfaceCall (f i) cmd n prof # kc_calls s\<rparr>" "if_next u"] Cons.prems(2)
  show ?case by (subst call_ifaces.simps) simp
qed

text \<open>C38: Detaching a client also detaches every client that attached after it: the loop of
  \<open>detach_capi_interface\<close> overwrites the list head at every turn.  A new device is then announced
  to the older clients only.\<close>

theorem kernelcapi_detach_drops:
  assumes "iface_chain (kc_ifaces s) (kernelcapi_iface_list s) (xs @ i # ys)" and "i \<notin> set xs"
    and "\<forall>j\<in>set ys. callback (the (kc_ifaces s j)) = Some (f j)" and "devs (kc_core s) d = Some dev"
  shows "\<exists>s' s''. detach_capi_interface i s = Some (0, s') \<and>
    iface_chain (kc_ifaces s') (kernelcapi_iface_list s') ys \<and>
    kernelcapi_devadd d s' = Some (0, s'') \<and>
    kc_calls s'' = rev (map (\<lambda>j. IfaceCall (f j) CAPI_INTERFACE_USER_DEVADD (dev_id dev) (Some (dev_profile dev))) ys) @
      kc_calls s'"
proof -
  from detach_loop_chain [OF assms(1,2)] obtain s' where s': "detach_loop i s = Some s'" "kc_ifaces s' = kc_ifaces s"
    "iface_chain (kc_ifaces s') (kernelcapi_iface_list s') ys" by auto
  from assms(4) detach_loop_frame [OF s'(1)] have dev: "devs (kc_core s') d = Some dev" by simp
  from call_ifaces_chain [OF s'(3), of f] assms(3) s'(2) dev s' show ?thesis
    by (simp add: detach_capi_interface_def kernelcapi_devadd_def)
qed

definition two_clients :: kcapi where
  "two_clients = (kcapi_init demo_env)\<lparr>kc_ifaces := [1 \<mapsto> \<lparr>callback = Some 11, if_next = None\<rparr>,
       2 \<mapsto> \<lparr>callback = Some 12, if_next = Some 1\<rparr>], kernelcapi_iface_list := Some 2,
     kc_core := (core_init demo_env)\<lparr>devs := [1 \<mapsto> zero_dev]\<rparr>\<rparr>"

theorem kernelcapi_detach_drops_witness:
  "\<exists>s' s''. detach_capi_interface 1 two_clients = Some (0, s') \<and> kernelcapi_devadd 1 s' = Some (0, s'') \<and>
     kernelcapi_iface_list s' = None \<and> kc_calls s'' = kc_calls s'"
  using kernelcapi_detach_drops [of two_clients "[2]" 1 "[]" "\<lambda>_. 0" 1 zero_dev]
  by (auto simp: two_clients_def)

end
