(* ===== verification/CapiDev.thy ===== *)
theory CapiDev
  imports CapiClients
begin

text \<open>
  The device \<^verbatim>\<open>/dev/capi20\<close> and its middleware, \<^verbatim>\<open>drivers/isdn/capi/capi.c\<close>, part 1: the
  data, acknowledge queues, minors, NCCIs and open files.  The model is the configuration with
  \<open>CONFIG_ISDN_CAPI_MIDDLEWARE\<close> and \<open>CONFIG_ISDN_CAPI_CAPIFS\<close>; without the first the code does
  not compile.

  Structures live at addresses; a \<open>capidev\<close> and the \<open>capi_appl\<close> inside it share one, the latter is
  in the capicore.  \<open>kmalloc\<close> gives out the address \<open>brk\<close>, which is never used again, so that an access
  through a dangling pointer is an access to an unmapped address, hence undefined (\<open>None\<close>).  Singly linked lists
  are lists; the loops over them are recursive functions on the rest of the list.
  Terminal lines (\<open>struct tty_struct\<close>) are outside; what the driver does to them, and to capifs, is
  logged in \<open>tty_log\<close>, newest first.
\<close>

section \<open>Data\<close>

definition CAPINC_NR_PORTS :: int where "CAPINC_NR_PORTS = 32"
definition CAPINC_MAX_PORTS :: int where "CAPINC_MAX_PORTS = 256"
definition CAPINC_MAX_SENDQUEUE :: int where "CAPINC_MAX_SENDQUEUE = 10"
definition CAPI_MAX_BLKSIZE :: nat where "CAPI_MAX_BLKSIZE = 2048"
definition CAPIFLAG_HIGHJACKING :: u32 where "CAPIFLAG_HIGHJACKING = 1"

record capiminor =
  nccip :: "nat option"
  minor :: nat
  mn_ap :: nat
  mn_ncci :: u32
  datahandle :: u16
  mn_msgid :: u16
  mn_tty :: "nat option"
  ttyinstop :: bool
  ttyoutstop :: bool
  ttyskb :: "bytes option"
  ttyopencount :: int
  inqueue :: "bytes list"
  inbytes :: int
  outqueue :: "bytes list"
  outbytes :: int
  ackqueue :: "u16 list"
  nack :: int

record capincci =
  nc_ncci :: u32
  nc_cdev :: nat
  minorp :: "nat option"

record capidev =
  errcode :: u16
  userflags :: u32
  recvqueue :: "bytes list"
  cd_nccis :: "nat list"

datatype tty_event =
    ReceiveBuf nat bytes
  | WriteWakeup nat
  | Hangup nat
  | CapifsNew nat
  | CapifsFree nat

record capist =
  cs_core :: core
  brk :: nat
  cdevs :: "nat \<rightharpoonup> capidev"
  capidev_list :: "nat list"
  nccis :: "nat \<rightharpoonup> capincci"
  minors :: "nat \<rightharpoonup> capiminor"
  capiminor_list :: "nat list"
  driver_data :: "nat \<Rightarrow> nat option"
  tty_log :: "tty_event list"

text \<open>
  What the code depends on: the capicore's environment, whether an allocation succeeds, the line
  discipline of a terminal (whether it has the functions, how much room it reports and whether it throttles the
  driver while it receives), the address of message data, which goes into data messages, and how many bytes of data fit into a buffer allocated for
  \<open>CAPI_MAX_BLKSIZE\<close> (the kernel may round the size up).
\<close>

record capi_cfg =
  cc_env :: core_env
  capi_ttyminors :: nat
  alloc_ok :: "nat \<Rightarrow> bool"
  has_receive_buf :: "nat \<Rightarrow> bool"
  receive_room :: "tty_event list \<Rightarrow> nat \<Rightarrow> int option"
  throttles :: "tty_event list \<Rightarrow> nat \<Rightarrow> bool"
  has_write_wakeup :: "nat \<Rightarrow> bool"
  skb_addr :: "bytes \<Rightarrow> u32"
  blk_room :: nat

definition kmalloc :: "capi_cfg \<Rightarrow> capist \<Rightarrow> nat option \<times> capist" where
  "kmalloc cfg s = (if alloc_ok cfg (brk s) then Some (brk s) else None, s\<lparr>brk := brk s + 1\<rparr>)"

definition upd_minor :: "nat \<Rightarrow> (capiminor \<Rightarrow> capiminor) \<Rightarrow> capist \<Rightarrow> capist option" where
  "upd_minor m f s = do { mp \<leftarrow> minors s m; Some (s\<lparr>minors := (minors s)(m \<mapsto> f mp)\<rparr>) }"

definition upd_cdev :: "nat \<Rightarrow> (capidev \<Rightarrow> capidev) \<Rightarrow> capist \<Rightarrow> capist option" where
  "upd_cdev c f s = do { cd \<leftarrow> cdevs s c; Some (s\<lparr>cdevs := (cdevs s)(c \<mapsto> f cd)\<rparr>) }"

definition tty_event :: "tty_event \<Rightarrow> capist \<Rightarrow> capist" where
  "tty_event e s = s\<lparr>tty_log := e # tty_log s\<rparr>"

text \<open>\<open>memset(\<dots>, 0, \<dots>)\<close>\<close>

definition zero_appl :: capi_appl where
  "zero_appl = \<lparr>appl_id = 0, appl_sig = None, appl_sig_param = 0, msg_queue = [], appl_info = 0, appl_devs = {},
     appl_stats = zero_stats, appl_params = \<lparr>level3cnt = 0, datablkcnt = 0, datablklen = 0\<rparr>, appl_data = None\<rparr>"

definition zero_minor :: capiminor where
  "zero_minor = \<lparr>nccip = None, minor = 0, mn_ap = 0, mn_ncci = 0, datahandle = 0, mn_msgid = 0, mn_tty = None,
     ttyinstop = False, ttyoutstop = False, ttyskb = None, ttyopencount = 0, inqueue = [], inbytes = 0,
     outqueue = [], outbytes = 0, ackqueue = [], nack = 0\<rparr>"

definition capist_init :: "core \<Rightarrow> nat \<Rightarrow> capist" where
  "capist_init c b = \<lparr>cs_core = c, brk = b, cdevs = (\<lambda>_. None), capidev_list = [], nccis = (\<lambda>_. None),
     minors = (\<lambda>_. None), capiminor_list = [], driver_data = (\<lambda>_. None), tty_log = []\<rparr>"

section \<open>Messages to and from the capicore\<close>

definition get_capi_message :: "nat \<Rightarrow> capist \<Rightarrow> (u16 \<times> bytes option option \<times> capist) option" where
  "get_capi_message a s = do {
     (info, msg, c) \<leftarrow> capi_get_message a (cs_core s);
     c \<leftarrow> (if info = 0 then do {
            m \<leftarrow> msg;
            m \<leftarrow> m;
            n \<leftarrow> msg_count CAPI_DATA_B3_IND m;
            count_rx a n c }
          else Some c);
     Some (info, msg, s\<lparr>cs_core := c\<rparr>) }"

definition put_capi_message :: "capi_cfg \<Rightarrow> nat \<Rightarrow> bytes \<Rightarrow> capist \<Rightarrow> (u16 \<times> capist) option" where
  "put_capi_message cfg a msg s = do {
     n \<leftarrow> msg_count CAPI_DATA_B3_REQ msg;
     (info, c) \<leftarrow> capi_put_message (cc_env cfg) a (Some msg) (cs_core s);
     c \<leftarrow> (if info = 0 then count_tx a n c else Some c);
     Some (info, s\<lparr>cs_core := c\<rparr>) }"

section \<open>Data handles\<close>

text \<open>The first argument is whether \<open>kmalloc\<close> succeeds; the result is whether 0 is returned (not -1).\<close>

definition capincci_add_ack :: "bool \<Rightarrow> u16 \<Rightarrow> capiminor \<Rightarrow> bool \<times> capiminor" where
  "capincci_add_ack mem h mp =
     (if \<not> mem then (False, mp)
      else (True, mp\<lparr>ackqueue := ackqueue mp @ [h], nack := nack mp + 1\<rparr>))"

fun del_handle :: "u16 \<Rightarrow> u16 list \<Rightarrow> u16 list option" where
  "del_handle h [] = None"
| "del_handle h (x # xs) = (if x = h then Some xs else map_option (Cons x) (del_handle h xs))"

definition capiminor_del_ack :: "u16 \<Rightarrow> capiminor \<Rightarrow> bool \<times> capiminor" where
  "capiminor_del_ack h mp =
     (case del_handle h (ackqueue mp) of
        Some q \<Rightarrow> (True, mp\<lparr>ackqueue := q, nack := nack mp - 1\<rparr>)
      | None \<Rightarrow> (False, mp))"

fun capiminor_del_all_ack :: "u16 list \<Rightarrow> capiminor \<Rightarrow> capiminor" where
  "capiminor_del_all_ack [] mp = mp"
| "capiminor_del_all_ack (h # hs) mp = capiminor_del_all_ack hs (mp\<lparr>ackqueue := hs, nack := nack mp - 1\<rparr>)"

section \<open>Minors\<close>

text \<open>
  The search for the least unused minor: the number, the minors before the place where the new one is
  inserted, and those after it.
\<close>

fun scan_minors :: "capist \<Rightarrow> nat \<Rightarrow> nat list \<Rightarrow> (nat \<times> nat list \<times> nat list) option" where
  "scan_minors s k [] = Some (k, [], [])"
| "scan_minors s k (p # ps) = do {
     mp \<leftarrow> minors s p;
     if minor mp > k then Some (k, [], p # ps)
     else do {
       (j, before, after) \<leftarrow> scan_minors s (k + 1) ps;
       Some (j, p # before, after) } }"

definition capiminor_alloc :: "capi_cfg \<Rightarrow> nat \<Rightarrow> u32 \<Rightarrow> capist \<Rightarrow> (nat option \<times> capist) option" where
  "capiminor_alloc cfg ap ncci s =
     (case kmalloc cfg s of
        (None, s) \<Rightarrow> Some (None, s)
      | (Some m, s) \<Rightarrow> do {
          let s = s\<lparr>minors := (minors s)(m \<mapsto> zero_minor\<lparr>mn_ap := ap, mn_ncci := ncci\<rparr>)\<rparr>;
          (k, s) \<leftarrow>
            (if capiminor_list s = [] then Some (0, s\<lparr>capiminor_list := [m]\<rparr>)
             else do {
               (k, before, after) \<leftarrow> scan_minors s 0 (capiminor_list s);
               if k < capi_ttyminors cfg then do {
                 s \<leftarrow> upd_minor m (\<lambda>mp. mp\<lparr>minor := k\<rparr>) s;
                 Some (k, s\<lparr>capiminor_list := before @ m # after\<rparr>) }
               else Some (k, s) });
          if \<not> k < capi_ttyminors cfg then Some (None, s\<lparr>minors := (minors s)(m := None)\<rparr>)
          else Some (Some m, s) })"

definition capiminor_free :: "nat \<Rightarrow> capist \<Rightarrow> capist option" where
  "capiminor_free m s = do {
     mp \<leftarrow> minors s m;
     Some (s\<lparr>capiminor_list := remove1 m (capiminor_list s), minors := (minors s)(m := None)\<rparr>) }"

text \<open>The outer \<open>None\<close> is undefined behaviour, the inner one \<open>NULL\<close>.\<close>

fun find_minor :: "capist \<Rightarrow> nat \<Rightarrow> nat list \<Rightarrow> nat option option" where
  "find_minor s k [] = Some None"
| "find_minor s k (p # ps) = do {
     mp \<leftarrow> minors s p;
     if minor mp = k then Some (Some p) else find_minor s k ps }"

definition capiminor_find :: "nat \<Rightarrow> capist \<Rightarrow> nat option option" where
  "capiminor_find k s = find_minor s k (capiminor_list s)"

section \<open>NCCIs\<close>

definition capincci_alloc :: "capi_cfg \<Rightarrow> nat \<Rightarrow> u32 \<Rightarrow> capist \<Rightarrow> (nat option \<times> capist) option" where
  "capincci_alloc cfg cdev ncci s =
     (case kmalloc cfg s of
        (None, s) \<Rightarrow> Some (None, s)
      | (Some np, s) \<Rightarrow> do {
          cd \<leftarrow> cdevs s cdev;
          (mp, s) \<leftarrow> (if userflags cd AND CAPIFLAG_HIGHJACKING \<noteq> 0
                     then capiminor_alloc cfg cdev ncci s else Some (None, s));
          let s = s\<lparr>nccis := (nccis s)(np \<mapsto> \<lparr>nc_ncci = ncci, nc_cdev = cdev, minorp = mp\<rparr>)\<rparr>;
          s \<leftarrow> (case mp of
                 None \<Rightarrow> Some s
               | Some m \<Rightarrow> do {
                   s \<leftarrow> upd_minor m (\<lambda>mp. mp\<lparr>nccip := Some np\<rparr>) s;
                   mp \<leftarrow> minors s m;
                   Some (tty_event (CapifsNew (minor mp)) s) });
          s \<leftarrow> upd_cdev cdev (\<lambda>cd. cd\<lparr>cd_nccis := cd_nccis cd @ [np]\<rparr>) s;
          Some (Some np, s) })"

text \<open>What happens to the minor of an NCCI that goes away.\<close>

definition capincci_drop_minor :: "nat \<Rightarrow> capist \<Rightarrow> capist option" where
  "capincci_drop_minor m s = do {
     mp \<leftarrow> minors s m;
     let s = tty_event (CapifsFree (minor mp)) s;
     case mn_tty mp of
       Some t \<Rightarrow> do {
         s \<leftarrow> upd_minor m (\<lambda>mp. mp\<lparr>nccip := None\<rparr>) s;
         Some (tty_event (Hangup t) s) }
     | None \<Rightarrow> capiminor_free m s }"

text \<open>The loop, with the NCCIs that it has kept so far; the list is the rest, at \<open>*pp\<close>.\<close>

fun free_nccis :: "nat \<Rightarrow> u32 \<Rightarrow> nat list \<Rightarrow> nat list \<Rightarrow> capist \<Rightarrow> capist option" where
  "free_nccis cdev ncci pre [] s = Some s"
| "free_nccis cdev ncci pre (np # rest) s = do {
     n \<leftarrow> nccis s np;
     if ncci = 0xffffffff \<or> nc_ncci n = ncci then do {
       s \<leftarrow> upd_cdev cdev (\<lambda>cd. cd\<lparr>cd_nccis := pre @ rest\<rparr>) s;
       s \<leftarrow> (case minorp n of None \<Rightarrow> Some s | Some m \<Rightarrow> capincci_drop_minor m s);
       let s = s\<lparr>nccis := (nccis s)(np := None)\<rparr>;
       if rest = [] then Some s else free_nccis cdev ncci pre rest s }
     else free_nccis cdev ncci (pre @ [np]) rest s }"

definition capincci_free :: "nat \<Rightarrow> u32 \<Rightarrow> capist \<Rightarrow> capist option" where
  "capincci_free cdev ncci s = do {
     cd \<leftarrow> cdevs s cdev;
     free_nccis cdev ncci [] (cd_nccis cd) s }"

fun find_ncci :: "capist \<Rightarrow> u32 \<Rightarrow> nat list \<Rightarrow> nat option option" where
  "find_ncci s ncci [] = Some None"
| "find_ncci s ncci (p # ps) = do {
     n \<leftarrow> nccis s p;
     if nc_ncci n = ncci then Some (Some p) else find_ncci s ncci ps }"

definition capincci_find :: "nat \<Rightarrow> u32 \<Rightarrow> capist \<Rightarrow> nat option option" where
  "capincci_find cdev ncci s = do {
     cd \<leftarrow> cdevs s cdev;
     find_ncci s ncci (cd_nccis cd) }"

section \<open>Open files\<close>

definition capidev_alloc :: "capi_cfg \<Rightarrow> capist \<Rightarrow> nat option \<times> capist" where
  "capidev_alloc cfg s =
     (case kmalloc cfg s of
        (None, s) \<Rightarrow> (None, s)
      | (Some c, s) \<Rightarrow>
          (Some c, s\<lparr>cdevs := (cdevs s)(c \<mapsto> \<lparr>errcode = 0, userflags = 0, recvqueue = [], cd_nccis = []\<rparr>),
             cs_core := (cs_core s)\<lparr>appls := (appls (cs_core s))(c \<mapsto> zero_appl)\<rparr>,
             capidev_list := capidev_list s @ [c]\<rparr>))"

definition capidev_free :: "capi_cfg \<Rightarrow> nat \<Rightarrow> capist \<Rightarrow> capist option" where
  "capidev_free cfg cdev s = do {
     ap \<leftarrow> appls (cs_core s) cdev;
     s \<leftarrow> (if appl_id ap \<noteq> 0 then do {
            (_, c) \<leftarrow> capi_release (cc_env cfg) cdev (cs_core s);
            c \<leftarrow> upd_appl cdev (\<lambda>ap. ap\<lparr>appl_id := 0\<rparr>) c;
            Some (s\<lparr>cs_core := c\<rparr>) }
          else Some s);
     s \<leftarrow> upd_cdev cdev (\<lambda>cd. cd\<lparr>recvqueue := []\<rparr>) s;
     s \<leftarrow> capincci_free cdev 0xffffffff s;
     Some (s\<lparr>capidev_list := remove1 cdev (capidev_list s), cdevs := (cdevs s)(cdev := None),
             cs_core := (cs_core s)\<lparr>appls := (appls (cs_core s))(cdev := None)\<rparr>\<rparr>) }"

end
