(* ===== verification/CapiDevIO.thy ===== *)
theory CapiDevIO
  imports CapiDev
begin

text \<open>
  The device \<^verbatim>\<open>/dev/capi20\<close> and its middleware, \<^verbatim>\<open>drivers/isdn/capi/capi.c\<close>, part 2: the data
  queues of a minor, reception of messages, the file operations and the terminal operations.
  Each function is one atomic step.  A user copy that fails is a parameter of the operation.
\<close>

definition ENXIO :: int where "ENXIO = 6"
definition EIO :: int where "EIO = 5"
definition EAGAIN :: int where "EAGAIN = 11"
definition ENOMEM :: int where "ENOMEM = 12"
definition EFAULT :: int where "EFAULT = 14"
definition EEXIST :: int where "EEXIST = 17"
definition ENODEV :: int where "ENODEV = 19"
definition ESRCH :: int where "ESRCH = 3"
definition EMSGSIZE :: int where "EMSGSIZE = 90"

lemmas errno_defs = ENXIO_def EIO_def EAGAIN_def ENOMEM_def EFAULT_def EEXIST_def ENODEV_def ESRCH_def EMSGSIZE_def
  EINVAL_def

section \<open>Throttling\<close>

text \<open>The operations of a terminal find the minor in \<open>tty->driver_data\<close>; \<open>NULL\<close> is \<open>None\<close>.\<close>

definition capinc_tty_throttle :: "nat \<Rightarrow> capist \<Rightarrow> capist option" where
  "capinc_tty_throttle t s =
     (case driver_data s t of None \<Rightarrow> Some s | Some m \<Rightarrow> upd_minor m (\<lambda>mp. mp\<lparr>ttyinstop := True\<rparr>) s)"

text \<open>The line discipline receives data; it may call the driver's \<open>throttle\<close> while it does.  Other calls of the driver from
  inside the reception (\<open>write\<close> or \<open>put_char\<close> for an echo) are not modelled here: they are steps of their own.\<close>

definition ldisc_receive :: "capi_cfg \<Rightarrow> nat \<Rightarrow> bytes \<Rightarrow> capist \<Rightarrow> capist option" where
  "ldisc_receive cfg t bs s =
     (let s = tty_event (ReceiveBuf t bs) s
      in if throttles cfg (tty_log s) t then capinc_tty_throttle t s else Some s)"

section \<open>Data queues\<close>

definition data_b3_resp :: "u16 \<Rightarrow> u16 \<Rightarrow> u32 \<Rightarrow> u16 \<Rightarrow> bytes \<Rightarrow> bytes option" where
  "data_b3_resp applid msgid ncci handle s = do {
     s \<leftarrow> capimsg_setu16 s 0 (word_of_nat CAPI_DATA_B3_RESP_LEN);
     s \<leftarrow> capimsg_setu16 s 2 applid;
     s \<leftarrow> capimsg_setu8 s 4 CAPI_DATA_B3;
     s \<leftarrow> capimsg_setu8 s 5 CAPI_RESP;
     s \<leftarrow> capimsg_setu16 s 6 msgid;
     s \<leftarrow> capimsg_setu32 s 8 ncci;
     capimsg_setu16 s 12 handle }"

text \<open>The inner \<open>None\<close> is \<open>NULL\<close>: no memory.  \<open>skb_put\<close> gives 14 bytes of the new buffer.\<close>

definition gen_data_b3_resp_for :: "capi_cfg \<Rightarrow> nat \<Rightarrow> bytes \<Rightarrow> capist \<Rightarrow> (bytes option \<times> capist) option" where
  "gen_data_b3_resp_for cfg m skb s =
     (case kmalloc cfg s of
        (None, s) \<Rightarrow> Some (None, s)
      | (Some _, s) \<Rightarrow> do {
          h \<leftarrow> CAPIMSG_U16 skb (CAPIMSG_BASELEN + 4 + 4 + 2);
          mp \<leftarrow> minors s m;
          ap \<leftarrow> appls (cs_core s) (mn_ap mp);
          nskb \<leftarrow> data_b3_resp (appl_id ap) (mn_msgid mp) (mn_ncci mp) h (replicate CAPI_DATA_B3_RESP_LEN 0);
          s \<leftarrow> upd_minor m (\<lambda>mp. mp\<lparr>mn_msgid := mn_msgid mp + 1\<rparr>) s;
          Some (Some nskb, s) })"

text \<open>Whether 0 is returned (not -1).  \<open>skb_pull\<close> does nothing if the length exceeds the message.\<close>

definition handle_recv_skb :: "capi_cfg \<Rightarrow> nat \<Rightarrow> bytes \<Rightarrow> capist \<Rightarrow> (bool \<times> capist) option" where
  "handle_recv_skb cfg m skb s = do {
     mlen \<leftarrow> CAPIMSG_LEN skb;
     let datalen = int (length skb) - uint mlen;
     mp \<leftarrow> minors s m;
     case mn_tty mp of
       None \<Rightarrow> Some (False, s)
     | Some t \<Rightarrow>
         if \<not> has_receive_buf cfg t then Some (False, s)
         else if ttyinstop mp then Some (False, s)
         else if (case receive_room cfg (tty_log s) t of None \<Rightarrow> False | Some room \<Rightarrow> room < datalen) then Some (False, s)
         else do {
           (nskb, s) \<leftarrow> gen_data_b3_resp_for cfg m skb s;
           case nskb of
             None \<Rightarrow> Some (False, s)
           | Some nskb \<Rightarrow> do {
               h \<leftarrow> CAPIMSG_U16 skb (CAPIMSG_BASELEN + 4);
               (err, s) \<leftarrow> put_capi_message cfg (mn_ap mp) nskb s;
               if err \<noteq> CAPINFO_0X11_NOERR then Some (False, s)
               else do {
                 let data = (if unat mlen \<le> length skb then drop (unat mlen) skb else skb);
                 s \<leftarrow> ldisc_receive cfg t data s;
                 Some (True, s) } } } }"

text \<open>The loop; the list is the input queue.\<close>

fun minor_recv :: "capi_cfg \<Rightarrow> nat \<Rightarrow> bytes list \<Rightarrow> capist \<Rightarrow> capist option" where
  "minor_recv cfg m [] s = Some s"
| "minor_recv cfg m (skb # q) s = do {
     let len = int (length skb);
     s \<leftarrow> upd_minor m (\<lambda>mp. mp\<lparr>inqueue := q, inbytes := inbytes mp - len\<rparr>) s;
     (ok, s) \<leftarrow> handle_recv_skb cfg m skb s;
     if ok then minor_recv cfg m q s
     else upd_minor m (\<lambda>mp. mp\<lparr>inqueue := skb # inqueue mp, inbytes := inbytes mp + len\<rparr>) s }"

definition handle_minor_recv :: "capi_cfg \<Rightarrow> nat \<Rightarrow> capist \<Rightarrow> capist option" where
  "handle_minor_recv cfg m s = do { mp \<leftarrow> minors s m; minor_recv cfg m (inqueue mp) s }"

text \<open>The header that \<open>skb_push\<close> puts in front of the data; \<open>addr\<close> is the address of the message.\<close>

definition data_b3_req :: "u16 \<Rightarrow> u16 \<Rightarrow> u32 \<Rightarrow> u32 \<Rightarrow> u16 \<Rightarrow> u16 \<Rightarrow> bytes \<Rightarrow> bytes option" where
  "data_b3_req applid msgid ncci addr len handle data = do {
     let s = replicate CAPI_DATA_B3_REQ_LEN 0 @ data;
     s \<leftarrow> capimsg_setu16 s 0 (word_of_nat CAPI_DATA_B3_REQ_LEN);
     s \<leftarrow> capimsg_setu16 s 2 applid;
     s \<leftarrow> capimsg_setu8 s 4 CAPI_DATA_B3;
     s \<leftarrow> capimsg_setu8 s 5 CAPI_REQ;
     s \<leftarrow> capimsg_setu16 s 6 msgid;
     s \<leftarrow> capimsg_setu32 s 8 ncci;
     s \<leftarrow> capimsg_setu32 s 12 addr;
     s \<leftarrow> capimsg_setu16 s 16 len;
     s \<leftarrow> capimsg_setu16 s 18 handle;
     capimsg_setu16 s 20 0 }"

text \<open>One turn of the loop: the message has been sent, has to be sent again later, or is dropped.\<close>

datatype send_result = Sent | Again | Dropped

definition send_skb :: "capi_cfg \<Rightarrow> nat \<Rightarrow> bytes \<Rightarrow> capist \<Rightarrow> (send_result \<times> capist) option" where
  "send_skb cfg m data s = do {
     mp \<leftarrow> minors s m;
     let h = datahandle mp;
     let len = (word_of_nat (length data) :: u16);
     ap \<leftarrow> appls (cs_core s) (mn_ap mp);
     skb \<leftarrow> data_b3_req (appl_id ap) (mn_msgid mp) (mn_ncci mp) (skb_addr cfg data) len h data;
     s \<leftarrow> upd_minor m (\<lambda>mp. mp\<lparr>mn_msgid := mn_msgid mp + 1\<rparr>) s;
     let (mem, s) = kmalloc cfg s;
     if mem = None then do {
       s \<leftarrow> upd_minor m (\<lambda>mp. snd (capincci_add_ack False h mp)) s;
       Some (Again, s) }
     else do {
       s \<leftarrow> upd_minor m (\<lambda>mp. snd (capincci_add_ack True h mp)) s;
       (err, s) \<leftarrow> put_capi_message cfg (mn_ap mp) skb s;
       if err = CAPINFO_0X11_NOERR then do {
         s \<leftarrow> upd_minor m (\<lambda>mp. mp\<lparr>datahandle := datahandle mp + 1, outbytes := outbytes mp - uint len\<rparr>) s;
         Some (Sent, s) }
       else do {
         s \<leftarrow> upd_minor m (\<lambda>mp. snd (capiminor_del_ack h mp)) s;
         if err = CAPINFO_0X11_QUEUEFULL then Some (Again, s)
         else do {
           s \<leftarrow> upd_minor m (\<lambda>mp. mp\<lparr>outbytes := outbytes mp - uint len\<rparr>) s;
           Some (Dropped, s) } } } }"

text \<open>The loop; the list is the output queue, the number counts the messages that were sent.\<close>

fun minor_send :: "capi_cfg \<Rightarrow> nat \<Rightarrow> nat \<Rightarrow> bytes list \<Rightarrow> capist \<Rightarrow> (nat \<times> capist) option" where
  "minor_send cfg m n [] s = Some (n, s)"
| "minor_send cfg m n (data # q) s = do {
     s \<leftarrow> upd_minor m (\<lambda>mp. mp\<lparr>outqueue := q\<rparr>) s;
     (r, s) \<leftarrow> send_skb cfg m data s;
     case r of
       Sent \<Rightarrow> minor_send cfg m (n + 1) q s
     | Again \<Rightarrow> do {
         s \<leftarrow> upd_minor m (\<lambda>mp. mp\<lparr>outqueue := data # outqueue mp\<rparr>) s;
         Some (n, s) }
     | Dropped \<Rightarrow> minor_send cfg m n q s }"

definition handle_minor_send :: "capi_cfg \<Rightarrow> nat \<Rightarrow> capist \<Rightarrow> (nat \<times> capist) option" where
  "handle_minor_send cfg m s = do {
     mp \<leftarrow> minors s m;
     if mn_tty mp \<noteq> None \<and> ttyoutstop mp then Some (0, s)
     else minor_send cfg m 0 (outqueue mp) s }"

section \<open>Reception\<close>

definition recv_tail :: "nat \<Rightarrow> bytes \<Rightarrow> capist \<Rightarrow> capist option" where
  "recv_tail cdev skb s = upd_cdev cdev (\<lambda>cd. cd\<lparr>recvqueue := recvqueue cd @ [skb]\<rparr>) s"

text \<open>Data messages of an NCCI with a minor go to the terminal.\<close>

definition recv_data :: "capi_cfg \<Rightarrow> nat \<Rightarrow> nat \<Rightarrow> bytes \<Rightarrow> capist \<Rightarrow> capist option" where
  "recv_data cfg cdev m skb s = do {
     sc \<leftarrow> CAPIMSG_SUBCOMMAND skb;
     if sc = CAPI_IND then do {
       h \<leftarrow> CAPIMSG_U16 skb (CAPIMSG_BASELEN + 4 + 4 + 2);
       s \<leftarrow> upd_minor m (\<lambda>mp. mp\<lparr>inqueue := inqueue mp @ [skb], inbytes := inbytes mp + int (length skb)\<rparr>) s;
       handle_minor_recv cfg m s }
     else if sc = CAPI_CONF then do {
       h \<leftarrow> CAPIMSG_U16 skb (CAPIMSG_BASELEN + 4);
       s \<leftarrow> upd_minor m (\<lambda>mp. snd (capiminor_del_ack h mp)) s;
       mp \<leftarrow> minors s m;
       let s = (case mn_tty mp of None \<Rightarrow> s
                | Some t \<Rightarrow> if has_write_wakeup cfg t then tty_event (WriteWakeup t) s else s);
       (_, s) \<leftarrow> handle_minor_send cfg m s;
       Some s }
     else recv_tail cdev skb s }"

text \<open>The body of the loop of \<open>capi_recv_message\<close>.\<close>

definition recv_skb :: "capi_cfg \<Rightarrow> nat \<Rightarrow> bytes \<Rightarrow> capist \<Rightarrow> capist option" where
  "recv_skb cfg cdev skb s = do {
     cmd \<leftarrow> CAPIMSG_CMD skb;
     s \<leftarrow> (if cmd = CAPI_CONNECT_B3_CONF then do {
            info \<leftarrow> CAPIMSG_U16 skb 12;
            if info = 0 then do {
              ncci \<leftarrow> CAPIMSG_NCCI skb;
              (_, s) \<leftarrow> capincci_alloc cfg cdev ncci s;
              Some s }
            else Some s }
          else Some s);
     s \<leftarrow> (if cmd = CAPI_CONNECT_B3_IND then do {
            ncci \<leftarrow> CAPIMSG_NCCI skb;
            (_, s) \<leftarrow> capincci_alloc cfg cdev ncci s;
            Some s }
          else Some s);
     c \<leftarrow> CAPIMSG_COMMAND skb;
     if c \<noteq> CAPI_DATA_B3 then recv_tail cdev skb s
     else do {
       ncci \<leftarrow> CAPIMSG_CONTROL skb;
       np \<leftarrow> capincci_find cdev ncci s;
       case np of
         None \<Rightarrow> recv_tail cdev skb s
       | Some np \<Rightarrow> do {
           n \<leftarrow> nccis s np;
           case minorp n of
             None \<Rightarrow> recv_tail cdev skb s
           | Some m \<Rightarrow> recv_data cfg cdev m skb s } } }"

partial_function (option) capi_recv_message :: "capi_cfg \<Rightarrow> nat \<Rightarrow> capist \<Rightarrow> capist option" where
  "capi_recv_message cfg cdev s = do {
     (info, msg, s) \<leftarrow> get_capi_message cdev s;
     if info \<noteq> CAPINFO_0X11_NOERR then Some s
     else do {
       skb \<leftarrow> msg;
       skb \<leftarrow> skb;
       s \<leftarrow> recv_skb cfg cdev skb s;
       capi_recv_message cfg cdev s } }"

section \<open>File operations\<close>

definition appid :: "nat \<Rightarrow> capist \<Rightarrow> u16 option" where
  "appid cdev s = map_option appl_id (appls (cs_core s) cdev)"

text \<open>The second component is what is copied to the user.\<close>

definition capi_read :: "capi_cfg \<Rightarrow> nat \<Rightarrow> nat \<Rightarrow> bool \<Rightarrow> capist \<Rightarrow> (int \<times> bytes \<times> capist) option" where
  "capi_read cfg cdev cnt fault s = do {
     i \<leftarrow> appid cdev s;
     if i = 0 then Some (- ENODEV, [], s)
     else do {
       cd \<leftarrow> cdevs s cdev;
       s \<leftarrow> (if recvqueue cd = [] then capi_recv_message cfg cdev s else Some s);
       cd \<leftarrow> cdevs s cdev;
       case recvqueue cd of
         [] \<Rightarrow> Some (- EAGAIN, [], s)
       | skb # q \<Rightarrow>
           if length skb > cnt then Some (- EMSGSIZE, [], s)
           else if fault then Some (- EFAULT, [], s)
           else do {
             s \<leftarrow> upd_cdev cdev (\<lambda>cd. cd\<lparr>recvqueue := q\<rparr>) s;
             Some (int (length skb), skb, s) } } }"

definition capi_write :: "capi_cfg \<Rightarrow> nat \<Rightarrow> bytes \<Rightarrow> bool \<Rightarrow> capist \<Rightarrow> (int \<times> capist) option" where
  "capi_write cfg cdev buf fault s = do {
     i \<leftarrow> appid cdev s;
     if i = 0 then Some (- ENODEV, s)
     else (case kmalloc cfg s of
       (None, s) \<Rightarrow> Some (- ENOMEM, s)
     | (Some _, s) \<Rightarrow>
         if fault then Some (- EFAULT, s)
         else do {
           mlen \<leftarrow> CAPIMSG_LEN buf;
           cmd \<leftarrow> CAPIMSG_CMD buf;
           total \<leftarrow> (if cmd = CAPI_DATA_B3_REQ then do { d \<leftarrow> CAPIMSG_DATALEN buf; Some (unat mlen + unat d) }
                    else Some (unat mlen));
           if total \<noteq> length buf then Some (- EINVAL, s)
           else do {
             skb \<leftarrow> CAPIMSG_SETAPPID buf i;
             s \<leftarrow> (if cmd = CAPI_DISCONNECT_B3_RESP then do {
                    ncci \<leftarrow> CAPIMSG_NCCI skb;
                    capincci_free cdev ncci s }
                  else Some s);
             (err, s) \<leftarrow> put_capi_message cfg cdev skb s;
             s \<leftarrow> upd_cdev cdev (\<lambda>cd. cd\<lparr>errcode := err\<rparr>) s;
             Some (if err \<noteq> 0 then - EIO else int (length buf), s) } }) }"

datatype pollflag = POLLIN | POLLRDNORM | POLLOUT | POLLWRNORM | POLLERR

definition capi_poll :: "capi_cfg \<Rightarrow> nat \<Rightarrow> capist \<Rightarrow> (pollflag set \<times> capist) option" where
  "capi_poll cfg cdev s = do {
     i \<leftarrow> appid cdev s;
     if i = 0 then Some ({POLLERR}, s)
     else do {
       s \<leftarrow> capi_recv_message cfg cdev s;
       cd \<leftarrow> cdevs s cdev;
       Some (if recvqueue cd \<noteq> [] then {POLLOUT, POLLWRNORM, POLLIN, POLLRDNORM} else {POLLOUT, POLLWRNORM}, s) } }"

text \<open>
  An \<open>ioctl\<close> with what it copies from the user; the result has what it copies to the user.
  The handler \<open>capi_signal\<close> wakes up readers, which the model has no part of.
\<close>

definition capi_signal_handler :: nat where "capi_signal_handler = 2"

datatype capi_ioctl_cmd =
    CAPI_REGISTER capi_register_params
  | CAPI_GET_VERSION u32
  | CAPI_GET_SERIAL u32
  | CAPI_GET_PROFILE u32
  | CAPI_GET_MANUFACTURER u32
  | CAPI_GET_ERRCODE bool
  | CAPI_INSTALLED
  | CAPI_MANUFACTURER_CMD
  | CAPI_SET_FLAGS u32
  | CAPI_CLR_FLAGS u32
  | CAPI_GET_FLAGS
  | CAPI_NCCI_OPENCOUNT u32
  | CAPI_NCCI_GETUNIT u32
  | OTHER_IOCTL

datatype ioctl_out =
    OutNone
  | OutVersion capi_version
  | OutBytes bytes
  | OutProfile capi_profile
  | OutNumber u32

text \<open>The stack buffer \<open>data\<close> of the function; a profile that is not filled in keeps its garbage.\<close>

definition zero_profile :: capi_profile where
  "zero_profile = dev_profile zero_dev"

definition ioctl_info :: "bool \<Rightarrow> ioctl_out option \<Rightarrow> capist \<Rightarrow> int \<times> ioctl_out \<times> capist" where
  "ioctl_info fault out s =
     (case out of
        None \<Rightarrow> (- EIO, OutNone, s)
      | Some out \<Rightarrow> if fault then (- EFAULT, OutNone, s) else (0, out, s))"

fun capi_ioctl :: "capi_cfg \<Rightarrow> nat \<Rightarrow> capi_ioctl_cmd \<Rightarrow> bool \<Rightarrow> bool \<Rightarrow> capist \<Rightarrow>
    (int \<times> ioctl_out \<times> capist) option" where
  "capi_ioctl cfg cdev (CAPI_REGISTER params) fin fout s = do {
     i \<leftarrow> appid cdev s;
     if i \<noteq> 0 then Some (- EEXIST, OutNone, s)
     else if fin then Some (- EFAULT, OutNone, s)
     else do {
       c \<leftarrow> upd_appl cdev (\<lambda>ap. ap\<lparr>appl_params := params\<rparr>) (cs_core s);
       c \<leftarrow> capi_set_signal (Some cdev) (Some capi_signal_handler) 0 c;
       (info, c) \<leftarrow> capi_register (cc_env cfg) (Some cdev) c;
       s \<leftarrow> upd_cdev cdev (\<lambda>cd. cd\<lparr>errcode := info\<rparr>) s;
       if info \<noteq> 0 then do {
         c \<leftarrow> upd_appl cdev (\<lambda>ap. ap\<lparr>appl_id := 0\<rparr>) c;
         Some (- EIO, OutNone, s\<lparr>cs_core := c\<rparr>) }
       else do {
         ap \<leftarrow> appls c cdev;
         Some (uint (appl_id ap), OutNone, s\<lparr>cs_core := c\<rparr>) } } }"
| "capi_ioctl cfg cdev (CAPI_GET_VERSION contr) fin fout s =
     (if fin then Some (- EFAULT, OutNone, s)
      else do {
        v \<leftarrow> capi_get_version (cc_env cfg) (sint contr) (cs_core s);
        Some (ioctl_info fout (map_option OutVersion v) s) })"
| "capi_ioctl cfg cdev (CAPI_GET_SERIAL contr) fin fout s =
     (if fin then Some (- EFAULT, OutNone, s)
      else do {
        v \<leftarrow> capi_get_serial_number (cc_env cfg) (sint contr) (replicate CAPI_SERIAL_LEN 0) (cs_core s);
        Some (ioctl_info fout (map_option OutBytes v) s) })"
| "capi_ioctl cfg cdev (CAPI_GET_PROFILE contr) fin fout s =
     (if fin then Some (- EFAULT, OutNone, s)
      else do {
        (info, prof) \<leftarrow> capi_get_profile (cc_env cfg) (sint contr) zero_profile (cs_core s);
        s \<leftarrow> upd_cdev cdev (\<lambda>cd. cd\<lparr>errcode := info\<rparr>) s;
        if info \<noteq> 0 then Some (- EIO, OutNone, s)
        else if fout then Some (- EFAULT, OutNone, s)
        else Some (0, if contr = 0 then OutNumber (ucast (ncontroller prof)) else OutProfile prof, s) })"
| "capi_ioctl cfg cdev (CAPI_GET_MANUFACTURER contr) fin fout s =
     (if fin then Some (- EFAULT, OutNone, s)
      else do {
        v \<leftarrow> capi_get_manufacturer (cc_env cfg) (sint contr) (replicate CAPI_MANUFACTURER_LEN 0) (cs_core s);
        Some (ioctl_info fout (map_option OutBytes v) s) })"
| "capi_ioctl cfg cdev (CAPI_GET_ERRCODE arg) fin fout s = do {
     cd \<leftarrow> cdevs s cdev;
     let e = errcode cd;
     s \<leftarrow> upd_cdev cdev (\<lambda>cd. cd\<lparr>errcode := CAPINFO_0X11_NOERR\<rparr>) s;
     if arg \<and> fout then Some (- EFAULT, OutNone, s)
     else Some (uint e, if arg then OutNumber (ucast e) else OutNone, s) }"
| "capi_ioctl cfg cdev CAPI_INSTALLED fin fout s =
     Some (if capi_isinstalled (cs_core s) = CAPINFO_0X11_NOERR then 0 else - ENXIO, OutNone, s)"
| "capi_ioctl cfg cdev CAPI_MANUFACTURER_CMD fin fout s = Some (- EINVAL, OutNone, s)"
| "capi_ioctl cfg cdev (CAPI_SET_FLAGS fl) fin fout s =
     (if fin then Some (- EFAULT, OutNone, s)
      else do {
        s \<leftarrow> upd_cdev cdev (\<lambda>cd. cd\<lparr>userflags := userflags cd OR fl\<rparr>) s;
        Some (0, OutNone, s) })"
| "capi_ioctl cfg cdev (CAPI_CLR_FLAGS fl) fin fout s =
     (if fin then Some (- EFAULT, OutNone, s)
      else do {
        s \<leftarrow> upd_cdev cdev (\<lambda>cd. cd\<lparr>userflags := userflags cd AND NOT fl\<rparr>) s;
        Some (0, OutNone, s) })"
| "capi_ioctl cfg cdev CAPI_GET_FLAGS fin fout s = do {
     cd \<leftarrow> cdevs s cdev;
     Some (if fout then (- EFAULT, OutNone, s) else (0, OutNumber (userflags cd), s)) }"
| "capi_ioctl cfg cdev (CAPI_NCCI_OPENCOUNT ncci) fin fout s =
     (if fin then Some (- EFAULT, OutNone, s)
      else do {
        np \<leftarrow> capincci_find cdev ncci s;
        case np of
          None \<Rightarrow> Some (0, OutNone, s)
        | Some np \<Rightarrow> do {
            n \<leftarrow> nccis s np;
            case minorp n of
              None \<Rightarrow> Some (0, OutNone, s)
            | Some m \<Rightarrow> do { mp \<leftarrow> minors s m; Some (ttyopencount mp, OutNone, s) } } })"
| "capi_ioctl cfg cdev (CAPI_NCCI_GETUNIT ncci) fin fout s =
     (if fin then Some (- EFAULT, OutNone, s)
      else do {
        np \<leftarrow> capincci_find cdev ncci s;
        case np of
          None \<Rightarrow> Some (- ESRCH, OutNone, s)
        | Some np \<Rightarrow> do {
            n \<leftarrow> nccis s np;
            case minorp n of
              None \<Rightarrow> Some (- ESRCH, OutNone, s)
            | Some m \<Rightarrow> do { mp \<leftarrow> minors s m; Some (int (minor mp), OutNone, s) } } })"
| "capi_ioctl cfg cdev OTHER_IOCTL fin fout s = Some (- EINVAL, OutNone, s)"

text \<open>The file's \<open>private_data\<close> is an argument and a result; \<open>nonseekable_open\<close> returns 0.\<close>

definition capi_open :: "capi_cfg \<Rightarrow> nat option \<Rightarrow> capist \<Rightarrow> int \<times> nat option \<times> capist" where
  "capi_open cfg priv s =
     (if priv \<noteq> None then (- EEXIST, priv, s)
      else case capidev_alloc cfg s of
        (None, s) \<Rightarrow> (- ENOMEM, None, s)
      | (Some c, s) \<Rightarrow> (0, Some c, s))"

definition capi_frelease :: "capi_cfg \<Rightarrow> nat \<Rightarrow> capist \<Rightarrow> (int \<times> nat option \<times> capist) option" where
  "capi_frelease cfg cdev s = do { s \<leftarrow> capidev_free cfg cdev s; Some (0, None, s) }"

section \<open>Terminal operations\<close>

definition capinc_tty_open :: "capi_cfg \<Rightarrow> nat \<Rightarrow> nat \<Rightarrow> capist \<Rightarrow> (int \<times> capist) option" where
  "capinc_tty_open cfg t k s = do {
     p \<leftarrow> capiminor_find k s;
     case p of
       None \<Rightarrow> Some (- ENXIO, s)
     | Some m \<Rightarrow> do {
         mp \<leftarrow> minors s m;
         if nccip mp = None then Some (- ENXIO, s)
         else do {
           let s = s\<lparr>driver_data := (driver_data s)(t := Some m)\<rparr>;
           s \<leftarrow> upd_minor m (\<lambda>mp. if ttyopencount mp = 0 then mp\<lparr>mn_tty := Some t\<rparr> else mp) s;
           s \<leftarrow> upd_minor m (\<lambda>mp. mp\<lparr>ttyopencount := ttyopencount mp + 1\<rparr>) s;
           s \<leftarrow> handle_minor_recv cfg m s;
           Some (0, s) } } }"

definition capinc_tty_close :: "nat \<Rightarrow> capist \<Rightarrow> capist option" where
  "capinc_tty_close t s =
     (case driver_data s t of
        None \<Rightarrow> Some s
      | Some m \<Rightarrow> do {
          s \<leftarrow> upd_minor m (\<lambda>mp. mp\<lparr>ttyopencount := ttyopencount mp - 1\<rparr>) s;
          mp \<leftarrow> minors s m;
          s \<leftarrow> (if ttyopencount mp = 0
               then upd_minor m (\<lambda>mp. mp\<lparr>mn_tty := None\<rparr>) (s\<lparr>driver_data := (driver_data s)(t := None)\<rparr>)
               else Some s);
          if nccip mp = None then capiminor_free m s else Some s })"

text \<open>Whether the terminal has a minor with an NCCI; a dangling pointer is undefined.\<close>

definition tty_minor :: "nat \<Rightarrow> capist \<Rightarrow> nat option option" where
  "tty_minor t s =
     (case driver_data s t of
        None \<Rightarrow> Some None
      | Some m \<Rightarrow> do { mp \<leftarrow> minors s m; Some (if nccip mp = None then None else Some m) })"

text \<open>Moves the collected characters to the output queue.\<close>

definition flush_ttyskb :: "nat \<Rightarrow> capist \<Rightarrow> capist option" where
  "flush_ttyskb m s = upd_minor m (\<lambda>mp.
     (case ttyskb mp of
        None \<Rightarrow> mp
      | Some skb \<Rightarrow> mp\<lparr>ttyskb := None, outqueue := outqueue mp @ [skb], outbytes := outbytes mp + int (length skb)\<rparr>)) s"

definition capinc_tty_write :: "capi_cfg \<Rightarrow> nat \<Rightarrow> bytes \<Rightarrow> bool \<Rightarrow> capist \<Rightarrow> (int \<times> capist) option" where
  "capinc_tty_write cfg t buf fault s = do {
     p \<leftarrow> tty_minor t s;
     case p of
       None \<Rightarrow> Some (0, s)
     | Some m \<Rightarrow> do {
         s \<leftarrow> flush_ttyskb m s;
         (case kmalloc cfg s of
            (None, s) \<Rightarrow> Some (- ENOMEM, s)
          | (Some _, s) \<Rightarrow>
              if fault then Some (- EFAULT, s)
              else do {
                s \<leftarrow> upd_minor m (\<lambda>mp. mp\<lparr>outqueue := outqueue mp @ [buf], outbytes := outbytes mp + int (length buf)\<rparr>) s;
                (_, s) \<leftarrow> handle_minor_send cfg m s;
                s \<leftarrow> handle_minor_recv cfg m s;
                Some (int (length buf), s) }) } }"

definition capinc_tty_put_char :: "capi_cfg \<Rightarrow> nat \<Rightarrow> u8 \<Rightarrow> capist \<Rightarrow> capist option" where
  "capinc_tty_put_char cfg t ch s = do {
     p \<leftarrow> tty_minor t s;
     case p of
       None \<Rightarrow> Some s
     | Some m \<Rightarrow> do {
         mp \<leftarrow> minors s m;
         if (case ttyskb mp of None \<Rightarrow> False | Some skb \<Rightarrow> length skb < blk_room cfg)
         then upd_minor m (\<lambda>mp. mp\<lparr>ttyskb := map_option (\<lambda>skb. skb @ [ch]) (ttyskb mp)\<rparr>) s
         else do {
           s \<leftarrow> (if ttyskb mp \<noteq> None then do {
                  s \<leftarrow> flush_ttyskb m s;
                  (_, s) \<leftarrow> handle_minor_send cfg m s;
                  Some s }
                else Some s);
           (case kmalloc cfg s of
              (None, s) \<Rightarrow> Some s
            | (Some _, s) \<Rightarrow> upd_minor m (\<lambda>mp. mp\<lparr>ttyskb := Some [ch]\<rparr>) s) } } }"

definition capinc_tty_flush_chars :: "capi_cfg \<Rightarrow> nat \<Rightarrow> capist \<Rightarrow> capist option" where
  "capinc_tty_flush_chars cfg t s = do {
     p \<leftarrow> tty_minor t s;
     case p of
       None \<Rightarrow> Some s
     | Some m \<Rightarrow> do {
         mp \<leftarrow> minors s m;
         s \<leftarrow> (if ttyskb mp \<noteq> None then do {
                s \<leftarrow> flush_ttyskb m s;
                (_, s) \<leftarrow> handle_minor_send cfg m s;
                Some s }
              else Some s);
         handle_minor_recv cfg m s } }"

definition capinc_tty_write_room :: "nat \<Rightarrow> capist \<Rightarrow> int option" where
  "capinc_tty_write_room t s = do {
     p \<leftarrow> tty_minor t s;
     case p of
       None \<Rightarrow> Some 0
     | Some m \<Rightarrow> do {
         mp \<leftarrow> minors s m;
         Some ((CAPINC_MAX_SENDQUEUE - int (length (outqueue mp))) * int CAPI_MAX_BLKSIZE) } }"

definition capinc_tty_chars_in_buffer :: "nat \<Rightarrow> capist \<Rightarrow> int option" where
  "capinc_tty_chars_in_buffer t s = do {
     p \<leftarrow> tty_minor t s;
     case p of
       None \<Rightarrow> Some 0
     | Some m \<Rightarrow> map_option outbytes (minors s m) }"

definition capinc_tty_unthrottle :: "capi_cfg \<Rightarrow> nat \<Rightarrow> capist \<Rightarrow> capist option" where
  "capinc_tty_unthrottle cfg t s =
     (case driver_data s t of
        None \<Rightarrow> Some s
      | Some m \<Rightarrow> do {
          s \<leftarrow> upd_minor m (\<lambda>mp. mp\<lparr>ttyinstop := False\<rparr>) s;
          handle_minor_recv cfg m s })"

definition capinc_tty_stop :: "nat \<Rightarrow> capist \<Rightarrow> capist option" where
  "capinc_tty_stop t s =
     (case driver_data s t of None \<Rightarrow> Some s | Some m \<Rightarrow> upd_minor m (\<lambda>mp. mp\<lparr>ttyoutstop := True\<rparr>) s)"

definition capinc_tty_start :: "capi_cfg \<Rightarrow> nat \<Rightarrow> capist \<Rightarrow> capist option" where
  "capinc_tty_start cfg t s =
     (case driver_data s t of
        None \<Rightarrow> Some s
      | Some m \<Rightarrow> do {
          s \<leftarrow> upd_minor m (\<lambda>mp. mp\<lparr>ttyoutstop := False\<rparr>) s;
          (_, s) \<leftarrow> handle_minor_send cfg m s;
          Some s })"

text \<open>The number of minors after \<open>capinc_tty_init\<close> has checked the module parameter.\<close>

definition capinc_ttyminors :: "int \<Rightarrow> int" where
  "capinc_ttyminors n =
     (let n = (if n > CAPINC_MAX_PORTS then CAPINC_MAX_PORTS else n)
      in if n \<le> 0 then CAPINC_NR_PORTS else n)"

end
