(* ===== verification/CapiDevInv.thy ===== *)
theory CapiDevInv
  imports CapiDevIO
begin

text \<open>
  The invariant of \<^verbatim>\<open>capi.c\<close>: minors have distinct numbers below the limit, and the pointers
  between open files, NCCIs and minors fit together, and the nodes that capifs has been told to make are those of the minors that
  have an NCCI.  It speaks about the links only (\<open>files\<close>, \<open>nccis\<close>,
  \<open>mview\<close> and the list of minors), so most operations preserve it because they do not touch a link.
\<close>

section \<open>The links\<close>

definition files :: "capist \<Rightarrow> nat \<Rightarrow> nat list option" where
  "files s c = map_option cd_nccis (cdevs s c)"

definition view_of :: "capiminor \<Rightarrow> nat option \<times> nat \<times> nat \<times> u32" where
  "view_of mp = (nccip mp, minor mp, mn_ap mp, mn_ncci mp)"

definition mview :: "capist \<Rightarrow> nat \<Rightarrow> (nat option \<times> nat \<times> nat \<times> u32) option" where
  "mview s m = map_option view_of (minors s m)"

definition mnum :: "capist \<Rightarrow> nat \<Rightarrow> nat" where
  "mnum s m = (case minors s m of None \<Rightarrow> 0 | Some mp \<Rightarrow> minor mp)"

text \<open>
  The numbers of the nodes that \<^verbatim>\<open>capifs.c\<close> has been told to make and not yet to remove; \<open>None\<close> if a node was made
  twice, or removed when there was none.
\<close>

fun nodes :: "tty_event list \<Rightarrow> nat set option" where
  "nodes [] = Some {}"
| "nodes (CapifsNew k # l) = do { N \<leftarrow> nodes l; if k \<in> N then None else Some (insert k N) }"
| "nodes (CapifsFree k # l) = do { N \<leftarrow> nodes l; if k \<in> N then Some (N - {k}) else None }"
| "nodes (_ # l) = nodes l"

text \<open>All nodes that were ever made.\<close>

fun made :: "tty_event list \<Rightarrow> nat set" where
  "made [] = {}"
| "made (CapifsNew k # l) = insert k (made l)"
| "made (_ # l) = made l"

definition live_nodes :: "(nat \<Rightarrow> (nat option \<times> nat \<times> nat \<times> u32) option) \<Rightarrow> nat set" where
  "live_nodes mv = {k. \<exists>m np a i. mv m = Some (Some np, k, a, i)}"

definition nodes_ok :: "nat \<Rightarrow> capist \<Rightarrow> bool" where
  "nodes_ok lim s \<longleftrightarrow> nodes (tty_log s) = Some (live_nodes (mview s)) \<and> made (tty_log s) \<subseteq> {..<lim}"

definition same_links :: "capist \<Rightarrow> capist \<Rightarrow> bool" where
  "same_links s s' \<longleftrightarrow> files s' = files s \<and> nccis s' = nccis s \<and> mview s' = mview s \<and>
     capiminor_list s' = capiminor_list s \<and> brk s \<le> brk s' \<and> nodes (tty_log s') = nodes (tty_log s) \<and>
     made (tty_log s') = made (tty_log s)"

lemma same_links_refl [simp]: "same_links s s" by (simp add: same_links_def)

lemma same_links_trans [trans]: "same_links s t \<Longrightarrow> same_links t u \<Longrightarrow> same_links s u"
  by (simp add: same_links_def)

definition minors_ok :: "nat \<Rightarrow> capist \<Rightarrow> bool" where
  "minors_ok lim s \<longleftrightarrow>
     set (capiminor_list s) = dom (minors s) \<and> sorted_wrt (<) (map (mnum s) (capiminor_list s)) \<and>
     (\<forall>m\<in>set (capiminor_list s). mnum s m < lim)"

definition nccis_ok :: "capist \<Rightarrow> bool" where
  "nccis_ok s \<longleftrightarrow>
     (\<forall>c l. files s c = Some l \<longrightarrow> distinct l \<and> (\<forall>np\<in>set l. \<exists>n. nccis s np = Some n \<and> nc_cdev n = c)) \<and>
     (\<forall>np n. nccis s np = Some n \<longrightarrow> (\<exists>l. files s (nc_cdev n) = Some l \<and> np \<in> set l))"

definition links_ok :: "capist \<Rightarrow> bool" where
  "links_ok s \<longleftrightarrow>
     (\<forall>np n m. nccis s np = Some n \<longrightarrow> minorp n = Some m \<longrightarrow>
        (\<exists>k. mview s m = Some (Some np, k, nc_cdev n, nc_ncci n))) \<and>
     (\<forall>m np k a i. mview s m = Some (Some np, k, a, i) \<longrightarrow> (\<exists>n. nccis s np = Some n \<and> minorp n = Some m))"

definition fresh_ok :: "capist \<Rightarrow> bool" where
  "fresh_ok s \<longleftrightarrow> (\<forall>p\<ge>brk s. files s p = None \<and> nccis s p = None \<and> minors s p = None)"

definition capi_ok :: "nat \<Rightarrow> capist \<Rightarrow> bool" where
  "capi_ok lim s \<longleftrightarrow> minors_ok lim s \<and> nccis_ok s \<and> links_ok s \<and> fresh_ok s \<and> nodes_ok lim s"

lemma link_simps [simp]:
  "files (s\<lparr>cs_core := a1\<rparr>) = files s" "files (s\<lparr>brk := a2\<rparr>) = files s" "files (s\<lparr>nccis := a3\<rparr>) = files s"
  "files (s\<lparr>minors := a4\<rparr>) = files s" "files (s\<lparr>capiminor_list := a5\<rparr>) = files s"
  "files (s\<lparr>driver_data := a6\<rparr>) = files s" "files (s\<lparr>tty_log := a7\<rparr>) = files s"
  "files (s\<lparr>capidev_list := a8\<rparr>) = files s"
  "mview (s\<lparr>cs_core := a1\<rparr>) = mview s" "mview (s\<lparr>brk := a2\<rparr>) = mview s" "mview (s\<lparr>nccis := a3\<rparr>) = mview s"
  "mview (s\<lparr>cdevs := b4\<rparr>) = mview s" "mview (s\<lparr>capiminor_list := a5\<rparr>) = mview s"
  "mview (s\<lparr>driver_data := a6\<rparr>) = mview s" "mview (s\<lparr>tty_log := a7\<rparr>) = mview s"
  "mview (s\<lparr>capidev_list := a8\<rparr>) = mview s"
  by (simp_all add: files_def mview_def fun_eq_iff)

lemma capi_ok_init: "capi_ok lim (capist_init c b)"
  by (simp add: capi_ok_def minors_ok_def nccis_ok_def links_ok_def fresh_ok_def nodes_ok_def live_nodes_def capist_init_def files_def mview_def dom_def)

lemma mview_eq_Some: "mview s m = Some v \<longleftrightarrow> (\<exists>mp. minors s m = Some mp \<and> v = view_of mp)"
  by (auto simp: mview_def)

lemma mview_dom: "mview s m = None \<longleftrightarrow> minors s m = None"
  by (simp add: mview_def)

lemma mnum_mview: "mnum s m = (case mview s m of None \<Rightarrow> 0 | Some (_, k, _, _) \<Rightarrow> k)"
  by (simp add: mnum_def mview_def view_of_def split: option.splits)

lemma same_links_ok:
  assumes "same_links s s'" and "capi_ok lim s"
  shows "capi_ok lim s'"
proof -
  from assms(1) have v: "files s' = files s" "nccis s' = nccis s" "mview s' = mview s"
    "capiminor_list s' = capiminor_list s" "brk s \<le> brk s'" "nodes (tty_log s') = nodes (tty_log s)"
    "made (tty_log s') = made (tty_log s)" by (simp_all add: same_links_def)
  have d: "minors s' m = None \<longleftrightarrow> minors s m = None" for m
    using mview_dom [of s m] mview_dom [of s' m] v(3) by simp
  have "dom (minors s') = dom (minors s)" unfolding dom_def d ..
  moreover have "mnum s' = mnum s" by (rule ext) (simp add: mnum_mview v(3))
  ultimately have "minors_ok lim s'" using assms(2) v(4) by (simp add: capi_ok_def minors_ok_def)
  moreover have "nccis_ok s'" and "links_ok s'" using assms(2) v by (simp_all add: capi_ok_def nccis_ok_def links_ok_def)
  moreover have "fresh_ok s'" using assms(2) v d by (simp add: capi_ok_def fresh_ok_def)
  moreover have "nodes_ok lim s'" using assms(2) v by (simp add: capi_ok_def nodes_ok_def)
  ultimately show ?thesis by (simp add: capi_ok_def)
qed

section \<open>Operations that touch no link\<close>

lemma view_of_simps [simp]:
  "view_of (mp\<lparr>datahandle := x1\<rparr>) = view_of mp" "view_of (mp\<lparr>mn_msgid := x2\<rparr>) = view_of mp"
  "view_of (mp\<lparr>mn_tty := x3\<rparr>) = view_of mp" "view_of (mp\<lparr>ttyinstop := x4\<rparr>) = view_of mp"
  "view_of (mp\<lparr>ttyoutstop := x5\<rparr>) = view_of mp" "view_of (mp\<lparr>ttyskb := x6\<rparr>) = view_of mp"
  "view_of (mp\<lparr>ttyopencount := x7\<rparr>) = view_of mp" "view_of (mp\<lparr>inqueue := x8\<rparr>) = view_of mp"
  "view_of (mp\<lparr>inbytes := x9\<rparr>) = view_of mp" "view_of (mp\<lparr>outqueue := y1\<rparr>) = view_of mp"
  "view_of (mp\<lparr>outbytes := y2\<rparr>) = view_of mp" "view_of (mp\<lparr>ackqueue := y3\<rparr>) = view_of mp"
  "view_of (mp\<lparr>nack := y4\<rparr>) = view_of mp"
  by (simp_all add: view_of_def)

named_theorems keeps_links \<open>operations that leave the links alone\<close>

lemma upd_minor_links [keeps_links]:
  "upd_minor m f s = Some s' \<Longrightarrow> (\<And>mp. view_of (f mp) = view_of mp) \<Longrightarrow> same_links s s'"
  by (auto simp: upd_minor_def same_links_def files_def mview_def fun_eq_iff)

lemma upd_cdev_links [keeps_links]:
  "upd_cdev c f s = Some s' \<Longrightarrow> (\<And>cd. cd_nccis (f cd) = cd_nccis cd) \<Longrightarrow> same_links s s'"
  by (auto simp: upd_cdev_def same_links_def files_def mview_def fun_eq_iff)

lemma kmalloc_links: "kmalloc cfg s = (p, s') \<Longrightarrow> same_links s s' \<and> (p = None \<or> p = Some (brk s)) \<and> brk s' = brk s + 1"
  by (auto simp: kmalloc_def same_links_def files_def mview_def fun_eq_iff split: if_splits)

lemma core_links [simp]: "same_links s (s\<lparr>cs_core := c\<rparr>)" "same_links s (s\<lparr>driver_data := d\<rparr>)"
  "same_links s (s\<lparr>capidev_list := cl\<rparr>)" "same_links s (tty_event (ReceiveBuf t bs) s)" "same_links s (tty_event (WriteWakeup t) s)"
  "same_links s (tty_event (Hangup t) s)"
  by (auto simp: same_links_def files_def mview_def fun_eq_iff tty_event_def)

lemma put_capi_message_links: "put_capi_message cfg a m s = Some (r, s') \<Longrightarrow> same_links s s'"
  by (auto simp: put_capi_message_def)

lemma get_capi_message_links: "get_capi_message a s = Some (r, m, s') \<Longrightarrow> same_links s s'"
  by (auto simp: get_capi_message_def split: if_splits)

lemma capinc_tty_throttle_links: "capinc_tty_throttle t s = Some s' \<Longrightarrow> same_links s s'"
  by (auto simp: capinc_tty_throttle_def split: option.splits elim!: upd_minor_links)

lemma ldisc_receive_links: "ldisc_receive cfg t bs s = Some s' \<Longrightarrow> same_links s s'"
  by (auto simp: ldisc_receive_def Let_def split: if_splits
    dest!: capinc_tty_throttle_links intro: same_links_trans [OF core_links(4)])

lemma gen_data_b3_resp_for_links:
  assumes "gen_data_b3_resp_for cfg m skb s = Some (r, s')"
  shows "same_links s s'"
proof (cases "kmalloc cfg s")
  case (Pair p s1)
  note k = conjunct1 [OF kmalloc_links [OF Pair]]
  show ?thesis
  proof (cases p)
    case None
    with assms Pair k show ?thesis by (simp add: gen_data_b3_resp_for_def)
  next
    case (Some q)
    with assms Pair obtain f where "upd_minor m f s1 = Some s'" and "\<And>mp. view_of (f mp) = view_of mp"
      by (auto simp: gen_data_b3_resp_for_def)
    with k show ?thesis by (blast intro: same_links_trans upd_minor_links)
  qed
qed

lemma handle_recv_skb_links:
  assumes "handle_recv_skb cfg m skb s = Some (r, s')"
  shows "same_links s s'"
  using assms unfolding handle_recv_skb_def
  by (auto simp: Let_def split: option.splits if_splits
    dest!: gen_data_b3_resp_for_links put_capi_message_links ldisc_receive_links; auto simp: same_links_def)

lemma minor_recv_links: "minor_recv cfg m q s = Some s' \<Longrightarrow> same_links s s'"
proof (induction q arbitrary: s)
  case (Cons skb q)
  from Cons.prems obtain s1 ok s2 where
    s1: "upd_minor m (\<lambda>mp. mp\<lparr>inqueue := q, inbytes := inbytes mp - int (length skb)\<rparr>) s = Some s1"
    and s2: "handle_recv_skb cfg m skb s1 = Some (ok, s2)"
    and s': "if ok then minor_recv cfg m q s2 = Some s' else
      upd_minor m (\<lambda>mp. mp\<lparr>inqueue := skb # inqueue mp, inbytes := inbytes mp + int (length skb)\<rparr>) s2 = Some s'"
    by (auto simp: Let_def split: if_splits)
  from upd_minor_links [OF s1] handle_recv_skb_links [OF s2] have "same_links s s2"
    by (auto intro: same_links_trans)
  moreover have "same_links s2 s'"
    using s' Cons.IH upd_minor_links [of m _ s2 s'] by (cases ok) auto
  ultimately show ?case by (rule same_links_trans)
qed simp

lemma handle_minor_recv_links: "handle_minor_recv cfg m s = Some s' \<Longrightarrow> same_links s s'"
  by (auto simp: handle_minor_recv_def dest: minor_recv_links)

lemma kmalloc_links_snd [simp]: "same_links s (snd (kmalloc cfg s))"
  by (cases "kmalloc cfg s") (simp add: kmalloc_links)

lemma ack_view [simp]:
  "view_of (snd (capincci_add_ack b h mp)) = view_of mp" "view_of (snd (capiminor_del_ack h mp)) = view_of mp"
  by (simp_all add: capincci_add_ack_def capiminor_del_ack_def split: option.splits)

lemma send_skb_links: "send_skb cfg m data s = Some (r, s') \<Longrightarrow> same_links s s'"
  unfolding send_skb_def
  by (auto simp: Let_def split: prod.splits if_splits
      dest!: upd_minor_links put_capi_message_links kmalloc_links [THEN conjunct1]; auto simp: same_links_def)

lemma minor_send_links: "minor_send cfg m n q s = Some (k, s') \<Longrightarrow> same_links s s'"
proof (induction q arbitrary: n s)
  case (Cons data q)
  from Cons.prems obtain s1 r s2 where s1: "upd_minor m (\<lambda>mp. mp\<lparr>outqueue := q\<rparr>) s = Some s1"
    and s2: "send_skb cfg m data s1 = Some (r, s2)"
    and rest: "(case r of Sent \<Rightarrow> minor_send cfg m (n + 1) q s2
       | Again \<Rightarrow> do { s \<leftarrow> upd_minor m (\<lambda>mp. mp\<lparr>outqueue := data # outqueue mp\<rparr>) s2; Some (n, s) }
       | Dropped \<Rightarrow> minor_send cfg m n q s2) = Some (k, s')"
    by auto
  from upd_minor_links [OF s1] send_skb_links [OF s2] have "same_links s s2"
    by (auto intro: same_links_trans)
  moreover have "same_links s2 s'"
    using rest Cons.IH by (cases r) (auto dest!: upd_minor_links)
  ultimately show ?case by (rule same_links_trans)
qed simp

lemma handle_minor_send_links: "handle_minor_send cfg m s = Some (k, s') \<Longrightarrow> same_links s s'"
  by (auto simp: handle_minor_send_def dest: minor_send_links split: if_splits)

lemma recv_tail_links: "recv_tail cdev skb s = Some s' \<Longrightarrow> same_links s s'"
  by (auto simp: recv_tail_def dest: upd_cdev_links)

lemma recv_data_links: "recv_data cfg cdev m skb s = Some s' \<Longrightarrow> same_links s s'"
  unfolding recv_data_def
  by (auto simp: Let_def tty_event_def split: if_splits option.splits
      dest!: upd_minor_links handle_minor_recv_links handle_minor_send_links recv_tail_links;
      auto simp: same_links_def)

lemma flush_ttyskb_links: "flush_ttyskb m s = Some s' \<Longrightarrow> same_links s s'"
  unfolding flush_ttyskb_def by (erule upd_minor_links) (simp split: option.splits)

lemma tty_links:
  "capinc_tty_open cfg t k s = Some (r, s') \<Longrightarrow> same_links s s'"
  "capinc_tty_write cfg t buf fault s = Some (r, s') \<Longrightarrow> same_links s s'"
  "capinc_tty_put_char cfg t ch s = Some s' \<Longrightarrow> same_links s s'"
  "capinc_tty_flush_chars cfg t s = Some s' \<Longrightarrow> same_links s s'"
  "capinc_tty_unthrottle cfg t s = Some s' \<Longrightarrow> same_links s s'"
  "capinc_tty_stop t s = Some s' \<Longrightarrow> same_links s s'"
  "capinc_tty_start cfg t s = Some s' \<Longrightarrow> same_links s s'"
  unfolding capinc_tty_open_def capinc_tty_write_def capinc_tty_put_char_def capinc_tty_flush_chars_def
    capinc_tty_unthrottle_def capinc_tty_stop_def capinc_tty_start_def
  by (auto simp: Let_def split: option.splits prod.splits if_splits
      dest!: upd_minor_links flush_ttyskb_links handle_minor_recv_links handle_minor_send_links
        kmalloc_links [THEN conjunct1]; auto simp: same_links_def)+

section \<open>Minors\<close>

text \<open>The search finds the least number that no minor has.\<close>

lemma scan_minors_sorted:
  assumes "set ps \<subseteq> dom (minors s)" and "sorted_wrt (<) (map (mnum s) ps)" and "\<forall>p\<in>set ps. k \<le> mnum s p"
  shows "\<exists>j before after. scan_minors s k ps = Some (j, before, after) \<and> ps = before @ after \<and> k \<le> j \<and>
    map (mnum s) before = [k..<j] \<and> (\<forall>p\<in>set after. j < mnum s p)"
  using assms
proof (induction ps arbitrary: k)
  case (Cons p ps)
  then obtain mp where mp: "minors s p = Some mp" and num: "mnum s p = minor mp" by (auto simp: mnum_def)
  show ?case
  proof (cases "minor mp > k")
    case True
    with Cons.prems mp num show ?thesis by (intro exI [of _ k] exI [of _ "[]"] exI [of _ "p # ps"]) auto
  next
    case False
    with Cons.prems(3) num have k: "mnum s p = k" by simp
    have "\<forall>q\<in>set ps. k + 1 \<le> mnum s q" using Cons.prems(2) k by auto
    with Cons.IH [of "k + 1"] Cons.prems obtain j before after where ih: "scan_minors s (k + 1) ps = Some (j, before, after)"
      "ps = before @ after" "k + 1 \<le> j" "map (mnum s) before = [k + 1..<j]" "\<forall>p\<in>set after. j < mnum s p" by auto
    have "map (mnum s) (p # before) = [k..<j]" using ih(3,4) k upt_conv_Cons [of k j] by simp
    with ih mp False show ?thesis by (intro exI [of _ j] exI [of _ "p # before"] exI [of _ after]) auto
  qed
qed simp

text \<open>The state in which a new minor has been added with number \<open>k\<close>.\<close>

definition with_minor :: "nat \<Rightarrow> nat \<Rightarrow> nat list \<Rightarrow> nat list \<Rightarrow> nat \<Rightarrow> u32 \<Rightarrow> capist \<Rightarrow> capist" where
  "with_minor m k before after ap ncci s =
     s\<lparr>minors := (minors s)(m \<mapsto> zero_minor\<lparr>mn_ap := ap, mn_ncci := ncci, minor := k\<rparr>),
       capiminor_list := before @ m # after\<rparr>"

lemma scan_minors_cong: "minors s' m \<noteq> None \<Longrightarrow> m \<notin> set ps \<Longrightarrow> (\<And>p. p \<noteq> m \<Longrightarrow> minors s' p = minors s p) \<Longrightarrow>
    scan_minors s' k ps = scan_minors s k ps"
  by (induction ps arbitrary: k) (auto cong: if_cong)

lemma capiminor_alloc_cases:
  assumes ok: "minors_ok lim s" and fresh: "fresh_ok s" and lim: "lim = capi_ttyminors cfg" "0 < lim"
    and b: "capiminor_alloc cfg ap ncci s = Some (r, s')"
  shows "(r = None \<and> same_links s s' \<and> minors s' = minors s \<and>
       (alloc_ok cfg (brk s) \<longrightarrow> (\<forall>k<lim. \<exists>m\<in>set (capiminor_list s). mnum s m = k))) \<or>
     (\<exists>k before after. r = Some (brk s) \<and> s' = with_minor (brk s) k before after ap ncci (s\<lparr>brk := brk s + 1\<rparr>) \<and>
        capiminor_list s = before @ after \<and> k < lim \<and> map (mnum s) before = [0..<k] \<and>
        (\<forall>p\<in>set after. k < mnum s p))"
proof (cases "alloc_ok cfg (brk s)")
  case False
  with b show ?thesis by (auto simp: capiminor_alloc_def kmalloc_def same_links_def)
next
  case True
  let ?m = "brk s" and ?s0 = "s\<lparr>brk := brk s + 1\<rparr>"
  let ?s1 = "?s0\<lparr>minors := (minors s)(?m \<mapsto> zero_minor\<lparr>mn_ap := ap, mn_ncci := ncci\<rparr>)\<rparr>"
  from fresh have new: "minors s ?m = None" by (simp add: fresh_ok_def)
  have out: "?m \<notin> set (capiminor_list s)" using ok new by (auto simp: minors_ok_def)
  show ?thesis
  proof (cases "capiminor_list s = []")
    case nil: True
    have "\<not> (lim \<le> 0)" using lim(2) by simp
    with b True nil lim show ?thesis
      by (auto simp: capiminor_alloc_def kmalloc_def Let_def with_minor_def zero_minor_def)
  next
    case ne: False
    have "scan_minors ?s1 0 (capiminor_list s) = scan_minors s 0 (capiminor_list s)"
      by (rule scan_minors_cong [of _ ?m]) (use out in auto)
    moreover from scan_minors_sorted [of "capiminor_list s" s 0] ok obtain j before after
      where sc: "scan_minors s 0 (capiminor_list s) = Some (j, before, after)" "capiminor_list s = before @ after"
        "map (mnum s) before = [0..<j]" "\<forall>p\<in>set after. j < mnum s p" by (auto simp: minors_ok_def)
    ultimately have sc1: "scan_minors ?s1 0 (capiminor_list s) = Some (j, before, after)" by simp
    show ?thesis
    proof (cases "j < lim")
      case j: True
      have "r = Some ?m \<and> s' = with_minor ?m j before after ap ncci ?s0"
        using b True ne sc1 j lim by (simp add: capiminor_alloc_def kmalloc_def Let_def upd_minor_def with_minor_def)
      with sc j show ?thesis by blast
    next
      case j: False
      have "r = None \<and> s' = ?s0" using b True ne sc1 j lim new
        by (auto simp: capiminor_alloc_def kmalloc_def Let_def fun_upd_idem)
      moreover have "\<exists>m\<in>set (capiminor_list s). mnum s m = k" if "k < lim" for k
      proof -
        from that j have "k \<in> set (map (mnum s) before)" unfolding sc(3) by simp
        with sc(2) show ?thesis by auto
      qed
      ultimately show ?thesis by (auto simp: same_links_def)
    qed
  qed
qed

text \<open>The nodes when a minor gets or loses its NCCI.\<close>

lemma live_nodes_same:
  "(\<And>np k a i. mv m \<noteq> Some (Some np, k, a, i)) \<Longrightarrow> (\<And>np k a i. v \<noteq> Some (Some np, k, a, i)) \<Longrightarrow>
   live_nodes (mv(m := v)) = live_nodes mv"
proof -
  assume a: "\<And>np k a i. mv m \<noteq> Some (Some np, k, a, i)" "\<And>np k a i. v \<noteq> Some (Some np, k, a, i)"
  have "(mv(m := v)) m' = Some (Some np, k, ap, i) \<longleftrightarrow> mv m' = Some (Some np, k, ap, i)" for m' np k ap i
    using a by (cases "m' = m") simp_all
  then show ?thesis by (simp add: live_nodes_def)
qed

lemma minors_numbers:
  assumes "minors_ok lim s" and "mview s m = Some (x, k, a, i)" and "mview s m' = Some (x', k, a', i')"
  shows "m = m'"
proof -
  have "inj_on (mnum s) (set (capiminor_list s))"
    using assms(1) unfolding minors_ok_def strict_sorted_iff distinct_map by blast
  moreover have "m \<in> set (capiminor_list s)" "m' \<in> set (capiminor_list s)"
    using assms mview_dom [of s m] mview_dom [of s m'] by (auto simp: minors_ok_def)
  moreover have "mnum s m = mnum s m'" using assms(2,3) by (simp add: mnum_mview)
  ultimately show ?thesis by (simp add: inj_on_eq_iff)
qed

lemma live_nodes_ran: "live_nodes mv = (\<lambda>v. fst (snd v)) ` {v \<in> ran mv. fst v \<noteq> None}"
proof -
  have "k \<in> live_nodes mv \<longleftrightarrow> (\<exists>v\<in>ran mv. fst v \<noteq> None \<and> k = fst (snd v))" for k
    unfolding live_nodes_def ran_def by fastforce
  then show ?thesis by blast
qed

lemma live_nodes_upd:
  "live_nodes (mv(m \<mapsto> (x, k, r))) = (if x = None then {} else {k}) \<union> live_nodes (mv(m := None))"
proof -
  have "ran (mv(m \<mapsto> (x, k, r))) = insert (x, k, r) (ran (mv(m := None)))"
    using ran_map_upd [of "mv(m := None)" m] by simp
  then have "{v \<in> ran (mv(m \<mapsto> (x, k, r))). fst v \<noteq> None} = (if x = None then {} else {(x, k, r)}) \<union> {v \<in> ran (mv(m := None)). fst v \<noteq> None}"
    by auto
  then show ?thesis unfolding live_nodes_ran by (simp only: image_Un) simp
qed

lemma other_nodes:
  assumes "minors_ok lim s" and "mview s m = Some (x, k, r)"
  shows "k \<notin> live_nodes ((mview s)(m := None))" "live_nodes (mview s) = (if x = None then {} else {k}) \<union> live_nodes ((mview s)(m := None))"
proof -
  obtain a i where r: "r = (a, i)" by (cases r)
  show "k \<notin> live_nodes ((mview s)(m := None))"
  proof
    assume "k \<in> live_nodes ((mview s)(m := None))"
    then obtain m' np a' i' where "((mview s)(m := None)) m' = Some (Some np, k, a', i')" unfolding live_nodes_def by blast
    then have "m' \<noteq> m" "mview s m' = Some (Some np, k, a', i')" by (auto split: if_splits)
    with minors_numbers [OF assms(1) assms(2) [unfolded r]] show False by blast
  qed
  have "(mview s)(m \<mapsto> (x, k, r)) = mview s" using assms(2) by (simp add: fun_upd_idem)
  with live_nodes_upd [of "mview s" m x k r]
  show "live_nodes (mview s) = (if x = None then {} else {k}) \<union> live_nodes ((mview s)(m := None))" by simp
qed

lemma live_nodes_link:
  assumes "minors_ok lim s" and "mview s m = Some (None, k, a, i)"
  shows "k \<notin> live_nodes (mview s)" "live_nodes ((mview s)(m \<mapsto> (Some np, k, a, i))) = insert k (live_nodes (mview s))"
  using other_nodes [OF assms] by (simp_all add: live_nodes_upd)

lemma live_nodes_unlink:
  assumes "minors_ok lim s" and "mview s m = Some (Some np, k, a, i)"
  shows "k \<in> live_nodes (mview s)" "live_nodes ((mview s)(m \<mapsto> (None, k, a, i))) = live_nodes (mview s) - {k}"
  using other_nodes [OF assms] by (simp_all add: live_nodes_upd)

text \<open>Adding a minor without an NCCI keeps the invariant.\<close>

lemma with_minor_ok:
  assumes ok: "capi_ok lim s" and m: "m < brk s" "minors s m = None"
    and l: "capiminor_list s = before @ after" and k: "k < lim" "map (mnum s) before = [0..<k]" "\<forall>p\<in>set after. k < mnum s p"
  shows "capi_ok lim (with_minor m k before after ap ncci s)"
proof -
  let ?s = "with_minor m k before after ap ncci s"
  from ok l have lst: "set before \<union> set after = dom (minors s)" "sorted_wrt (<) (map (mnum s) (before @ after))"
    "\<forall>p\<in>set before \<union> set after. mnum s p < lim" by (auto simp: capi_ok_def minors_ok_def)
  with m(2) have out: "m \<notin> set before" "m \<notin> set after" by auto
  have num: "mnum ?s = (mnum s)(m := k)" by (auto simp: mnum_def with_minor_def zero_minor_def fun_eq_iff)
  have mb: "map (mnum ?s) before = [0..<k]" and ma: "map (mnum ?s) after = map (mnum s) after"
  proof -
    have "map ((mnum s)(m := k)) xs = map (mnum s) xs" if "m \<notin> set xs" for xs
      using that by (intro map_cong) auto
    with out k(2) show "map (mnum ?s) before = [0..<k]" and "map (mnum ?s) after = map (mnum s) after"
      unfolding num by simp_all
  qed
  have lt: "\<forall>p\<in>set before. mnum s p < k" using arg_cong [OF k(2), of set] by auto
  have "sorted_wrt (<) (map (mnum s) after)" using lst(2) by (simp add: sorted_wrt_append)
  then have "sorted_wrt (<) (map (mnum ?s) (before @ m # after))"
    using lt k(3) unfolding map_append list.map mb ma by (auto simp: sorted_wrt_append num)
  moreover have "\<forall>p\<in>set (before @ m # after). mnum ?s p < lim" using lst(3) k(1) unfolding num by auto
  ultimately have "minors_ok lim ?s" using lst(1) by (auto simp: minors_ok_def with_minor_def)
  moreover have v: "files ?s = files s" "nccis ?s = nccis s" "mview ?s = (mview s)(m \<mapsto> (None, k, ap, ncci))" "brk ?s = brk s"
    "tty_log ?s = tty_log s"
    by (auto simp: with_minor_def files_def mview_def fun_eq_iff view_of_def zero_minor_def)
  moreover have "nccis_ok ?s" using ok v by (simp add: capi_ok_def nccis_ok_def)
  moreover have "links_ok ?s"
  proof -
    have "mview s m = None" using m(2) by (simp add: mview_def)
    moreover from this have "minorp n \<noteq> Some m" if "nccis s p = Some n" for p n
      using ok that unfolding capi_ok_def links_ok_def by (metis option.distinct(1))
    ultimately show ?thesis using ok unfolding links_ok_def v capi_ok_def by auto
  qed
  moreover have "fresh_ok ?s"
    using ok m(1) unfolding capi_ok_def fresh_ok_def v by (auto simp: with_minor_def)
  moreover have "live_nodes (mview ?s) = live_nodes (mview s)"
    unfolding v by (rule live_nodes_same) (use m(2) in \<open>simp_all add: mview_def\<close>)
  then have "nodes_ok lim ?s" using ok by (simp add: capi_ok_def nodes_ok_def v)
  ultimately show ?thesis by (simp add: capi_ok_def)
qed

section \<open>NCCIs\<close>

lemma files_upd_cdev:
  "upd_cdev c (\<lambda>cd. cd\<lparr>cd_nccis := f (cd_nccis cd)\<rparr>) s = Some s' \<Longrightarrow>
   \<exists>l. files s c = Some l \<and> files s' = (files s)(c \<mapsto> f l) \<and> nccis s' = nccis s \<and> minors s' = minors s \<and>
     mview s' = mview s \<and> capiminor_list s' = capiminor_list s \<and> brk s' = brk s \<and> tty_log s' = tty_log s"
  by (auto simp: upd_cdev_def files_def fun_eq_iff)

text \<open>Linking a new NCCI to a file and, if there is one, to a minor that has no NCCI yet.\<close>

lemma new_ncci_ok:
  assumes ok: "capi_ok lim s" and np: "np < brk s" "nccis s np = None"
    and c: "files s c = Some l" and n: "nc_cdev n = c"
    and m: "minorp n = None \<and> mv = mview s \<or>
      (\<exists>m k. minorp n = Some m \<and> mview s m = Some (None, k, c, nc_ncci n) \<and>
         mv = (mview s)(m \<mapsto> (Some np, k, c, nc_ncci n)))"
    and s': "files s' = (files s)(c \<mapsto> l @ [np])" "nccis s' = (nccis s)(np \<mapsto> n)" "mview s' = mv"
      "capiminor_list s' = capiminor_list s" "brk s' = brk s"
      "tty_log s' = (case minorp n of None \<Rightarrow> tty_log s | Some m \<Rightarrow> CapifsNew (mnum s m) # tty_log s)"
  shows "capi_ok lim s'"
proof -
  have d: "minors s' p = None \<longleftrightarrow> minors s p = None" for p
    using m s'(3) mview_dom [of s p] mview_dom [of s' p] by (auto simp: fun_upd_def split: if_splits)
  have num: "mnum s' = mnum s"
    using m s'(3) by (auto simp: fun_eq_iff mnum_mview)
  have "minors_ok lim s'" using ok d s'(4) unfolding capi_ok_def minors_ok_def num dom_def by simp
  moreover have "nccis_ok s'"
  proof -
    have "np \<notin> set l'" if "files s c' = Some l'" for c' l'
      using ok that np(2) unfolding capi_ok_def nccis_ok_def by (metis option.distinct(1))
    then have nin: "np \<notin> set l'" if "files s c' = Some l'" for c' l' using that by blast
    show ?thesis unfolding nccis_ok_def s'(1,2)
    proof (intro conjI allI impI)
      fix c' l' assume l': "((files s)(c \<mapsto> l @ [np])) c' = Some l'"
      show "distinct l'" using ok l' c nin [OF c] by (auto simp: capi_ok_def nccis_ok_def split: if_splits)
      show "\<forall>p\<in>set l'. \<exists>n'. ((nccis s)(np \<mapsto> n)) p = Some n' \<and> nc_cdev n' = c'"
        using ok l' c nin n by (fastforce simp: capi_ok_def nccis_ok_def split: if_splits)
    next
      fix p n' assume n': "((nccis s)(np \<mapsto> n)) p = Some n'"
      show "\<exists>l'. ((files s)(c \<mapsto> l @ [np])) (nc_cdev n') = Some l' \<and> p \<in> set l'"
      proof (cases "p = np")
        case False
        with n' ok obtain l'' where "files s (nc_cdev n') = Some l''" "p \<in> set l''"
          unfolding capi_ok_def nccis_ok_def by (metis fun_upd_other)
        with c show ?thesis by (cases "nc_cdev n' = c") auto
      qed (use n' n in simp)
    qed
  qed
  moreover have "links_ok s'"
  proof -
    have none: "mview s m' \<noteq> Some (Some np, k', a', i')" for m' k' a' i'
      using ok np(2) unfolding capi_ok_def links_ok_def by (metis option.distinct(1))
    from m show ?thesis
    proof
      assume m: "minorp n = None \<and> mv = mview s"
      with ok np none show ?thesis unfolding capi_ok_def links_ok_def s'(2,3) by auto
    next
      assume "\<exists>m k. minorp n = Some m \<and> mview s m = Some (None, k, c, nc_ncci n) \<and>
         mv = (mview s)(m \<mapsto> (Some np, k, c, nc_ncci n))"
      then obtain m k where mk: "minorp n = Some m" "mview s m = Some (None, k, c, nc_ncci n)"
        "mv = (mview s)(m \<mapsto> (Some np, k, c, nc_ncci n))" by blast
      have "minorp n' \<noteq> Some m" if "nccis s p' = Some n'" for p' n'
        using ok that mk(2) unfolding capi_ok_def links_ok_def by (metis option.distinct(1) option.inject prod.inject)
      with ok np n none mk show ?thesis unfolding capi_ok_def links_ok_def s'(2,3) mk(3) by auto
    qed
  qed
  moreover have "fresh_ok s'"
    using ok np(1) c d unfolding capi_ok_def fresh_ok_def s' by (auto split: if_splits)
  moreover have "nodes_ok lim s'"
  proof -
    have mo: "minors_ok lim s" and N: "nodes (tty_log s) = Some (live_nodes (mview s))" "made (tty_log s) \<subseteq> {..<lim}"
      using ok by (simp_all add: capi_ok_def nodes_ok_def)
    have lt: "k < lim" if "mview s m = Some (x, k, r)" for m x k r
    proof -
      from that mo have "mnum s m < lim" by (auto simp: minors_ok_def mview_def)
      with that show ?thesis by (cases r) (simp add: mnum_mview)
    qed
    from m show ?thesis
      using live_nodes_link [OF mo] by (elim disjE) (use N(2) in \<open>auto simp: nodes_ok_def s' N(1) mnum_mview lt\<close>)
  qed
  ultimately show ?thesis by (simp add: capi_ok_def)
qed

lemma capincci_alloc_ok:
  assumes ok: "capi_ok lim s" and lim: "lim = capi_ttyminors cfg" "0 < lim"
    and a: "capincci_alloc cfg c ncci s = Some (r, s')"
  shows "capi_ok lim s'"
proof (cases "alloc_ok cfg (brk s)")
  case False
  with a have "same_links s s'" by (auto simp: capincci_alloc_def kmalloc_def same_links_def)
  then show ?thesis using ok by (rule same_links_ok)
next
  case True
  let ?s1 = "s\<lparr>brk := Suc (brk s)\<rparr>"
  have "same_links s ?s1" by (simp add: same_links_def)
  then have ok1: "capi_ok lim ?s1" using ok by (rule same_links_ok)
  from a True obtain cd mp s2 where cd: "cdevs s c = Some cd"
    and s2: "(if userflags cd AND CAPIFLAG_HIGHJACKING \<noteq> 0 then capiminor_alloc cfg c ncci ?s1 else Some (None, ?s1)) = Some (mp, s2)"
    and rest: "(let s = s2\<lparr>nccis := (nccis s2)(brk s \<mapsto> \<lparr>nc_ncci = ncci, nc_cdev = c, minorp = mp\<rparr>)\<rparr> in do {
          s \<leftarrow> (case mp of None \<Rightarrow> Some s
               | Some m \<Rightarrow> do {
                   s \<leftarrow> upd_minor m (\<lambda>mp. mp\<lparr>nccip := Some np\<rparr>) s;
                   mp \<leftarrow> minors s m;
                   Some (tty_event (CapifsNew (minor mp)) s) });
          s \<leftarrow> upd_cdev c (\<lambda>cd. cd\<lparr>cd_nccis := cd_nccis cd @ [np]\<rparr>) s;
          Some (Some np, s) }) = Some (r, s')" if "np = brk s" for np
    by (auto simp: capincci_alloc_def kmalloc_def)
  note rest = rest [OF refl, unfolded Let_def]
  let ?n = "\<lparr>nc_ncci = ncci, nc_cdev = c, minorp = mp\<rparr>"
  have c: "files s c = Some (cd_nccis cd)" using cd by (simp add: files_def)
  have new: "nccis s (brk s) = None" using ok by (simp add: capi_ok_def fresh_ok_def)
  have "(mp = None \<and> same_links ?s1 s2) \<or>
      (\<exists>k before after. mp = Some (Suc (brk s)) \<and> s2 = with_minor (Suc (brk s)) k before after c ncci (?s1\<lparr>brk := Suc (Suc (brk s))\<rparr>) \<and>
        capiminor_list s = before @ after \<and> k < lim \<and> map (mnum s) before = [0..<k] \<and> (\<forall>p\<in>set after. k < mnum s p))"
  proof (cases "userflags cd AND CAPIFLAG_HIGHJACKING \<noteq> 0")
    case True
    have num: "mnum ?s1 = mnum s" by (simp add: mnum_def fun_eq_iff)
    from True s2 have "capiminor_alloc cfg c ncci ?s1 = Some (mp, s2)" by simp
    from capiminor_alloc_cases [OF _ _ lim this] ok1 show ?thesis by (simp add: capi_ok_def num) blast
  qed (use s2 in simp)
  then show ?thesis
  proof (elim disjE exE conjE)
    assume mp: "mp = None" and sl: "same_links ?s1 s2"
    have ok2: "capi_ok lim s2" by (rule same_links_ok [OF sl ok1])
    from rest mp obtain s3 where s3: "upd_cdev c (\<lambda>cd. cd\<lparr>cd_nccis := cd_nccis cd @ [brk s]\<rparr>) (s2\<lparr>nccis := (nccis s2)(brk s \<mapsto> ?n)\<rparr>) = Some s3"
      and s': "s' = s3" by auto
    show ?thesis
      by (rule new_ncci_ok [OF ok2, of "brk s" c "cd_nccis cd" ?n "mview s2"])
        (use files_upd_cdev [OF s3] sl c new mp in \<open>auto simp: same_links_def s'\<close>)
  next
    fix k before after
    let ?m = "Suc (brk s)"
    assume mp: "mp = Some ?m" and s2: "s2 = with_minor ?m k before after c ncci (?s1\<lparr>brk := Suc (Suc (brk s))\<rparr>)"
      and l: "capiminor_list s = before @ after" and k: "k < lim" "map (mnum s) before = [0..<k]" "\<forall>p\<in>set after. k < mnum s p"
    have newm: "minors s ?m = None" using ok by (simp add: capi_ok_def fresh_ok_def)
    have "same_links ?s1 (?s1\<lparr>brk := Suc (Suc (brk s))\<rparr>)" by (simp add: same_links_def)
    from same_links_ok [OF this ok1] have ok12: "capi_ok lim (?s1\<lparr>brk := Suc (Suc (brk s))\<rparr>)" .
    have num: "mnum (s\<lparr>brk := b\<rparr>) = mnum s" for b by (simp add: mnum_def fun_eq_iff)
    have ok2: "capi_ok lim s2" unfolding s2
      by (rule with_minor_ok [OF ok12]) (use newm l k in \<open>simp_all add: num\<close>)
    have v2: "files s2 = files s" "nccis s2 = nccis s" "mview s2 = (mview s)(?m \<mapsto> (None, k, c, ncci))"
      "capiminor_list s2 = before @ ?m # after" "brk s2 = Suc (Suc (brk s))"
      by (auto simp: s2 with_minor_def files_def mview_def fun_eq_iff view_of_def zero_minor_def)
    have m2: "minors s2 ?m = Some (zero_minor\<lparr>mn_ap := c, mn_ncci := ncci, minor := k\<rparr>)" by (simp add: s2 with_minor_def)
    from rest mp m2 obtain s3 where
      s3: "upd_cdev c (\<lambda>cd. cd\<lparr>cd_nccis := cd_nccis cd @ [brk s]\<rparr>) (tty_event (CapifsNew k)
          (s2\<lparr>nccis := (nccis s2)(brk s \<mapsto> ?n),
              minors := (minors s2)(?m \<mapsto> zero_minor\<lparr>mn_ap := c, mn_ncci := ncci, minor := k, nccip := Some (brk s)\<rparr>)\<rparr>)) = Some s3"
      and s': "s' = s3" by (auto simp: upd_minor_def zero_minor_def)
    from files_upd_cdev [OF s3] have f3: "files s3 = (files s)(c \<mapsto> cd_nccis cd @ [brk s])" and
      s3': "tty_log s3 = CapifsNew k # tty_log s2" "nccis s3 = (nccis s)(brk s \<mapsto> ?n)" "capiminor_list s3 = capiminor_list s2" "brk s3 = brk s2"
      "minors s3 = (minors s2)(?m \<mapsto> zero_minor\<lparr>mn_ap := c, mn_ncci := ncci, minor := k, nccip := Some (brk s)\<rparr>)"
      using c v2 by (auto simp: tty_event_def)
    have "mview s3 = (mview s2)(?m \<mapsto> (Some (brk s), k, c, ncci))"
      by (auto simp: mview_def s3'(5) fun_eq_iff view_of_def zero_minor_def)
    then show ?thesis
      by (intro new_ncci_ok [OF ok2, of "brk s" c "cd_nccis cd" ?n]) (use f3 s3' v2 c new mp m2 in \<open>auto simp: s' mnum_def\<close>)
  qed
qed

text \<open>Taking an NCCI out of its file and separating it from its minor.\<close>

lemma unlink_ncci_ok:
  assumes ok: "capi_ok lim s" and n: "nccis s np = Some n" "nc_cdev n = c"
    and c: "files s c = Some l" "set l' = set l - {np}" "distinct l'"
    and m: "minorp n = None \<and> mv = mview s \<or>
      (\<exists>m k. minorp n = Some m \<and> mview s m = Some (Some np, k, c, nc_ncci n) \<and>
         mv = (mview s)(m \<mapsto> (None, k, c, nc_ncci n)))"
    and s': "files s' = (files s)(c \<mapsto> l')" "nccis s' = (nccis s)(np := None)" "mview s' = mv"
      "capiminor_list s' = capiminor_list s" "brk s' = brk s"
      "tty_log s' = (case minorp n of None \<Rightarrow> tty_log s | Some m \<Rightarrow> CapifsFree (mnum s m) # tty_log s)"
  shows "capi_ok lim s'"
proof -
  have d: "minors s' p = None \<longleftrightarrow> minors s p = None" for p
    using m s'(3) mview_dom [of s p] mview_dom [of s' p] by (auto simp: fun_upd_def split: if_splits)
  have num: "mnum s' = mnum s" using m s'(3) by (auto simp: fun_eq_iff mnum_mview)
  have "minors_ok lim s'" using ok d s'(4) unfolding capi_ok_def minors_ok_def num dom_def by simp
  moreover have "nccis_ok s'"
    unfolding nccis_ok_def s'(1,2)
  proof (intro conjI allI impI)
    have own: "c' = c" if "files s c' = Some l''" "np \<in> set l''" for c' l''
      using ok that n unfolding capi_ok_def nccis_ok_def by fastforce
    fix c' l'' assume l'': "((files s)(c \<mapsto> l')) c' = Some l''"
    show "distinct l''" using ok l'' c(3) by (auto simp: capi_ok_def nccis_ok_def split: if_splits)
    show "\<forall>p\<in>set l''. \<exists>n'. ((nccis s)(np := None)) p = Some n' \<and> nc_cdev n' = c'"
    proof (cases "c' = c")
      case True
      with l'' c ok show ?thesis by (auto simp: capi_ok_def nccis_ok_def)
    next
      case False
      with l'' own [of c' l''] ok show ?thesis by (auto simp: capi_ok_def nccis_ok_def)
    qed
  next
    fix p n' assume n': "((nccis s)(np := None)) p = Some n'"
    then have "p \<noteq> np" and "nccis s p = Some n'" by (auto split: if_splits)
    with ok obtain l'' where "files s (nc_cdev n') = Some l''" "p \<in> set l''"
      unfolding capi_ok_def nccis_ok_def by metis
    with c \<open>p \<noteq> np\<close> show "\<exists>l''. ((files s)(c \<mapsto> l')) (nc_cdev n') = Some l'' \<and> p \<in> set l''"
      by (cases "nc_cdev n' = c") auto
  qed
  moreover have "links_ok s'"
  proof -
    have uniq: "p = np" if "nccis s p = Some n'" "minorp n' = Some m" "mview s m = Some (Some np, k, c, i)" for p n' m k i
      using ok that unfolding capi_ok_def links_ok_def by (metis option.inject prod.inject)
    from m show ?thesis
    proof
      assume m: "minorp n = None \<and> mv = mview s"
      have "mview s m' \<noteq> Some (Some np, k', a', i')" for m' k' a' i'
        using ok n m unfolding capi_ok_def links_ok_def by (metis option.distinct(1) option.inject)
      with ok m show ?thesis unfolding capi_ok_def links_ok_def s'(2,3) by auto
    next
      assume "\<exists>m k. minorp n = Some m \<and> mview s m = Some (Some np, k, c, nc_ncci n) \<and>
         mv = (mview s)(m \<mapsto> (None, k, c, nc_ncci n))"
      then obtain m k where mk: "minorp n = Some m" "mview s m = Some (Some np, k, c, nc_ncci n)"
        "mv = (mview s)(m \<mapsto> (None, k, c, nc_ncci n))" by blast
      have only: "m' = m" if "mview s m' = Some (Some np, k', a', i')" for m' k' a' i'
        using ok that n mk(1) unfolding capi_ok_def links_ok_def by (metis option.inject)
      show ?thesis unfolding links_ok_def s'(2,3) mk(3)
      proof (intro conjI allI impI)
        fix p n' m' assume p: "((nccis s)(np := None)) p = Some n'" "minorp n' = Some m'"
        then have p': "p \<noteq> np" "nccis s p = Some n'" by (auto split: if_splits)
        with uniq [OF p'(2) p(2)] mk(2) have "m' \<noteq> m" by auto
        with ok p' p(2) show "\<exists>k'. ((mview s)(m \<mapsto> (None, k, c, nc_ncci n))) m' = Some (Some p, k', nc_cdev n', nc_ncci n')"
          unfolding capi_ok_def links_ok_def by auto
      next
        fix m' p k' a i assume m': "((mview s)(m \<mapsto> (None, k, c, nc_ncci n))) m' = Some (Some p, k', a, i)"
        then have "m' \<noteq> m" "mview s m' = Some (Some p, k', a, i)" by (auto split: if_splits)
        moreover from this only have "p \<noteq> np" by auto
        ultimately show "\<exists>n'. ((nccis s)(np := None)) p = Some n' \<and> minorp n' = Some m'"
          using ok unfolding capi_ok_def links_ok_def by auto
      qed
    qed
  qed
  moreover have "fresh_ok s'"
    using ok c d unfolding capi_ok_def fresh_ok_def s' by (auto split: if_splits)
  moreover have "nodes_ok lim s'"
  proof -
    have mo: "minors_ok lim s" and N: "nodes (tty_log s) = Some (live_nodes (mview s))" "made (tty_log s) \<subseteq> {..<lim}"
      using ok by (simp_all add: capi_ok_def nodes_ok_def)
    have lt: "k < lim" if "mview s m = Some (x, k, r)" for m x k r
    proof -
      from that mo have "mnum s m < lim" by (auto simp: minors_ok_def mview_def)
      with that show ?thesis by (cases r) (simp add: mnum_mview)
    qed
    from m show ?thesis
      using live_nodes_unlink [OF mo] by (elim disjE) (use N(2) in \<open>auto simp: nodes_ok_def s' N(1) mnum_mview lt\<close>)
  qed
  ultimately show ?thesis by (simp add: capi_ok_def)
qed

text \<open>Freeing a minor that no NCCI refers to.\<close>

lemma drop_minor_ok:
  assumes ok: "capi_ok lim s" and m: "mview s m = Some (None, k, a, i)"
  shows "capi_ok lim (s\<lparr>capiminor_list := remove1 m (capiminor_list s), minors := (minors s)(m := None)\<rparr>)"
proof -
  let ?s = "s\<lparr>capiminor_list := remove1 m (capiminor_list s), minors := (minors s)(m := None)\<rparr>"
  from ok have l: "set (capiminor_list s) = dom (minors s)" "sorted_wrt (<) (map (mnum s) (capiminor_list s))"
    "\<forall>p\<in>set (capiminor_list s). mnum s p < lim" by (simp_all add: capi_ok_def minors_ok_def)
  have num: "mnum ?s p = mnum s p" if "p \<noteq> m" for p using that by (simp add: mnum_def)
  from l(2) have dist: "distinct (capiminor_list s)"
    by (simp add: strict_sorted_iff distinct_map)
  have eq: "map (mnum ?s) (remove1 m (capiminor_list s)) = map (mnum s) (remove1 m (capiminor_list s))"
    using dist by (intro map_cong) (auto simp: num)
  have "sorted_wrt (<) (map (mnum s) (remove1 m (capiminor_list s)))"
    using l(2) by (auto simp: sorted_wrt_map intro: sorted_wrt_remove1)
  then have "sorted_wrt (<) (map (mnum ?s) (remove1 m (capiminor_list s)))" unfolding eq .
  moreover have "set (remove1 m (capiminor_list s)) = dom (minors s) - {m}" using l(1) dist by simp
  ultimately have "minors_ok lim ?s" using l(1,3) by (auto simp: minors_ok_def num)
  moreover have "nccis_ok ?s" using ok by (simp add: capi_ok_def nccis_ok_def)
  moreover have "links_ok ?s"
  proof -
    have v: "mview ?s = (mview s)(m := None)" by (auto simp: mview_def fun_eq_iff)
    have "minorp n \<noteq> Some m" if "nccis s p = Some n" for p n
      using ok m that unfolding capi_ok_def links_ok_def by (metis option.distinct(1) option.inject prod.inject)
    with ok show ?thesis unfolding capi_ok_def links_ok_def v by auto
  qed
  moreover have "fresh_ok ?s" using ok by (simp add: capi_ok_def fresh_ok_def)
  moreover have "live_nodes (mview ?s) = live_nodes (mview s)"
  proof -
    have v: "mview ?s = (mview s)(m := None)" by (auto simp: mview_def fun_eq_iff)
    show ?thesis unfolding v by (rule live_nodes_same) (use m in simp_all)
  qed
  then have "nodes_ok lim ?s" using ok by (simp add: capi_ok_def nodes_ok_def)
  ultimately show ?thesis by (simp add: capi_ok_def)
qed

text \<open>One NCCI goes away, together with its minor if no terminal has it open.\<close>

lemma free_ncci_ok:
  assumes ok: "capi_ok lim s" and n: "nccis s np = Some n" and c: "files s c = Some l" "np \<in> set l"
    and s1: "files s1 = (files s)(c \<mapsto> remove1 np l)" "nccis s1 = nccis s" "minors s1 = minors s"
      "capiminor_list s1 = capiminor_list s" "brk s1 = brk s" "tty_log s1 = tty_log s"
    and s2: "(case minorp n of None \<Rightarrow> Some s1 | Some m \<Rightarrow> capincci_drop_minor m s1) = Some s2"
  shows "capi_ok lim (s2\<lparr>nccis := (nccis s2)(np := None)\<rparr>) \<and> files s2 = files s1"
proof -
  from ok c n have nc: "nc_cdev n = c" and dl: "distinct l" unfolding capi_ok_def nccis_ok_def by (auto, metis option.inject)
  then have l': "set (remove1 np l) = set l - {np}" "distinct (remove1 np l)" by simp_all
  have v1: "mview s1 = mview s" using s1(3) by (simp add: mview_def fun_eq_iff)
  show ?thesis
  proof (cases "minorp n")
    case None
    with s2 have "s2 = s1" by simp
    with unlink_ncci_ok [OF ok n nc c(1) l', of "mview s" "s1\<lparr>nccis := (nccis s1)(np := None)\<rparr>"] None s1 v1
    show ?thesis by simp
  next
    case (Some m)
    from ok n Some nc obtain k where k: "mview s m = Some (Some np, k, c, nc_ncci n)"
      unfolding capi_ok_def links_ok_def by blast
    then obtain mp where mp: "minors s m = Some mp" and vw: "view_of mp = (Some np, k, c, nc_ncci n)"
      by (auto simp: mview_eq_Some)
    let ?mv = "(mview s)(m \<mapsto> (None, k, c, nc_ncci n))"
    let ?mid = "s1\<lparr>minors := (minors s)(m \<mapsto> mp\<lparr>nccip := None\<rparr>), nccis := (nccis s)(np := None),
        tty_log := CapifsFree (minor mp) # tty_log s1\<rparr>"
    have num: "mnum s m = minor mp" using mp by (simp add: mnum_def)
    have vm: "view_of (mp\<lparr>nccip := None\<rparr>) = (None, k, c, nc_ncci n)" using vw by (simp add: view_of_def)
    have mvm: "mview ?mid = ?mv" using vm by (auto simp: mview_def fun_eq_iff)
    have mid: "capi_ok lim ?mid"
      by (rule unlink_ncci_ok [OF ok n nc c(1) l', of ?mv]) (use Some k mvm s1 num in simp_all)
    show ?thesis
    proof (cases "mn_tty mp")
      case (Some t)
      with s2 \<open>minorp n = Some m\<close> mp s1 have s2': "s2 = tty_event (Hangup t) (tty_event (CapifsFree (minor mp))
          (s1\<lparr>minors := (minors s)(m \<mapsto> mp\<lparr>nccip := None\<rparr>)\<rparr>))"
        by (auto simp: capincci_drop_minor_def upd_minor_def Let_def tty_event_def)
      have "same_links ?mid (s2\<lparr>nccis := (nccis s2)(np := None)\<rparr>)"
        unfolding s2' by (simp add: same_links_def tty_event_def s1(2))
      then show ?thesis using mid s2' by (auto simp: tty_event_def intro: same_links_ok)
    next
      case None
      with s2 \<open>minorp n = Some m\<close> mp s1 have s2': "s2 = (tty_event (CapifsFree (minor mp)) s1)
          \<lparr>capiminor_list := remove1 m (capiminor_list s1), minors := (minors s)(m := None)\<rparr>"
        by (auto simp: capincci_drop_minor_def capiminor_free_def Let_def tty_event_def)
      have "mview ?mid m = Some (None, k, c, nc_ncci n)" using mvm by simp
      from drop_minor_ok [OF mid this] have "capi_ok lim (?mid\<lparr>capiminor_list := remove1 m (capiminor_list ?mid),
          minors := (minors ?mid)(m := None)\<rparr>)" .
      moreover have "same_links (?mid\<lparr>capiminor_list := remove1 m (capiminor_list ?mid), minors := (minors ?mid)(m := None)\<rparr>)
          (s2\<lparr>nccis := (nccis s2)(np := None)\<rparr>)"
        unfolding s2' by (simp add: same_links_def tty_event_def s1(2) mview_def fun_eq_iff)
      ultimately show ?thesis using s2' by (auto simp: tty_event_def intro: same_links_ok)
    qed
  qed
qed

lemma free_nccis_ok:
  assumes "capi_ok lim s" and "files s c = Some (pre @ rest)" and "free_nccis c ncci pre rest s = Some s'"
  shows "capi_ok lim s' \<and> (\<exists>l. files s' = (files s)(c \<mapsto> l) \<and> set l \<subseteq> set (pre @ rest) \<and> (ncci = 0xffffffff \<longrightarrow> l = pre))"
  using assms
proof (induction rest arbitrary: pre s)
  case Nil
  then have "files s' = (files s)(c \<mapsto> pre)" and "capi_ok lim s'" by (simp_all add: fun_upd_idem)
  then show ?case by auto
next
  case (Cons np rest)
  from Cons.prems(3) obtain n where n: "nccis s np = Some n" by auto
  show ?case
  proof (cases "ncci = 0xffffffff \<or> nc_ncci n = ncci")
    case False
    with Cons.IH [of s "pre @ [np]"] Cons.prems n show ?thesis by simp
  next
    case True
    with Cons.prems(3) n obtain s1 s2 where
      s1: "upd_cdev c (\<lambda>cd. cd\<lparr>cd_nccis := pre @ rest\<rparr>) s = Some s1"
      and s2: "(case minorp n of None \<Rightarrow> Some s1 | Some m \<Rightarrow> capincci_drop_minor m s1) = Some s2"
      and s': "(if rest = [] then Some (s2\<lparr>nccis := (nccis s2)(np := None)\<rparr>)
          else free_nccis c ncci pre rest (s2\<lparr>nccis := (nccis s2)(np := None)\<rparr>)) = Some s'"
      by (auto simp: Let_def)
    from files_upd_cdev [where f = "\<lambda>_. pre @ rest", OF s1] have f1: "files s1 = (files s)(c \<mapsto> pre @ rest)"
      "nccis s1 = nccis s" "minors s1 = minors s" "capiminor_list s1 = capiminor_list s" "brk s1 = brk s" "tty_log s1 = tty_log s" by auto
    have "distinct (pre @ np # rest)" using Cons.prems(1,2) unfolding capi_ok_def nccis_ok_def by blast
    then have r: "remove1 np (pre @ np # rest) = pre @ rest" by (simp add: remove1_append)
    let ?s3 = "s2\<lparr>nccis := (nccis s2)(np := None)\<rparr>"
    from free_ncci_ok [OF Cons.prems(1) n Cons.prems(2) _ _ f1(2-6) s2] f1(1) r
    have ok3: "capi_ok lim ?s3" and f3: "files ?s3 = (files s)(c \<mapsto> pre @ rest)" by simp_all
    show ?thesis
    proof (cases "rest = []")
      case True
      with s' ok3 f3 show ?thesis by auto
    next
      case False
      have "files ?s3 c = Some (pre @ rest)" unfolding f3 by simp
      moreover from s' False have "free_nccis c ncci pre rest ?s3 = Some s'" by (simp only: if_False)
      ultimately have "capi_ok lim s'" and "\<exists>l. files s' = (files ?s3)(c \<mapsto> l) \<and>
          set l \<subseteq> set (pre @ rest) \<and> (ncci = 0xffffffff \<longrightarrow> l = pre)" using Cons.IH [OF ok3] by blast+
      then show ?thesis unfolding f3 fun_upd_upd set_append list.set by blast
    qed
  qed
qed

lemma capincci_free_ok:
  assumes "capi_ok lim s" and "capincci_free c ncci s = Some s'"
  shows "capi_ok lim s' \<and> (\<exists>l. files s' = (files s)(c \<mapsto> l) \<and> (ncci = 0xffffffff \<longrightarrow> l = []))"
proof -
  from assms(2) obtain cd where cd: "cdevs s c = Some cd" and f: "free_nccis c ncci [] (cd_nccis cd) s = Some s'"
    by (auto simp: capincci_free_def)
  have "files s c = Some ([] @ cd_nccis cd)" using cd by (simp add: files_def)
  from free_nccis_ok [OF assms(1) this f] show ?thesis by blast
qed

section \<open>Open files\<close>

lemma capidev_alloc_ok:
  assumes ok: "capi_ok lim s"
  shows "capi_ok lim (snd (capidev_alloc cfg s))"
proof (cases "alloc_ok cfg (brk s)")
  case False
  then have "same_links s (snd (capidev_alloc cfg s))" by (simp add: capidev_alloc_def kmalloc_def same_links_def)
  then show ?thesis using ok by (rule same_links_ok)
next
  case True
  let ?s = "snd (capidev_alloc cfg s)"
  have v: "files ?s = (files s)(brk s \<mapsto> [])" "nccis ?s = nccis s" "minors ?s = minors s" "mview ?s = mview s"
    "capiminor_list ?s = capiminor_list s" "brk ?s = Suc (brk s)" "tty_log ?s = tty_log s"
    using True by (auto simp: capidev_alloc_def kmalloc_def files_def mview_def fun_eq_iff)
  have num: "mnum ?s = mnum s" by (simp add: mnum_def v fun_eq_iff)
  have nf: "files s (brk s) = None" using ok by (simp add: capi_ok_def fresh_ok_def)
  have "minors_ok lim ?s" using ok v num by (simp add: capi_ok_def minors_ok_def)
  moreover have "nccis_ok ?s" using ok nf unfolding capi_ok_def nccis_ok_def v by (auto, metis option.distinct(1))
  moreover have "links_ok ?s" using ok v by (simp add: capi_ok_def links_ok_def)
  moreover have "fresh_ok ?s" "nodes_ok lim ?s" using ok v by (simp_all add: capi_ok_def fresh_ok_def nodes_ok_def)
  ultimately show ?thesis by (simp add: capi_ok_def)
qed

lemma capidev_free_ok:
  assumes ok: "capi_ok lim s" and f: "capidev_free cfg c s = Some s'"
  shows "capi_ok lim s' \<and> cdevs s' c = None"
proof -
  from f obtain ap s1 s2 s3 where ap: "appls (cs_core s) c = Some ap" and
    s1: "(if appl_id ap \<noteq> 0 then do {
            (_, c') \<leftarrow> capi_release (cc_env cfg) c (cs_core s);
            c' \<leftarrow> upd_appl c (\<lambda>ap. ap\<lparr>appl_id := 0\<rparr>) c';
            Some (s\<lparr>cs_core := c'\<rparr>) }
          else Some s) = Some s1"
    and s2: "upd_cdev c (\<lambda>cd. cd\<lparr>recvqueue := []\<rparr>) s1 = Some s2"
    and s3: "capincci_free c 0xffffffff s2 = Some s3"
    and s': "s' = s3\<lparr>capidev_list := remove1 c (capidev_list s3), cdevs := (cdevs s3)(c := None),
             cs_core := (cs_core s3)\<lparr>appls := (appls (cs_core s3))(c := None)\<rparr>\<rparr>"
    unfolding capidev_free_def Option.bind_eq_Some_conv by (elim exE conjE) (rule that, assumption+, simp)
  from s1 have "same_links s s1" by (auto split: if_splits)
  then have "capi_ok lim s1" using ok by (rule same_links_ok)
  with upd_cdev_links [OF s2] have "capi_ok lim s2" by (simp add: same_links_ok)
  from capincci_free_ok [OF this s3] have ok3: "capi_ok lim s3" and e: "files s3 c = Some []" by auto
  have v: "files s' = (files s3)(c := None)" "nccis s' = nccis s3" "minors s' = minors s3" "mview s' = mview s3"
    "capiminor_list s' = capiminor_list s3" "brk s' = brk s3" "tty_log s' = tty_log s3"
    by (auto simp: s' files_def mview_def fun_eq_iff)
  have num: "mnum s' = mnum s3" by (simp add: mnum_def v fun_eq_iff)
  have "minors_ok lim s'" using ok3 v num by (simp add: capi_ok_def minors_ok_def)
  moreover have "nccis_ok s'" using ok3 e unfolding capi_ok_def nccis_ok_def v by (auto, metis empty_iff list.set(1) option.inject)
  moreover have "links_ok s'" using ok3 v by (simp add: capi_ok_def links_ok_def)
  moreover have "fresh_ok s'" "nodes_ok lim s'" using ok3 v by (simp_all add: capi_ok_def fresh_ok_def nodes_ok_def)
  ultimately show ?thesis by (simp add: capi_ok_def s')
qed

lemma capinc_tty_close_ok:
  assumes ok: "capi_ok lim s" and c: "capinc_tty_close t s = Some s'"
  shows "capi_ok lim s'"
proof (cases "driver_data s t")
  case None
  with ok c show ?thesis by (simp add: capinc_tty_close_def)
next
  case (Some m)
  with c obtain s1 mp s2 where s1: "upd_minor m (\<lambda>mp. mp\<lparr>ttyopencount := ttyopencount mp - 1\<rparr>) s = Some s1"
    and mp: "minors s1 m = Some mp"
    and s2: "(if ttyopencount mp = 0
               then upd_minor m (\<lambda>mp. mp\<lparr>mn_tty := None\<rparr>) (s1\<lparr>driver_data := (driver_data s1)(t := None)\<rparr>)
               else Some s1) = Some s2"
    and s': "(if nccip mp = None then capiminor_free m s2 else Some s2) = Some s'"
    by (auto simp: capinc_tty_close_def)
  from upd_minor_links [OF s1] have l1: "same_links s s1" by simp
  from s2 have l2: "same_links s1 s2" by (auto split: if_splits dest!: upd_minor_links; auto simp: same_links_def)
  then have ok2: "capi_ok lim s2" using l1 ok by (blast intro: same_links_ok)
  show ?thesis
  proof (cases "nccip mp = None")
    case True
    from mp have "mview s1 m = Some (view_of mp)" by (simp add: mview_def)
    with l2 have "mview s2 m = Some (view_of mp)" by (simp add: same_links_def)
    with True drop_minor_ok [OF ok2] s' show ?thesis by (auto simp: view_of_def capiminor_free_def)
  next
    case False
    then have "s' = s2" using s' by (simp only: if_False option.inject)
    with ok2 show ?thesis by simp
  qed
qed

end
