(* ===== verification/CapiDevSteps.thy ===== *)
theory CapiDevSteps
  imports CapiDevInv
begin

text \<open>
  The device as a state machine: one step is a call of a file operation or of a terminal operation, or something that
  the surroundings do (a device driver or another application works in the capicore, or
  somebody else allocates memory).  Every step keeps the invariant of the links.
\<close>

section \<open>Reception, reading and writing\<close>

lemma recv_skb_ok:
  assumes ok: "capi_ok lim s" and lim: "lim = capi_ttyminors cfg" "0 < lim" and r: "recv_skb cfg cdev skb s = Some s'"
  shows "capi_ok lim s'"
proof -
  from r obtain cmd s1 s2 c where
    s1: "(if cmd = CAPI_CONNECT_B3_CONF then do {
            info \<leftarrow> CAPIMSG_U16 skb 12;
            if info = 0 then do {
              ncci \<leftarrow> CAPIMSG_NCCI skb;
              (_, s) \<leftarrow> capincci_alloc cfg cdev ncci s;
              Some s }
            else Some s }
          else Some s) = Some s1"
    and s2: "(if cmd = CAPI_CONNECT_B3_IND then do {
            ncci \<leftarrow> CAPIMSG_NCCI skb;
            (_, s) \<leftarrow> capincci_alloc cfg cdev ncci s1;
            Some s }
          else Some s1) = Some s2"
    and s': "(if c \<noteq> CAPI_DATA_B3 then recv_tail cdev skb s2
     else do {
       ncci \<leftarrow> CAPIMSG_CONTROL skb;
       np \<leftarrow> capincci_find cdev ncci s2;
       case np of
         None \<Rightarrow> recv_tail cdev skb s2
       | Some np \<Rightarrow> do {
           n \<leftarrow> nccis s2 np;
           case minorp n of
             None \<Rightarrow> recv_tail cdev skb s2
           | Some m \<Rightarrow> recv_data cfg cdev m skb s2 } }) = Some s'"
    unfolding recv_skb_def Option.bind_eq_Some_conv [of "CAPIMSG_CMD skb"] by (elim exE conjE) (auto simp only: Option.bind_eq_Some_conv)
  from s1 have "capi_ok lim s1" using capincci_alloc_ok [OF ok lim] ok by (auto split: if_splits)
  with s2 have "capi_ok lim s2" using capincci_alloc_ok [OF _ lim, of s1] by (auto split: if_splits)
  moreover from s' have "same_links s2 s'"
    by (auto split: if_splits option.splits dest!: recv_tail_links recv_data_links)
  ultimately show ?thesis by (simp add: same_links_ok)
qed

lemma capi_recv_message_ok:
  assumes "capi_recv_message cfg cdev s = Some s'" and "capi_ok (capi_ttyminors cfg) s" and "0 < capi_ttyminors cfg"
  shows "capi_ok (capi_ttyminors cfg) s'"
proof -
  have "capi_ok (capi_ttyminors cfg) s \<longrightarrow> 0 < capi_ttyminors cfg \<longrightarrow> capi_ok (capi_ttyminors cfg) s'"
  proof (rule capi_recv_message.raw_induct [where P = "\<lambda>cfg cdev s s'. capi_ok (capi_ttyminors cfg) s \<longrightarrow>
        0 < capi_ttyminors cfg \<longrightarrow> capi_ok (capi_ttyminors cfg) s'", OF _ assms(1)], intro impI)
    fix f cfg cdev s s'
    assume IH: "\<And>cfg cdev s s'. f cfg cdev s = Some s' \<Longrightarrow> capi_ok (capi_ttyminors cfg) s \<longrightarrow>
        0 < capi_ttyminors cfg \<longrightarrow> capi_ok (capi_ttyminors cfg) s'"
      and ok: "capi_ok (capi_ttyminors cfg) s" and lim: "0 < capi_ttyminors cfg"
      and body: "do {
         (info, msg, s) \<leftarrow> get_capi_message cdev s;
         if info \<noteq> CAPINFO_0X11_NOERR then Some s
         else do { skb \<leftarrow> msg; skb \<leftarrow> skb; s \<leftarrow> recv_skb cfg cdev skb s; f cfg cdev s } } = Some s'"
    from body obtain info msg s1 where g: "get_capi_message cdev s = Some (info, msg, s1)"
      and rest: "(if info \<noteq> CAPINFO_0X11_NOERR then Some s1
         else do { skb \<leftarrow> msg; skb \<leftarrow> skb; s \<leftarrow> recv_skb cfg cdev skb s1; f cfg cdev s }) = Some s'" by auto
    from get_capi_message_links [OF g] ok have ok1: "capi_ok (capi_ttyminors cfg) s1" by (rule same_links_ok)
    with rest IH recv_skb_ok [OF ok1 refl lim] lim show "capi_ok (capi_ttyminors cfg) s'"
      by (auto split: if_splits)
  qed
  with assms(2,3) show ?thesis by blast
qed

lemma capi_read_ok:
  assumes "capi_ok (capi_ttyminors cfg) s" and "0 < capi_ttyminors cfg" and "capi_read cfg cdev cnt fault s = Some (r, bs, s')"
  shows "capi_ok (capi_ttyminors cfg) s'"
  using assms(1,3) unfolding capi_read_def
  by (auto split: if_splits list.splits dest!: upd_cdev_links capi_recv_message_ok [OF _ assms(1,2)];
      auto intro: same_links_ok)

lemma capi_write_ok:
  assumes ok: "capi_ok lim s" and w: "capi_write cfg cdev buf fault s = Some (r, s')"
  shows "capi_ok lim s'"
proof (cases "appid cdev s = Some 0")
  case False
  obtain p s0 where k: "kmalloc cfg s = (p, s0)" by (cases "kmalloc cfg s")
  from kmalloc_links [OF k] ok have ok0: "capi_ok lim s0" by (auto intro: same_links_ok)
  show ?thesis
  proof (cases "p = None \<or> fault")
    case True
    with w k False ok0 show ?thesis by (auto simp: capi_write_def split: if_splits option.splits)
  next
    case p: False
    with w k False obtain i cmd and total :: nat where
      s': "(if total \<noteq> length buf then Some (- EINVAL, s0)
           else do {
             skb \<leftarrow> CAPIMSG_SETAPPID buf i;
             s \<leftarrow> (if cmd = CAPI_DISCONNECT_B3_RESP then do {
                    ncci \<leftarrow> CAPIMSG_NCCI skb;
                    capincci_free cdev ncci s0 }
                  else Some s0);
             (err, s) \<leftarrow> put_capi_message cfg cdev skb s;
             s \<leftarrow> upd_cdev cdev (\<lambda>cd. cd\<lparr>errcode := err\<rparr>) s;
             Some (if err \<noteq> 0 then - EIO else int (length buf), s) }) = Some (r, s')"
      by (auto simp: capi_write_def simp del: not_None_eq)
    show ?thesis
    proof (cases "total = length buf")
      case True
      with s' obtain skb s1 err s2 where
        s1: "(if cmd = CAPI_DISCONNECT_B3_RESP then do { ncci \<leftarrow> CAPIMSG_NCCI skb; capincci_free cdev ncci s0 } else Some s0) = Some s1"
        and s2: "put_capi_message cfg cdev skb s1 = Some (err, s2)"
        and s3: "upd_cdev cdev (\<lambda>cd. cd\<lparr>errcode := err\<rparr>) s2 = Some s'" by auto
      from s1 have "capi_ok lim s1" using capincci_free_ok [OF ok0] ok0 by (auto split: if_splits)
      moreover have "same_links s1 s'"
        using put_capi_message_links [OF s2] upd_cdev_links [OF s3] by (auto intro: same_links_trans)
      ultimately show ?thesis by (simp add: same_links_ok)
    qed (use s' ok0 in simp)
  qed
qed (use assms in \<open>auto simp: capi_write_def\<close>)

lemma capi_poll_ok:
  assumes "capi_ok (capi_ttyminors cfg) s" and "0 < capi_ttyminors cfg" and "capi_poll cfg cdev s = Some (r, s')"
  shows "capi_ok (capi_ttyminors cfg) s'"
  using assms by (auto simp: capi_poll_def split: if_splits intro: capi_recv_message_ok)

lemma capi_ioctl_links: "capi_ioctl cfg cdev cmd fin fout s = Some (r, out, s') \<Longrightarrow> same_links s s'"
  by (cases cmd; auto simp: Let_def ioctl_info_def split: if_splits option.splits dest!: upd_cdev_links;
      auto simp: same_links_def)

section \<open>Steps\<close>

inductive capi_step :: "capi_cfg \<Rightarrow> capist \<Rightarrow> capist \<Rightarrow> bool" for cfg where
  others_core: "capi_step cfg s (s\<lparr>cs_core := c\<rparr>)"
| others_alloc: "brk s \<le> b \<Longrightarrow> capi_step cfg s (s\<lparr>brk := b\<rparr>)"
| opens: "capi_open cfg None s = (r, priv, s') \<Longrightarrow> capi_step cfg s s'"
| releases: "capi_frelease cfg cdev s = Some (r, priv, s') \<Longrightarrow> capi_step cfg s s'"
| reads: "capi_read cfg cdev cnt fault s = Some (r, bs, s') \<Longrightarrow> capi_step cfg s s'"
| writes: "capi_write cfg cdev buf fault s = Some (r, s') \<Longrightarrow> capi_step cfg s s'"
| polls: "capi_poll cfg cdev s = Some (r, s') \<Longrightarrow> capi_step cfg s s'"
| ioctls: "capi_ioctl cfg cdev cmd fin fout s = Some (r, out, s') \<Longrightarrow> capi_step cfg s s'"
| tty_opens: "capinc_tty_open cfg t k s = Some (r, s') \<Longrightarrow> capi_step cfg s s'"
| tty_closes: "capinc_tty_close t s = Some s' \<Longrightarrow> capi_step cfg s s'"
| tty_writes: "capinc_tty_write cfg t buf fault s = Some (r, s') \<Longrightarrow> capi_step cfg s s'"
| tty_puts: "capinc_tty_put_char cfg t ch s = Some s' \<Longrightarrow> capi_step cfg s s'"
| tty_flushes: "capinc_tty_flush_chars cfg t s = Some s' \<Longrightarrow> capi_step cfg s s'"
| tty_throttles: "capinc_tty_throttle t s = Some s' \<Longrightarrow> capi_step cfg s s'"
| tty_unthrottles: "capinc_tty_unthrottle cfg t s = Some s' \<Longrightarrow> capi_step cfg s s'"
| tty_stops: "capinc_tty_stop t s = Some s' \<Longrightarrow> capi_step cfg s s'"
| tty_starts: "capinc_tty_start cfg t s = Some s' \<Longrightarrow> capi_step cfg s s'"

inductive capi_reachable :: "capi_cfg \<Rightarrow> capist \<Rightarrow> bool" for cfg where
  starts: "capi_reachable cfg (capist_init c b)"
| steps: "capi_reachable cfg s \<Longrightarrow> capi_step cfg s s' \<Longrightarrow> capi_reachable cfg s'"

lemma capi_open_ok: "capi_open cfg priv s = (r, priv', s') \<Longrightarrow> capi_ok lim s \<Longrightarrow> capi_ok lim s'"
  using capidev_alloc_ok [of lim s cfg]
  by (cases "capidev_alloc cfg s") (auto simp: capi_open_def split: if_splits option.splits)

lemma capi_step_ok:
  assumes "capi_step cfg s s'" and "capi_ok (capi_ttyminors cfg) s" and "0 < capi_ttyminors cfg"
  shows "capi_ok (capi_ttyminors cfg) s'"
  using assms
proof cases
  case (others_core c)
  with same_links_ok [OF core_links(1) assms(2)] show ?thesis by simp
next
  case (others_alloc b)
  then have "same_links s s'" by (simp add: same_links_def)
  then show ?thesis using assms(2) by (rule same_links_ok)
next
  case (opens r priv)
  from this assms(2) show ?thesis by (rule capi_open_ok)
next
  case (releases cdev r priv)
  with assms(2) show ?thesis by (auto simp: capi_frelease_def dest: capidev_free_ok)
next
  case (reads cdev cnt fault r bs)
  from assms(2,3) this show ?thesis by (rule capi_read_ok)
next
  case (writes cdev buf fault r)
  from assms(2) this show ?thesis by (rule capi_write_ok)
next
  case (polls cdev r)
  from assms(2,3) this show ?thesis by (rule capi_poll_ok)
next
  case (tty_closes t)
  from assms(2) this show ?thesis by (rule capinc_tty_close_ok)
qed (use assms(2) in \<open>auto dest: tty_links capi_ioctl_links capinc_tty_throttle_links intro: same_links_ok\<close>)

lemma capi_reachable_ok:
  "capi_reachable cfg s \<Longrightarrow> 0 < capi_ttyminors cfg \<Longrightarrow> capi_ok (capi_ttyminors cfg) s"
  by (induction rule: capi_reachable.induct) (auto intro: capi_ok_init capi_step_ok)

end
