(* ===== verification/CapiDevProps.thy ===== *)
theory CapiDevProps
  imports CapiDevSteps
begin

text \<open>
  What \<^verbatim>\<open>capi.c\<close> guarantees: the numbers of the minors, the links between files, NCCIs and
  minors, the release of a file, and two accesses to freed memory.  A run of the device shows the hypotheses to
  be satisfiable.
\<close>

section \<open>A run\<close>

definition demo_cfg :: capi_cfg where
  "demo_cfg = \<lparr>cc_env = demo_env, capi_ttyminors = 2, alloc_ok = (\<lambda>_. True), has_receive_buf = (\<lambda>_. True),
     receive_room = (\<lambda>_ _. None), throttles = (\<lambda>l _. length l \<ge> 2), has_write_wakeup = (\<lambda>_. True),
     skb_addr = (\<lambda>_. 0), blk_room = 2048\<rparr>"

text \<open>\<open>CONNECT_B3_IND\<close> for NCCI 0x10101.\<close>

definition demo_b3_ind :: bytes where
  "demo_b3_ind = [12, 0, 1, 0, CAPI_CONNECT_B3, CAPI_IND, 1, 0, 1, 1, 1, 0]"

text \<open>A file is opened (at 100), asks for highjacking, and gets a connection: an NCCI (at 101) and a minor (at 102).\<close>

definition demo_open :: capist where
  "demo_open = snd (snd (capi_open demo_cfg None (capist_init (core_init demo_env) 100)))"

definition demo_flags :: "capist option" where
  "demo_flags = map_option (\<lambda>(_, _, s). s) (capi_ioctl demo_cfg 100 (CAPI_SET_FLAGS CAPIFLAG_HIGHJACKING) False False demo_open)"

definition demo_queue :: "capist \<Rightarrow> capist" where
  "demo_queue s = s\<lparr>cs_core := (core_init demo_env)\<lparr>appls := [100 \<mapsto> zero_appl\<lparr>appl_id := 1, msg_queue := [demo_b3_ind]\<rparr>]\<rparr>\<rparr>"

definition demo_dev :: "capist option" where
  "demo_dev = do { s \<leftarrow> demo_flags; map_option snd (capi_poll demo_cfg 100 (demo_queue s)) }"

lemma capi_recv_empty:
  "appls (cs_core s) cdev = Some ap \<Longrightarrow> appl_info ap = 0 \<Longrightarrow> msg_queue ap = [] \<Longrightarrow> capi_recv_message cfg cdev s = Some s"
  by (subst capi_recv_message.simps) (simp add: get_capi_message_def capi_get_message_def)

lemma demo_flags_state:
  "demo_flags = Some (demo_open\<lparr>cdevs := [100 \<mapsto> \<lparr>errcode = 0, userflags = 1, recvqueue = [], cd_nccis = []\<rparr>]\<rparr>)"
  by (simp add: demo_flags_def demo_open_def capi_open_def capidev_alloc_def kmalloc_def demo_cfg_def capist_init_def
      upd_cdev_def CAPIFLAG_HIGHJACKING_def)

lemma get_capi_message_first:
  assumes "appls (cs_core s) a = Some ap" and "appl_info ap = 0" and "msg_queue ap = m # q"
    and "msg_count CAPI_DATA_B3_IND m = Some n"
  shows "\<exists>st. get_capi_message a s = Some (0, Some (Some m),
    s\<lparr>cs_core := (cs_core s)\<lparr>appls := (appls (cs_core s))(a \<mapsto> ap\<lparr>msg_queue := q, appl_stats := st\<rparr>)\<rparr>\<rparr>)"
  using assms by (simp add: get_capi_message_def capi_get_message_def upd_appl_def count_rx_def) blast

lemma demo_b3_ind_reads:
  "CAPIMSG_CMD demo_b3_ind = Some CAPI_CONNECT_B3_IND" "CAPIMSG_COMMAND demo_b3_ind = Some CAPI_CONNECT_B3"
  "CAPIMSG_NCCI demo_b3_ind = Some 0x10101" "msg_count CAPI_DATA_B3_IND demo_b3_ind = Some 12"
  by (simp_all add: demo_b3_ind_def msg_count_def CAPIMSG_LEN_def CAPIMSG_CMD_def CAPIMSG_COMMAND_def
      CAPIMSG_SUBCOMMAND_def CAPIMSG_U8_def CAPIMSG_U16_def CAPIMSG_NCCI_def CAPIMSG_CONTROL_def CAPIMSG_U32_def
      of_le16_def of_le32_def)

lemma demo_dev_state:
  "\<exists>s. demo_dev = Some s \<and> cdevs s = [100 \<mapsto> \<lparr>errcode = 0, userflags = 1, recvqueue = [demo_b3_ind], cd_nccis = [101]\<rparr>] \<and>
     nccis s = [101 \<mapsto> \<lparr>nc_ncci = 0x10101, nc_cdev = 100, minorp = Some 102\<rparr>] \<and>
     minors s = [102 \<mapsto> zero_minor\<lparr>mn_ap := 100, mn_ncci := 0x10101, nccip := Some 101\<rparr>] \<and>
     capiminor_list s = [102] \<and> brk s = 103 \<and> driver_data s = (\<lambda>_. None) \<and> tty_log s = [CapifsNew 0] \<and>
     (\<exists>st. appls (cs_core s) = [100 \<mapsto> zero_appl\<lparr>appl_id := 1, appl_stats := st\<rparr>])"
proof -
  let ?s = "demo_queue (demo_open\<lparr>cdevs := [100 \<mapsto> \<lparr>errcode = 0, userflags = 1, recvqueue = [], cd_nccis = []\<rparr>]\<rparr>)"
  let ?ap = "zero_appl\<lparr>appl_id := 1, msg_queue := [demo_b3_ind]\<rparr>"
  have 0: "appls (cs_core ?s) 100 = Some ?ap" by (simp add: demo_queue_def)
  from get_capi_message_first [OF 0 _ _ demo_b3_ind_reads(4)] obtain st where
    g: "get_capi_message 100 ?s = Some (0, Some (Some demo_b3_ind),
      ?s\<lparr>cs_core := (cs_core ?s)\<lparr>appls := (appls (cs_core ?s))(100 \<mapsto> ?ap\<lparr>msg_queue := [], appl_stats := st\<rparr>)\<rparr>\<rparr>)"
    (is "_ = Some (_, _, ?s1)") by (auto simp: zero_appl_def)
  have "\<exists>s. recv_skb demo_cfg 100 demo_b3_ind ?s1 = Some s \<and>
     cdevs s = [100 \<mapsto> \<lparr>errcode = 0, userflags = 1, recvqueue = [demo_b3_ind], cd_nccis = [101]\<rparr>] \<and>
     nccis s = [101 \<mapsto> \<lparr>nc_ncci = 0x10101, nc_cdev = 100, minorp = Some 102\<rparr>] \<and>
     minors s = [102 \<mapsto> zero_minor\<lparr>mn_ap := 100, mn_ncci := 0x10101, nccip := Some 101\<rparr>] \<and>
     capiminor_list s = [102] \<and> brk s = 103 \<and> driver_data s = (\<lambda>_. None) \<and> tty_log s = [CapifsNew 0] \<and>
     appls (cs_core s) = [100 \<mapsto> zero_appl\<lparr>appl_id := 1, appl_stats := st\<rparr>]"
    by (simp add: recv_skb_def demo_b3_ind_reads recv_tail_def upd_cdev_def capincci_alloc_def kmalloc_def
        demo_cfg_def demo_open_def demo_queue_def capiminor_alloc_def capi_open_def capidev_alloc_def capist_init_def
        CAPIFLAG_HIGHJACKING_def upd_minor_def tty_event_def zero_minor_def zero_appl_def)
  then obtain s where s: "recv_skb demo_cfg 100 demo_b3_ind ?s1 = Some s" and
    v: "cdevs s = [100 \<mapsto> \<lparr>errcode = 0, userflags = 1, recvqueue = [demo_b3_ind], cd_nccis = [101]\<rparr>]"
     "nccis s = [101 \<mapsto> \<lparr>nc_ncci = 0x10101, nc_cdev = 100, minorp = Some 102\<rparr>]"
     "minors s = [102 \<mapsto> zero_minor\<lparr>mn_ap := 100, mn_ncci := 0x10101, nccip := Some 101\<rparr>]"
     "capiminor_list s = [102]" "brk s = 103" "driver_data s = (\<lambda>_. None)" "tty_log s = [CapifsNew 0]"
     "appls (cs_core s) = [100 \<mapsto> zero_appl\<lparr>appl_id := 1, appl_stats := st\<rparr>]" by blast
  have "capi_recv_message demo_cfg 100 s = Some s"
    by (rule capi_recv_empty [where ap = "zero_appl\<lparr>appl_id := 1, appl_stats := st\<rparr>"])
      (simp_all add: v(8) zero_appl_def)
  with g s have "capi_recv_message demo_cfg 100 ?s = Some s" by (subst capi_recv_message.simps) simp
  moreover have "appid 100 ?s = Some 1" by (simp add: appid_def 0)
  ultimately have "demo_dev = Some s" using v(1) by (simp add: demo_dev_def demo_flags_state capi_poll_def)
  with v show ?thesis by blast
qed

lemma demo_dev_reachable: "demo_dev = Some s \<Longrightarrow> capi_reachable demo_cfg s"
proof -
  let ?s0 = "capist_init (core_init demo_env) 100"
  assume s: "demo_dev = Some s"
  obtain r priv s1 where o1: "capi_open demo_cfg None ?s0 = (r, priv, s1)" by (cases "capi_open demo_cfg None ?s0")
  have "demo_open = s1" unfolding demo_open_def o1 by simp
  with steps [OF starts opens [OF o1]] have r1: "capi_reachable demo_cfg demo_open" by simp
  from s obtain s2 where s2: "demo_flags = Some s2" and p: "map_option snd (capi_poll demo_cfg 100 (demo_queue s2)) = Some s"
    by (auto simp: demo_dev_def)
  from s2 have "capi_reachable demo_cfg s2"
    by (auto simp: demo_flags_def simp del: capi_ioctl.simps intro: steps [OF r1 ioctls])
  then have "capi_reachable demo_cfg (demo_queue s2)"
    unfolding demo_queue_def by (rule steps [OF _ others_core])
  with p show ?thesis by (auto intro: steps [OF _ polls])
qed

lemma demo_minors: "0 < capi_ttyminors demo_cfg" by (simp add: demo_cfg_def)

section \<open>Minors and their links\<close>

text \<open>C31: In every reachable state the minors have distinct numbers below the configured number of minors, and
  the search of a terminal's \<open>open\<close> finds the minor that has the number.\<close>

theorem capi_minor_numbers:
  assumes "capi_reachable cfg s" and "0 < capi_ttyminors cfg" and "minors s m = Some mp"
  shows "minor mp < capi_ttyminors cfg \<and> capiminor_find (minor mp) s = Some (Some m) \<and>
    (\<forall>m' mp'. minors s m' = Some mp' \<and> minor mp' = minor mp \<longrightarrow> m' = m)"
proof -
  from capi_reachable_ok [OF assms(1,2)] have l: "set (capiminor_list s) = dom (minors s)"
    "sorted_wrt (<) (map (mnum s) (capiminor_list s))" "\<forall>m\<in>set (capiminor_list s). mnum s m < capi_ttyminors cfg"
    by (simp_all add: capi_ok_def minors_ok_def)
  from l(2) have d: "distinct (map (mnum s) (capiminor_list s))" by (simp add: strict_sorted_iff)
  have num: "mnum s m = minor mp" using assms(3) by (simp add: mnum_def)
  have uniq: "m' = m" if "minors s m' = Some mp'" "minor mp' = minor mp" for m' mp'
  proof -
    have "mnum s m' = mnum s m" using that num by (simp add: mnum_def)
    moreover have "m' \<in> set (capiminor_list s)" "m \<in> set (capiminor_list s)" using that(1) assms(3) l(1) by blast+
    moreover have "inj_on (mnum s) (set (capiminor_list s))" using d by (simp add: distinct_map)
    ultimately show ?thesis by (rule inj_onD [rotated])
  qed
  have "find_minor s (minor mp) ps = Some (Some m)" if "m \<in> set ps" "set ps \<subseteq> dom (minors s)" for ps
    using that
  proof (induction ps)
    case (Cons p ps)
    then obtain mp' where p: "minors s p = Some mp'" by auto
    show ?case
    proof (cases "minor mp' = minor mp")
      case True
      with uniq p have "p = m" by blast
      with p True show ?thesis by simp
    next
      case False
      with p assms(3) Cons show ?thesis by auto
    qed
  qed simp
  with l(1) assms(3) have "capiminor_find (minor mp) s = Some (Some m)" by (auto simp: capiminor_find_def)
  moreover have "minor mp < capi_ttyminors cfg" using l(1,3) assms(3) unfolding num [symmetric] by blast
  ultimately show ?thesis using uniq by blast
qed

theorem capi_minor_numbers_witness:
  "\<exists>s mp. demo_dev = Some s \<and> minors s 102 = Some mp \<and> minor mp < capi_ttyminors demo_cfg \<and>
     capiminor_find (minor mp) s = Some (Some 102)"
proof -
  from demo_dev_state obtain s where s: "demo_dev = Some s" "minors s = [102 \<mapsto> zero_minor\<lparr>mn_ap := 100, mn_ncci := 0x10101, nccip := Some 101\<rparr>]"
    by blast
  then obtain mp where mp: "minors s 102 = Some mp" by simp
  from capi_minor_numbers [OF demo_dev_reachable [OF s(1)] demo_minors mp] s(1) mp show ?thesis by blast
qed

text \<open>C13: The links between files, NCCIs and minors are in order in every reachable state: every NCCI is in the list of its open file
  and the list holds nothing else; the minor of an NCCI exists, points back to it and has its number and its
  application; and a minor that points to an NCCI is the minor of this NCCI, and its application \<open>mp->ap\<close> is the
  open file whose list has this NCCI.  Nothing is promised of \<open>mp->ap\<close> in a minor whose connection is gone (\<open>mp->nccip\<close> is NULL): the
  code leaves the pointer there when the file is released.\<close>

theorem capi_links:
  assumes "capi_reachable cfg s" and "0 < capi_ttyminors cfg"
  shows "(nccis s np = Some n \<longrightarrow> (\<exists>cd. cdevs s (nc_cdev n) = Some cd \<and> np \<in> set (cd_nccis cd))) \<and>
    (cdevs s c = Some cd \<longrightarrow> distinct (cd_nccis cd) \<and> (\<forall>np\<in>set (cd_nccis cd). \<exists>n. nccis s np = Some n \<and> nc_cdev n = c)) \<and>
    (nccis s np = Some n \<and> minorp n = Some m \<longrightarrow>
       (\<exists>mp. minors s m = Some mp \<and> nccip mp = Some np \<and> mn_ap mp = nc_cdev n \<and> mn_ncci mp = nc_ncci n)) \<and>
    (minors s m = Some mp \<and> nccip mp = Some np \<longrightarrow>
       (\<exists>n cd. nccis s np = Some n \<and> minorp n = Some m \<and> mn_ap mp = nc_cdev n \<and>
          cdevs s (mn_ap mp) = Some cd \<and> np \<in> set (cd_nccis cd)))"
proof -
  from capi_reachable_ok [OF assms] have ok: "nccis_ok s" "links_ok s" by (simp_all add: capi_ok_def)
  show ?thesis
  proof (intro conjI impI)
    assume "nccis s np = Some n"
    with ok(1) obtain l where "files s (nc_cdev n) = Some l" "np \<in> set l" unfolding nccis_ok_def by blast
    then show "\<exists>cd. cdevs s (nc_cdev n) = Some cd \<and> np \<in> set (cd_nccis cd)" by (auto simp: files_def)
  next
    assume "cdevs s c = Some cd"
    then have "files s c = Some (cd_nccis cd)" by (simp add: files_def)
    with ok(1) show "distinct (cd_nccis cd)" and "\<forall>np\<in>set (cd_nccis cd). \<exists>n. nccis s np = Some n \<and> nc_cdev n = c"
      unfolding nccis_ok_def by blast+
  next
    assume "nccis s np = Some n \<and> minorp n = Some m"
    with ok(2) obtain k where "mview s m = Some (Some np, k, nc_cdev n, nc_ncci n)" unfolding links_ok_def by blast
    then show "\<exists>mp. minors s m = Some mp \<and> nccip mp = Some np \<and> mn_ap mp = nc_cdev n \<and> mn_ncci mp = nc_ncci n"
      by (auto simp: mview_eq_Some view_of_def)
  next
    assume "minors s m = Some mp \<and> nccip mp = Some np"
    then have v: "mview s m = Some (Some np, minor mp, mn_ap mp, mn_ncci mp)" by (simp add: mview_eq_Some view_of_def)
    with ok(2) obtain n where n: "nccis s np = Some n" "minorp n = Some m" unfolding links_ok_def by blast
    with ok(2) obtain k where "mview s m = Some (Some np, k, nc_cdev n, nc_ncci n)" unfolding links_ok_def by blast
    with v have "mn_ap mp = nc_cdev n" by simp
    moreover from ok(1) n(1) obtain l where "files s (nc_cdev n) = Some l" "np \<in> set l" unfolding nccis_ok_def by blast
    ultimately show "\<exists>n cd. nccis s np = Some n \<and> minorp n = Some m \<and> mn_ap mp = nc_cdev n \<and>
        cdevs s (mn_ap mp) = Some cd \<and> np \<in> set (cd_nccis cd)" using n by (auto simp: files_def)
  qed
qed

theorem capi_links_witness:
  "\<exists>s n mp. demo_dev = Some s \<and> nccis s 101 = Some n \<and> minorp n = Some 102 \<and> minors s 102 = Some mp \<and> nccip mp = Some 101"
proof -
  from demo_dev_state obtain s where s: "demo_dev = Some s" "nccis s = [101 \<mapsto> \<lparr>nc_ncci = 0x10101, nc_cdev = 100, minorp = Some 102\<rparr>]"
    by blast
  then obtain n where n: "nccis s 101 = Some n" "minorp n = Some 102" by simp
  with capi_links [OF demo_dev_reachable [OF s(1)] demo_minors] have "\<exists>mp. minors s 102 = Some mp \<and> nccip mp = Some 101"
    by blast
  with s(1) n show ?thesis by blast
qed

text \<open>A new minor gets the least number that is free, and none is given only when memory is short or all numbers are
  in use.\<close>

theorem capiminor_alloc_least:
  assumes "capi_reachable cfg s" and "0 < capi_ttyminors cfg" and "capiminor_alloc cfg ap ncci s = Some (r, s')"
  shows "(r = None \<longrightarrow> minors s' = minors s \<and>
       (alloc_ok cfg (brk s) \<longrightarrow> (\<forall>k<capi_ttyminors cfg. \<exists>m mp. minors s m = Some mp \<and> minor mp = k))) \<and>
    (\<forall>m. r = Some m \<longrightarrow> minors s m = None \<and> (\<exists>mp. minors s' = (minors s)(m \<mapsto> mp) \<and> mn_ap mp = ap \<and> mn_ncci mp = ncci \<and>
       minor mp < capi_ttyminors cfg \<and> (\<forall>m' mp'. minors s m' = Some mp' \<longrightarrow> minor mp' \<noteq> minor mp) \<and>
       (\<forall>k<minor mp. \<exists>m' mp'. minors s m' = Some mp' \<and> minor mp' = k)))"
proof -
  from capi_reachable_ok [OF assms(1,2)] have ok: "minors_ok (capi_ttyminors cfg) s" "fresh_ok s" by (simp_all add: capi_ok_def)
  have dom: "set (capiminor_list s) = dom (minors s)" using ok(1) by (simp add: minors_ok_def)
  have num: "\<exists>m mp. minors s m = Some mp \<and> minor mp = k" if "m \<in> set (capiminor_list s)" "mnum s m = k" for m k
  proof -
    from that(1) dom obtain mp where "minors s m = Some mp" by blast
    with that(2) show ?thesis by (auto simp: mnum_def)
  qed
  from capiminor_alloc_cases [OF ok refl assms(2,3)] show ?thesis
  proof (elim disjE exE conjE)
    assume "r = None" "minors s' = minors s"
      "alloc_ok cfg (brk s) \<longrightarrow> (\<forall>k<capi_ttyminors cfg. \<exists>m\<in>set (capiminor_list s). mnum s m = k)"
    with num show ?thesis by blast
  next
    fix k before after
    assume r: "r = Some (brk s)" and s': "s' = with_minor (brk s) k before after ap ncci (s\<lparr>brk := brk s + 1\<rparr>)"
      and l: "capiminor_list s = before @ after" and k: "k < capi_ttyminors cfg" "map (mnum s) before = [0..<k]"
      "\<forall>p\<in>set after. k < mnum s p"
    have new: "minors s (brk s) = None" using ok(2) by (simp add: fresh_ok_def)
    have b: "mnum s p < k" if "p \<in> set before" for p
      using arg_cong [OF k(2), of set] that by auto
    have none: "minor mp' \<noteq> k" if "minors s m' = Some mp'" for m' mp'
    proof -
      have "m' \<in> set before \<union> set after" and "mnum s m' = minor mp'" using that dom l by (auto simp: mnum_def)
      with b k(3) show ?thesis by force
    qed
    have "\<exists>m' mp'. minors s m' = Some mp' \<and> minor mp' = j" if "j < k" for j
    proof -
      from that have "j \<in> set (map (mnum s) before)" unfolding k(2) by simp
      with num l show ?thesis by auto
    qed
    with r s' new none k(1) show ?thesis
      by (auto simp: with_minor_def zero_minor_def)
  qed
qed

theorem capiminor_alloc_least_witness:
  "\<exists>s s' mp. demo_dev = Some s \<and> capiminor_alloc demo_cfg 100 0x20101 s = Some (Some 103, s') \<and> minors s' 103 = Some mp \<and>
     minor mp < 2"
proof -
  from demo_dev_state obtain s where s: "demo_dev = Some s" "brk s = 103" "capiminor_list s = [102]"
    "minors s = [102 \<mapsto> zero_minor\<lparr>mn_ap := 100, mn_ncci := 0x10101, nccip := Some 101\<rparr>]"
    by blast
  then have "\<exists>s'. capiminor_alloc demo_cfg 100 0x20101 s = Some (Some 103, s')"
    by (simp add: capiminor_alloc_def kmalloc_def demo_cfg_def zero_minor_def upd_minor_def)
  then obtain s' where a: "capiminor_alloc demo_cfg 100 0x20101 s = Some (Some 103, s')" by blast
  from capiminor_alloc_least [OF demo_dev_reachable [OF s(1)] demo_minors a] have
    "\<exists>mp. minors s' = (minors s)(103 \<mapsto> mp) \<and> minor mp < 2" by (auto simp: demo_cfg_def)
  with s(1) a show ?thesis by auto
qed


section \<open>Releasing a file\<close>

text \<open>C32: Releasing a file frees the file, its application and all its NCCIs, and leaves no minor that still points to one of
  them.\<close>

theorem capi_release_cleans:
  assumes "capi_reachable cfg s" and "0 < capi_ttyminors cfg" and "capi_frelease cfg c s = Some (r, priv, s')"
  shows "r = 0 \<and> priv = None \<and> cdevs s' c = None \<and> appls (cs_core s') c = None \<and>
    (\<forall>np n. nccis s' np = Some n \<longrightarrow> nc_cdev n \<noteq> c) \<and>
    (\<forall>m mp. minors s' m = Some mp \<and> mn_ap mp = c \<longrightarrow> nccip mp = None)"
proof -
  from assms(3) have f: "capidev_free cfg c s = Some s'" and r: "r = 0" "priv = None"
    by (auto simp: capi_frelease_def)
  from capidev_free_ok [OF capi_reachable_ok [OF assms(1,2)] f] have ok: "nccis_ok s'" "links_ok s'" and e: "cdevs s' c = None"
    by (simp_all add: capi_ok_def)
  have gone: "nc_cdev n \<noteq> c" if "nccis s' np = Some n" for np n
  proof
    assume "nc_cdev n = c"
    with e have "files s' (nc_cdev n) = None" by (simp add: files_def)
    moreover from ok(1) that obtain l where "files s' (nc_cdev n) = Some l" unfolding nccis_ok_def by blast
    ultimately show False by simp
  qed
  have "nccip mp = None" if "minors s' m = Some mp" "mn_ap mp = c" for m mp
  proof (rule ccontr)
    assume "nccip mp \<noteq> None"
    then obtain np where "nccip mp = Some np" by blast
    then have v: "mview s' m = Some (Some np, minor mp, c, mn_ncci mp)" using that by (simp add: mview_def view_of_def)
    with ok(2) obtain n where n: "nccis s' np = Some n" "minorp n = Some m" unfolding links_ok_def by blast
    with ok(2) obtain k where "mview s' m = Some (Some np, k, nc_cdev n, nc_ncci n)" unfolding links_ok_def by blast
    with v gone n show False by simp
  qed
  moreover from f have "appls (cs_core s') c = None" by (auto simp: capidev_free_def)
  ultimately show ?thesis using r e gone by blast
qed

theorem capi_release_cleans_witness:
  "\<exists>s s'. demo_dev = Some s \<and> capi_frelease demo_cfg 100 s = Some (0, None, s') \<and> cdevs s' 100 = None \<and>
     appls (cs_core s') 100 = None"
proof -
  from demo_dev_state obtain s st where s: "demo_dev = Some s" "brk s = 103" "capiminor_list s = [102]"
    "minors s = [102 \<mapsto> zero_minor\<lparr>mn_ap := 100, mn_ncci := 0x10101, nccip := Some 101\<rparr>]"
    "nccis s = [101 \<mapsto> \<lparr>nc_ncci = 0x10101, nc_cdev = 100, minorp = Some 102\<rparr>]"
    "cdevs s = [100 \<mapsto> \<lparr>errcode = 0, userflags = 1, recvqueue = [demo_b3_ind], cd_nccis = [101]\<rparr>]"
    "appls (cs_core s) = [100 \<mapsto> zero_appl\<lparr>appl_id := 1, appl_stats := st\<rparr>]"
    by blast
  then have "\<exists>r priv s'. capi_frelease demo_cfg 100 s = Some (r, priv, s')"
    by (simp add: capi_frelease_def capidev_free_def demo_cfg_def demo_env_def zero_minor_def zero_appl_def upd_cdev_def
        upd_appl_def capi_release_def capincci_free_def capincci_drop_minor_def tty_event_def capiminor_free_def Let_def)
  then obtain r priv s' where f: "capi_frelease demo_cfg 100 s = Some (r, priv, s')" by blast
  from capi_release_cleans [OF demo_dev_reachable [OF s(1)] demo_minors f] s(1) f show ?thesis by blast
qed

section \<open>Use after free\<close>

text \<open>C36: Closing a terminal frees a minor whose NCCI is gone even if the terminal is open a second time.  The second close,
  and every other terminal operation that uses the minor, then accesses freed memory.\<close>

theorem capinc_tty_close_frees_open:
  assumes "driver_data s t = Some m" and "minors s m = Some mp" and "nccip mp = None" and "2 \<le> ttyopencount mp"
  shows "\<exists>s'. capinc_tty_close t s = Some s' \<and> minors s' m = None \<and> driver_data s' t = Some m \<and>
    capinc_tty_close t s' = None \<and> capinc_tty_write cfg t buf fault s' = None \<and> capinc_tty_start cfg t s' = None"
  using assms
  by (auto simp: capinc_tty_close_def upd_minor_def capiminor_free_def capinc_tty_write_def capinc_tty_start_def tty_minor_def)

text \<open>Two opens of the minor, then the file goes away.\<close>

definition demo_hung :: "capist option" where
  "demo_hung = do {
     s \<leftarrow> demo_dev;
     (_, s) \<leftarrow> capinc_tty_open demo_cfg 5 0 s;
     (_, s) \<leftarrow> capinc_tty_open demo_cfg 5 0 s;
     (_, _, s) \<leftarrow> capi_frelease demo_cfg 100 s;
     Some s }"

lemma demo_hung_state:
  "\<exists>s mp. demo_hung = Some s \<and> driver_data s 5 = Some 102 \<and> minors s 102 = Some mp \<and> nccip mp = None \<and>
     ttyopencount mp = 2 \<and> mn_ap mp = 100 \<and> appls (cs_core s) 100 = None \<and> inqueue mp = []"
proof -
  from demo_dev_state obtain s st where s: "demo_dev = Some s" "brk s = 103" "capiminor_list s = [102]"
    "minors s = [102 \<mapsto> zero_minor\<lparr>mn_ap := 100, mn_ncci := 0x10101, nccip := Some 101\<rparr>]"
    "nccis s = [101 \<mapsto> \<lparr>nc_ncci = 0x10101, nc_cdev = 100, minorp = Some 102\<rparr>]"
    "cdevs s = [100 \<mapsto> \<lparr>errcode = 0, userflags = 1, recvqueue = [demo_b3_ind], cd_nccis = [101]\<rparr>]"
    "appls (cs_core s) = [100 \<mapsto> zero_appl\<lparr>appl_id := 1, appl_stats := st\<rparr>]"
    by blast
  have "\<exists>s'. do {
      (_, s) \<leftarrow> capinc_tty_open demo_cfg 5 0 s;
      (_, s) \<leftarrow> capinc_tty_open demo_cfg 5 0 s;
      (_, _, s) \<leftarrow> capi_frelease demo_cfg 100 s;
      Some s } = Some s' \<and> (\<exists>mp. driver_data s' 5 = Some 102 \<and> minors s' 102 = Some mp \<and> nccip mp = None \<and>
     ttyopencount mp = 2 \<and> mn_ap mp = 100 \<and> appls (cs_core s') 100 = None \<and> inqueue mp = [])"
    using s(2-) by (simp add: capinc_tty_open_def capiminor_find_def upd_minor_def handle_minor_recv_def
        capi_frelease_def capidev_free_def demo_cfg_def demo_env_def zero_minor_def zero_appl_def upd_cdev_def
        upd_appl_def capi_release_def capincci_free_def capincci_drop_minor_def tty_event_def Let_def)
  then show ?thesis unfolding demo_hung_def s(1) by simp
qed

theorem capinc_tty_close_frees_open_witness:
  "\<exists>s s'. demo_hung = Some s \<and> capinc_tty_close 5 s = Some s' \<and> capinc_tty_close 5 s' = None"
proof -
  from demo_hung_state obtain s mp where s: "demo_hung = Some s" "driver_data s 5 = Some 102" "minors s 102 = Some mp"
    "nccip mp = None" "2 \<le> ttyopencount mp" by auto
  from capinc_tty_close_frees_open [OF s(2-5)] s(1) show ?thesis by blast
qed

end
