(* ===== verification/CapiDevData.thy ===== *)
theory CapiDevData
  imports CapiDevProps "HOL-Library.Sublist"
begin

text \<open>
  The data path of \<^verbatim>\<open>capi.c\<close>: what a terminal receives and sends, the acknowledge queue of a minor (an
  instance of the interface \<open>ack_set\<close>), and what \<open>read\<close> and \<open>write\<close> of the device file do with messages.
\<close>

section \<open>From a connection to its terminal\<close>

text \<open>The data of a message, and what the line discipline of a terminal has received so far.\<close>

definition payload :: "bytes \<Rightarrow> bytes" where
  "payload skb = (case CAPIMSG_LEN skb of None \<Rightarrow> [] | Some n \<Rightarrow> if unat n \<le> length skb then drop (unat n) skb else skb)"

fun received :: "nat \<Rightarrow> tty_event list \<Rightarrow> bytes list" where
  "received t [] = []"
| "received t (e # l) = received t l @ (case e of ReceiveBuf t' b \<Rightarrow> if t' = t then [b] else [] | _ \<Rightarrow> [])"

text \<open>What reception leaves alone in a minor.\<close>

definition rview :: "capiminor \<Rightarrow> bytes list \<times> int \<times> nat option" where
  "rview mp = (inqueue mp, inbytes mp, mn_tty mp)"

lemma upd_minor_rview:
  assumes "upd_minor m' f s = Some s'" and "\<And>mp. rview (f mp) = rview mp" and "minors s m = Some mp"
  shows "\<exists>mp'. minors s' m = Some mp' \<and> rview mp' = rview mp"
  using assms by (auto simp: upd_minor_def)

lemma ldisc_receive_minors:
  assumes "ldisc_receive cfg t b s = Some s'" and "minors s m = Some mp"
  shows "\<exists>mp'. minors s' m = Some mp' \<and> rview mp' = rview mp \<and> tty_log s' = ReceiveBuf t b # tty_log s"
  using assms
  by (auto simp: ldisc_receive_def capinc_tty_throttle_def upd_minor_def tty_event_def Let_def rview_def
      split: if_splits option.splits)

lemma gen_resp_minors:
  assumes "gen_data_b3_resp_for cfg m' skb s = Some (r, s')" and "minors s m = Some mp"
  shows "(\<exists>mp'. minors s' m = Some mp' \<and> rview mp' = rview mp) \<and> tty_log s' = tty_log s"
  using assms
  by (auto simp: gen_data_b3_resp_for_def kmalloc_def upd_minor_def rview_def split: if_splits)

lemma put_capi_message_core: "put_capi_message cfg a m s = Some (r, s') \<Longrightarrow> \<exists>c. s' = s\<lparr>cs_core := c\<rparr>"
  by (auto simp: put_capi_message_def)

lemma handle_recv_skb_delivers:
  assumes r: "handle_recv_skb cfg m skb s = Some (ok, s')" and m: "minors s m = Some mp"
  shows "\<exists>mp'. minors s' m = Some mp' \<and> rview mp' = rview mp \<and>
    (ok \<longrightarrow> mn_tty mp \<noteq> None) \<and>
    (\<forall>t. mn_tty mp = Some t \<longrightarrow> received t (tty_log s') = received t (tty_log s) @ (if ok then [payload skb] else []))"
proof (cases "mn_tty mp")
  case None
  with r m show ?thesis by (auto simp: handle_recv_skb_def)
next
  case (Some t)
  from r m Some obtain mlen where ml: "CAPIMSG_LEN skb = Some mlen" by (auto simp: handle_recv_skb_def)
  show ?thesis
  proof (cases "ok = False \<and> s' = s")
    case True
    with m Some show ?thesis by auto
  next
    case False
    with r m Some ml obtain n s1 where g: "gen_data_b3_resp_for cfg m skb s = Some (n, s1)"
      and rest: "(case n of
             None \<Rightarrow> Some (False, s1)
           | Some nskb \<Rightarrow> do {
               h \<leftarrow> CAPIMSG_U16 skb (CAPIMSG_BASELEN + 4);
               (err, s) \<leftarrow> put_capi_message cfg (mn_ap mp) nskb s1;
               if err \<noteq> CAPINFO_0X11_NOERR then Some (False, s)
               else do {
                 let data = (if unat mlen \<le> length skb then drop (unat mlen) skb else skb);
                 s \<leftarrow> ldisc_receive cfg t data s;
                 Some (True, s) } }) = Some (ok, s')"
      by (auto simp: handle_recv_skb_def simp del: CAPIMSG_BASELEN_def split: if_split_asm)
    from gen_resp_minors [OF g m] obtain mp1 where mp1: "minors s1 m = Some mp1" "rview mp1 = rview mp" "tty_log s1 = tty_log s"
      by blast
    show ?thesis
    proof (cases n)
      case None
      with rest mp1 Some show ?thesis by auto
    next
      case (Some nskb)
      have pl: "payload skb = (if unat mlen \<le> length skb then drop (unat mlen) skb else skb)" by (simp add: payload_def ml)
      from rest [folded pl, unfolded Let_def] Some obtain err s2 where p: "put_capi_message cfg (mn_ap mp) nskb s1 = Some (err, s2)"
        and rest2: "(if err \<noteq> CAPINFO_0X11_NOERR then Some (False, s2)
               else do { s \<leftarrow> ldisc_receive cfg t (payload skb) s2; Some (True, s) }) = Some (ok, s')"
        by auto
      from put_capi_message_core [OF p] mp1 have mp2: "minors s2 m = Some mp1" "tty_log s2 = tty_log s" by auto
      show ?thesis
      proof (cases "err = CAPINFO_0X11_NOERR")
        case True
        with rest2 have l: "ldisc_receive cfg t (payload skb) s2 = Some s'" and ok by auto
        from ldisc_receive_minors [OF l mp2(1)] mp2 mp1 \<open>mn_tty mp = Some t\<close> \<open>ok\<close> show ?thesis by auto
      next
        case False
        with rest2 mp1 mp2 \<open>mn_tty mp = Some t\<close> show ?thesis by auto
      qed
    qed
  qed
qed

lemma minor_recv_delivers:
  assumes "minor_recv cfg m q s = Some s'" and "minors s m = Some mp" and "inqueue mp = q"
  shows "\<exists>n mp'. n \<le> length q \<and> minors s' m = Some mp' \<and> inqueue mp' = drop n q \<and> mn_tty mp' = mn_tty mp \<and>
    (mn_tty mp = None \<longrightarrow> n = 0) \<and>
    inbytes mp' = inbytes mp - (\<Sum>skb\<leftarrow>take n q. int (length skb)) \<and>
    (\<forall>t. mn_tty mp = Some t \<longrightarrow> received t (tty_log s') = received t (tty_log s) @ map payload (take n q))"
  using assms
proof (induction q arbitrary: s mp)
  case Nil
  then show ?case by auto
next
  case (Cons skb q)
  let ?mp1 = "mp\<lparr>inqueue := q, inbytes := inbytes mp - int (length skb)\<rparr>"
  from Cons.prems obtain s1 ok s2 where
    s1: "s1 = s\<lparr>minors := (minors s)(m \<mapsto> ?mp1)\<rparr>"
    and s2: "handle_recv_skb cfg m skb s1 = Some (ok, s2)"
    and s': "if ok then minor_recv cfg m q s2 = Some s' else
      upd_minor m (\<lambda>mp. mp\<lparr>inqueue := skb # inqueue mp, inbytes := inbytes mp + int (length skb)\<rparr>) s2 = Some s'"
    by (auto simp: Let_def upd_minor_def split: if_splits)
  have m1: "minors s1 m = Some ?mp1" using s1 by simp
  from handle_recv_skb_delivers [OF s2 m1] obtain mp2 where mp2: "minors s2 m = Some mp2" "inqueue mp2 = q"
    "inbytes mp2 = inbytes mp - int (length skb)" "mn_tty mp2 = mn_tty mp" and okt: "ok \<longrightarrow> mn_tty mp \<noteq> None"
    and rec: "\<And>t. mn_tty mp = Some t \<Longrightarrow>
       received t (tty_log s2) = received t (tty_log s) @ (if ok then [payload skb] else [])"
    by (auto simp: rview_def s1)
  show ?case
  proof (cases ok)
    case True
    with s' have "minor_recv cfg m q s2 = Some s'" by simp
    from Cons.IH [OF this mp2(1,2)] obtain n mp' where ih: "n \<le> length q" "minors s' m = Some mp'" "inqueue mp' = drop n q"
      "mn_tty mp' = mn_tty mp2" "inbytes mp' = inbytes mp2 - (\<Sum>skb\<leftarrow>take n q. int (length skb))"
      "\<forall>t. mn_tty mp2 = Some t \<longrightarrow> received t (tty_log s') = received t (tty_log s2) @ map payload (take n q)" by blast
    with mp2 rec okt True show ?thesis by (intro exI [of _ "Suc n"] exI [of _ mp']) auto
  next
    case False
    with s' mp2 rec show ?thesis
      by (intro exI [of _ 0]) (auto simp: upd_minor_def)
  qed
qed

text \<open>C24: A terminal receives the data messages of its connection completely and in order: what \<open>handle_minor_recv\<close> hands to
  the line discipline are the data of the first messages of the queue, the others stay in the queue in their
  order, and the count of queued bytes follows.\<close>

theorem capi_recv_in_order:
  assumes "handle_minor_recv cfg m s = Some s'" and "minors s m = Some mp" and "mn_tty mp = Some t"
  shows "\<exists>n mp'. n \<le> length (inqueue mp) \<and> minors s' m = Some mp' \<and> inqueue mp' = drop n (inqueue mp) \<and>
    received t (tty_log s') = received t (tty_log s) @ map payload (take n (inqueue mp)) \<and>
    inbytes mp' = inbytes mp - (\<Sum>skb\<leftarrow>take n (inqueue mp). int (length skb))"
proof -
  from assms(1,2) have "minor_recv cfg m (inqueue mp) s = Some s'" by (simp add: handle_minor_recv_def)
  from minor_recv_delivers [OF this assms(2) refl] assms(3) show ?thesis by blast
qed

section \<open>From a terminal to its connection\<close>

text \<open>The messages of an application that its drivers have accepted, oldest first.\<close>

fun accepted :: "core_env \<Rightarrow> nat \<Rightarrow> drv_event list \<Rightarrow> bytes list" where
  "accepted env a [] = []"
| "accepted env a (PutMsg d a' m # tr) =
     accepted env a tr @ (if a' = a \<and> drv_put_message env tr d a m = 0 then [m] else [])"
| "accepted env a (Registered _ _ _ # tr) = accepted env a tr"
| "accepted env a (Released _ _ # tr) = accepted env a tr"
| "accepted env a (Delisted _ # tr) = accepted env a tr"

lemma capi_put_message_accepted:
  assumes "capi_put_message env a (Some m) c = Some (err, c')"
  shows "accepted env a (drv_trace c') = accepted env a (drv_trace c) @ (if err = 0 then [m] else [])"
  using assms by (auto simp: capi_put_message_def log_drv_def Let_def split: if_splits)

lemma put_capi_message_accepted:
  assumes "put_capi_message cfg a m s = Some (err, s')"
  shows "accepted (cc_env cfg) a (drv_trace (cs_core s')) =
    accepted (cc_env cfg) a (drv_trace (cs_core s)) @ (if err = 0 then [m] else [])"
  using assms
  by (auto simp: put_capi_message_def count_tx_def upd_appl_def dest!: capi_put_message_accepted split: if_splits)

lemma data_b3_req_bytes:
  "data_b3_req a i n ad l h data =
     Some (le16 22 @ le16 a @ [CAPI_DATA_B3, CAPI_REQ] @ le16 i @ le32 n @ le32 ad @ le16 l @ le16 h @ [0, 0] @ data)"
proof -
  have r: "replicate 22 0 = [0, 0, 0, 0, 0, 0, 0, 0, 0, 0, 0, 0, 0, 0, 0, 0, 0, 0, 0, 0, 0, 0 :: u8]"
    by (simp add: numeral_eq_Suc)
  show ?thesis
    by (simp add: data_b3_req_def Let_def r capimsg_setu16_sts capimsg_setu32_sts capimsg_setu8_def sts_byte [symmetric]
        le16_def le32_def)
qed

lemma data_b3_resp_bytes:
  "data_b3_resp a i n h (replicate 14 0) = Some (le16 14 @ le16 a @ [CAPI_DATA_B3, CAPI_RESP] @ le16 i @ le32 n @ le16 h)"
proof -
  have r: "replicate 14 0 = [0, 0, 0, 0, 0, 0, 0, 0, 0, 0, 0, 0, 0, 0 :: u8]" by (simp add: numeral_eq_Suc)
  show ?thesis
    by (simp add: data_b3_resp_def r capimsg_setu16_sts capimsg_setu32_sts capimsg_setu8_def sts_byte [symmetric]
        le16_def le32_def)
qed

lemma data_b3_req_reads:
  assumes "data_b3_req a i n ad l h data = Some skb"
  shows "drop 22 skb = data" and "CAPIMSG_U16 skb 18 = Some h" and "CAPIMSG_U16 skb 16 = Some l"
    and "CAPIMSG_CMD skb = Some CAPI_DATA_B3_REQ" and "CAPIMSG_U16 skb 2 = Some a" and "CAPIMSG_U32 skb 8 = Some n"
  using assms
  by (auto simp: data_b3_req_bytes CAPIMSG_U16_def CAPIMSG_U32_def CAPIMSG_CMD_def le16_def le32_def ld_def)

text \<open>The acknowledge queue, as a multiset: taking a number out removes its first occurrence.\<close>

lemma del_handle_iff: "del_handle h q = (if h \<in> set q then Some (remove1 h q) else None)"
  by (induction q) auto

lemma del_ack_remove1:
  "capiminor_del_ack h mp = (if h \<in> set (ackqueue mp)
     then (True, mp\<lparr>ackqueue := remove1 h (ackqueue mp), nack := nack mp - 1\<rparr>) else (False, mp))"
  by (simp add: capiminor_del_ack_def del_handle_iff)

lemma send_skb_effect:
  assumes m: "minors s m = Some mp" and r: "send_skb cfg m data s = Some (r, s')"
  shows "\<exists>mp' msg. minors s' m = Some mp' \<and> outqueue mp' = outqueue mp \<and> mn_ap mp' = mn_ap mp \<and> mn_ncci mp' = mn_ncci mp \<and>
    mset (ackqueue mp') = mset (ackqueue mp) + (if r = Sent then {#datahandle mp#} else {#}) \<and>
    nack mp' = nack mp + (if r = Sent then 1 else 0) \<and>
    datahandle mp' = datahandle mp + (if r = Sent then 1 else 0) \<and>
    accepted (cc_env cfg) (mn_ap mp) (drv_trace (cs_core s')) =
      accepted (cc_env cfg) (mn_ap mp) (drv_trace (cs_core s)) @ (if r = Sent then [msg] else []) \<and>
    CAPIMSG_U16 msg 18 = Some (datahandle mp) \<and> drop 22 msg = data \<and> CAPIMSG_U32 msg 8 = Some (mn_ncci mp)"
proof -
  obtain mem s0 where k: "kmalloc cfg (s\<lparr>minors := (minors s)(m \<mapsto> mp\<lparr>mn_msgid := mn_msgid mp + 1\<rparr>)\<rparr>) = (mem, s0)"
    by fastforce
  then have s0: "minors s0 = (minors s)(m \<mapsto> mp\<lparr>mn_msgid := mn_msgid mp + 1\<rparr>)" "cs_core s0 = cs_core s"
    by (auto simp: kmalloc_def)
  from m r obtain ap where ap: "appls (cs_core s) (mn_ap mp) = Some ap" by (auto simp: send_skb_def Let_def)
  obtain msg where msg: "data_b3_req (appl_id ap) (mn_msgid mp) (mn_ncci mp) (skb_addr cfg data) (word_of_nat (length data))
      (datahandle mp) data = Some msg" unfolding data_b3_req_bytes by blast
  note rd = data_b3_req_reads(1,2,6) [OF msg]
  show ?thesis
  proof (cases mem)
    case None
    with m r ap msg k s0 have "r = Again \<and> s' = s0"
      by (auto simp: send_skb_def Let_def upd_minor_def capincci_add_ack_def fun_upd_idem)
    with s0 rd show ?thesis by (intro exI [of _ "mp\<lparr>mn_msgid := mn_msgid mp + 1\<rparr>"] exI [of _ msg]) auto
  next
    case (Some p)
    let ?mp1 = "mp\<lparr>mn_msgid := mn_msgid mp + 1, ackqueue := ackqueue mp @ [datahandle mp], nack := nack mp + 1\<rparr>"
    let ?s1 = "s0\<lparr>minors := (minors s)(m \<mapsto> ?mp1)\<rparr>"
    from m r ap msg k s0 Some obtain err s2 where
      p: "put_capi_message cfg (mn_ap mp) msg ?s1 = Some (err, s2)"
      and rest: "(if err = CAPINFO_0X11_NOERR then do {
         s \<leftarrow> upd_minor m (\<lambda>mp. mp\<lparr>datahandle := datahandle mp + 1,
           outbytes := outbytes mp - uint (word_of_nat (length data) :: u16)\<rparr>) s2;
         Some (Sent, s) }
       else do {
         s \<leftarrow> upd_minor m (\<lambda>mp'. snd (capiminor_del_ack (datahandle mp) mp')) s2;
         if err = CAPINFO_0X11_QUEUEFULL then Some (Again, s)
         else do {
           s \<leftarrow> upd_minor m (\<lambda>mp. mp\<lparr>outbytes := outbytes mp - uint (word_of_nat (length data) :: u16)\<rparr>) s;
           Some (Dropped, s) } }) = Some (r, s')"
      by (auto simp: send_skb_def Let_def upd_minor_def capincci_add_ack_def)
    from put_capi_message_core [OF p] have m2: "minors s2 = (minors s)(m \<mapsto> ?mp1)" by auto
    from put_capi_message_accepted [OF p] s0 have acc: "accepted (cc_env cfg) (mn_ap mp) (drv_trace (cs_core s2)) =
        accepted (cc_env cfg) (mn_ap mp) (drv_trace (cs_core s)) @ (if err = 0 then [msg] else [])" by simp
    show ?thesis
    proof (cases "err = 0")
      case True
      with rest m2 acc rd show ?thesis by (auto simp: upd_minor_def intro!: exI [of _ msg])
    next
      case False
      with rest m2 acc rd show ?thesis
        by (auto simp: upd_minor_def del_ack_remove1 mset_remove1 split: if_splits intro!: exI [of _ msg])
    qed
  qed
qed

text \<open>The numbers of \<open>k\<close> messages sent one after the other, the first one \<open>h\<close>.\<close>

definition handles :: "u16 \<Rightarrow> nat \<Rightarrow> u16 list" where
  "handles h k = map (\<lambda>i. h + word_of_nat i) [0..<k]"

lemma handles_0 [simp]: "handles h 0 = []"
  by (simp add: handles_def)

lemma handles_Suc: "handles h (Suc k) = h # handles (h + 1) k"
proof -
  have "map (\<lambda>i. h + word_of_nat i) (map Suc [0..<k]) = map (\<lambda>i. h + 1 + word_of_nat i) [0..<k]"
    by (simp add: ac_simps)
  then show ?thesis unfolding handles_def upt_conv_Cons [OF zero_less_Suc] map_Suc_upt by simp
qed

lemma minor_send_effect:
  assumes "minor_send cfg m k0 q s = Some (k, s')" and "minors s m = Some mp" and "outqueue mp = q"
  shows "\<exists>n msgs mp'. k = k0 + length msgs \<and> minors s' m = Some mp' \<and> n \<le> length q \<and> outqueue mp' = drop n q \<and>
    subseq (map (drop 22) msgs) (take n q) \<and>
    accepted (cc_env cfg) (mn_ap mp) (drv_trace (cs_core s')) = accepted (cc_env cfg) (mn_ap mp) (drv_trace (cs_core s)) @ msgs \<and>
    map (\<lambda>msg. CAPIMSG_U16 msg 18) msgs = map Some (handles (datahandle mp) (length msgs)) \<and>
    (\<forall>msg\<in>set msgs. CAPIMSG_U32 msg 8 = Some (mn_ncci mp)) \<and>
    datahandle mp' = datahandle mp + word_of_nat (length msgs) \<and>
    mset (ackqueue mp') = mset (ackqueue mp) + mset (handles (datahandle mp) (length msgs)) \<and>
    nack mp' = nack mp + int (length msgs)"
  using assms
proof (induction q arbitrary: k0 s mp)
  case Nil
  then show ?case by (intro exI [of _ 0] exI [of _ "[]"] exI [of _ mp]) auto
next
  case (Cons data q)
  from Cons.prems obtain s1 r s2 where s1: "s1 = s\<lparr>minors := (minors s)(m \<mapsto> mp\<lparr>outqueue := q\<rparr>)\<rparr>"
    and s2: "send_skb cfg m data s1 = Some (r, s2)"
    and rest: "(case r of Sent \<Rightarrow> minor_send cfg m (k0 + 1) q s2
       | Again \<Rightarrow> do { s \<leftarrow> upd_minor m (\<lambda>mp. mp\<lparr>outqueue := data # outqueue mp\<rparr>) s2; Some (k0, s) }
       | Dropped \<Rightarrow> minor_send cfg m k0 q s2) = Some (k, s')"
    by (auto simp: upd_minor_def)
  have m1: "minors s1 m = Some (mp\<lparr>outqueue := q\<rparr>)" and c1: "cs_core s1 = cs_core s" by (simp_all add: s1)
  let ?acc = "\<lambda>s. accepted (cc_env cfg) (mn_ap mp) (drv_trace (cs_core s))"
  from send_skb_effect [OF m1 s2] obtain mp2 msg where mp2: "minors s2 m = Some mp2" "outqueue mp2 = q" "mn_ap mp2 = mn_ap mp"
    "mn_ncci mp2 = mn_ncci mp" "mset (ackqueue mp2) = mset (ackqueue mp) + (if r = Sent then {#datahandle mp#} else {#})"
    "nack mp2 = nack mp + (if r = Sent then 1 else 0)" "datahandle mp2 = datahandle mp + (if r = Sent then 1 else 0)"
    and acc: "?acc s2 = ?acc s @ (if r = Sent then [msg] else [])"
    and msg: "CAPIMSG_U16 msg 18 = Some (datahandle mp)" "drop 22 msg = data" "CAPIMSG_U32 msg 8 = Some (mn_ncci mp)"
    by (auto simp: c1)
  note ih = Cons.IH [OF _ mp2(1,2), unfolded mp2(3,4)]
  show ?case
  proof (cases r)
    case Sent
    with rest have "minor_send cfg m (k0 + 1) q s2 = Some (k, s')" by simp
    from ih [OF this] obtain n msgs mp' where i: "k = k0 + 1 + length msgs" "minors s' m = Some mp'" "n \<le> length q"
      "outqueue mp' = drop n q" "subseq (map (drop 22) msgs) (take n q)" "?acc s' = ?acc s2 @ msgs"
      "map (\<lambda>msg. CAPIMSG_U16 msg 18) msgs = map Some (handles (datahandle mp2) (length msgs))"
      "\<forall>msg\<in>set msgs. CAPIMSG_U32 msg 8 = Some (mn_ncci mp)" "datahandle mp' = datahandle mp2 + word_of_nat (length msgs)"
      "mset (ackqueue mp') = mset (ackqueue mp2) + mset (handles (datahandle mp2) (length msgs))"
      "nack mp' = nack mp2 + int (length msgs)" by blast
    show ?thesis
      by (intro exI [of _ "Suc n"] exI [of _ "msg # msgs"] exI [of _ mp'])
        (use i mp2 acc msg Sent in \<open>simp add: handles_Suc\<close>)
  next
    case Again
    with rest mp2 acc show ?thesis
      by (intro exI [of _ 0] exI [of _ "[]"]) (auto simp: upd_minor_def)
  next
    case Dropped
    with rest have "minor_send cfg m k0 q s2 = Some (k, s')" by simp
    from ih [OF this] obtain n msgs mp' where i: "k = k0 + length msgs" "minors s' m = Some mp'" "n \<le> length q"
      "outqueue mp' = drop n q" "subseq (map (drop 22) msgs) (take n q)" "?acc s' = ?acc s2 @ msgs"
      "map (\<lambda>msg. CAPIMSG_U16 msg 18) msgs = map Some (handles (datahandle mp2) (length msgs))"
      "\<forall>msg\<in>set msgs. CAPIMSG_U32 msg 8 = Some (mn_ncci mp)" "datahandle mp' = datahandle mp2 + word_of_nat (length msgs)"
      "mset (ackqueue mp') = mset (ackqueue mp2) + mset (handles (datahandle mp2) (length msgs))"
      "nack mp' = nack mp2 + int (length msgs)" by blast
    show ?thesis
      by (intro exI [of _ "Suc n"] exI [of _ msgs] exI [of _ mp'])
        (use i mp2 acc Dropped in \<open>auto intro: list_emb_Cons\<close>)
  qed
qed

text \<open>C23: What is written to a terminal is sent in order: the messages that the drivers accept carry a subsequence of the
  data at the front of the output queue (data that a driver refuses for good are dropped), with consecutive data
  handles and the NCCI of the connection; the rest stays queued in order.  The acknowledge queue grows by
  exactly these handles, and the return value counts the messages.\<close>

theorem capi_send_in_order:
  assumes "handle_minor_send cfg m s = Some (k, s')" and "minors s m = Some mp"
  shows "\<exists>n msgs mp'. k = length msgs \<and> minors s' m = Some mp' \<and> n \<le> length (outqueue mp) \<and>
    outqueue mp' = drop n (outqueue mp) \<and> subseq (map (drop 22) msgs) (take n (outqueue mp)) \<and>
    accepted (cc_env cfg) (mn_ap mp) (drv_trace (cs_core s')) = accepted (cc_env cfg) (mn_ap mp) (drv_trace (cs_core s)) @ msgs \<and>
    map (\<lambda>msg. CAPIMSG_U16 msg 18) msgs = map Some (handles (datahandle mp) k) \<and>
    (\<forall>msg\<in>set msgs. CAPIMSG_U32 msg 8 = Some (mn_ncci mp)) \<and>
    datahandle mp' = datahandle mp + word_of_nat k \<and>
    mset (ackqueue mp') = mset (ackqueue mp) + mset (handles (datahandle mp) k) \<and> nack mp' = nack mp + int k"
proof (cases "mn_tty mp \<noteq> None \<and> ttyoutstop mp")
  case True
  with assms show ?thesis by (intro exI [of _ 0] exI [of _ "[]"] exI [of _ mp]) (auto simp: handle_minor_send_def)
next
  case False
  with assms have "minor_send cfg m 0 (outqueue mp) s = Some (k, s')" by (auto simp: handle_minor_send_def)
  from minor_send_effect [OF this assms(2) refl] show ?thesis by auto
qed

section \<open>The acknowledge queue\<close>

lemma int_length_remove1: "h \<in> set q \<Longrightarrow> int (length (remove1 h q)) = int (length q) - 1"
  by (induction q) auto

interpretation minor_acks: ack_set "\<lambda>mp. nack mp = int (length (ackqueue mp))" "\<lambda>_. mem" ackqueue
    "\<lambda>h mp. Some (capincci_add_ack mem h mp)" "\<lambda>h mp. Some (capiminor_del_ack h mp)" for mem
  by unfold_locales (auto simp: capincci_add_ack_def del_ack_remove1 int_length_remove1)

lemma capiminor_del_all_ack_empties:
  "capiminor_del_all_ack q (mp\<lparr>ackqueue := q, nack := n\<rparr>) = mp\<lparr>ackqueue := [], nack := n - int (length q)\<rparr>"
  by (induction q arbitrary: n) auto

text \<open>C33: The acknowledge queue of a minor takes confirmations in any order (unlike the window of \<^verbatim>\<open>capilib.c\<close>): when
  the confirmations are a permutation of the numbers in the queue, it is empty afterwards and its count
  is 0; a confirmation of a number that is not in it changes nothing.\<close>

theorem capi_acks_any_order:
  assumes "nack mp = int (length (ackqueue mp))" and "mset hs = mset (ackqueue mp)"
  shows "(\<exists>mp'. fold_opt (\<lambda>h mp. map_option snd (Some (capiminor_del_ack h mp))) hs mp = Some mp' \<and>
      nack mp' = int (length (ackqueue mp')) \<and> ackqueue mp' = []) \<and>
    (h \<notin> set hs \<longrightarrow> capiminor_del_ack h mp = (False, mp))"
proof -
  have "h \<notin> set (ackqueue mp)" if "h \<notin> set hs" using that assms(2) by (metis set_mset_mset)
  with minor_acks.confirm_any_order [OF assms(1) refl assms(2)] minor_acks.del_absent_law [OF assms(1), of h]
  show ?thesis by auto
qed

section \<open>A run of the data path\<close>

definition demo_ind :: "u8 \<Rightarrow> bytes" where
  "demo_ind h = [22, 0, 1, 0, CAPI_DATA_B3, CAPI_IND, 1, 0, 1, 1, 1, 0, 0, 0, 0, 0, 1, 0, h, 0, 0, 0, h]"

definition demo_io :: capist where
  "demo_io = (capist_init ((core_init demo_env)\<lparr>devs := [1 \<mapsto> zero_dev\<lparr>dev_id := 1\<rparr>], capi_devs_table := [Some 1],
       appls := [2 \<mapsto> demo_appl\<lparr>appl_id := 1, appl_devs := {0}\<rparr>], capi_appls_list := [2]\<rparr>) 100)
     \<lparr>minors := [3 \<mapsto> zero_minor\<lparr>mn_tty := Some 5, mn_ap := 2, mn_ncci := 0x10101, inqueue := [demo_ind 7, demo_ind 8],
       inbytes := 46, outqueue := [[65], [66, 67]], outbytes := 3\<rparr>]\<rparr>"

lemmas demo_io_simps = demo_io_def demo_cfg_def demo_env_def demo_appl_def core_init_def capist_init_def zero_dev_def
  zero_minor_def zero_appl_def upd_minor_def upd_cdev_def upd_appl_def kmalloc_def tty_event_def log_drv_def
  put_capi_message_def capi_put_message_def msg_count_def count_tx_def CAPIMSG_CONTROLLER_def
  CAPIMSG_LEN_def CAPIMSG_CMD_def CAPIMSG_DATALEN_def CAPIMSG_U16_def ld_def of_le16_def

theorem capi_recv_in_order_witness:
  "\<exists>s' n. handle_minor_recv demo_cfg 3 demo_io = Some s' \<and> received 5 (tty_log s') = map payload (take n [demo_ind 7, demo_ind 8])"
proof -
  have "\<exists>s'. handle_minor_recv demo_cfg 3 demo_io = Some s'"
    by (simp add: handle_minor_recv_def demo_io_simps handle_recv_skb_def demo_ind_def gen_data_b3_resp_for_def
        data_b3_resp_bytes le16_def le32_def ldisc_receive_def nth_opt_def capinc_tty_throttle_def)
  then obtain s' where r: "handle_minor_recv demo_cfg 3 demo_io = Some s'" by blast
  have m: "\<exists>mp. minors demo_io 3 = Some mp \<and> mn_tty mp = Some 5 \<and> inqueue mp = [demo_ind 7, demo_ind 8] \<and> tty_log demo_io = []"
    by (simp add: demo_io_def capist_init_def)
  then obtain mp where mp: "minors demo_io 3 = Some mp" "mn_tty mp = Some 5" "inqueue mp = [demo_ind 7, demo_ind 8]"
    "tty_log demo_io = []" by blast
  from capi_recv_in_order [OF r mp(1,2)] mp(3,4) r show ?thesis by auto
qed

theorem capi_send_in_order_witness:
  "\<exists>s' k. handle_minor_send demo_cfg 3 demo_io = Some (k, s') \<and>
     (\<exists>mp msgs. minors s' 3 = Some mp \<and> length msgs = k \<and> datahandle mp = word_of_nat k \<and>
       accepted demo_env 2 (drv_trace (cs_core s')) = msgs)"
proof -
  have "\<exists>k s'. handle_minor_send demo_cfg 3 demo_io = Some (k, s')"
    by (simp add: handle_minor_send_def send_skb_def data_b3_req_bytes le16_def le32_def demo_io_simps
        capincci_add_ack_def)
  then obtain k s' where r: "handle_minor_send demo_cfg 3 demo_io = Some (k, s')" by blast
  obtain mp where mp: "minors demo_io 3 = Some mp" "datahandle mp = 0" "mn_ap mp = 2" "drv_trace (cs_core demo_io) = []"
    "cc_env demo_cfg = demo_env"
    by (simp add: demo_io_def capist_init_def zero_minor_def core_init_def demo_cfg_def)
  from capi_send_in_order [OF r mp(1)] mp(2-5) r show ?thesis by auto
qed

theorem capi_acks_any_order_witness:
  "\<exists>mp'. fold_opt (\<lambda>h mp. map_option snd (Some (capiminor_del_ack h mp))) [6, 5] (zero_minor\<lparr>ackqueue := [5, 6], nack := 2\<rparr>)
     = Some mp' \<and> ackqueue mp' = [] \<and> nack mp' = 0"
  using capi_acks_any_order [of "zero_minor\<lparr>ackqueue := [5, 6], nack := 2\<rparr>" "[6, 5]"] by auto

end
