(* ===== verification/CapiDevFiles.thy ===== *)
theory CapiDevFiles
  imports CapiDevData
begin

text \<open>
  The file operations of \<^verbatim>\<open>capi.c\<close>: what \<open>write\<close> hands to the drivers, in which order messages reach
  \<open>read\<close>, and what the terminal operations do once the application is gone.
\<close>

section \<open>Writing\<close>

lemma capincci_drop_minor_core: "capincci_drop_minor m s = Some s' \<Longrightarrow> cs_core s' = cs_core s"
  by (auto simp: capincci_drop_minor_def capiminor_free_def upd_minor_def tty_event_def Let_def split: option.splits)

lemma free_nccis_core: "free_nccis cdev ncci pre ps s = Some s' \<Longrightarrow> cs_core s' = cs_core s"
proof (induction ps arbitrary: pre s)
  case (Cons p ps)
  then show ?case
    by (auto simp: Let_def upd_cdev_def dest!: capincci_drop_minor_core split: if_splits option.splits)
qed simp

lemma capincci_free_core: "capincci_free cdev ncci s = Some s' \<Longrightarrow> cs_core s' = cs_core s"
  by (auto simp: capincci_free_def dest: free_nccis_core)

lemma CAPIMSG_SETAPPID_bytes:
  assumes "CAPIMSG_SETAPPID buf i = Some skb"
  shows "skb = take 2 buf @ le16 i @ drop 4 buf"
  using assms by (auto simp: CAPIMSG_SETAPPID_def capimsg_setu16_sts sts_def le16_def split: if_splits)

text \<open>The length that a message says it has, data included.\<close>

definition message_length :: "bytes \<Rightarrow> nat option" where
  "message_length buf = do {
     n \<leftarrow> CAPIMSG_LEN buf;
     cmd \<leftarrow> CAPIMSG_CMD buf;
     if cmd = CAPI_DATA_B3_REQ then do { d \<leftarrow> CAPIMSG_DATALEN buf; Some (unat n + unat d) } else Some (unat n) }"

lemma capi_write_cases:
  assumes "appid cdev s = Some i" and "i \<noteq> 0" and "alloc_ok cfg (brk s)" and "capi_write cfg cdev buf False s = Some (r, s')"
  shows "\<exists>total. message_length buf = Some total \<and>
    (if total \<noteq> length buf then r = - EINVAL \<and> s' = s\<lparr>brk := Suc (brk s)\<rparr>
     else \<exists>skb s1 err s2. CAPIMSG_SETAPPID buf i = Some skb \<and> cs_core s1 = cs_core s \<and>
       put_capi_message cfg cdev skb s1 = Some (err, s2) \<and> upd_cdev cdev (\<lambda>cd. cd\<lparr>errcode := err\<rparr>) s2 = Some s' \<and>
       r = (if err \<noteq> 0 then - EIO else int (length buf)))"
proof -
  let ?s0 = "s\<lparr>brk := Suc (brk s)\<rparr>"
  from assms obtain mlen cmd total where t: "CAPIMSG_LEN buf = Some mlen" "CAPIMSG_CMD buf = Some cmd"
    "(if cmd = CAPI_DATA_B3_REQ then do { d \<leftarrow> CAPIMSG_DATALEN buf; Some (unat mlen + unat d) }
                    else Some (unat mlen)) = Some total"
    and rest: "(if total \<noteq> length buf then Some (- EINVAL, ?s0)
           else do {
             skb \<leftarrow> CAPIMSG_SETAPPID buf i;
             s \<leftarrow> (if cmd = CAPI_DISCONNECT_B3_RESP then do {
                    ncci \<leftarrow> CAPIMSG_NCCI skb;
                    capincci_free cdev ncci ?s0 }
                  else Some ?s0);
             (err, s) \<leftarrow> put_capi_message cfg cdev skb s;
             s \<leftarrow> upd_cdev cdev (\<lambda>cd. cd\<lparr>errcode := err\<rparr>) s;
             Some (if err \<noteq> 0 then - EIO else int (length buf), s) }) = Some (r, s')"
    by (auto simp: capi_write_def kmalloc_def)
  from t have ml: "message_length buf = Some total" by (simp add: message_length_def)
  show ?thesis
  proof (cases "total = length buf")
    case True
    with rest obtain skb s1 err s2 where w: "CAPIMSG_SETAPPID buf i = Some skb"
      and s1: "(if cmd = CAPI_DISCONNECT_B3_RESP then do { ncci \<leftarrow> CAPIMSG_NCCI skb; capincci_free cdev ncci ?s0 }
                  else Some ?s0) = Some s1"
      and p: "put_capi_message cfg cdev skb s1 = Some (err, s2)"
        "upd_cdev cdev (\<lambda>cd. cd\<lparr>errcode := err\<rparr>) s2 = Some s'" "r = (if err \<noteq> 0 then - EIO else int (length buf))"
      by auto
    from s1 have "cs_core s1 = cs_core s" by (auto split: if_splits dest!: capincci_free_core)
    with ml True w p show ?thesis by auto
  qed (use rest ml in auto)
qed

text \<open>C15: A \<open>write\<close> hands exactly one message to the drivers, the bytes of the user with the application's own number
  in bytes 2 and 3, and returns the length when a driver accepts it and \<open>-EIO\<close> with the error in
  \<open>errcode\<close> otherwise; a message whose length field (plus data length) is not the length of the
  buffer is refused with \<open>-EINVAL\<close> and nothing else happens.\<close>

theorem capi_write_sends:
  assumes "appid cdev s = Some i" and "i \<noteq> 0" and "alloc_ok cfg (brk s)" and "capi_write cfg cdev buf False s = Some (r, s')"
  shows "\<exists>total. message_length buf = Some total \<and>
    (if total \<noteq> length buf then r = - EINVAL \<and> s' = s\<lparr>brk := Suc (brk s)\<rparr>
     else \<exists>err. accepted (cc_env cfg) cdev (drv_trace (cs_core s')) = accepted (cc_env cfg) cdev (drv_trace (cs_core s)) @
         (if err = 0 then [take 2 buf @ le16 i @ drop 4 buf] else []) \<and>
       map_option errcode (cdevs s' cdev) = Some err \<and> r = (if err = 0 then int (length buf) else - EIO))"
proof -
  from capi_write_cases [OF assms] obtain total where total: "message_length buf = Some total"
    and w: "if total \<noteq> length buf then r = - EINVAL \<and> s' = s\<lparr>brk := Suc (brk s)\<rparr>
     else \<exists>skb s1 err s2. CAPIMSG_SETAPPID buf i = Some skb \<and> cs_core s1 = cs_core s \<and>
       put_capi_message cfg cdev skb s1 = Some (err, s2) \<and> upd_cdev cdev (\<lambda>cd. cd\<lparr>errcode := err\<rparr>) s2 = Some s' \<and>
       r = (if err \<noteq> 0 then - EIO else int (length buf))" by blast
  show ?thesis
  proof (cases "total = length buf")
    case True
    with w obtain skb s1 err s2 where "CAPIMSG_SETAPPID buf i = Some skb" "cs_core s1 = cs_core s"
      "put_capi_message cfg cdev skb s1 = Some (err, s2)" and u: "upd_cdev cdev (\<lambda>cd. cd\<lparr>errcode := err\<rparr>) s2 = Some s'"
      "r = (if err \<noteq> 0 then - EIO else int (length buf))" by auto
    with put_capi_message_accepted [of cfg cdev skb s1 err s2] CAPIMSG_SETAPPID_bytes [of buf i skb]
    have "accepted (cc_env cfg) cdev (drv_trace (cs_core s2)) = accepted (cc_env cfg) cdev (drv_trace (cs_core s)) @
         (if err = 0 then [take 2 buf @ le16 i @ drop 4 buf] else [])" by simp
    moreover from u(1) have "cs_core s' = cs_core s2" and "map_option errcode (cdevs s' cdev) = Some err"
      by (auto simp: upd_cdev_def)
    ultimately show ?thesis using True total u(2) by auto
  qed (use w total in auto)
qed

text \<open>A \<open>LISTEN_REQ\<close> without parameters, with a wrong application number in it.\<close>

definition demo_file :: capist where
  "demo_file = demo_io\<lparr>cdevs := [2 \<mapsto> \<lparr>errcode = 0, userflags = 0, recvqueue = [], cd_nccis = []\<rparr>]\<rparr>"

theorem capi_write_sends_witness:
  "\<exists>s' r. capi_write demo_cfg 2 [12, 0, 9, 9, CAPI_LISTEN, CAPI_REQ, 1, 0, 1, 0, 0, 0] False demo_file = Some (r, s') \<and>
     (r = 12 \<longleftrightarrow> accepted demo_env 2 (drv_trace (cs_core s')) = [[12, 0, 1, 0, CAPI_LISTEN, CAPI_REQ, 1, 0, 1, 0, 0, 0]])"
proof -
  let ?buf = "[12, 0, 9, 9, CAPI_LISTEN, CAPI_REQ, 1, 0, 1, 0, 0, 0]"
  have i: "appid 2 demo_file = Some 1" by (simp add: demo_file_def demo_io_simps appid_def)
  have a: "alloc_ok demo_cfg (brk demo_file)" by (simp add: demo_cfg_def)
  have "\<exists>r s'. capi_write demo_cfg 2 ?buf False demo_file = Some (r, s')"
    by (simp add: capi_write_def i) (simp add: demo_file_def demo_io_simps CAPIMSG_SETAPPID_def capimsg_setu16_sts
        le16_def nth_opt_def)
  then obtain r s' where w: "capi_write demo_cfg 2 ?buf False demo_file = Some (r, s')" by blast
  have l: "message_length ?buf = Some 12"
    by (simp add: message_length_def CAPIMSG_LEN_def CAPIMSG_CMD_def CAPIMSG_U16_def ld_def of_le16_def)
  have e: "cc_env demo_cfg = demo_env" "drv_trace (cs_core demo_file) = []"
    by (simp_all add: demo_cfg_def demo_file_def demo_io_simps)
  from capi_write_sends [OF i _ a w] l e w show ?thesis by (auto simp: le16_def EIO_def split: if_splits)
qed

section \<open>Reading\<close>

text \<open>A message that is long enough for the fields that reception looks at.\<close>

definition readable :: "bytes \<Rightarrow> bool" where
  "readable m \<longleftrightarrow> 12 \<le> length m \<and> (CAPIMSG_CMD m = Some CAPI_CONNECT_B3_CONF \<longrightarrow> 14 \<le> length m) \<and>
     (CAPIMSG_CMD m = Some CAPI_DATA_B3_IND \<longrightarrow> 18 \<le> length m)"

text \<open>A file whose connections have no minors and get none.\<close>

definition plain_file :: "nat \<Rightarrow> bytes list \<Rightarrow> bytes list \<Rightarrow> capist \<Rightarrow> bool" where
  "plain_file cdev rq mq s \<longleftrightarrow>
     (\<exists>ap. appls (cs_core s) cdev = Some ap \<and> appl_info ap = 0 \<and> msg_queue ap = mq) \<and>
     (\<exists>cd. cdevs s cdev = Some cd \<and> userflags cd AND CAPIFLAG_HIGHJACKING = 0 \<and> recvqueue cd = rq \<and>
        (\<forall>np\<in>set (cd_nccis cd). \<exists>n. nccis s np = Some n \<and> minorp n = None))"

lemma capincci_alloc_plain:
  assumes "plain_file cdev rq mq s"
  shows "\<exists>r s'. capincci_alloc cfg cdev ncci s = Some (r, s') \<and> plain_file cdev rq mq s'"
  using assms
  by (auto simp: plain_file_def capincci_alloc_def kmalloc_def upd_cdev_def)

lemma recv_tail_plain:
  assumes "plain_file cdev rq mq s"
  shows "\<exists>s'. recv_tail cdev m s = Some s' \<and> plain_file cdev (rq @ [m]) mq s'"
  using assms by (auto simp: plain_file_def recv_tail_def upd_cdev_def)

lemma find_ncci_plain:
  "\<forall>np\<in>set ps. \<exists>n. nccis s np = Some n \<and> minorp n = None \<Longrightarrow>
   find_ncci s ncci ps = Some None \<or> (\<exists>np n. find_ncci s ncci ps = Some (Some np) \<and> nccis s np = Some n \<and> minorp n = None)"
proof (induction ps)
  case (Cons p ps)
  then obtain n where n: "nccis s p = Some n" "minorp n = None" by auto
  with Cons show ?case by (cases "nc_ncci n = ncci") auto
qed simp

lemma recv_skb_plain:
  assumes f: "plain_file cdev rq mq s" and m: "readable m"
  shows "\<exists>s'. recv_skb cfg cdev m s = Some s' \<and> plain_file cdev (rq @ [m]) mq s'"
proof -
  from m have len: "12 \<le> length m" by (simp add: readable_def)
  have "\<exists>a b. CAPIMSG_CMD m = Some (CAPICMD a b) \<and> CAPIMSG_COMMAND m = Some a"
    using len by (simp add: CAPIMSG_CMD_def CAPIMSG_COMMAND_def CAPIMSG_U8_def ld_def)
  then obtain c b where c: "CAPIMSG_CMD m = Some (CAPICMD c b)" "CAPIMSG_COMMAND m = Some c" by blast
  have "\<exists>n. CAPIMSG_CONTROL m = Some n" using len by (simp add: CAPIMSG_CONTROL_def CAPIMSG_U32_def ld_def)
  then obtain n where n: "CAPIMSG_CONTROL m = Some n" "CAPIMSG_NCCI m = Some n" by (auto simp: CAPIMSG_NCCI_def)
  have i: "\<exists>i. CAPIMSG_U16 m 12 = Some i" if "CAPICMD c b = CAPI_CONNECT_B3_CONF"
    using m that c(1) by (simp add: readable_def CAPIMSG_U16_def ld_def)
  from capincci_alloc_plain [OF f, of cfg n] i f
  have "\<exists>s1. (if CAPICMD c b = CAPI_CONNECT_B3_CONF then do {
            info \<leftarrow> CAPIMSG_U16 m 12;
            if info = 0 then do { (_, s) \<leftarrow> capincci_alloc cfg cdev n s; Some s } else Some s }
          else Some s) = Some s1 \<and> plain_file cdev rq mq s1" by auto
  then obtain s1 where s1: "(if CAPICMD c b = CAPI_CONNECT_B3_CONF then do {
            info \<leftarrow> CAPIMSG_U16 m 12;
            if info = 0 then do { (_, s) \<leftarrow> capincci_alloc cfg cdev n s; Some s } else Some s }
          else Some s) = Some s1" and p1: "plain_file cdev rq mq s1" by blast
  from capincci_alloc_plain [OF p1, of cfg n] p1
  have "\<exists>s2. (if CAPICMD c b = CAPI_CONNECT_B3_IND then do { (_, s) \<leftarrow> capincci_alloc cfg cdev n s1; Some s } else Some s1)
      = Some s2 \<and> plain_file cdev rq mq s2" by auto
  then obtain s2 where s2: "(if CAPICMD c b = CAPI_CONNECT_B3_IND then do { (_, s) \<leftarrow> capincci_alloc cfg cdev n s1; Some s } else Some s1)
      = Some s2" and p2: "plain_file cdev rq mq s2" by blast
  have "recv_skb cfg cdev m s = recv_tail cdev m s2"
  proof -
    from p2 obtain cd where cd: "cdevs s2 cdev = Some cd" "\<forall>np\<in>set (cd_nccis cd). \<exists>n. nccis s2 np = Some n \<and> minorp n = None"
      by (auto simp: plain_file_def)
    note f = find_ncci_plain [OF cd(2), of n]
    have "recv_skb cfg cdev m s = (if c \<noteq> CAPI_DATA_B3 then recv_tail cdev m s2 else do {
       np \<leftarrow> find_ncci s2 n (cd_nccis cd);
       case np of None \<Rightarrow> recv_tail cdev m s2
       | Some np \<Rightarrow> do { x \<leftarrow> nccis s2 np; case minorp x of None \<Rightarrow> recv_tail cdev m s2 | Some k \<Rightarrow> recv_data cfg cdev k m s2 } })"
      unfolding recv_skb_def c n Option.bind.bind_lunit s1 s2 capincci_find_def cd(1) ..
    with f show ?thesis by auto
  qed
  with recv_tail_plain [OF p2] show ?thesis by simp
qed

lemma capi_recv_plain:
  assumes "plain_file cdev rq mq s" and "\<forall>m\<in>set mq. readable m"
  shows "\<exists>s'. capi_recv_message cfg cdev s = Some s' \<and> plain_file cdev (rq @ mq) [] s'"
  using assms
proof (induction mq arbitrary: rq s)
  case Nil
  then have "capi_recv_message cfg cdev s = Some s" by (auto simp: plain_file_def intro: capi_recv_empty)
  with Nil show ?case by simp
next
  case (Cons m mq)
  then obtain ap where ap: "appls (cs_core s) cdev = Some ap" "appl_info ap = 0" "msg_queue ap = m # mq"
    by (auto simp: plain_file_def)
  have rd: "readable m" using Cons.prems(2) by simp
  then have "\<exists>n. msg_count CAPI_DATA_B3_IND m = Some n"
    by (auto simp: readable_def msg_count_def CAPIMSG_LEN_def CAPIMSG_CMD_def CAPIMSG_DATALEN_def CAPIMSG_U16_def ld_def)
  then obtain n where n: "msg_count CAPI_DATA_B3_IND m = Some n" by blast
  from get_capi_message_first [OF ap n] obtain st where g: "get_capi_message cdev s = Some (0, Some (Some m),
    s\<lparr>cs_core := (cs_core s)\<lparr>appls := (appls (cs_core s))(cdev \<mapsto> ap\<lparr>msg_queue := mq, appl_stats := st\<rparr>)\<rparr>\<rparr>)"
    (is "_ = Some (_, _, ?s1)") by blast
  have "plain_file cdev rq mq ?s1" using Cons.prems(1) ap by (auto simp: plain_file_def)
  from recv_skb_plain [OF this rd] obtain s2 where s2: "recv_skb cfg cdev m ?s1 = Some s2" "plain_file cdev (rq @ [m]) mq s2" by blast
  from Cons.IH [OF s2(2)] Cons.prems(2) obtain s' where s': "capi_recv_message cfg cdev s2 = Some s'" "plain_file cdev (rq @ m # mq) [] s'"
    by auto
  from g s2(1) s'(1) have "capi_recv_message cfg cdev s = Some s'" by (subst capi_recv_message.simps) simp
  with s'(2) show ?case by blast
qed

text \<open>C14: For a file without minors, reception always returns and moves every message of the application's queue to the file's
  queue, in order; \<open>read\<close> returns the oldest message of both queues whole, or \<open>-EMSGSIZE\<close> and keeps it if the user's
  buffer is too small, and \<open>-EAGAIN\<close> if there is none.\<close>

theorem capi_read_fifo:
  assumes "plain_file cdev rq mq s" and "\<forall>m\<in>set mq. readable m" and "appid cdev s = Some i" and "i \<noteq> 0"
  shows "(\<exists>s'. capi_recv_message cfg cdev s = Some s' \<and> plain_file cdev (rq @ mq) [] s') \<and>
    (\<exists>r bs s'. capi_read cfg cdev cnt False s = Some (r, bs, s') \<and>
      (case rq @ mq of
         [] \<Rightarrow> r = - EAGAIN \<and> bs = []
       | m # q \<Rightarrow> if length m > cnt then r = - EMSGSIZE \<and> bs = [] \<and> (\<exists>mq'. plain_file cdev (if rq = [] then m # q else rq) mq' s')
           else r = int (length m) \<and> bs = m \<and> (\<exists>rq' mq'. plain_file cdev rq' mq' s' \<and> rq' @ mq' = q)))"
proof -
  from capi_recv_plain [OF assms(1,2), of cfg] obtain s1 where s1: "capi_recv_message cfg cdev s = Some s1"
    "plain_file cdev (rq @ mq) [] s1" by blast
  let ?s2 = "if rq = [] then s1 else s" and ?rq = "if rq = [] then mq else rq" and ?mq = "if rq = [] then [] else mq"
  have p2: "plain_file cdev ?rq ?mq ?s2" using s1(2) assms(1) by (cases rq) simp_all
  have app: "?rq @ ?mq = rq @ mq" by simp
  from assms(1) obtain cd where cd: "cdevs s cdev = Some cd" "recvqueue cd = rq" by (auto simp: plain_file_def)
  from p2 obtain cd2 where cd2: "cdevs ?s2 cdev = Some cd2" "recvqueue cd2 = ?rq" unfolding plain_file_def by blast
  have rd: "capi_read cfg cdev cnt False s = (case ?rq of
         [] \<Rightarrow> Some (- EAGAIN, [], ?s2)
       | skb # q \<Rightarrow>
           if length skb > cnt then Some (- EMSGSIZE, [], ?s2)
           else do {
             s \<leftarrow> upd_cdev cdev (\<lambda>cd. cd\<lparr>recvqueue := q\<rparr>) ?s2;
             Some (int (length skb), skb, s) })"
    using assms(3,4) cd cd2 s1(1) by (cases rq; cases mq) (simp_all add: capi_read_def)
  have upd: "\<exists>s'. upd_cdev cdev (\<lambda>cd. cd\<lparr>recvqueue := q\<rparr>) ?s2 = Some s' \<and> plain_file cdev q ?mq s'" if "?rq = m # q" for m q
    using p2 unfolding plain_file_def upd_cdev_def by auto
  show ?thesis
  proof (cases ?rq)
    case Nil
    with rd s1 show ?thesis by (cases rq) (auto split: if_splits)
  next
    case (Cons m q)
    from upd [OF Cons] obtain s3 where s3: "upd_cdev cdev (\<lambda>cd. cd\<lparr>recvqueue := q\<rparr>) ?s2 = Some s3" "plain_file cdev q ?mq s3"
      by blast
    have eq: "rq @ mq = m # (q @ ?mq)" using Cons by (auto split: if_splits)
    show ?thesis
    proof (cases "length m > cnt")
      case True
      with rd Cons have "capi_read cfg cdev cnt False s = Some (- EMSGSIZE, [], ?s2)" by simp
      moreover have "plain_file cdev (if rq = [] then m # q @ ?mq else rq) ?mq ?s2" using p2 Cons by (auto split: if_splits)
      ultimately show ?thesis unfolding eq using True s1 eq by auto
    next
      case False
      with rd Cons s3(1) have "capi_read cfg cdev cnt False s = Some (int (length m), m, s3)" by simp
      moreover have "\<exists>rq' mq'. plain_file cdev rq' mq' s3 \<and> rq' @ mq' = q @ ?mq" using s3(2) by blast
      ultimately show ?thesis unfolding eq using False s1 eq by auto
    qed
  qed
qed

definition demo_plain :: capist where
  "demo_plain = (demo_queue demo_open)\<lparr>cdevs := [100 \<mapsto> \<lparr>errcode = 0, userflags = 0, recvqueue = [], cd_nccis = []\<rparr>]\<rparr>"

theorem capi_read_fifo_witness:
  "\<exists>s'. capi_read demo_cfg 100 64 False demo_plain = Some (12, demo_b3_ind, s')"
proof -
  have p: "plain_file 100 [] [demo_b3_ind] demo_plain"
    by (simp add: plain_file_def demo_plain_def demo_queue_def zero_appl_def)
  have r: "\<forall>m\<in>set [demo_b3_ind]. readable m"
    by (simp add: readable_def demo_b3_ind_reads) (simp add: demo_b3_ind_def)
  have i: "appid 100 demo_plain = Some 1" by (simp add: appid_def demo_plain_def demo_queue_def)
  have l: "length demo_b3_ind = 12" by (simp add: demo_b3_ind_def)
  from conjunct2 [OF capi_read_fifo [OF p r i, of demo_cfg 64]] l show ?thesis by auto
qed

section \<open>The application is gone\<close>

text \<open>C37: The operations of a terminal that check for the NCCI return at once when the connection is gone, but \<open>start\<close> (and
  \<open>unthrottle\<close>) do not check: with data in the output queue \<open>start\<close> reads the application's number
  through \<open>mp->ap\<close>, which has been freed with the file.\<close>

theorem capinc_tty_start_freed:
  assumes "driver_data s t = Some m" and "minors s m = Some mp" and "nccip mp = None" and "outqueue mp \<noteq> []"
    and "appls (cs_core s) (mn_ap mp) = None"
  shows "capinc_tty_write cfg t buf fault s = Some (0, s) \<and> capinc_tty_put_char cfg t ch s = Some s \<and>
    capinc_tty_flush_chars cfg t s = Some s \<and> capinc_tty_start cfg t s = None"
proof -
  from assms(4) obtain data q where q: "outqueue mp = data # q" by (cases "outqueue mp") auto
  have "tty_minor t s = Some None" using assms by (simp add: tty_minor_def)
  then have "capinc_tty_write cfg t buf fault s = Some (0, s)" "capinc_tty_put_char cfg t ch s = Some s"
    "capinc_tty_flush_chars cfg t s = Some s"
    by (simp_all add: capinc_tty_write_def capinc_tty_put_char_def capinc_tty_flush_chars_def)
  moreover have "capinc_tty_start cfg t s = None"
    using assms q by (simp add: capinc_tty_start_def handle_minor_send_def upd_minor_def send_skb_def Let_def)
  ultimately show ?thesis by blast
qed

text \<open>The terminal is opened and stopped, data is written, and the file goes away.\<close>

definition demo_gone :: "capist option" where
  "demo_gone = do {
     s \<leftarrow> demo_dev;
     (_, s) \<leftarrow> capinc_tty_open demo_cfg 5 0 s;
     s \<leftarrow> capinc_tty_stop 5 s;
     (_, s) \<leftarrow> capinc_tty_write demo_cfg 5 [65] False s;
     (_, _, s) \<leftarrow> capi_frelease demo_cfg 100 s;
     Some s }"

lemma demo_gone_state:
  "\<exists>s mp. demo_gone = Some s \<and> driver_data s 5 = Some 102 \<and> minors s 102 = Some mp \<and> nccip mp = None \<and>
     outqueue mp \<noteq> [] \<and> appls (cs_core s) (mn_ap mp) = None"
proof -
  from demo_dev_state obtain s st where s: "demo_dev = Some s" "brk s = 103" "capiminor_list s = [102]"
    "minors s = [102 \<mapsto> zero_minor\<lparr>mn_ap := 100, mn_ncci := 0x10101, nccip := Some 101\<rparr>]"
    "nccis s = [101 \<mapsto> \<lparr>nc_ncci = 0x10101, nc_cdev = 100, minorp = Some 102\<rparr>]"
    "cdevs s = [100 \<mapsto> \<lparr>errcode = 0, userflags = 1, recvqueue = [demo_b3_ind], cd_nccis = [101]\<rparr>]"
    "appls (cs_core s) = [100 \<mapsto> zero_appl\<lparr>appl_id := 1, appl_stats := st\<rparr>]"
    by blast
  have "\<exists>s'. do {
      (_, s) \<leftarrow> capinc_tty_open demo_cfg 5 0 s;
      s \<leftarrow> capinc_tty_stop 5 s;
      (_, s) \<leftarrow> capinc_tty_write demo_cfg 5 [65] False s;
      (_, _, s) \<leftarrow> capi_frelease demo_cfg 100 s;
      Some s } = Some s' \<and> (\<exists>mp. driver_data s' 5 = Some 102 \<and> minors s' 102 = Some mp \<and> nccip mp = None \<and>
     outqueue mp \<noteq> [] \<and> appls (cs_core s') (mn_ap mp) = None)"
    using s(2-) by (simp add: capinc_tty_open_def capiminor_find_def upd_minor_def handle_minor_recv_def
        capinc_tty_stop_def capinc_tty_write_def tty_minor_def flush_ttyskb_def kmalloc_def handle_minor_send_def
        capi_frelease_def capidev_free_def demo_cfg_def demo_env_def zero_minor_def zero_appl_def upd_cdev_def
        upd_appl_def capi_release_def capincci_free_def capincci_drop_minor_def tty_event_def Let_def)
  then show ?thesis unfolding demo_gone_def s(1) by simp
qed

theorem capinc_tty_start_freed_witness:
  "\<exists>s. demo_gone = Some s \<and> capinc_tty_start demo_cfg 5 s = None \<and> capinc_tty_write demo_cfg 5 [66] False s = Some (0, s)"
proof -
  from demo_gone_state obtain s mp where s: "demo_gone = Some s" "driver_data s 5 = Some 102" "minors s 102 = Some mp"
    "nccip mp = None" "outqueue mp \<noteq> []" "appls (cs_core s) (mn_ap mp) = None" by blast
  from capinc_tty_start_freed [OF s(2-6)] s(1) show ?thesis by blast
qed

end
