(* ===== verification/CapiStat.thy ===== *)
theory CapiStat
  imports CapiPrint CapiCoreProps
begin

text \<open>
  What the capicore shows in \<^verbatim>\<open>/proc/capi\<close> (\<^verbatim>\<open>core_proc.c\<close>) and in sysfs
  (\<^verbatim>\<open>core_sysfs.c\<close>).  A file of \<^verbatim>\<open>/proc\<close> is a sequence of records, the header and one line for each application;
  its reader calls \<open>start\<close> with a position, then \<open>show\<close> and \<open>next\<close> in turn.  The reader is code of the kernel: its contract is
  the locale \<open>seq_records\<close>.
\<close>

section \<open>Records of a sequence file\<close>

text \<open>What a reader gets that asks for at most \<open>n\<close> records, and the position at which it stops.\<close>

fun pass :: "('v \<Rightarrow> int \<Rightarrow> ('v option \<times> int) option) \<Rightarrow> nat \<Rightarrow> 'v option \<Rightarrow> int \<Rightarrow> ('v list \<times> int) option" where
  "pass nxt (Suc n) (Some v) pos = do {
     (v', pos') \<leftarrow> nxt v pos;
     (vs, end) \<leftarrow> pass nxt n v' pos';
     Some (v # vs, end) }"
| "pass nxt n v pos = Some ([], pos)"

locale seq_records =
  fixes start :: "int \<Rightarrow> 'v option"
    and nxt :: "'v \<Rightarrow> int \<Rightarrow> ('v option \<times> int) option"
    and records :: "'v list"
    and good :: bool
  assumes start_at: "good \<Longrightarrow> start (int k) = (if k < length records then Some (records ! k) else None)"
    and next_at: "good \<Longrightarrow> k < length records \<Longrightarrow> nxt (records ! k) (int k) = Some (start (int (Suc k)), int (Suc k))"
begin

lemma pass_records:
  assumes good
  shows "pass nxt n (start (int k)) (int k) = Some (take n (drop k records), int (k + min n (length records - k)))"
proof (induction n arbitrary: k)
  case (Suc n)
  show ?case
  proof (cases "k < length records")
    case True
    then have "drop k records = records ! k # drop (Suc k) records" by (simp add: Cons_nth_drop_Suc)
    with True Suc [of "Suc k"] show ?thesis by (simp add: start_at [OF assms, of k] next_at [OF assms])
  qed (simp add: start_at [OF assms])
qed simp

text \<open>Reading in two passes, of which the second starts where the first stopped, reads what one pass reads.\<close>

lemma pass_resume:
  assumes good
  shows "\<exists>a p b q. pass nxt m (start 0) 0 = Some (a, p) \<and> pass nxt n (start p) p = Some (b, q) \<and> a @ b = take (m + n) records"
proof -
  have "pass nxt m (start 0) 0 = Some (take m records, int (min m (length records)))"
    using pass_records [OF assms, of m 0] by simp
  moreover have "pass nxt n (start (int (min m (length records)))) (int (min m (length records))) =
      Some (take n (drop m records), int (min m (length records) + min n (length records - min m (length records))))"
    unfolding pass_records [OF assms] by (simp add: min_def)
  ultimately show ?thesis by (auto simp: take_add)
qed

end

section \<open>Applications\<close>

datatype seq_pos = SEQ_START_TOKEN | SeqAppl nat

fun get_capi_appl_by_idx :: "int \<Rightarrow> nat list \<Rightarrow> nat option" where
  "get_capi_appl_by_idx idx [] = None"
| "get_capi_appl_by_idx idx (a # as) = (if idx = 0 then Some a else get_capi_appl_by_idx (idx - 1) as)"

text \<open>The entry behind \<open>a\<close>, which has to be on the list.\<close>

fun get_capi_appl_next :: "nat \<Rightarrow> nat list \<Rightarrow> nat option option" where
  "get_capi_appl_next a [] = None"
| "get_capi_appl_next a (x # xs) =
     (if x = a then Some (case xs of [] \<Rightarrow> None | y # _ \<Rightarrow> Some y) else get_capi_appl_next a xs)"

definition appl_start :: "core \<Rightarrow> int \<Rightarrow> seq_pos option" where
  "appl_start s pos =
     (if pos \<noteq> 0 then map_option SeqAppl (get_capi_appl_by_idx (pos - 1) (capi_appls_list s)) else Some SEQ_START_TOKEN)"

definition appl_next :: "core \<Rightarrow> seq_pos \<Rightarrow> int \<Rightarrow> (seq_pos option \<times> int) option" where
  "appl_next s v pos =
     (case v of
        SEQ_START_TOKEN \<Rightarrow> Some (map_option SeqAppl (get_capi_appl_by_idx 0 (capi_appls_list s)), pos + 1)
      | SeqAppl a \<Rightarrow> do {
          n \<leftarrow> get_capi_appl_next a (capi_appls_list s);
          Some (map_option SeqAppl n, pos + 1) })"

definition dec :: "u32 \<Rightarrow> string" where
  "dec w = (if sint w < 0 then ''-'' @ digits 10 (nat (- sint w)) else digits 10 (unat w))"

definition udec :: "u32 \<Rightarrow> string" where
  "udec w = digits 10 (unat w)"

definition applparams_show :: "core \<Rightarrow> seq_pos \<Rightarrow> string option" where
  "applparams_show s v =
     (case v of
        SEQ_START_TOKEN \<Rightarrow> Some (''id   : log_conns data_packets data_len'' @ NL)
      | SeqAppl p \<Rightarrow> do {
          a \<leftarrow> appls s p;
          Some (pad_right 5 (digits 10 (unat (appl_id a))) @ '': '' @
            pad_right 9 (dec (level3cnt (appl_params a))) @ '' '' @
            pad_right 12 (dec (datablkcnt (appl_params a))) @ '' '' @
            pad_right 8 (dec (datablklen (appl_params a))) @ NL) })"

definition applstats_show :: "core \<Rightarrow> seq_pos \<Rightarrow> string option" where
  "applstats_show s v =
     (case v of
        SEQ_START_TOKEN \<Rightarrow> Some (''id   : tx_packets tx_bytes | rx_packets rx_bytes rx_queue_len'' @ NL)
      | SeqAppl p \<Rightarrow> do {
          a \<leftarrow> appls s p;
          Some (pad_right 5 (digits 10 (unat (appl_id a))) @ '': '' @
            pad_right 10 (udec (tx_packets (appl_stats a))) @ '' '' @
            pad_right 8 (udec (tx_bytes (appl_stats a))) @ '' | '' @
            pad_right 10 (udec (rx_packets (appl_stats a))) @ '' '' @
            pad_right 8 (udec (rx_bytes (appl_stats a))) @ '' '' @
            pad_right 8 (udec (word_of_nat (length (msg_queue a)))) @ NL) })"

section \<open>Sysfs\<close>


text \<open>\<open>snprintf\<close> of a text into a buffer: at most \<open>n\<close> bytes with the NUL are written; the result is the length of the text.\<close>

definition snprintf :: "bytes \<Rightarrow> nat \<Rightarrow> bytes \<Rightarrow> (int \<times> bytes) option" where
  "snprintf buf n t = do { buf \<leftarrow> sts buf 0 (take (n - 1) t @ [0]); Some (int (length t), buf) }"

definition sprintf :: "bytes \<Rightarrow> bytes \<Rightarrow> (int \<times> bytes) option" where
  "sprintf buf t = do { buf \<leftarrow> sts buf 0 (t @ [0]); Some (int (length t), buf) }"

definition bytes_of :: "string \<Rightarrow> bytes" where
  "bytes_of = map of_char"

definition show_manufacturer :: "capi_device \<Rightarrow> bytes \<Rightarrow> (int \<times> bytes) option" where
  "show_manufacturer dev buf = do {
     t \<leftarrow> c_string (dev_manufacturer dev);
     snprintf buf CAPI_MANUFACTURER_LEN (t @ [10]) }"

definition show_serial_number :: "capi_device \<Rightarrow> bytes \<Rightarrow> (int \<times> bytes) option" where
  "show_serial_number dev buf = do {
     t \<leftarrow> c_string (dev_serial dev);
     snprintf buf CAPI_SERIAL_LEN (t @ [10]) }"

definition show_version :: "capi_device \<Rightarrow> bytes \<Rightarrow> (int \<times> bytes) option" where
  "show_version dev buf =
     (let v = dev_version dev in
      sprintf buf (bytes_of (dec (majormanuversion v) @ ''.'' @ dec (minormanuversion v) @ NL)))"

definition show_product :: "capi_device \<Rightarrow> bytes \<Rightarrow> (int \<times> bytes) option" where
  "show_product dev buf = do {
     t \<leftarrow> c_string (dev_product dev);
     sprintf buf (t @ [10]) }"

definition show_rx_bytes :: "capi_device \<Rightarrow> bytes \<Rightarrow> (int \<times> bytes) option" where
  "show_rx_bytes dev buf = sprintf buf (bytes_of (udec (rx_bytes (dev_stats dev)) @ NL))"
definition show_tx_bytes :: "capi_device \<Rightarrow> bytes \<Rightarrow> (int \<times> bytes) option" where
  "show_tx_bytes dev buf = sprintf buf (bytes_of (udec (tx_bytes (dev_stats dev)) @ NL))"
definition show_rx_packets :: "capi_device \<Rightarrow> bytes \<Rightarrow> (int \<times> bytes) option" where
  "show_rx_packets dev buf = sprintf buf (bytes_of (udec (rx_packets (dev_stats dev)) @ NL))"
definition show_tx_packets :: "capi_device \<Rightarrow> bytes \<Rightarrow> (int \<times> bytes) option" where
  "show_tx_packets dev buf = sprintf buf (bytes_of (udec (tx_packets (dev_stats dev)) @ NL))"

text \<open>
  The directories of the devices with the names of their files.  What the kernel answers to each of its three functions is
  given; \<open>class_device_del\<close> removes the directory.
\<close>

record sysfs_env =
  class_device_add_res :: "string \<Rightarrow> int"
  class_device_create_file_res :: "string \<Rightarrow> string \<Rightarrow> int"
  sysfs_create_group_res :: "string \<Rightarrow> int"

type_synonym sysfs = "string \<rightharpoonup> string list"

definition attrs :: "string list" where
  "attrs = [''manufacturer'', ''serial_number'', ''version'', ''product'']"

definition stats_attrs :: "string list" where
  "stats_attrs = [''statistics/rx_bytes'', ''statistics/tx_bytes'', ''statistics/rx_packets'', ''statistics/tx_packets'']"

definition BUS_ID_SIZE :: nat where "BUS_ID_SIZE = 20"

fun create_files :: "sysfs_env \<Rightarrow> string \<Rightarrow> string list \<Rightarrow> sysfs \<Rightarrow> int \<times> sysfs" where
  "create_files env cid [] fs = (0, fs)"
| "create_files env cid (a # as) fs =
     (let err = class_device_create_file_res env cid a in
      if err \<noteq> 0 then (err, fs) else create_files env cid as (fs(cid := map_option (\<lambda>l. l @ [a]) (fs cid))))"

definition capi_device_register_sysfs :: "sysfs_env \<Rightarrow> capi_device \<Rightarrow> sysfs \<Rightarrow> int \<times> sysfs" where
  "capi_device_register_sysfs env dev fs =
     (let cid = take (BUS_ID_SIZE - 1) (digits 10 (dev_id dev));
          err = class_device_add_res env cid in
      if err \<noteq> 0 then (err, fs)
      else
        let (err, fs) = create_files env cid attrs (fs(cid \<mapsto> [])) in
        if err \<noteq> 0 then (err, fs(cid := None))
        else
          let err = sysfs_create_group_res env cid in
          if err \<noteq> 0 then (err, fs(cid := None))
          else (0, fs(cid := map_option (\<lambda>l. l @ stats_attrs) (fs cid))))"

section \<open>Reading the list of applications\<close>

lemma appl_by_idx: "get_capi_appl_by_idx (int k) as = (if k < length as then Some (as ! k) else None)"
proof (induction as arbitrary: k)
  case (Cons a as)
  show ?case using Cons.IH [of "k - 1"] by (cases k) simp_all
qed simp

lemma appl_next_entry:
  "distinct as \<Longrightarrow> k < length as \<Longrightarrow>
     get_capi_appl_next (as ! k) as = Some (if Suc k < length as then Some (as ! Suc k) else None)"
proof (induction as arbitrary: k)
  case (Cons a as)
  show ?case
  proof (cases k)
    case 0
    then show ?thesis by (cases as) auto
  next
    case (Suc j)
    with Cons.prems have "as ! j \<noteq> a" "j < length as" by auto
    with Cons.IH [of j] Cons.prems Suc show ?thesis by simp
  qed
qed simp

interpretation appl_seq: seq_records "appl_start s" "appl_next s" "SEQ_START_TOKEN # map SeqAppl (capi_appls_list s)"
    "distinct (capi_appls_list s)"
proof
  let ?r = "SEQ_START_TOKEN # map SeqAppl (capi_appls_list s)"
  have at: "appl_start s (int k) = (if k < length ?r then Some (?r ! k) else None)" for k
    using appl_by_idx [of "k - 1" "capi_appls_list s"] by (cases k) (simp_all add: appl_start_def)
  then show "appl_start s (int k) = (if k < length ?r then Some (?r ! k) else None)" for k .
  show "appl_next s (?r ! k) (int k) = Some (appl_start s (int (Suc k)), int (Suc k))"
    if "distinct (capi_appls_list s)" "k < length ?r" for k
    using that appl_by_idx [of 0 "capi_appls_list s"] appl_next_entry [of "capi_appls_list s" "k - 1"]
    unfolding at by (cases k) (auto simp: appl_next_def)
qed

text \<open>C30: A reader of \<^verbatim>\<open>/proc/capi/applparams\<close> or \<^verbatim>\<open>applstats\<close> gets the header and then every
  registered application once, in the order of their numbers, however it splits the file into reads: a pass of \<open>m\<close> records and one of
  \<open>n\<close> records from the position where the first one stopped give the first \<open>m + n\<close> records.  Every record can be shown.\<close>

theorem proc_appls_complete:
  assumes "reachable env s" and "CAPI_MAX_APPLS env < 65535"
  shows "(\<exists>a p b q. pass (appl_next s) m (appl_start s 0) 0 = Some (a, p) \<and> pass (appl_next s) n (appl_start s p) p = Some (b, q) \<and>
      a @ b = take (m + n) (SEQ_START_TOKEN # map SeqAppl (capi_appls_list s))) \<and>
    sorted_wrt (<) (map (\<lambda>a. unat (appl_id (the (appls s a)))) (capi_appls_list s)) \<and>
    (\<forall>v\<in>set (SEQ_START_TOKEN # map SeqAppl (capi_appls_list s)). applparams_show s v \<noteq> None \<and> applstats_show s v \<noteq> None)"
proof -
  have inv: "core_inv env s" by (rule reachable_inv [OF assms])
  have d: "distinct (capi_appls_list s)" using core_inv_distinct [OF inv] by simp
  from inv have m: "\<forall>a\<in>set (capi_appls_list s). appls s a \<noteq> None" and o: "sorted_wrt (<) (map (id_of s) (capi_appls_list s))"
    by (auto simp: core_inv_def appls_ok_def)
  have "sorted_wrt (<) (map (\<lambda>a. unat (appl_id (the (appls s a)))) (capi_appls_list s))"
    using o m unfolding sorted_wrt_map
    by (auto simp: id_of_def word_less_nat_alt elim!: sorted_wrt_mono_rel [rotated] split: option.splits)
  moreover have "\<forall>v\<in>set (SEQ_START_TOKEN # map SeqAppl (capi_appls_list s)). applparams_show s v \<noteq> None \<and> applstats_show s v \<noteq> None"
    using m by (auto simp: applparams_show_def applstats_show_def)
  ultimately show ?thesis using appl_seq.pass_resume [OF d] by blast
qed

theorem proc_appls_complete_witness:
  "reachable demo_env (the demo) \<and>
    (\<exists>a p b q. pass (appl_next (the demo)) 1 (appl_start (the demo) 0) 0 = Some (a, p) \<and>
       pass (appl_next (the demo)) 5 (appl_start (the demo) p) p = Some (b, q) \<and> a @ b = [SEQ_START_TOKEN, SeqAppl 2])"
  using demo_reachable proc_appls_complete [OF demo_reachable demo_max, of 1 5] by (simp add: demo_facts)

section \<open>The files of a device\<close>

lemma create_files_all:
  "create_files env cid as (fs(cid \<mapsto> l)) = (r, fs') \<Longrightarrow>
     (r = 0 \<longrightarrow> fs' = fs(cid \<mapsto> l @ as)) \<and> (\<exists>l'. fs' = fs(cid \<mapsto> l'))"
proof (induction as arbitrary: l)
  case (Cons a as)
  show ?case
  proof (cases "class_device_create_file_res env cid a = 0")
    case True
    then have "create_files env cid (a # as) (fs(cid \<mapsto> l)) =
        create_files env cid as ((fs(cid \<mapsto> l))(cid := map_option (\<lambda>l. l @ [a]) ((fs(cid \<mapsto> l)) cid)))"
      unfolding create_files.simps Let_def by simp
    also have "\<dots> = create_files env cid as (fs(cid \<mapsto> l @ [a]))" by (simp only: fun_upd_same fun_upd_upd option.map)
    finally have e: "create_files env cid (a # as) (fs(cid \<mapsto> l)) = create_files env cid as (fs(cid \<mapsto> l @ [a]))" .
    from Cons.IH [OF Cons.prems [unfolded e]] show ?thesis by auto
  qed (use Cons.prems in \<open>auto simp: Let_def\<close>)
qed auto

lemma length_digits: "n < b ^ k \<Longrightarrow> 0 < k \<Longrightarrow> 2 \<le> b \<Longrightarrow> length (digits b n) \<le> k"
proof (induction k arbitrary: n)
  case (Suc k)
  show ?case
  proof (cases "n < b")
    case False
    with Suc.prems have "n div b < b ^ k" "0 < k" by (auto simp: less_mult_imp_div_less mult.commute intro!: gr0I)
    from Suc.IH [OF this Suc.prems(3)] False show ?thesis by (subst digits.simps) simp
  qed (subst digits.simps, simp)
qed simp

text \<open>A device enters sysfs completely or not at all: if the registration succeeds it has a directory of its number with its four
  attributes and four statistics, and if it fails at any of its steps nothing is left.\<close>

theorem device_sysfs_all_or_nothing:
  assumes "capi_device_register_sysfs env dev fs = (err, fs')" and "fs (digits 10 (dev_id dev)) = None" and "dev_id dev < 65536"
  shows "fs' = (if err = 0 then fs(digits 10 (dev_id dev) \<mapsto> attrs @ stats_attrs) else fs)"
proof -
  let ?c = "digits 10 (dev_id dev)"
  have "length ?c \<le> 5" using assms(3) length_digits [of "dev_id dev" 10 5] by simp
  then have c: "take (BUS_ID_SIZE - Suc 0) ?c = ?c" by (simp add: BUS_ID_SIZE_def)
  obtain r fs1 where f: "create_files env ?c attrs (fs(?c \<mapsto> [])) = (r, fs1)" by (cases "create_files env ?c attrs (fs(?c \<mapsto> []))")
  from create_files_all [OF f] obtain l where l: "fs1 = fs(?c \<mapsto> l)" "r = 0 \<longrightarrow> fs1 = fs(?c \<mapsto> attrs)" by auto
  have "fs(?c := None) = fs" using assms(2) by (simp add: fun_upd_idem)
  with assms(1) f l show ?thesis
    by (auto simp: capi_device_register_sysfs_def c Let_def fun_upd_idem split: if_splits)
qed

lemma takeWhile_shorter: "\<exists>x\<in>set xs. \<not> P x \<Longrightarrow> length (takeWhile P xs) < length xs"
  by (induction xs) auto

text \<open>The serial number and the manufacturer are shown in one line, but a text that fills its field (of 8 and 64 bytes
  with the NUL) is shown without its newline, and the NUL counts as a byte of the file.\<close>

theorem show_serial_newline:
  assumes "c_string (dev_serial dev) = Some t" and "length (dev_serial dev) = CAPI_SERIAL_LEN" and "CAPI_SERIAL_LEN \<le> length buf"
  shows "\<exists>buf'. show_serial_number dev buf = Some (int (length t) + 1, buf') \<and>
    take (length t + 1) buf' = t @ [if length t < CAPI_SERIAL_LEN - 1 then 10 else 0]"
proof -
  have n: "length t < CAPI_SERIAL_LEN"
    using assms(1,2) takeWhile_shorter [of "dev_serial dev" "\<lambda>x. x \<noteq> 0"] by (auto simp: c_string_def split: if_splits)
  let ?t = "take (CAPI_SERIAL_LEN - 1) (t @ [10]) @ [0]"
  have "sts buf 0 ?t = Some (overlay buf 0 ?t)" by (rule sts_overlay) (use assms(3) n in \<open>simp add: CAPI_SERIAL_LEN_def\<close>)
  moreover have "take (length t + 1) (overlay buf 0 ?t) = t @ [if length t < CAPI_SERIAL_LEN - 1 then 10 else 0]"
    using n by (auto simp: overlay_def CAPI_SERIAL_LEN_def)
  ultimately show ?thesis using assms(1) by (simp add: show_serial_number_def snprintf_def)
qed

text \<open>A device with the serial number 1000001.\<close>

definition demo_serial :: capi_device where
  "demo_serial = zero_dev\<lparr>dev_id := 1, dev_serial := [49, 48, 48, 48, 48, 48, 49, 0]\<rparr>"

theorem show_serial_newline_witness:
  "\<exists>buf'. show_serial_number demo_serial (replicate 8 1) = Some (8, buf') \<and> take 8 buf' = [49, 48, 48, 48, 48, 48, 49, 0]"
proof -
  let ?t = "[49, 48, 48, 48, 48, 48, 49] :: bytes"
  have "c_string (dev_serial demo_serial) = Some ?t" by (simp add: c_string_def demo_serial_def)
  from show_serial_newline [OF this, of "replicate 8 1"] obtain buf' where
    b: "show_serial_number demo_serial (replicate 8 1) = Some (int (length ?t) + 1, buf')"
      "take (length ?t + 1) buf' = ?t @ [if length ?t < CAPI_SERIAL_LEN - 1 then 10 else 0]"
    by (auto simp: demo_serial_def CAPI_SERIAL_LEN_def)
  have "length ?t + 1 = 8" "?t @ [if length ?t < CAPI_SERIAL_LEN - 1 then 10 else 0] = [49, 48, 48, 48, 48, 48, 49, 0]"
    by (simp_all add: CAPI_SERIAL_LEN_def)
  from b(2) [unfolded this] b(1) show ?thesis by (intro exI [of _ buf'] conjI) simp_all
qed

theorem device_sysfs_all_or_nothing_witness:
  "\<exists>err fs'. capi_device_register_sysfs \<lparr>class_device_add_res = (\<lambda>_. 0), class_device_create_file_res = (\<lambda>_ f. if f = ''version'' then -12 else 0),
      sysfs_create_group_res = (\<lambda>_. 0)\<rparr> demo_serial (\<lambda>_. None) = (err, fs') \<and>
    fs' = (if err = 0 then [digits 10 1 \<mapsto> attrs @ stats_attrs] else (\<lambda>_. None))"
proof -
  let ?env = "\<lparr>class_device_add_res = (\<lambda>_. 0), class_device_create_file_res = (\<lambda>_ f. if f = ''version'' then -12 else 0),
      sysfs_create_group_res = (\<lambda>_. 0)\<rparr>"
  obtain err fs' where r: "capi_device_register_sysfs ?env demo_serial (\<lambda>_. None) = (err, fs')"
    by (cases "capi_device_register_sysfs ?env demo_serial (\<lambda>_. None)")
  from device_sysfs_all_or_nothing [OF r] r show ?thesis by (simp add: demo_serial_def)
qed

end
