(* ===== verification/CapiProc.thy ===== *)
theory CapiProc
  imports CapiStat CapiDevProps
begin

text \<open>
  The file \<^verbatim>\<open>/proc/capi/capi20ncci\<close> of \<^verbatim>\<open>capi.c\<close>.  The kernel reads it in blocks: it calls \<open>read_proc\<close> with
  a page, the position in the file and the number of bytes wanted, and takes the returned number of bytes from
  \<open>*start\<close>.
\<close>

section \<open>The file\<close>

definition ncci_line :: "u16 \<Rightarrow> u32 \<Rightarrow> bytes" where
  "ncci_line i ncci = bytes_of (digits 10 (unat i) @ '' 0x'' @ digits 16 (unat ncci) @ NL)"

text \<open>One line for each NCCI of each open file, in the order of the lists.\<close>

fun ncci_lines :: "capist \<Rightarrow> u16 \<Rightarrow> nat list \<Rightarrow> bytes list option" where
  "ncci_lines s i [] = Some []"
| "ncci_lines s i (np # nps) = do {
     n \<leftarrow> nccis s np;
     ls \<leftarrow> ncci_lines s i nps;
     Some (ncci_line i (nc_ncci n) # ls) }"

fun all_lines :: "capist \<Rightarrow> nat list \<Rightarrow> bytes list option" where
  "all_lines s [] = Some []"
| "all_lines s (c # cs) = do {
     cd \<leftarrow> cdevs s c;
     ap \<leftarrow> appls (cs_core s) c;
     ls \<leftarrow> ncci_lines s (appl_id ap) (cd_nccis cd);
     rest \<leftarrow> all_lines s cs;
     Some (ls @ rest) }"

text \<open>The loop over the lines, which carries the page, \<open>off\<close> and \<open>len\<close>.  Nothing limits \<open>sprintf\<close> but the page itself.\<close>

fun read_lines :: "bytes list \<Rightarrow> nat \<Rightarrow> bytes \<Rightarrow> nat \<Rightarrow> nat \<Rightarrow> (bytes \<times> nat \<times> nat) option" where
  "read_lines [] cnt page off len = Some (page, off, len)"
| "read_lines (l # ls) cnt page off len = do {
     page \<leftarrow> sts page len (l @ [0]);
     let len = len + length l;
     if len \<le> off then read_lines ls cnt page (off - len) 0
     else if len - off > cnt then Some (page, off, len)
     else read_lines ls cnt page off len }"

text \<open>The page, \<open>*start\<close> as an offset in it, whether \<open>*eof\<close> is set, and the result.\<close>

definition proc_capincci_read_proc :: "nat \<Rightarrow> nat \<Rightarrow> bytes \<Rightarrow> capist \<Rightarrow> (bytes \<times> nat \<times> bool \<times> nat) option" where
  "proc_capincci_read_proc off cnt page s = do {
     ls \<leftarrow> all_lines s (capidev_list s);
     (page, off, len) \<leftarrow> read_lines ls cnt page off 0;
     Some (page, off, len < cnt, min len cnt) }"

text \<open>The bytes that the reader gets.\<close>

definition block :: "bytes \<times> nat \<times> bool \<times> nat \<Rightarrow> bytes" where
  "block = (\<lambda>(page, start, eof, n). take n (drop start page))"

section \<open>What the reader gets\<close>

lemma overlay_behind: "off + length bs \<le> n \<Longrightarrow> n \<le> length m \<Longrightarrow> drop n (overlay m off bs) = drop n m"
  by (simp add: overlay_def)

lemma overlay_print: "off + length l < length page \<Longrightarrow> overlay page off (l @ [0]) ! (off + length l) = 0"
  by (simp add: overlay_def nth_append)

text \<open>Lines in front of the position leave nothing behind but the page that they were printed on.\<close>

lemma read_lines_skip:
  assumes "\<forall>l\<in>set ls. length l < length page"
  shows "\<exists>page'. length page' = length page \<and> (\<forall>n\<le>length page. (\<forall>l\<in>set ls. length l < n) \<longrightarrow> drop n page' = drop n page) \<and>
    read_lines (ls @ ls') cnt page (length (concat ls) + r) 0 = read_lines ls' cnt page' r 0"
  using assms
proof (induction ls arbitrary: page)
  case (Cons l ls)
  let ?page = "overlay page 0 (l @ [0])"
  have f: "length l + 1 \<le> length page" using Cons.prems by simp
  then have s: "sts page 0 (l @ [0]) = Some ?page" and len: "length ?page = length page"
    by (simp_all add: sts_overlay del: sts_in)
  from Cons.IH [of ?page] Cons.prems obtain page' where p: "length page' = length page"
    "\<forall>n\<le>length page. (\<forall>l\<in>set ls. length l < n) \<longrightarrow> drop n page' = drop n ?page"
    "read_lines (ls @ ls') cnt ?page (length (concat ls) + r) 0 = read_lines ls' cnt page' r 0" by (auto simp: len)
  have "drop n page' = drop n page" if "n \<le> length page" "\<forall>k\<in>set (l # ls). length k < n" for n
    using p(2) that overlay_behind [of 0 "l @ [0]" n page] by simp
  with s p show ?case by (intro exI [of _ page']) (simp add: Let_def del: sts_in)
qed auto

text \<open>Behind the position the lines are printed one after another until there are enough bytes, or no more lines.\<close>

lemma read_lines_print:
  assumes "off < len" and "len \<le> off + cnt" and "take len page = pre" and "len < length page" and "page ! len = 0"
    and "\<forall>l\<in>set ls. off + cnt + length l < length page"
  shows "\<exists>page' k. read_lines ls cnt page off len = Some (page', off, k) \<and>
    take k page' = take k (pre @ concat ls) \<and> length page' = length page \<and> len \<le> k \<and>
    (k = len + length (concat ls) \<or> off + cnt < k \<and> k \<le> len + length (concat ls)) \<and>
    k < length page \<and> page' ! k = 0 \<and> drop (k + 1) page' = drop (k + 1) page"
  using assms
proof (induction ls arbitrary: page len pre)
  case (Cons l ls)
  let ?page = "overlay page len (l @ [0])" and ?len = "len + length l"
  have f: "len + length (l @ [0]) \<le> length page" using Cons.prems(2,6) by simp
  then have s: "sts page len (l @ [0]) = Some ?page" and lp: "length ?page = length page"
    by (simp_all add: sts_overlay del: sts_in)
  have pre: "length pre = len" using Cons.prems(3,4) by auto
  have t: "take ?len ?page = pre @ l" using Cons.prems(3) f pre by (simp add: overlay_def)
  have z: "?page ! ?len = 0" using overlay_print [of len l page] f by simp
  have b: "drop n ?page = drop n page" if "?len + 1 \<le> n" "n \<le> length page" for n
    using overlay_behind [of len "l @ [0]" n page] that by simp
  show ?case
  proof (cases "?len - off > cnt")
    case True
    then have "read_lines (l # ls) cnt page off len = Some (?page, off, ?len)"
      using s Cons.prems(1) by (simp add: Let_def del: sts_in)
    with True t pre lp z b [of "?len + 1"] f show ?thesis by (intro exI [of _ ?page] exI [of _ ?len]) auto
  next
    case False
    have r: "read_lines (l # ls) cnt page off len = read_lines ls cnt ?page off ?len"
      using s Cons.prems(1) False by (simp add: Let_def del: sts_in)
    have "\<exists>page' k. read_lines ls cnt ?page off ?len = Some (page', off, k) \<and>
        take k page' = take k ((pre @ l) @ concat ls) \<and> length page' = length ?page \<and> ?len \<le> k \<and>
        (k = ?len + length (concat ls) \<or> off + cnt < k \<and> k \<le> ?len + length (concat ls)) \<and>
        k < length ?page \<and> page' ! k = 0 \<and> drop (k + 1) page' = drop (k + 1) ?page"
      by (rule Cons.IH) (use Cons.prems False t f lp z in auto)
    then obtain page' k where P: "read_lines ls cnt ?page off ?len = Some (page', off, k)"
      "take k page' = take k ((pre @ l) @ concat ls)" "length page' = length page" "?len \<le> k"
      "k = ?len + length (concat ls) \<or> off + cnt < k \<and> k \<le> ?len + length (concat ls)"
      "k < length page" "page' ! k = 0" "drop (k + 1) page' = drop (k + 1) ?page" unfolding lp by blast
    moreover have "drop (k + 1) ?page = drop (k + 1) page" by (rule b) (use P(4,6) in simp_all)
    ultimately show ?thesis unfolding r by (intro exI [of _ page'] exI [of _ k]) auto
  qed
qed auto

lemma read_lines_block:
  assumes "r = 0 \<or> ls \<noteq> [] \<and> r < length (hd ls)" and "\<forall>l\<in>set ls. r + cnt + length l < length page" and "[] \<notin> set ls"
  shows "\<exists>page' k. read_lines ls cnt page r 0 = Some (page', r, k) \<and> take k page' = take k (concat ls) \<and> length page' = length page \<and>
    (k = length (concat ls) \<or> r + cnt < k \<and> k \<le> length (concat ls)) \<and>
    (ls \<noteq> [] \<longrightarrow> k < length page \<and> page' ! k = 0 \<and> drop (k + 1) page' = drop (k + 1) page)"
proof (cases ls)
  case (Cons l ls')
  then have r: "r < length l" using assms(1,3) by auto
  let ?page = "overlay page 0 (l @ [0])"
  have f: "0 + length (l @ [0]) \<le> length page" using assms(2) Cons by simp
  then have s: "sts page 0 (l @ [0]) = Some ?page" and lp: "length ?page = length page"
    by (simp_all add: sts_overlay del: sts_in)
  have t: "take (length l) ?page = l" by (simp add: overlay_def)
  have z: "?page ! length l = 0" using overlay_print [of 0 l page] f by simp
  have b: "drop n ?page = drop n page" if "length l + 1 \<le> n" "n \<le> length page" for n
    using overlay_behind [of 0 "l @ [0]" n page] that by simp
  show ?thesis
  proof (cases "length l - r > cnt")
    case True
    with s r Cons have "read_lines ls cnt page r 0 = Some (?page, r, length l)" by (simp add: Let_def del: sts_in)
    with True t lp Cons z b [of "length l + 1"] f show ?thesis by (intro exI [of _ ?page] exI [of _ "length l"]) auto
  next
    case False
    with s r Cons have e: "read_lines ls cnt page r 0 = read_lines ls' cnt ?page r (length l)"
      by (simp add: Let_def del: sts_in)
    have "\<exists>page' k. read_lines ls' cnt ?page r (length l) = Some (page', r, k) \<and>
        take k page' = take k (l @ concat ls') \<and> length page' = length ?page \<and> length l \<le> k \<and>
        (k = length l + length (concat ls') \<or> r + cnt < k \<and> k \<le> length l + length (concat ls')) \<and>
        k < length ?page \<and> page' ! k = 0 \<and> drop (k + 1) page' = drop (k + 1) ?page"
      by (rule read_lines_print) (use r False t f lp z assms(2) Cons in auto)
    then obtain page' k where P: "read_lines ls' cnt ?page r (length l) = Some (page', r, k)"
      "take k page' = take k (l @ concat ls')" "length page' = length page" "length l \<le> k"
      "k = length l + length (concat ls') \<or> r + cnt < k \<and> k \<le> length l + length (concat ls')"
      "k < length page" "page' ! k = 0" "drop (k + 1) page' = drop (k + 1) ?page" unfolding lp by blast
    moreover have "drop (k + 1) ?page = drop (k + 1) page" by (rule b) (use P(4,6) in simp_all)
    ultimately show ?thesis unfolding e using Cons by (intro exI [of _ page'] exI [of _ k]) auto
  qed
qed (use assms in auto)

text \<open>The lines are short.\<close>

lemma ncci_line_length: "length (ncci_line i ncci) \<le> 17" "ncci_line i ncci \<noteq> []"
proof -
  have "length (digits 10 (unat i)) \<le> 5" using unat_u16_less [of i] length_digits [of "unat i" 10 5] by simp
  moreover have "unat ncci < 2 ^ 32" using unsigned_less [of ncci, where ?'a = nat] by simp
  then have "length (digits 16 (unat ncci)) \<le> 8" using length_digits [of "unat ncci" 16 8] by simp
  ultimately show "length (ncci_line i ncci) \<le> 17" "ncci_line i ncci \<noteq> []"
    by (simp_all add: ncci_line_def bytes_of_def NL_def)
qed

lemma all_lines_short: "all_lines s cs = Some ls \<Longrightarrow> l \<in> set ls \<Longrightarrow> length l \<le> 17 \<and> l \<noteq> []"
proof -
  have n: "ncci_lines s i nps = Some ls \<Longrightarrow> l \<in> set ls \<Longrightarrow> length l \<le> 17 \<and> l \<noteq> []" for i nps ls
    by (induction nps arbitrary: ls) (auto simp: ncci_line_length ncci_line_length(2) [symmetric])
  show "all_lines s cs = Some ls \<Longrightarrow> l \<in> set ls \<Longrightarrow> length l \<le> 17 \<and> l \<noteq> []"
    by (induction cs arbitrary: ls) (auto dest: n)
qed

text \<open>A position in a file is a number of lines and a rest.\<close>

lemma position:
  "\<exists>ls1 ls2 r. ls = ls1 @ ls2 \<and> pos = length (concat ls1) + r \<and> (ls2 = [] \<or> r < length (hd ls2))"
proof (induction ls arbitrary: pos)
  case (Cons l ls)
  show ?case
  proof (cases "pos < length l")
    case False
    from Cons.IH [of "pos - length l"] obtain ls1 ls2 r where
      "ls = ls1 @ ls2" "pos - length l = length (concat ls1) + r" "ls2 = [] \<or> r < length (hd ls2)" by blast
    with False show ?thesis by (intro exI [of _ "l # ls1"] exI [of _ ls2] exI [of _ r]) auto
  qed (intro exI [of _ "[]"] exI [of _ "l # ls"] exI [of _ pos], simp)
qed simp

lemma position_less:
  assumes "ls1 @ x = ls1' @ x'" and "length ls1 < length ls1'"
  shows "length (concat ls1) + length (hd x) \<le> length (concat ls1')"
proof -
  from assms obtain us where us: "ls1' = ls1 @ us" "x = us @ x'" by (auto simp: append_eq_append_conv2)
  with assms(2) obtain u us' where "us = u # us'" by (cases us) auto
  with us show ?thesis by simp
qed

lemma position_unique:
  assumes "ls1 @ x = ls1' @ x'" and "length (concat ls1) + r = length (concat ls1') + r'"
    and "r < length (hd x)" and "r' < length (hd x')"
  shows "ls1 = ls1' \<and> r = r'"
proof -
  have "length ls1 = length ls1'"
  proof (rule ccontr)
    assume "length ls1 \<noteq> length ls1'"
    then consider "length ls1 < length ls1'" | "length ls1' < length ls1" by linarith
    then show False
      using position_less [OF assms(1)] position_less [OF assms(1) [symmetric]] assms(2-4) by cases linarith+
  qed
  with assms(1,2) show ?thesis by simp
qed

lemma ncci_block:
  assumes ls: "all_lines s (capidev_list s) = Some ls" and room: "cnt + 34 < length page"
  obtains page' r k ls1 ls2 where "proc_capincci_read_proc pos cnt page s = Some (page', r, k < cnt, min k cnt)"
    "ls = ls1 @ ls2" "pos = length (concat ls1) + r" "ls2 = [] \<or> r < length (hd ls2)"
    "take k page' = take k (concat ls2)" "k = length (concat ls2) \<or> r + cnt < k \<and> k \<le> length (concat ls2)" "length page' = length page"
    "ls2 \<noteq> [] \<Longrightarrow> page' ! k = 0 \<and> k < length page \<and> ((\<forall>l\<in>set ls1. length l \<le> k) \<longrightarrow> drop (k + 1) page' = drop (k + 1) page)"
proof -
  obtain ls1 ls2 r where p: "ls = ls1 @ ls2" "pos = length (concat ls1) + r" "ls2 = [] \<or> r < length (hd ls2)"
    using position by blast
  have short: "length l \<le> 17 \<and> l \<noteq> []" if "l \<in> set ls" for l using all_lines_short [OF ls that] .
  have "\<forall>l\<in>set ls1. length l < length page" using short p(1) room by fastforce
  from read_lines_skip [OF this, of ls2 cnt r] obtain page1 where p1: "length page1 = length page"
    "read_lines ls cnt page pos 0 = read_lines ls2 cnt page1 r 0"
    "\<forall>n\<le>length page. (\<forall>l\<in>set ls1. length l < n) \<longrightarrow> drop n page1 = drop n page" by (auto simp: p)
  show ?thesis
  proof (cases "ls2 = []")
    case True
    with p1 p ls that [of page1 r 0 ls1 "[]"] show ?thesis by (simp add: proc_capincci_read_proc_def)
  next
    case False
    then have "hd ls2 \<in> set ls" using p(1) by simp
    with short [of "hd ls2"] p(3) False have r: "r < 17" by simp
    have "r = 0 \<or> ls2 \<noteq> [] \<and> r < length (hd ls2)" using p(3) False by simp
    moreover have "\<forall>l\<in>set ls2. r + cnt + length l < length page1" using short p(1) room r p1(1) by fastforce
    moreover have "[] \<notin> set ls2" using short p(1) by fastforce
    ultimately obtain page' k where k: "read_lines ls2 cnt page1 r 0 = Some (page', r, k)" "take k page' = take k (concat ls2)"
      "length page' = length page1" "k = length (concat ls2) \<or> r + cnt < k \<and> k \<le> length (concat ls2)"
      "k < length page1" "page' ! k = 0" "drop (k + 1) page' = drop (k + 1) page1"
      using read_lines_block False by blast
    have "drop (k + 1) page' = drop (k + 1) page" if "\<forall>l\<in>set ls1. length l \<le> k"
      using k(7) p1(1,3) k(5) that by (simp add: less_Suc_eq_le)
    have "proc_capincci_read_proc pos cnt page s = Some (page', r, k < cnt, min k cnt)"
      using ls k(1) p1(2) by (simp add: proc_capincci_read_proc_def)
    from that [OF this p k(2,4)] k(3,5,6) p1(1) \<open>(\<forall>l\<in>set ls1. length l \<le> k) \<Longrightarrow> drop (k + 1) page' = drop (k + 1) page\<close>
    show ?thesis by simp
  qed
qed

text \<open>C28: A block of \<^verbatim>\<open>/proc/capi/capi20ncci\<close> that begins at the start of a line, or has as many bytes behind its
  position as the reader asks for, is what the file has there: \<open>cnt\<close> bytes of the lines, or all that are left.
  The page needs room for 34 bytes more than the reader asks for.\<close>

theorem ncci_file_block:
  assumes "all_lines s (capidev_list s) = Some ls" and "cnt + 34 < length page"
    and "(\<exists>j. pos = length (concat (take j ls))) \<or> pos + cnt \<le> length (concat ls)"
  shows "\<exists>res. proc_capincci_read_proc pos cnt page s = Some res \<and> block res = take cnt (drop pos (concat ls))"
proof (rule ncci_block [OF assms(1,2), of pos])
  fix page' r k ls1 ls2
  assume res: "proc_capincci_read_proc pos cnt page s = Some (page', r, k < cnt, min k cnt)"
    and p: "ls = ls1 @ ls2" "pos = length (concat ls1) + r" "ls2 = [] \<or> r < length (hd ls2)"
    and k: "take k page' = take k (concat ls2)" "k = length (concat ls2) \<or> r + cnt < k \<and> k \<le> length (concat ls2)"
      "length page' = length page"
  let ?t = "concat ls2"
  have "take (min k cnt) (drop r page') = take cnt (drop r ?t)"
  proof (cases "r + cnt \<le> k")
    case True
    then have "take (r + cnt) page' = take (r + cnt) ?t"
      using arg_cong [OF k(1), of "take (r + cnt)"] by (simp add: min_def)
    moreover have "min k cnt = cnt" using True by simp
    ultimately show ?thesis by (simp add: take_drop add.commute)
  next
    case False
    with k(2) have kt: "k = length ?t" by simp
    have "r = 0 \<or> ls2 = []"
    proof (rule disjCI)
      assume ne: "ls2 \<noteq> []"
      with p have "\<not> pos + cnt \<le> length (concat ls)" using False kt by auto
      then obtain j where j: "pos = length (concat (take j ls))" using assms(3) by blast
      have "pos < length (concat ls)" using p ne by (cases ls2) auto
      with j have "drop j ls \<noteq> []" by auto
      then have "hd (drop j ls) \<in> set ls" by (rule in_set_dropD [OF hd_in_set])
      with all_lines_short [OF assms(1)] have "0 < length (hd (drop j ls))" by simp
      have "ls1 = take j ls \<and> r = 0"
      proof (rule position_unique)
        show "ls1 @ ls2 = take j ls @ drop j ls" unfolding append_take_drop_id by (rule p(1) [symmetric])
        show "length (concat ls1) + r = length (concat (take j ls)) + 0" using p(2) j by linarith
        show "r < length (hd ls2)" using p(3) ne by blast
      qed fact
      then show "r = 0" ..
    qed
    then show ?thesis using k(1) kt False by (auto simp: min_def)
  qed
  then show ?thesis using res p by (simp add: block_def)
qed

text \<open>C29: A block that begins \<open>r\<close> bytes inside a line and reaches the end of the file is longer than what the file has left, by \<open>r\<close>
  bytes if the reader asks for so many: it gets the rest of the file, then the NUL with which \<open>sprintf\<close> ended the last line, and
  then bytes that were in the page before the call and that no \<open>sprintf\<close> has written (unless a line in front of the position is
  longer than all that is printed behind it, and has left its end there).\<close>

theorem ncci_file_overread:
  assumes "all_lines s (capidev_list s) = Some ls" and "cnt + 34 < length page"
    and "ls = ls1 @ l # ls2" and "0 < r" and "r < length l" and "pos = length (concat ls1) + r" and "length (concat ls) < pos + cnt"
  shows "\<exists>res u. proc_capincci_read_proc pos cnt page s = Some res \<and> block res = drop pos (concat ls) @ 0 # u \<and>
    length u + 1 = min r (cnt - (length (concat ls) - pos)) \<and>
    ((\<forall>l'\<in>set ls1. length l' \<le> length (concat (l # ls2))) \<longrightarrow>
       u = take (length u) (drop (length (concat (l # ls2)) + 1) page))"
proof (rule ncci_block [OF assms(1,2), of pos])
  fix page' r' k ls1' ls2'
  assume res: "proc_capincci_read_proc pos cnt page s = Some (page', r', k < cnt, min k cnt)"
    and p: "ls = ls1' @ ls2'" "pos = length (concat ls1') + r'" "ls2' = [] \<or> r' < length (hd ls2')"
    and k: "take k page' = take k (concat ls2')" "k = length (concat ls2') \<or> r' + cnt < k \<and> k \<le> length (concat ls2')"
      "length page' = length page"
    and rest: "ls2' \<noteq> [] \<Longrightarrow> page' ! k = 0 \<and> k < length page \<and>
      ((\<forall>l\<in>set ls1'. length l \<le> k) \<longrightarrow> drop (k + 1) page' = drop (k + 1) page)"
  have "ls2' \<noteq> []" using assms(3,5,6) p by auto
  with position_unique [of ls1' ls2' ls1 "l # ls2" r' r] assms(3,5,6) p
  have e: "ls1' = ls1" "r' = r" "ls2' = l # ls2" by auto
  let ?t = "concat ls2'"
  have kt: "k = length ?t" using k(2) assms(3,6,7) by (auto simp: e)
  have "length l \<le> 17" using all_lines_short [OF assms(1), of l] assms(3) by simp
  have lk: "k < r + cnt" "r < k" using kt assms(3,5-7) by (simp_all add: e)
  define n where "n = min k cnt - (k - r)"
  have n: "n = min r (cnt - (k - r))" "0 < n" and m: "min k cnt = k - r + n" using lk assms(4) unfolding n_def by linarith+
  have left: "length (concat ls) - pos = k - r" using assms(3,6) kt by (simp add: e)
  have tail: "take (k - r) (drop r page') = drop pos (concat ls)"
  proof -
    have "take (k - r) (drop r page') = drop r (take k page')" using kt assms(5) by (simp add: drop_take)
    then show ?thesis using k(1) kt by (simp add: p(1,2) e)
  qed
  let ?u = "take (n - 1) (drop (k + 1) page')"
  have "take (min k cnt) (drop r page') = take (k - r) (drop r page') @ take n (drop (k - r) (drop r page'))"
    unfolding m by (rule take_add)
  also have "drop (k - r) (drop r page') = drop k page'" using lk by simp
  also have "drop k page' = 0 # drop (k + 1) page'"
    using rest kt k(3) by (simp add: e Cons_nth_drop_Suc [symmetric])
  also have "take n (0 # drop (k + 1) page') = 0 # ?u" using n(2) by (cases n) simp_all
  finally have b: "block (page', r', k < cnt, min k cnt) = drop pos (concat ls) @ 0 # ?u"
    by (simp only: block_def prod.case e tail)
  have "n + k \<le> length page'" using assms(2,5) k(3) lk \<open>length l \<le> 17\<close> n(1) by linarith
  then have len: "length ?u = n - 1" by simp
  have u: "?u = take (length ?u) (drop (k + 1) page)" if "\<forall>l'\<in>set ls1. length l' \<le> k"
    unfolding len using rest that by (simp add: e)
  have k': "length (concat (l # ls2)) = k" unfolding kt e ..
  have "length ?u + 1 = min r (cnt - (length (concat ls) - pos))" unfolding len left n(1) [symmetric] using n(2) by simp
  with res b u show ?thesis unfolding k' by blast
qed

section \<open>A file with two connections\<close>

text \<open>Two NCCIs, 0x10101 and 0x10201, of an application with the number 1.\<close>

definition demo_ncci_file :: capist where
  "demo_ncci_file = (capist_init ((core_init demo_env)\<lparr>appls := [7 \<mapsto> demo_appl\<lparr>appl_id := 1\<rparr>]\<rparr>) 9)
     \<lparr>capidev_list := [7], cdevs := [7 \<mapsto> \<lparr>errcode = 0, userflags = 0, recvqueue = [], cd_nccis = [3, 4]\<rparr>],
      nccis := [3 \<mapsto> \<lparr>nc_ncci = 0x10101, nc_cdev = 7, minorp = None\<rparr>, 4 \<mapsto> \<lparr>nc_ncci = 0x10201, nc_cdev = 7, minorp = None\<rparr>]\<rparr>"

lemma newline_byte: "(of_char (char_of (10 :: nat)) :: u8) = 10"
  by code_simp

lemma demo_ncci_lines:
  "all_lines demo_ncci_file (capidev_list demo_ncci_file) = Some [bytes_of ''1 0x10101'' @ [10], bytes_of ''1 0x10201'' @ [10]]"
  by (simp add: demo_ncci_file_def capist_init_def demo_appl_def core_init_def ncci_line_def digits.simps digit_char_def
      bytes_of_def NL_def newline_byte)

definition demo_ncci_text :: "bytes list" where
  "demo_ncci_text = [bytes_of ''1 0x10101'' @ [10], bytes_of ''1 0x10201'' @ [10]]"

lemma demo_ncci_bytes: "length (concat demo_ncci_text) = 20" "length (hd demo_ncci_text) = 10" "demo_ncci_text = [hd demo_ncci_text] @ tl demo_ncci_text"
  "length (concat (tl demo_ncci_text)) = 10" "tl demo_ncci_text = [hd (tl demo_ncci_text)]"
  by (simp_all add: demo_ncci_text_def bytes_of_def)

text \<open>The reader asks for 14 bytes: the first block is right, the second, from inside the second line, is not.\<close>

theorem ncci_file_block_witness:
  "\<exists>res. proc_capincci_read_proc 0 14 (replicate 49 7) demo_ncci_file = Some res \<and> block res = take 14 (drop 0 (concat demo_ncci_text))"
  by (rule ncci_file_block [OF demo_ncci_lines [folded demo_ncci_text_def]]) (simp_all add: demo_ncci_bytes(1,2,4))

theorem ncci_file_overread_witness:
  "\<exists>res. proc_capincci_read_proc 14 14 (replicate 49 7) demo_ncci_file = Some res \<and>
    block res = drop 14 (concat demo_ncci_text) @ [0, 7, 7, 7]"
proof -
  have d: "demo_ncci_text = [hd demo_ncci_text] @ hd (tl demo_ncci_text) # []" by (simp add: demo_ncci_text_def)
  have r: "(4::nat) < length (hd (tl demo_ncci_text))" "14 = length (concat [hd demo_ncci_text]) + 4"
    by (simp_all add: demo_ncci_text_def bytes_of_def)
  have l: "length (hd (tl demo_ncci_text)) = 10" using demo_ncci_bytes(4,5) by (metis concat.simps append_Nil2)
  have c: "length (concat [hd (tl demo_ncci_text)]) = 10" using l by simp
  have "14 + 34 < length (replicate 49 (7 :: u8))" "(0::nat) < 4" "length (concat demo_ncci_text) < 14 + 14"
    using demo_ncci_bytes(1) by simp_all
  from ncci_file_overread [OF demo_ncci_lines [folded demo_ncci_text_def] this(1) d this(2) r this(3)] obtain res u where
    u: "proc_capincci_read_proc 14 14 (replicate 49 7) demo_ncci_file = Some res" "block res = drop 14 (concat demo_ncci_text) @ 0 # u"
      "length u + 1 = min 4 (14 - (length (concat demo_ncci_text) - 14))"
      "u = take (length u) (drop (length (concat [hd (tl demo_ncci_text)]) + 1) (replicate 49 7))"
    using demo_ncci_bytes(2) c by auto
  from u(3) demo_ncci_bytes(1) have "length u = 3" by simp
  with u(4) c have "u = [7, 7, 7]" by (simp add: numeral_eq_Suc)
  with u(1,2) show ?thesis by simp
qed

end
