(* ===== verification/CapiFs.thy ===== *)
theory CapiFs
  imports CapiStat CapiDevProps
begin

text \<open>
  The file system \<^verbatim>\<open>capifs.c\<close>: mount options, and the nodes for the minors of \<^verbatim>\<open>capi.c\<close>.  The
  directory maps names to inodes; \<open>fs_inodes\<close> counts the inodes that have been made and not been given back.  Whether
  the kernel has an inode, and whether it can look a name up, are arguments.
\<close>

section \<open>Data\<close>

record capifs_config =
  cf_setuid :: bool
  cf_setgid :: bool
  cf_uid :: u32
  cf_gid :: u32
  cf_mode :: u16

record inode =
  i_ino :: u32
  i_uid :: u32
  i_gid :: u32
  i_mode :: u16
  i_rdev :: u32

record capifs =
  fs_config :: capifs_config
  fs_dir :: "string \<rightharpoonup> inode"
  fs_inodes :: int

definition capifs_start :: capifs where
  "capifs_start = \<lparr>fs_config = \<lparr>cf_setuid = False, cf_setgid = False, cf_uid = 0, cf_gid = 0, cf_mode = 0x180\<rparr>,
     fs_dir = (\<lambda>_. None), fs_inodes = 0\<rparr>"

definition S_IFMT :: u16 where "S_IFMT = 0xf000"
definition S_IFCHR :: u16 where "S_IFCHR = 0x2000"

section \<open>Mount options\<close>

text \<open>\<open>strsep\<close> until there is nothing left; NULL gives no token.\<close>

fun tokens :: "string \<Rightarrow> string \<Rightarrow> string list" where
  "tokens t [] = [t]"
| "tokens t (c # s) = (if c = CHR '','' then t # tokens [] s else tokens (t @ [c]) s)"

definition digit_val :: "char \<Rightarrow> nat" where
  "digit_val c =
     (let n = of_char c in
      if 48 \<le> n \<and> n \<le> 57 then n - 48 else if 97 \<le> n \<and> n \<le> 102 then n - 87 else if 65 \<le> n \<and> n \<le> 70 then n - 55 else 16)"

fun scan_digits :: "nat \<Rightarrow> nat \<Rightarrow> string \<Rightarrow> nat \<times> string" where
  "scan_digits b n [] = (n, [])"
| "scan_digits b n (c # s) = (if digit_val c < b then scan_digits b (n * b + digit_val c) s else (n, c # s))"

text \<open>
  \<open>%i\<close> and \<open>%o\<close> of the kernel's \<open>sscanf\<close>: white space is skipped, \<open>%i\<close> takes a minus sign and the base from
  the prefix, and there must be a digit.
\<close>

definition isspace :: "char \<Rightarrow> bool" where
  "isspace c \<longleftrightarrow> (let n = of_char c :: nat in n = 32 \<or> 9 \<le> n \<and> n \<le> 13)"

definition scan_nat :: "nat \<Rightarrow> string \<Rightarrow> (u32 \<times> string) option" where
  "scan_nat b s =
     (case s of [] \<Rightarrow> None
      | c # _ \<Rightarrow> if digit_val c < b then (case scan_digits b 0 s of (n, r) \<Rightarrow> Some (word_of_nat n, r)) else None)"

definition scan_based :: "string \<Rightarrow> (u32 \<times> string) option" where
  "scan_based s =
     (case s of
        c # x # d # r \<Rightarrow>
          if c = CHR ''0'' \<and> (x = CHR ''x'' \<or> x = CHR ''X'') \<and> digit_val d < 16 then scan_nat 16 (d # r)
          else if c = CHR ''0'' then scan_nat 8 s else scan_nat 10 s
      | c # r \<Rightarrow> if c = CHR ''0'' then scan_nat 8 s else scan_nat 10 s
      | [] \<Rightarrow> None)"

definition scan_i :: "string \<Rightarrow> (u32 \<times> string) option" where
  "scan_i s =
     (case dropWhile isspace s of
        c # r \<Rightarrow> if c = CHR ''-'' then map_option (\<lambda>(n, r). (- n, r)) (scan_based r) else scan_based (c # r)
      | [] \<Rightarrow> None)"

definition scan_o :: "string \<Rightarrow> (u32 \<times> string) option" where
  "scan_o s = scan_nat 8 (dropWhile isspace s)"

text \<open>\<open>sscanf(s, "key=%i%c", &n, &dummy) == 1\<close>: the key matches, a number follows and then nothing.\<close>

definition scan_option :: "(string \<Rightarrow> (u32 \<times> string) option) \<Rightarrow> string \<Rightarrow> string \<Rightarrow> u32 option" where
  "scan_option scan key s =
     (if take (length key) s = key then
        (case scan (drop (length key) s) of Some (n, []) \<Rightarrow> Some n | _ \<Rightarrow> None)
      else None)"

fun parse_options :: "string list \<Rightarrow> capifs_config \<Rightarrow> capifs_config option" where
  "parse_options [] c = Some c"
| "parse_options (t # ts) c =
     (if t = [] then parse_options ts c
      else case scan_option scan_i ''uid='' t of
        Some n \<Rightarrow> parse_options ts (c\<lparr>cf_setuid := True, cf_uid := n\<rparr>)
      | None \<Rightarrow>
          (case scan_option scan_i ''gid='' t of
             Some n \<Rightarrow> parse_options ts (c\<lparr>cf_setgid := True, cf_gid := n\<rparr>)
           | None \<Rightarrow>
               (case scan_option scan_o ''mode='' t of
                  Some n \<Rightarrow> parse_options ts (c\<lparr>cf_mode := ucast n AND NOT S_IFMT\<rparr>)
                | None \<Rightarrow> None)))"

definition capifs_remount :: "string option \<Rightarrow> capifs \<Rightarrow> int \<times> capifs" where
  "capifs_remount data s =
     (case parse_options (case data of None \<Rightarrow> [] | Some d \<Rightarrow> tokens [] d)
        \<lparr>cf_setuid = False, cf_setgid = False, cf_uid = 0, cf_gid = 0, cf_mode = 0x180\<rparr> of
        None \<Rightarrow> (- EINVAL, s)
      | Some c \<Rightarrow> (0, s\<lparr>fs_config := c\<rparr>))"

section \<open>Nodes\<close>

text \<open>The name is printed into an array of ten characters; \<open>number\<close> is passed as an \<open>int\<close>.\<close>

definition get_node :: "u32 \<Rightarrow> string option" where
  "get_node num = (if length (dec num) < 10 then Some (dec num) else None)"

text \<open>The arguments are \<open>new_inode\<close>, the answer of \<open>lookup_one_len\<close>, and the ids of the caller.  An inode whose node cannot be
  made is not given back.\<close>

definition capifs_new_ncci :: "bool \<Rightarrow> bool \<Rightarrow> u32 \<Rightarrow> u32 \<Rightarrow> u32 \<Rightarrow> u32 \<Rightarrow> capifs \<Rightarrow> capifs option" where
  "capifs_new_ncci inode_ok lookup_ok fsuid fsgid number device s =
     (if \<not> inode_ok then Some s
      else do {
        let c = fs_config s;
        let inode = \<lparr>i_ino = number + 2, i_uid = (if cf_setuid c then cf_uid c else fsuid),
          i_gid = (if cf_setgid c then cf_gid c else fsgid), i_mode = S_IFCHR OR cf_mode c, i_rdev = device\<rparr>;
        let s = s\<lparr>fs_inodes := fs_inodes s + 1\<rparr>;
        name \<leftarrow> get_node number;
        if lookup_ok \<and> fs_dir s name = None then Some (s\<lparr>fs_dir := (fs_dir s)(name \<mapsto> inode)\<rparr>) else Some s })"

definition capifs_free_ncci :: "bool \<Rightarrow> u32 \<Rightarrow> capifs \<Rightarrow> capifs option" where
  "capifs_free_ncci lookup_ok number s = do {
     name \<leftarrow> get_node number;
     if lookup_ok \<and> fs_dir s name \<noteq> None then Some (s\<lparr>fs_dir := (fs_dir s)(name := None), fs_inodes := fs_inodes s - 1\<rparr>)
     else Some s }"

section \<open>Numbers in text\<close>

lemma digit_val_char: "d < 16 \<Longrightarrow> digit_val (digit_char d) = d"
proof -
  assume "d < 16"
  then have "d \<in> {0..<16}" by simp
  moreover have "\<forall>d\<in>{0..<16}. digit_val (digit_char d) = d" by code_simp
  ultimately show ?thesis by blast
qed

lemma scan_digits_append: "\<forall>c\<in>set xs. digit_val c < b \<Longrightarrow> scan_digits b n (xs @ r) = scan_digits b (fst (scan_digits b n xs)) r"
  by (induction xs arbitrary: n) auto

lemma set_digits: "2 \<le> b \<Longrightarrow> b \<le> 16 \<Longrightarrow> c \<in> set (digits b n) \<Longrightarrow> digit_val c < b"
proof (induction b n rule: digits.induct)
  case (1 b n)
  show ?case
  proof (cases "n < b")
    case True
    with "1.prems" show ?thesis by (subst (asm) digits.simps) (simp add: digit_val_char)
  next
    case False
    with "1.prems" have "c \<in> set (digits b (n div b)) \<or> c = digit_char (n mod b)" by (subst (asm) digits.simps) auto
    then show ?thesis
    proof
      assume "c = digit_char (n mod b)"
      moreover have "n mod b < b" using "1.prems"(1) by simp
      ultimately show ?thesis using "1.prems"(2) by (simp add: digit_val_char)
    qed (use "1.IH" "1.prems" False in auto)
  qed
qed

lemma scan_digits_all: "\<forall>c\<in>set xs. digit_val c < b \<Longrightarrow> snd (scan_digits b n xs) = []"
  by (induction xs arbitrary: n) auto

lemma scan_digits_digits: "2 \<le> b \<Longrightarrow> b \<le> 16 \<Longrightarrow> scan_digits b 0 (digits b n) = (n, [])"
proof (induction b n rule: digits.induct)
  case (1 b n)
  show ?case
  proof (cases "n < b")
    case True
    then show ?thesis using "1.prems" by (subst digits.simps) (simp add: digit_val_char)
  next
    case False
    have m: "digit_val (digit_char (n mod b)) = n mod b" 
      by (intro digit_val_char order_less_le_trans [OF mod_less_divisor]) (use "1.prems" in simp_all)
    have ih: "scan_digits b 0 (digits b (n div b)) = (n div b, [])" using "1.IH" "1.prems" False by simp
    have "scan_digits b 0 (digits b n) = scan_digits b (n div b) [digit_char (n mod b)]"
      using "1.prems" False scan_digits_append [of "digits b (n div b)" b 0 "[digit_char (n mod b)]"] set_digits [of b]
      by (subst digits.simps) (simp add: ih)
    with m "1.prems" show ?thesis by simp
  qed
qed

lemma digits_inj: "digits 10 m = digits 10 n \<Longrightarrow> m = n"
proof -
  assume e: "digits 10 m = digits 10 n"
  have "scan_digits 10 0 (digits 10 m) = (m, [])" "scan_digits 10 0 (digits 10 n) = (n, [])"
    by (rule scan_digits_digits; simp)+
  then show "m = n" unfolding e by simp
qed

lemma digits_nonempty: "digits b n \<noteq> []"
  by (subst digits.simps) simp

section \<open>Options are read as they are written\<close>

lemma tokens_append: "CHR '','' \<notin> set a \<Longrightarrow> tokens t (a @ s) = tokens (t @ a) s"
  by (induction a arbitrary: t) auto

lemma no_comma: "2 \<le> b \<Longrightarrow> b \<le> 16 \<Longrightarrow> CHR '','' \<notin> set (digits b n)"
proof
  assume "2 \<le> b" "b \<le> 16" "CHR '','' \<in> set (digits b n)"
  from set_digits [OF this] \<open>b \<le> 16\<close> show False by (simp add: digit_val_def)
qed

lemma digit_chars:
  assumes "digit_val c < 16"
  shows "\<not> isspace c \<and> c \<noteq> CHR ''-''"
proof
  show "\<not> isspace c"
  proof
    assume "isspace c"
    then have "of_char c < (48 :: nat)" by (auto simp: isspace_def Let_def)
    with assms show False by (simp add: digit_val_def Let_def split: if_splits)
  qed
  show "c \<noteq> CHR ''-''" using assms by (auto simp: digit_val_def)
qed

lemma hd_digits: "0 < n \<Longrightarrow> hd (digits 10 n) \<noteq> CHR ''0''"
proof (induction "10 :: nat" n rule: digits.induct)
  case (1 n)
  show ?case
  proof (cases "n < 10")
    case True
    have "\<forall>d\<in>{1..<10}. digit_char d \<noteq> CHR ''0''" by code_simp
    with True "1.prems" show ?thesis by (subst digits.simps) simp
  next
    case False
    with "1.hyps" show ?thesis by (subst digits.simps) (simp add: digits_nonempty)
  qed
qed

lemma scan_nat_digits: "2 \<le> b \<Longrightarrow> b \<le> 16 \<Longrightarrow> scan_nat b (digits b n) = Some (word_of_nat n, [])"
proof -
  assume b: "2 \<le> b" "b \<le> 16"
  obtain c r where cr: "digits b n = c # r" using digits_nonempty by (meson list.exhaust)
  then have "digit_val c < b" using set_digits [OF b, of c n] by simp
  with scan_digits_digits [OF b, of n] cr show ?thesis by (simp add: scan_nat_def)
qed

lemma scan_i_digits: "scan_i (digits 10 n) = Some (word_of_nat n, [])"
proof -
  obtain c r where cr: "digits 10 n = c # r" using digits_nonempty by (meson list.exhaust)
  have "digit_val c < 10" using set_digits [of 10 c n] cr by simp
  then have c: "\<not> isspace c" "c \<noteq> CHR ''-''" using digit_chars [of c] by auto
  have "scan_based (digits 10 n) = Some (word_of_nat n, [])"
  proof (cases "n = 0")
    case True
    have "scan_based ''0'' = Some (0, [])" by code_simp
    moreover have "digits 10 0 = ''0''" by code_simp
    ultimately show ?thesis using True by simp
  next
    case False
    with hd_digits [of n] cr have "c \<noteq> CHR ''0''" by simp
    then have "scan_based (c # r) = scan_nat 10 (c # r)" by (simp add: scan_based_def split: list.splits)
    with scan_nat_digits [of 10 n] cr show ?thesis by simp
  qed
  with c cr show ?thesis by (simp add: scan_i_def)
qed

lemma scan_o_digits: "scan_o (digits 8 n) = Some (word_of_nat n, [])"
proof -
  obtain c r where cr: "digits 8 n = c # r" using digits_nonempty by (meson list.exhaust)
  have "digit_val c < 8" using set_digits [of 8 c n] cr by simp
  then have "\<not> isspace c" using digit_chars [of c] by auto
  with scan_nat_digits [of 8 n] cr show ?thesis by (simp add: scan_o_def)
qed

text \<open>Mount options that are written with a user, a group and a mode are read back as these: all 32 bits of the ids, in
  decimals, and the permission bits of the mode, in octal.  Options that are not known change nothing.\<close>

theorem capifs_options:
  fixes u g :: u32 and m :: u16
  shows "capifs_remount (Some (''uid='' @ digits 10 (unat u) @ '',gid='' @ digits 10 (unat g) @ '',mode='' @ digits 8 (unat m))) s =
     (0, s\<lparr>fs_config := \<lparr>cf_setuid = True, cf_setgid = True, cf_uid = u, cf_gid = g, cf_mode = m AND NOT S_IFMT\<rparr>\<rparr>) \<and>
   (x \<noteq> [] \<and> CHR '','' \<notin> set x \<and> (\<forall>k\<in>{''uid='', ''gid='', ''mode=''}. take (length k) x \<noteq> k) \<longrightarrow>
     capifs_remount (Some (''uid='' @ digits 10 (unat u) @ '','' @ x)) s = (- EINVAL, s))"
proof (intro conjI impI)
  note nc = no_comma [of 10 "unat u"] no_comma [of 10 "unat g"] no_comma [of 8 "unat m"]
  have "tokens [] (''uid='' @ digits 10 (unat u) @ '',gid='' @ digits 10 (unat g) @ '',mode='' @ digits 8 (unat m)) =
      [''uid='' @ digits 10 (unat u), ''gid='' @ digits 10 (unat g), ''mode='' @ digits 8 (unat m)]"
    using tokens_append [OF nc(1)] tokens_append [OF nc(2)] tokens_append [OF nc(3), of _ "[]"] by simp
  moreover have mm: "(ucast (ucast m :: u32) :: u16) = m" by (rule bit_word_eqI) (auto simp: bit_simps)
  ultimately show "capifs_remount (Some (''uid='' @ digits 10 (unat u) @ '',gid='' @ digits 10 (unat g) @ '',mode='' @ digits 8 (unat m))) s =
     (0, s\<lparr>fs_config := \<lparr>cf_setuid = True, cf_setgid = True, cf_uid = u, cf_gid = g, cf_mode = m AND NOT S_IFMT\<rparr>\<rparr>)"
    by (simp add: capifs_remount_def scan_option_def scan_i_digits scan_o_digits mm)
  assume x: "x \<noteq> [] \<and> CHR '','' \<notin> set x \<and> (\<forall>k\<in>{''uid='', ''gid='', ''mode=''}. take (length k) x \<noteq> k)"
  then have "tokens [] (''uid='' @ digits 10 (unat u) @ '','' @ x) = [''uid='' @ digits 10 (unat u), x]"
    using tokens_append [OF nc(1)] tokens_append [of x _ "[]"] by simp
  moreover have "scan_option f k x = None" if "k \<in> {''uid='', ''gid='', ''mode=''}" for f k
  proof -
    from x that have "take (length k) x \<noteq> k" by blast
    then show ?thesis unfolding scan_option_def by (rule if_not_P)
  qed
  from this [of "''uid=''"] this [of "''gid=''"] this [of "''mode=''"] have "scan_option f ''uid='' x = None" "scan_option f ''gid='' x = None" "scan_option f ''mode='' x = None" for f by simp_all
  moreover have "scan_option scan_i ''uid='' (''uid='' @ digits 10 (unat u)) = Some u" by (simp add: scan_option_def scan_i_digits)
  ultimately show "capifs_remount (Some (''uid='' @ digits 10 (unat u) @ '','' @ x)) s = (- EINVAL, s)"
    using x by (simp add: capifs_remount_def)
qed

section \<open>The directory and the minors\<close>

text \<open>What the calls that \<^verbatim>\<open>capi.c\<close> has made do to the directory, oldest first; \<open>mkdev\<close> is \<open>MKDEV\<close> of the terminal driver's
  major number, and there is always memory.\<close>

definition capifs_call :: "(nat \<Rightarrow> u32) \<Rightarrow> u32 \<Rightarrow> u32 \<Rightarrow> tty_event \<Rightarrow> capifs \<Rightarrow> capifs option" where
  "capifs_call mkdev fsuid fsgid e s =
     (case e of
        CapifsNew k \<Rightarrow> capifs_new_ncci True True fsuid fsgid (word_of_nat k) (mkdev k) s
      | CapifsFree k \<Rightarrow> capifs_free_ncci True (word_of_nat k) s
      | _ \<Rightarrow> Some s)"

fun capifs_calls :: "(nat \<Rightarrow> u32) \<Rightarrow> u32 \<Rightarrow> u32 \<Rightarrow> tty_event list \<Rightarrow> capifs \<Rightarrow> capifs option" where
  "capifs_calls mkdev fsuid fsgid [] s = Some s"
| "capifs_calls mkdev fsuid fsgid (e # l) s = do {
     s \<leftarrow> capifs_calls mkdev fsuid fsgid l s;
     capifs_call mkdev fsuid fsgid e s }"

lemma get_node_small:
  assumes "k < 10 ^ 9"
  shows "get_node (word_of_nat k) = Some (digits 10 k)"
proof -
  have "unat (word_of_nat k :: u32) = k" using assms by (simp add: unsigned_of_nat take_bit_nat_eq_self)
  moreover from this have "\<not> sint (word_of_nat k :: u32) < 0"
    using assms by (simp add: signed_of_nat signed_take_bit_int_eq_self)
  ultimately show ?thesis using length_digits [OF assms] by (simp add: get_node_def dec_def)
qed

lemma calls_nodes:
  assumes "nodes l = Some N" and "made l \<subseteq> {..<10 ^ 9}" and "fs_dir fs = (\<lambda>_. None)" and "fs_inodes fs = 0"
  shows "\<exists>fs'. capifs_calls mkdev fsuid fsgid l fs = Some fs' \<and> finite N \<and> N \<subseteq> made l \<and>
    dom (fs_dir fs') = digits 10 ` N \<and> fs_inodes fs' = int (card N) \<and>
    (\<forall>k\<in>N. \<exists>i. fs_dir fs' (digits 10 k) = Some i \<and> i_rdev i = mkdev k)"
  using assms(1,2)
proof (induction l arbitrary: N)
  case Nil
  then show ?case using assms(3,4) by simp
next
  case (Cons e l)
  have "made l \<subseteq> made (e # l)" by (cases e) auto
  then have m: "made l \<subseteq> {..<10 ^ 9}" using Cons.prems(2) by (rule order_trans)
  show ?case
  proof (cases e)
    case (CapifsNew k)
    with Cons.prems(1) obtain M where M: "nodes l = Some M" "k \<notin> M" "N = insert k M" by (auto split: if_splits)
    from Cons.IH [OF M(1) m] obtain fs1 where fs1: "capifs_calls mkdev fsuid fsgid l fs = Some fs1" "finite M" "M \<subseteq> made l"
      "dom (fs_dir fs1) = digits 10 ` M" "fs_inodes fs1 = int (card M)"
      "\<forall>k\<in>M. \<exists>i. fs_dir fs1 (digits 10 k) = Some i \<and> i_rdev i = mkdev k" by blast
    have "digits 10 k \<notin> digits 10 ` M" using M(2) digits_inj by blast
    then have new: "fs_dir fs1 (digits 10 k) = None" using fs1(4) by blast
    have "k < 10 ^ 9" using Cons.prems(2) CapifsNew by simp
    note node = get_node_small [OF this]
    show ?thesis
      using fs1 new node M digits_inj
      by (auto simp: CapifsNew capifs_call_def capifs_new_ncci_def Let_def)
  next
    case (CapifsFree k)
    with Cons.prems(1) obtain M where M: "nodes l = Some M" "k \<in> M" "N = M - {k}" by (auto split: if_splits)
    from Cons.IH [OF M(1) m] obtain fs1 where fs1: "capifs_calls mkdev fsuid fsgid l fs = Some fs1" "finite M" "M \<subseteq> made l"
      "dom (fs_dir fs1) = digits 10 ` M" "fs_inodes fs1 = int (card M)"
      "\<forall>k\<in>M. \<exists>i. fs_dir fs1 (digits 10 k) = Some i \<and> i_rdev i = mkdev k" by blast
    have "k < 10 ^ 9" using m fs1(3) M(2) by blast
    note node = get_node_small [OF this]
    have img: "digits 10 ` (M - {k}) = digits 10 ` M - {digits 10 k}" using digits_inj by blast
    have "card M = Suc (card (M - {k}))" using fs1(2) M(2) by (rule card.remove)
    then show ?thesis
      using fs1 node M img digits_inj [of k]
      by (auto simp: CapifsFree capifs_call_def capifs_free_ncci_def)
  qed (use Cons m in \<open>auto simp: capifs_call_def\<close>)
qed

text \<open>C26: The directory of capifs and the minors of \<^verbatim>\<open>capi.c\<close> agree.  In every reachable state of the character device
  its calls of capifs, made in this order on an empty file system, leave a node for each minor that has an NCCI, and no other; the
  node has the device number of the minor, no call found a node already there or missing, no name was too long, and no inode is lost.\<close>

theorem capifs_directory:
  assumes "capi_reachable cfg s" and "0 < capi_ttyminors cfg" and "capi_ttyminors cfg \<le> 10 ^ 9"
    and "fs_dir fs = (\<lambda>_. None)" and "fs_inodes fs = 0"
  shows "\<exists>fs'. capifs_calls mkdev fsuid fsgid (tty_log s) fs = Some fs' \<and>
    dom (fs_dir fs') = {digits 10 (minor mp) |m mp. minors s m = Some mp \<and> nccip mp \<noteq> None} \<and>
    (\<forall>m mp. minors s m = Some mp \<and> nccip mp \<noteq> None \<longrightarrow>
       (\<exists>i. fs_dir fs' (digits 10 (minor mp)) = Some i \<and> i_rdev i = mkdev (minor mp))) \<and>
    fs_inodes fs' = int (card (dom (fs_dir fs'))) \<and> nodes (tty_log s) \<noteq> None"
proof -
  from capi_reachable_ok [OF assms(1,2)] have n: "nodes (tty_log s) = Some (live_nodes (mview s))"
    and "made (tty_log s) \<subseteq> {..<capi_ttyminors cfg}" by (simp_all add: capi_ok_def nodes_ok_def)
  with assms(3) have "made (tty_log s) \<subseteq> {..<10 ^ 9}" by auto
  from calls_nodes [OF n this assms(4,5)] obtain fs' where fs': "capifs_calls mkdev fsuid fsgid (tty_log s) fs = Some fs'"
    "dom (fs_dir fs') = digits 10 ` live_nodes (mview s)" "fs_inodes fs' = int (card (live_nodes (mview s)))"
    "\<forall>k\<in>live_nodes (mview s). \<exists>i. fs_dir fs' (digits 10 k) = Some i \<and> i_rdev i = mkdev k" by blast
  have live: "k \<in> live_nodes (mview s) \<longleftrightarrow> (\<exists>m mp. minors s m = Some mp \<and> nccip mp \<noteq> None \<and> k = minor mp)" for k
    by (auto simp: live_nodes_def mview_eq_Some view_of_def; metis)
  have "card (digits 10 ` live_nodes (mview s)) = card (live_nodes (mview s))"
    by (rule card_image) (use digits_inj in \<open>auto intro: inj_onI\<close>)
  moreover have "digits 10 ` live_nodes (mview s) = {digits 10 (minor mp) |m mp. minors s m = Some mp \<and> nccip mp \<noteq> None}"
  proof (intro equalityI subsetI)
    fix x assume "x \<in> digits 10 ` live_nodes (mview s)"
    then obtain k where "x = digits 10 k" "k \<in> live_nodes (mview s)" by blast
    with live [of k] show "x \<in> {digits 10 (minor mp) |m mp. minors s m = Some mp \<and> nccip mp \<noteq> None}" by blast
  next
    fix x assume "x \<in> {digits 10 (minor mp) |m mp. minors s m = Some mp \<and> nccip mp \<noteq> None}"
    then obtain m mp where "x = digits 10 (minor mp)" "minors s m = Some mp" "nccip mp \<noteq> None" by blast
    with live [of "minor mp"] show "x \<in> digits 10 ` live_nodes (mview s)" by blast
  qed
  moreover have "\<exists>i. fs_dir fs' (digits 10 (minor mp)) = Some i \<and> i_rdev i = mkdev (minor mp)"
    if "minors s m = Some mp \<and> nccip mp \<noteq> None" for m mp using fs'(4) live [of "minor mp"] that by blast
  ultimately show ?thesis using fs'(1-3) n by (intro exI [of _ fs']) auto
qed

theorem capifs_directory_witness:
  "\<exists>s fs'. capi_reachable demo_cfg s \<and> capifs_calls word_of_nat 0 0 (tty_log s) capifs_start = Some fs' \<and>
    dom (fs_dir fs') = {digits 10 0}"
proof -
  obtain s where s: "demo_dev = Some s" and mn: "minors s = [102 \<mapsto> zero_minor\<lparr>mn_ap := 100, mn_ncci := 0x10101, nccip := Some 101\<rparr>]"
    using demo_dev_state by blast
  note r = demo_dev_reachable [OF s]
  have lim: "capi_ttyminors demo_cfg \<le> 10 ^ 9" by (simp add: demo_cfg_def)
  from capifs_directory [OF r demo_minors lim, of capifs_start word_of_nat 0 0]
  obtain fs' where "capifs_calls word_of_nat 0 0 (tty_log s) capifs_start = Some fs'"
    "dom (fs_dir fs') = {digits 10 (minor mp) |m mp. minors s m = Some mp \<and> nccip mp \<noteq> None}"
    by (auto simp: capifs_start_def)
  moreover have "{digits 10 (minor mp) |m mp. minors s m = Some mp \<and> nccip mp \<noteq> None} = {digits 10 0}"
    by (auto simp: mn zero_minor_def split: if_splits)
  ultimately show ?thesis using r by auto
qed

end
