(* ===== verification/CapiModules.thy ===== *)
theory CapiModules
  imports CapiFs
begin

text \<open>
  Loading and unloading of the modules: what \<^verbatim>\<open>core.c\<close> with \<^verbatim>\<open>core_proc.c\<close>, \<^verbatim>\<open>capi.c\<close>,
  \<^verbatim>\<open>capifs.c\<close> and \<^verbatim>\<open>capidrv.c\<close> enter into the kernel, and what they take out again.  The kernel is the set of
  what is registered; \<open>res\<close> gives the result of the function that registers a thing, 0 for success (for a pointer, an error
  code or -1 instead of NULL).
\<close>

section \<open>Registrations\<close>

datatype kreg =
    ProcEntry string | CharDevice | SimpleClass | SimpleDevice | DevfsNode | TtyMemory | TtyDriver
  | DeviceClass | FileSystem | Mounted

type_synonym kernel = "kreg set"

section \<open>The capicore\<close>

definition create_seq_entry :: "(kreg \<Rightarrow> int) \<Rightarrow> string \<Rightarrow> kernel \<Rightarrow> int \<times> kernel" where
  "create_seq_entry res name K =
     (if res (ProcEntry name) \<noteq> 0 then (- ENOMEM, K) else (0, insert (ProcEntry name) K))"

definition capi_register_proc :: "(kreg \<Rightarrow> int) \<Rightarrow> kernel \<Rightarrow> int \<times> kernel" where
  "capi_register_proc res K =
     (if res (ProcEntry ''capi'') \<noteq> 0 then (- ENOMEM, K)
      else
        let K = insert (ProcEntry ''capi'') K;
            (e1, K) = create_seq_entry res ''capi/applparams'' K in
        if e1 \<noteq> 0 then (- ENOMEM, K - {ProcEntry ''capi''})
        else
          let (e2, K) = create_seq_entry res ''capi/applstats'' K in
          if e2 \<noteq> 0 then (- ENOMEM, K - {ProcEntry ''capi/applparams''} - {ProcEntry ''capi''})
          else (0, K))"

definition capi_unregister_proc :: "kernel \<Rightarrow> kernel" where
  "capi_unregister_proc K = K - {ProcEntry ''capi/applstats''} - {ProcEntry ''capi/applparams''} - {ProcEntry ''capi''}"

definition capicore_init :: "(kreg \<Rightarrow> int) \<Rightarrow> kernel \<Rightarrow> int \<times> kernel" where
  "capicore_init res K =
     (let (r, K) = capi_register_proc res K in
      if r \<noteq> 0 then (r, K)
      else let r = res DeviceClass in (r, if r = 0 then insert DeviceClass K else K))"

definition capicore_exit :: "kernel \<Rightarrow> kernel" where
  "capicore_exit K = capi_unregister_proc (K - {DeviceClass})"

section \<open>The character device\<close>

text \<open>The result, the number of minors after the check of the module parameter, and the kernel.\<close>

definition capinc_tty_init :: "(kreg \<Rightarrow> int) \<Rightarrow> int \<Rightarrow> kernel \<Rightarrow> int \<times> int \<times> kernel" where
  "capinc_tty_init res ttyminors K =
     (let n = capinc_ttyminors ttyminors in
      if res TtyMemory \<noteq> 0 then (- ENOMEM, n, K)
      else
        let K = insert TtyMemory K in
        if res TtyDriver \<noteq> 0 then (- 1, n, K - {TtyMemory})
        else (0, n, insert TtyDriver K))"

definition capinc_tty_exit :: "kernel \<Rightarrow> kernel" where
  "capinc_tty_exit K = K - {TtyDriver} - {TtyMemory}"

text \<open>\<open>p->procent\<close> is whether the entry could be made.\<close>

definition proc_init :: "(kreg \<Rightarrow> int) \<Rightarrow> string \<Rightarrow> kernel \<Rightarrow> bool \<times> kernel" where
  "proc_init res name K = (if res (ProcEntry name) = 0 then (True, insert (ProcEntry name) K) else (False, K))"

definition proc_exit :: "bool \<Rightarrow> string \<Rightarrow> kernel \<Rightarrow> kernel" where
  "proc_exit procent name K = (if procent then K - {ProcEntry name} else K)"

text \<open>\<open>register_chrdev\<close> returns the major number that it has chosen if it is asked with major number 0.\<close>

definition capi_init :: "(kreg \<Rightarrow> int) \<Rightarrow> int \<Rightarrow> kernel \<Rightarrow> int \<times> int \<times> bool \<times> kernel" where
  "capi_init res ttyminors K =
     (let r = res CharDevice in
      if r \<noteq> 0 then (- EIO, ttyminors, False, if r < 0 then K else insert CharDevice K)
      else
        let K = insert CharDevice K; r = res SimpleClass in
        if r \<noteq> 0 then (r, ttyminors, False, K - {CharDevice})
        else
          let K = insert SimpleClass K;
              K = (if res SimpleDevice = 0 then insert SimpleDevice K else K);
              K = (if res DevfsNode = 0 then insert DevfsNode K else K);
              (r, n, K) = capinc_tty_init res ttyminors K in
          if r < 0 then (- ENOMEM, n, False, K - {SimpleDevice} - {SimpleClass} - {CharDevice})
          else
            let (procent, K) = proc_init res ''capi/capi20ncci'' K in
            (0, n, procent, K))"

definition capi_exit :: "bool \<Rightarrow> kernel \<Rightarrow> kernel" where
  "capi_exit procent K =
     capinc_tty_exit (proc_exit procent ''capi/capi20ncci'' K - {SimpleDevice} - {SimpleClass} - {CharDevice} - {DevfsNode})"

section \<open>The file system\<close>

definition S_DIR :: u16 where "S_DIR = 0x4000 OR 0x124 OR 0x49 OR 0x80"

text \<open>The root directory; the arguments are \<open>new_inode\<close> and \<open>d_alloc_root\<close>.\<close>

definition capifs_fill_super :: "bool \<Rightarrow> bool \<Rightarrow> capifs \<Rightarrow> int \<times> inode option \<times> capifs" where
  "capifs_fill_super inode_ok root_ok s =
     (if \<not> inode_ok then (- ENOMEM, None, s)
      else
        let inode = \<lparr>i_ino = 1, i_uid = 0, i_gid = 0, i_mode = S_DIR, i_rdev = 0\<rparr>;
            s = s\<lparr>fs_inodes := fs_inodes s + 1\<rparr> in
        if root_ok then (0, Some inode, s) else (- ENOMEM, None, s\<lparr>fs_inodes := fs_inodes s - 1\<rparr>))"

definition capifs_init :: "(kreg \<Rightarrow> int) \<Rightarrow> kernel \<Rightarrow> int \<times> kernel" where
  "capifs_init res K =
     (let err = res FileSystem in
      if err \<noteq> 0 then (err, K)
      else let K = insert FileSystem K; err = res Mounted in (err, if err = 0 then insert Mounted K else K))"

definition capifs_exit :: "kernel \<Rightarrow> kernel" where
  "capifs_exit K = K - {FileSystem} - {Mounted}"

section \<open>Version strings\<close>

text \<open>The revision that a module prints when it is loaded: what is behind the colon, at most 31 characters, up to the character
  in front of the dollar sign.\<close>

definition module_rev :: "string \<Rightarrow> string" where
  "module_rev revision =
     (case dropWhile (\<lambda>c. c \<noteq> CHR '':'') revision of
        _ # _ # r \<Rightarrow>
          let txt = take 31 r; k = length (takeWhile (\<lambda>c. c \<noteq> CHR ''$'') txt) in
          if k < length txt \<and> 0 < k then take (k - 1) txt else txt
      | _ \<Rightarrow> ''1.0'')"

text \<open>What \<open>capidrv_exit\<close> prints: the text behind the colon is copied to an array of ten characters, and there must be a
  dollar sign in it.\<close>

definition capidrv_exit_rev :: "string \<Rightarrow> string option" where
  "capidrv_exit_rev revision =
     (case dropWhile (\<lambda>c. c \<noteq> CHR '':'') revision of
        _ # txt \<Rightarrow>
          if length txt < 10 \<and> CHR ''$'' \<in> set txt then Some (takeWhile (\<lambda>c. c \<noteq> CHR ''$'') txt) else None
      | [] \<Rightarrow> Some '' ??? '')"

text \<open>\<^verbatim>\<open>/proc/capi/capidrv\<close>: the page, \<open>*eof\<close> and the result.\<close>

definition proc_capidrv_read_proc :: "u16 \<Rightarrow> bytes \<Rightarrow> (bytes \<times> bool \<times> int) option" where
  "proc_capidrv_read_proc i page = do {
     (len, page) \<leftarrow> sprintf page (bytes_of (digits 10 (unat i) @ NL));
     Some (page, True, len) }"

section \<open>Loading and unloading\<close>

text \<open>The strings of the repository, and what the version control system makes of them: unloading overruns the array.\<close>

lemma revisions:
  "module_rev ''$Revision$'' = ''1.0''" "capidrv_exit_rev ''$Revision$'' = Some '' ??? ''"
  "module_rev ''$Revision: 1.1.2.4 $'' = ''1.1.2.4''" "capidrv_exit_rev ''$Revision: 1.1.2.4 $'' = None"
  by code_simp+

definition capi_things :: kernel where
  "capi_things = {CharDevice, SimpleClass, SimpleDevice, DevfsNode, TtyMemory, TtyDriver, ProcEntry ''capi/capi20ncci''}"

text \<open>C27: Unloading \<^verbatim>\<open>capi.c\<close> takes back exactly what loading has registered, and a loaded module has between 1 and 256 minors
  whatever the parameter was.  If loading fails, nothing stays but in two cases: the device node of devfs if the terminal
  driver fails, and the character device if its major number was to be chosen by the kernel.\<close>

theorem capi_module:
  assumes "capi_init res ttyminors K = (r, n, procent, K')" and "K \<inter> capi_things = {}"
  shows "(r = 0 \<longrightarrow> capi_exit procent K' = K \<and> 1 \<le> n \<and> n \<le> CAPINC_MAX_PORTS \<and> {CharDevice, SimpleClass, TtyDriver} \<subseteq> K') \<and>
    (r \<noteq> 0 \<longrightarrow> K' = K \<union> (if res CharDevice > 0 then {CharDevice} else {}) \<union>
       (if res CharDevice = 0 \<and> res SimpleClass = 0 \<and> res DevfsNode = 0 then {DevfsNode} else {}))"
proof -
  have K: "CharDevice \<notin> K" "SimpleClass \<notin> K" "SimpleDevice \<notin> K" "DevfsNode \<notin> K" "TtyMemory \<notin> K" "TtyDriver \<notin> K"
    "ProcEntry ''capi/capi20ncci'' \<notin> K" using assms(2) by (auto simp: capi_things_def)
  consider "res CharDevice \<noteq> 0" | "res CharDevice = 0" "res SimpleClass \<noteq> 0"
    | "res CharDevice = 0" "res SimpleClass = 0" "res TtyMemory \<noteq> 0 \<or> res TtyDriver \<noteq> 0"
    | "res CharDevice = 0" "res SimpleClass = 0" "res TtyMemory = 0" "res TtyDriver = 0" by blast
  then show ?thesis
  proof cases
    case 1
    with assms(1) show ?thesis by (auto simp: capi_init_def Let_def EIO_def)
  next
    case 2
    with assms(1) K show ?thesis by (auto simp: capi_init_def Let_def)
  next
    case 3
    with assms(1) K show ?thesis
      by (auto simp: capi_init_def capinc_tty_init_def Let_def ENOMEM_def split: if_splits)
  next
    case 4
    with assms(1) K show ?thesis
      by (auto simp: capi_init_def capinc_tty_init_def proc_init_def capi_exit_def proc_exit_def capinc_tty_exit_def Let_def
          capinc_ttyminors_def CAPINC_MAX_PORTS_def CAPINC_NR_PORTS_def split: if_splits)
  qed
qed

text \<open>The other modules: unloading takes back what loading has registered; when loading fails, the entries of
  \<^verbatim>\<open>/proc\<close> stay if the class cannot be registered, and the file system type stays if it cannot be mounted.\<close>

lemma capicore_module:
  assumes "capicore_init res K = (r, K')"
    and "K \<inter> {ProcEntry ''capi'', ProcEntry ''capi/applparams'', ProcEntry ''capi/applstats'', DeviceClass} = {}"
  shows "(r = 0 \<longrightarrow> capicore_exit K' = K) \<and>
    (r \<noteq> 0 \<longrightarrow> K' = K \<or>
       r = res DeviceClass \<and> K' = K \<union> {ProcEntry ''capi'', ProcEntry ''capi/applparams'', ProcEntry ''capi/applstats''})"
  using assms
  by (auto simp: capicore_init_def capi_register_proc_def create_seq_entry_def capicore_exit_def capi_unregister_proc_def Let_def
      ENOMEM_def split: if_splits)

lemma capifs_module:
  assumes "capifs_init res K = (r, K')" and "K \<inter> {FileSystem, Mounted} = {}"
  shows "(r = 0 \<longrightarrow> capifs_exit K' = K) \<and> (r \<noteq> 0 \<longrightarrow> K' = K \<or> r = res Mounted \<and> K' = insert FileSystem K)"
  using assms by (auto simp: capifs_init_def capifs_exit_def Let_def split: if_splits)

theorem capi_module_witness:
  "\<exists>n procent K'. capi_init (\<lambda>r. if r = TtyDriver then - 16 else 0) 1000 {} = (- ENOMEM, n, procent, K') \<and> K' = {DevfsNode}"
proof -
  let ?res = "\<lambda>r. if r = TtyDriver then - 16 else 0 :: int"
  obtain n procent K' where i: "capi_init ?res 1000 {} = (- ENOMEM, n, procent, K')"
    by (simp add: capi_init_def capinc_tty_init_def Let_def) blast
  from capi_module [OF i] i show ?thesis by (simp add: ENOMEM_def)
qed

end
