(* ===== verification/DrvUtil.thy ===== *)
theory DrvUtil
  imports CapiUtil
begin

text \<open>
  The isdn4linux driver \<^verbatim>\<open>drivers/isdn/capi/capidrv.c\<close>, part 1: conversion of protocols and service
  indicators, the channel lists of leased lines, and the ring buffer of the D-channel trace.  The constants of
  \<^verbatim>\<open>linux/isdn.h\<close>, which is not part of the repository, are the record \<open>isdn_protos\<close>.
\<close>

record isdn_protos =
  L2_X75I :: int
  L2_X75UI :: int
  L2_X75BUI :: int
  L2_HDLC :: int
  L2_TRANS :: int
  L2_V11096 :: int
  L2_V11019 :: int
  L2_V11038 :: int
  L2_FAX :: int
  L2_MODEM :: int

section \<open>Protocols\<close>

definition b1prot :: "isdn_protos \<Rightarrow> int \<Rightarrow> int \<Rightarrow> u32" where
  "b1prot pr l2 l3 =
     (if l2 = L2_X75I pr \<or> l2 = L2_X75UI pr \<or> l2 = L2_X75BUI pr then 0
      else if l2 = L2_HDLC pr then 0
      else if l2 = L2_TRANS pr then 1
      else if l2 = L2_V11096 pr \<or> l2 = L2_V11019 pr \<or> l2 = L2_V11038 pr then 2
      else if l2 = L2_FAX pr then 4
      else if l2 = L2_MODEM pr then 8
      else 0)"

definition b2prot :: "isdn_protos \<Rightarrow> int \<Rightarrow> int \<Rightarrow> u32" where
  "b2prot pr l2 l3 =
     (if l2 = L2_X75I pr \<or> l2 = L2_X75UI pr \<or> l2 = L2_X75BUI pr then 0
      else if l2 = L2_HDLC pr \<or> l2 = L2_TRANS pr \<or> l2 = L2_V11096 pr \<or> l2 = L2_V11019 pr \<or> l2 = L2_V11038 pr
        \<or> l2 = L2_MODEM pr then 1
      else if l2 = L2_FAX pr then 4
      else 0)"

definition b3prot :: "isdn_protos \<Rightarrow> int \<Rightarrow> int \<Rightarrow> u32" where
  "b3prot pr l2 l3 =
     (if l2 = L2_X75I pr \<or> l2 = L2_X75UI pr \<or> l2 = L2_X75BUI pr \<or> l2 = L2_HDLC pr \<or> l2 = L2_TRANS pr
        \<or> l2 = L2_V11096 pr \<or> l2 = L2_V11019 pr \<or> l2 = L2_V11038 pr \<or> l2 = L2_MODEM pr then 0
      else if l2 = L2_FAX pr then 4
      else 0)"

definition b1config_async_v110 :: "u16 \<Rightarrow> bytes" where
  "b1config_async_v110 rate =
     [8, ucast (rate AND 0xff), ucast (drop_bit 8 rate AND 0xff), 8, 0, 0, 0, 0, 0]"

definition b1config :: "isdn_protos \<Rightarrow> int \<Rightarrow> int \<Rightarrow> bytes option" where
  "b1config pr l2 l3 =
     (if l2 = L2_X75I pr \<or> l2 = L2_X75UI pr \<or> l2 = L2_X75BUI pr \<or> l2 = L2_HDLC pr \<or> l2 = L2_TRANS pr then None
      else if l2 = L2_V11096 pr then Some (b1config_async_v110 9600)
      else if l2 = L2_V11019 pr then Some (b1config_async_v110 19200)
      else if l2 = L2_V11038 pr then Some (b1config_async_v110 38400)
      else None)"

section \<open>Service indicators\<close>

definition cip_table :: "u16 list list" where
  "cip_table = [
     [0, 0, 0, 0, 0],
     [16, 16, 4, 26, 16],
     [17, 17, 17, 4, 4],
     [2, 2, 2, 2, 2],
     [18, 18, 18, 18, 18],
     [2, 2, 2, 2, 2],
     [0, 0, 0, 0, 0],
     [2, 2, 2, 2, 2],
     [2, 2, 2, 2, 2],
     [21, 21, 21, 21, 21],
     [19, 19, 19, 19, 19],
     [0, 0, 0, 0, 0],
     [0, 0, 0, 0, 0],
     [0, 0, 0, 0, 0],
     [0, 0, 0, 0, 0],
     [22, 22, 22, 22, 22],
     [27, 27, 27, 28, 27]]"

definition si2cip :: "u8 \<Rightarrow> u8 \<Rightarrow> u16" where
  "si2cip si1 si2 =
     (let si1 = (if si1 > 16 then 0 else si1); si2 = (if si2 > 4 then 0 else si2)
      in cip_table ! unat si1 ! unat si2)"

definition si1_table :: "u8 list" where
  "si1_table = [7, 1, 7, 7, 1, 1, 7, 7, 7, 1, 0, 0, 0, 0, 0, 0, 1, 2, 4, 10, 9, 9, 15, 7, 7, 7, 1, 16, 16, 0, 0, 0]"

definition si2_table :: "u8 list" where
  "si2_table = [0, 0, 0, 0, 2, 3, 0, 0, 0, 3, 0, 0, 0, 0, 0, 0, 1, 2, 0, 0, 9, 0, 0, 0, 0, 0, 3, 2, 3, 0, 0, 0]"

definition cip2si1 :: "u16 \<Rightarrow> u8" where
  "cip2si1 cipval = (let cipval = (if cipval > 31 then 0 else cipval) in si1_table ! unat cipval)"

definition cip2si2 :: "u16 \<Rightarrow> u8" where
  "cip2si2 cipval = (let cipval = (if cipval > 31 then 0 else cipval) in si2_table ! unat cipval)"

section \<open>Leased lines\<close>

text \<open>
  The channels of a leased line are given as a telephone number \<open>FV:\<dots>\<close>.  The string is the list of its
  characters up to the NUL.  A number that overflows an \<open>int\<close>, or a shift of 1 to the sign bit or further, is
  undefined behaviour (\<open>None\<close>).
\<close>

definition isdigit :: "char \<Rightarrow> bool" where
  "isdigit c \<longleftrightarrow> 48 \<le> (of_char c :: nat) \<and> (of_char c :: nat) \<le> 57"

fun read_digits :: "int \<Rightarrow> string \<Rightarrow> int \<times> string" where
  "read_digits d [] = (d, [])"
| "read_digits d (c # s) = (if isdigit c then read_digits (d * 10 + (int (of_char c) - 48)) s else (d, c # s))"


lemma read_digits_length: "length (snd (read_digits d s)) \<le> length s"
  by (induction d s rule: read_digits.induct) auto

definition INT_LIMIT :: int where "INT_LIMIT = 2 ^ 31"

definition read_int :: "string \<Rightarrow> (int \<times> string) option" where
  "read_int s = (case read_digits 0 s of (d, r) \<Rightarrow> if d < INT_LIMIT then Some (d, r) else None)"

text \<open>\<open>1 << i\<close> for every \<open>i\<close> of a range.\<close>

definition or_bits :: "int \<Rightarrow> int \<Rightarrow> u32 \<Rightarrow> u32 option" where
  "or_bits a b bmask =
     (if a < 0 \<or> b \<ge> 31 then None
      else Some (fold (\<lambda>i m. m OR push_bit i 1) [nat a..<Suc (nat b)] bmask))"

definition at_end :: "string \<Rightarrow> bool" where
  "at_end s \<longleftrightarrow> s = [] \<or> hd s = CHR '','' \<or> hd s = CHR '' ''"

text \<open>The loop; the error numbers are the negative results of the code.\<close>

function parse_channels :: "u32 \<Rightarrow> string \<Rightarrow> (int \<times> u32) option" where
  "parse_channels bmask s =
     (if s = [] then Some (0, bmask)
      else if \<not> isdigit (hd s) then Some (-3, bmask)
      else do {
        (digit1, s1) \<leftarrow> read_int s;
        if digit1 \<le> 0 \<and> digit1 > 30 then Some (-4, bmask)
        else if at_end s1 then do {
          bmask \<leftarrow> or_bits digit1 digit1 bmask;
          parse_channels bmask (tl s1) }
        else if hd s1 \<noteq> CHR ''-'' then Some (-5, bmask)
        else if tl s1 = [] \<or> \<not> isdigit (hd (tl s1)) then Some (-3, bmask)
        else do {
          (digit2, s2) \<leftarrow> read_int (tl s1);
          if digit2 \<le> 0 \<and> digit2 > 30 then Some (-4, bmask)
          else if at_end s2 then do {
            bmask \<leftarrow> (if digit1 > digit2 then or_bits digit2 digit1 bmask else or_bits digit1 digit2 bmask);
            parse_channels bmask (tl s2) }
          else Some (-6, bmask) } })"
  by auto

lemma read_int_shorter: "read_int s = Some (d, r) \<Longrightarrow> s \<noteq> [] \<Longrightarrow> isdigit (hd s) \<Longrightarrow> length r < length s"
proof -
  assume r: "read_int s = Some (d, r)" and s: "s \<noteq> []" "isdigit (hd s)"
  from s obtain c cs where "s = c # cs" "isdigit c" by (cases s) auto
  with r have "r = snd (read_digits (int (of_char c) - 48) cs)" by (auto simp: read_int_def split: prod.splits if_splits)
  with read_digits_length [of "int (of_char c) - 48" cs] \<open>s = c # cs\<close> show ?thesis by simp
qed

termination parse_channels
proof (relation "measure (length \<circ> snd)", goal_cases)
  case (2 bmask s p digit1 s1 m)
  then have "read_int s = Some (digit1, s1)" by simp
  with 2 read_int_shorter have "length s1 < length s" by blast
  then show ?case by simp
next
  case (3 bmask s p digit1 s1 p2 digit2 s2 m)
  then have "read_int s = Some (digit1, s1)" and "read_int (tl s1) = Some (digit2, s2)" by simp_all
  with 3 read_int_shorter have "length s1 < length s" and "length s2 < length (tl s1)" by blast+
  then show ?case by simp
qed simp

declare parse_channels.simps [simp del]

text \<open>The result is the return value with the mask and whether the line is active.\<close>

definition decodeFVteln :: "string \<Rightarrow> (int \<times> u32 \<times> bool) option" where
  "decodeFVteln teln =
     (if take 3 teln \<noteq> ''FV:'' then Some (1, 0, True)
      else let s = dropWhile (\<lambda>c. c = CHR '' '') (drop 3 teln) in
        if s = [] then Some (-2, 0, True)
        else let
          (active, s) = (if s \<noteq> [] \<and> (hd s = CHR ''p'' \<or> hd s = CHR ''P'') then (False, tl s) else (True, s));
          (active, s) = (if s \<noteq> [] \<and> (hd s = CHR ''a'' \<or> hd s = CHR ''A'') then (True, tl s) else (active, s))
        in do {
          (rc, bmask) \<leftarrow> parse_channels 0 s;
          Some (rc, bmask, active) })"

text \<open>\<open>AdditionalInfo\<close> is filled in only when the string is a list of channels.\<close>

definition FVteln2capi20 :: "string \<Rightarrow> (int \<times> bytes option) option" where
  "FVteln2capi20 teln = do {
     (rc, bmask, active) \<leftarrow> decodeFVteln teln;
     if rc \<noteq> 0 then Some (rc, None)
     else Some (0, Some ([2 + 2 + 31, 3, 0] @ (if active then [0, 0] else [1, 0]) @ [0] @
        map (\<lambda>i. if bmask AND push_bit i 1 \<noteq> 0 then 0xff else 0) [1..<31])) }"

section \<open>The ring buffer of the D-channel trace\<close>

record q931_ring =
  q931_buf :: bytes
  q931_read :: nat
  q931_write :: nat
  q931_end :: nat

definition q931_init :: q931_ring where
  "q931_init = \<lparr>q931_buf = replicate 4096 0, q931_read = 0, q931_write = 0, q931_end = 4095\<rparr>"

definition PUTBYTE_TO_STATUS :: "q931_ring \<Rightarrow> u8 \<Rightarrow> q931_ring option" where
  "PUTBYTE_TO_STATUS r b = do {
     buf \<leftarrow> st (q931_buf r) (q931_write r) b;
     let w = q931_write r + 1;
     Some (r\<lparr>q931_buf := buf, q931_write := if w > q931_end r then 0 else w\<rparr>) }"

definition put_bytes :: "bytes \<Rightarrow> q931_ring \<Rightarrow> q931_ring option" where
  "put_bytes bs r = fold_opt (\<lambda>b r. PUTBYTE_TO_STATUS r b) bs r"

definition hexdigit :: "u8 \<Rightarrow> u8" where
  "hexdigit w = (if w < 10 then 48 + w else 65 - 10 + w)"

text \<open>The line of text for one trace message.\<close>

definition dtrace_text :: "bool \<Rightarrow> bool \<Rightarrow> bytes \<Rightarrow> bytes" where
  "dtrace_text send level2 data =
     [68, if level2 then 50 else 51, if send then 62 else 60, 58] @
     concat (map (\<lambda>b. [32, hexdigit (drop_bit 4 b AND 0xf), hexdigit (b AND 0xf)]) data) @ [10]"

text \<open>The second component is the number of bytes that is reported as available, if any.\<close>

definition handle_dtrace_data :: "bool \<Rightarrow> bool \<Rightarrow> bytes \<Rightarrow> q931_ring \<Rightarrow> (q931_ring \<times> nat option) option" where
  "handle_dtrace_data send level2 data r =
     (if data = [] then Some (r, None)
      else do {
        r \<leftarrow> put_bytes (dtrace_text send level2 data) r;
        Some (r, Some (length data * 3 + 5)) })"

primrec read_bytes :: "nat \<Rightarrow> q931_ring \<Rightarrow> (bytes \<times> q931_ring) option" where
  "read_bytes 0 r = Some ([], r)"
| "read_bytes (Suc n) r = do {
     b \<leftarrow> ld (q931_buf r) (q931_read r);
     let i = q931_read r + 1;
     (bs, r) \<leftarrow> read_bytes n (r\<lparr>q931_read := if i > q931_end r then 0 else i\<rparr>);
     Some (b # bs, r) }"

end
