(* ===== verification/DrvUtilProps.thy ===== *)
theory DrvUtilProps
  imports DrvUtil
begin

text \<open>
  Correctness of the leased-line syntax, of the service indicator tables and of the trace ring of
  \<^verbatim>\<open>capidrv.c\<close>.
\<close>

section \<open>Leased lines\<close>

text \<open>The syntax that the parser is meant for: single channels and ranges, separated by commas.\<close>

datatype fv_item = One nat | Range nat nat

fun fv_channels :: "fv_item \<Rightarrow> nat set" where
  "fv_channels (One n) = {n}"
| "fv_channels (Range a b) = {min a b..max a b}"

fun fv_ok :: "fv_item \<Rightarrow> bool" where
  "fv_ok (One n) \<longleftrightarrow> 1 \<le> n \<and> n \<le> 30"
| "fv_ok (Range a b) \<longleftrightarrow> 1 \<le> a \<and> a \<le> 30 \<and> 1 \<le> b \<and> b \<le> 30"

definition digit :: "nat \<Rightarrow> char" where
  "digit n = ''0123456789'' ! n"

definition dec :: "nat \<Rightarrow> string" where
  "dec n = (if n < 10 then [digit n] else [digit (n div 10), digit (n mod 10)])"

fun fv_text :: "fv_item \<Rightarrow> string" where
  "fv_text (One n) = dec n"
| "fv_text (Range a b) = dec a @ ''-'' @ dec b"

fun fv_line :: "fv_item list \<Rightarrow> string" where
  "fv_line [] = ''''"
| "fv_line [i] = fv_text i"
| "fv_line (i # is) = fv_text i @ '','' @ fv_line is"

lemma of_char_digit: "(n :: nat) < 10 \<Longrightarrow> (of_char (digit n) :: nat) = 48 + n"
proof -
  assume "n < (10 :: nat)"
  then have "n = 0 \<or> n = 1 \<or> n = 2 \<or> n = 3 \<or> n = 4 \<or> n = 5 \<or> n = 6 \<or> n = 7 \<or> n = 8 \<or> n = 9" by presburger
  then show ?thesis by (elim disjE) (simp_all add: digit_def)
qed

lemma isdigit_digit: "n < 10 \<Longrightarrow> isdigit (digit n)"
  by (simp add: isdigit_def of_char_digit)

lemma read_int_dec:
  assumes "n \<le> 99" and "r = [] \<or> \<not> isdigit (hd r)"
  shows "read_int (dec n @ r) = Some (int n, r)"
proof -
  have stop: "read_digits d r = (d, r)" for d using assms(2) by (cases r) auto
  have "n div 10 < 10" "n mod 10 < 10" using assms(1) by simp_all
  moreover have "int (n div 10) * 10 + int (n mod 10) = int n" by presburger
  ultimately show ?thesis using assms(1)
    by (simp add: read_int_def dec_def stop isdigit_digit of_char_digit INT_LIMIT_def)
qed

lemma dec_hd: "n \<le> 99 \<Longrightarrow> dec n \<noteq> [] \<and> isdigit (hd (dec n))"
  by (simp add: dec_def isdigit_digit)

lemma bit_pow: "bit (2 ^ i :: u32) k \<longleftrightarrow> i = k \<and> k < 32"
  by (auto simp: bit_exp_iff possible_bit_word)

lemma bit_fold_or: "bit (fold (\<lambda>i m. m OR 2 ^ i) js (m :: u32)) k \<longleftrightarrow> bit m k \<or> (k \<in> set js \<and> k < 32)"
  by (induction js arbitrary: m) (auto simp: bit_or_iff bit_pow)

lemma or_bits_range:
  assumes "a \<le> b" and "b \<le> 30"
  shows "\<exists>m'. or_bits (int a) (int b) m = Some m' \<and> (\<forall>k. bit m' k \<longleftrightarrow> bit m k \<or> k \<in> {a..b})"
  using assms by (auto simp: or_bits_def bit_fold_or bit_or_iff bit_pow)

lemma comma: "\<not> isdigit CHR '',''" "\<not> isdigit CHR ''-''" "CHR ''-'' \<noteq> CHR '',''" "CHR ''-'' \<noteq> CHR '' ''"
  by (simp_all add: isdigit_def)

text \<open>One item, followed by the end or by a comma.\<close>

lemma parse_item:
  assumes "fv_ok i" and r: "r = [] \<or> hd r = CHR '',''"
  shows "\<exists>m'. parse_channels m (fv_text i @ r) = parse_channels m' (tl r) \<and>
    (\<forall>k. bit m' k \<longleftrightarrow> bit m k \<or> k \<in> fv_channels i)"
proof (cases i)
  case (One n)
  from assms One have n: "1 \<le> n" "n \<le> 30" by simp_all
  have e: "at_end r" using r by (auto simp: at_end_def)
  have "r = [] \<or> \<not> isdigit (hd r)" using r comma by auto
  with n have ri: "read_int (dec n @ r) = Some (int n, r)" by (simp add: read_int_dec)
  from or_bits_range [of n n m] n obtain m' where m': "or_bits (int n) (int n) m = Some m'"
    "\<forall>k. bit m' k \<longleftrightarrow> bit m k \<or> k = n" by auto
  have "parse_channels m (dec n @ r) = parse_channels m' (tl r)"
    using n dec_hd [of n] e m'(1) by (subst parse_channels.simps) (simp add: ri)
  with m' One show ?thesis by auto
next
  case (Range a b)
  from assms Range have n: "1 \<le> a" "a \<le> 30" "1 \<le> b" "b \<le> 30" by simp_all
  have e: "at_end r" using r by (auto simp: at_end_def)
  have "r = [] \<or> \<not> isdigit (hd r)" using r comma by auto
  with n have r2: "read_int (dec b @ r) = Some (int b, r)" by (simp add: read_int_dec)
  from n have r1: "read_int (dec a @ CHR ''-'' # dec b @ r) = Some (int a, CHR ''-'' # dec b @ r)"
    by (simp add: read_int_dec comma)
  have "min a b \<le> max a b" "max a b \<le> 30" using n by simp_all
  from or_bits_range [OF this, of m] obtain m' where m': "or_bits (int (min a b)) (int (max a b)) m = Some m'"
    "\<forall>k. bit m' k \<longleftrightarrow> bit m k \<or> k \<in> {min a b..max a b}" by blast
  then have o: "(if int a > int b then or_bits (int b) (int a) m else or_bits (int a) (int b) m) = Some m'"
    by (simp add: min_def max_def split: if_splits)
  have "parse_channels m (dec a @ CHR ''-'' # dec b @ r) = parse_channels m' (tl r)"
    using n dec_hd [of a] dec_hd [of b] e o
    by (subst parse_channels.simps) (simp add: r1 r2 at_end_def [of "_ # _"] comma)
  with m' Range show ?thesis by auto
qed

lemma parse_line:
  assumes "\<forall>i\<in>set is. fv_ok i"
  shows "\<exists>m'. parse_channels m (fv_line is) = Some (0, m') \<and> (\<forall>k. bit m' k \<longleftrightarrow> bit m k \<or> (\<exists>i\<in>set is. k \<in> fv_channels i))"
  using assms
proof (induction "is" arbitrary: m rule: fv_line.induct)
  case 1
  show ?case by (subst parse_channels.simps) simp
next
  case (2 i)
  from parse_item [of i "[]" m] 2 obtain m' where "parse_channels m (fv_text i) = parse_channels m' []"
    "\<forall>k. bit m' k \<longleftrightarrow> bit m k \<or> k \<in> fv_channels i" by auto
  then show ?case by (auto simp: parse_channels.simps)
next
  case (3 i j js)
  from parse_item [of i "CHR '','' # fv_line (j # js)" m] 3(2) obtain m1 where
    m1: "parse_channels m (fv_text i @ CHR '','' # fv_line (j # js)) = parse_channels m1 (fv_line (j # js))"
    "\<forall>k. bit m1 k \<longleftrightarrow> bit m k \<or> k \<in> fv_channels i" by auto
  from 3(1) [of m1] 3(2) obtain m' where "parse_channels m1 (fv_line (j # js)) = Some (0, m')"
    "\<forall>k. bit m' k \<longleftrightarrow> bit m1 k \<or> (\<exists>i\<in>set (j # js). k \<in> fv_channels i)" by auto
  with m1 show ?case by auto
qed

lemma fv_line_hd: "is \<noteq> [] \<Longrightarrow> \<forall>i\<in>set is. fv_ok i \<Longrightarrow> fv_line is \<noteq> [] \<and> isdigit (hd (fv_line is))"
proof (induction "is" rule: fv_line.induct)
  case (2 i)
  then show ?case by (cases i) (use dec_hd in \<open>auto simp: hd_append\<close>)
next
  case (3 i j js)
  then show ?case by (cases i) (use dec_hd in \<open>auto simp: hd_append\<close>)
qed simp

lemma and_bit: "i < 32 \<Longrightarrow> m AND 2 ^ i \<noteq> 0 \<longleftrightarrow> bit (m :: u32) i"
  by (metis and_exp_eq_0_iff_not_bit)

text \<open>C39: A leased line written as \<open>FV:\<close>, optional blanks, \<open>a\<close> or \<open>p\<close> or nothing, and channels and ranges between 1 and 30
  separated by commas is encoded with exactly the given channels in the channel mask and the operation mode
  for active or passive, whichever order the ends of a range are in.\<close>

theorem FVteln_channels:
  assumes "is \<noteq> []" and "\<forall>i\<in>set is. fv_ok i" and "mode \<in> {'''', ''a'', ''A'', ''p'', ''P''}"
  shows "FVteln2capi20 (''FV:'' @ replicate n CHR '' '' @ mode @ fv_line is) =
    Some (0, Some ([35, 3, 0] @ (if mode \<in> {''p'', ''P''} then [1, 0] else [0, 0]) @ [0] @
      map (\<lambda>k. if \<exists>i\<in>set is. k \<in> fv_channels i then 0xff else 0) [1..<31]))"
proof -
  from fv_line_hd [OF assms(1,2)] obtain c s where s: "fv_line is = c # s" "isdigit c" by (cases "fv_line is") auto
  from s(2) have c: "c \<noteq> CHR '' ''" "c \<noteq> CHR ''p''" "c \<noteq> CHR ''P''" "c \<noteq> CHR ''a''" "c \<noteq> CHR ''A''"
    by (auto simp: isdigit_def)
  have drop: "dropWhile (\<lambda>c. c = CHR '' '') (replicate n CHR '' '' @ r) = dropWhile (\<lambda>c. c = CHR '' '') r" for r
    by (induction n) simp_all
  from parse_line [OF assms(2), of 0] obtain m where m: "parse_channels 0 (c # s) = Some (0, m)"
    "\<And>k. bit m k \<longleftrightarrow> (\<exists>i\<in>set is. k \<in> fv_channels i)" by (auto simp: s)
  have dec: "decodeFVteln (''FV:'' @ replicate n CHR '' '' @ mode @ fv_line is) = Some (0, m, mode \<notin> {''p'', ''P''})"
    using assms(3) c m(1) by (auto simp: decodeFVteln_def drop s)
  have "map (\<lambda>i. if m AND push_bit i 1 \<noteq> 0 then 0xff else 0) [1..<31] =
      map (\<lambda>k. if \<exists>i\<in>set is. k \<in> fv_channels i then 0xff else (0 :: u8)) [1..<31]"
    by (rule map_cong) (simp_all add: and_bit m(2))
  with dec show ?thesis by (simp add: FVteln2capi20_def del: upt.simps upt_rec_numeral)
qed

theorem FVteln_channels_witness:
  "FVteln2capi20 ''FV: p7,4-2'' =
    Some (0, Some ([35, 3, 0, 1, 0, 0] @ map (\<lambda>k. if k \<in> {2, 3, 4, 7} then 0xff else 0) [1..<31]))"
proof -
  have e: "''FV: p7,4-2'' = ''FV:'' @ replicate 1 CHR '' '' @ ''p'' @ fv_line [One 7, Range 4 2]"
    by (simp add: dec_def digit_def)
  have "(\<exists>i\<in>set [One 7, Range 4 2]. k \<in> fv_channels i) \<longleftrightarrow> k \<in> {2, 3, 4, 7}" for k by auto
  then show ?thesis unfolding e by (subst FVteln_channels) simp_all
qed

text \<open>The range check of the channel numbers is never true: 0 is accepted, and 31 is shifted into the sign bit.\<close>

lemma FVteln_unchecked:
  "FVteln2capi20 ''FV:0'' = Some (0, Some ([35, 3, 0, 0, 0, 0] @ replicate 30 0))" "FVteln2capi20 ''FV:31'' = None"
proof -
  have r0: "read_int ''0'' = Some (0, [])" and r31: "read_int ''31'' = Some (31, [])"
    by (simp_all add: read_int_def isdigit_def INT_LIMIT_def)
  have e: "parse_channels m [] = Some (0, m)" for m by (subst parse_channels.simps) simp
  have p0: "parse_channels 0 ''0'' = Some (0, 1)"
    by (subst parse_channels.simps) (simp add: r0 isdigit_def at_end_def or_bits_def e)
  have p31: "parse_channels 0 ''31'' = None"
    by (subst parse_channels.simps) (simp add: r31 isdigit_def at_end_def or_bits_def)
  have d0: "decodeFVteln ''FV:0'' = Some (0, 1, True)" using p0 by (simp add: decodeFVteln_def)
  have "(1 :: u32) AND push_bit i 1 = 0" if "i \<in> set [1..<31]" for i
    using that and_bit [of i 1] by (simp add: bit_1_iff)
  then have "map (\<lambda>i. if (1 :: u32) AND push_bit i 1 \<noteq> 0 then 0xff else (0 :: u8)) [1..<31] = map (\<lambda>_. 0) [1..<31]"
    by (intro map_cong refl) presburger
  also have "\<dots> = replicate 30 0" by (subst map_replicate_const) simp
  finally show "FVteln2capi20 ''FV:0'' = Some (0, Some ([35, 3, 0, 0, 0, 0] @ replicate 30 0))"
    by (simp only: FVteln2capi20_def d0) simp
  show "FVteln2capi20 ''FV:31'' = None" using p31 by (simp add: FVteln2capi20_def decodeFVteln_def)
qed

section \<open>The trace ring\<close>

definition ring_ok :: "q931_ring \<Rightarrow> bool" where
  "ring_ok r \<longleftrightarrow> length (q931_buf r) = 4096 \<and> q931_end r = 4095 \<and> q931_read r < 4096 \<and> q931_write r < 4096"

text \<open>The \<open>n\<close> bytes from a position on, and the unread bytes when \<open>n\<close> of them are expected.\<close>

definition ring_at :: "q931_ring \<Rightarrow> nat \<Rightarrow> nat \<Rightarrow> bytes" where
  "ring_at r p n = map (\<lambda>i. q931_buf r ! ((p + i) mod 4096)) [0..<n]"

definition ring_off :: "nat \<Rightarrow> nat \<Rightarrow> nat" where
  "ring_off w j = (if w \<le> j then j - w else j + 4096 - w)"

lemma ring_pos: "(w :: nat) < 4096 \<Longrightarrow> k < 4096 \<Longrightarrow> (w + k) mod 4096 = (if w + k < 4096 then w + k else w + k - 4096)"
  by (simp add: mod_if)

lemma ring_off_iff: "w < 4096 \<Longrightarrow> j < 4096 \<Longrightarrow> k < 4096 \<Longrightarrow> ring_off w j = k \<longleftrightarrow> j = (w + k) mod 4096"
  by (auto simp: ring_off_def ring_pos)

lemma ring_step: "p < 4096 \<Longrightarrow> (if p + 1 > 4095 then 0 else p + 1) = (p + 1) mod (4096 :: nat)"
  by (simp add: mod_if)

lemma put_bytes_append: "put_bytes (xs @ ys) r = Option.bind (put_bytes xs r) (put_bytes ys)"
  by (induction xs arbitrary: r) (auto simp: put_bytes_def split: option.splits bind_splits)

lemma put_bytes_ring:
  assumes "ring_ok r" and "length bs \<le> 4096"
  shows "\<exists>r'. put_bytes bs r = Some r' \<and> ring_ok r' \<and> q931_read r' = q931_read r \<and>
    q931_write r' = (q931_write r + length bs) mod 4096 \<and>
    (\<forall>j<4096. q931_buf r' ! j = (if ring_off (q931_write r) j < length bs then bs ! ring_off (q931_write r) j else q931_buf r ! j))"
  using assms(2)
proof (induction bs rule: rev_induct)
  case Nil
  with assms(1) show ?case by (auto simp: put_bytes_def ring_ok_def)
next
  case (snoc b bs)
  let ?w = "q931_write r" and ?n = "length bs"
  from snoc have n: "?n < 4096" by simp
  from assms(1) have w: "?w < 4096" by (simp add: ring_ok_def)
  from snoc n obtain r1 where r1: "put_bytes bs r = Some r1" "ring_ok r1" "q931_read r1 = q931_read r"
    "q931_write r1 = (?w + ?n) mod 4096"
    "\<And>j. j < 4096 \<Longrightarrow> q931_buf r1 ! j = (if ring_off ?w j < ?n then bs ! ring_off ?w j else q931_buf r ! j)" by auto
  let ?w1 = "q931_write r1"
  let ?r2 = "r1\<lparr>q931_buf := (q931_buf r1)[?w1 := b], q931_write := (?w1 + 1) mod 4096\<rparr>"
  from r1(2) have w1: "?w1 < 4096" and b1: "length (q931_buf r1) = 4096" "q931_end r1 = 4095" by (simp_all add: ring_ok_def)
  have "PUTBYTE_TO_STATUS r1 b = Some ?r2"
    unfolding PUTBYTE_TO_STATUS_def Let_def b1(2) ring_step [OF w1] using w1 b1(1) by (simp add: st_def)
  then have p2: "put_bytes (bs @ [b]) r = Some ?r2" by (simp add: put_bytes_append r1(1)) (simp add: put_bytes_def)
  have "(?w1 + 1) mod 4096 = (?w + length (bs @ [b])) mod 4096" unfolding r1(4) by (simp add: mod_simps)
  moreover have "(q931_buf r1)[?w1 := b] ! j =
      (if ring_off ?w j < length (bs @ [b]) then (bs @ [b]) ! ring_off ?w j else q931_buf r ! j)" if j: "j < 4096" for j
  proof (cases "j = ?w1")
    case True
    then have "ring_off ?w j = ?n" using ring_off_iff [OF w j n] r1(4) by simp
    with True b1 w1 show ?thesis by (simp add: nth_append)
  next
    case False
    then have "ring_off ?w j \<noteq> ?n" using ring_off_iff [OF w j n] r1(4) by simp
    with False r1(5) [OF j] show ?thesis by (auto simp: nth_append)
  qed
  ultimately show ?case
    using p2 r1(2,3) by (intro exI [of _ ?r2]) (simp add: ring_ok_def)
qed

lemma read_bytes_ring:
  assumes "ring_ok r"
  shows "\<exists>r'. read_bytes n r = Some (ring_at r (q931_read r) n, r') \<and> ring_ok r' \<and>
    q931_buf r' = q931_buf r \<and> q931_write r' = q931_write r \<and> q931_read r' = (q931_read r + n) mod 4096"
  using assms
proof (induction n arbitrary: r)
  case 0
  then show ?case by (simp add: ring_at_def ring_ok_def)
next
  case (Suc n)
  let ?p = "q931_read r" and ?r1 = "r\<lparr>q931_read := (q931_read r + 1) mod 4096\<rparr>"
  from Suc.prems have p: "?p < 4096" and b: "length (q931_buf r) = 4096" "q931_end r = 4095" by (simp_all add: ring_ok_def)
  from Suc.prems have "ring_ok ?r1" by (simp add: ring_ok_def)
  from Suc.IH [OF this] obtain r' where r': "read_bytes n ?r1 = Some (ring_at ?r1 ((?p + 1) mod 4096) n, r')" "ring_ok r'"
    "q931_buf r' = q931_buf r" "q931_write r' = q931_write r" "q931_read r' = ((?p + 1) mod 4096 + n) mod 4096" by auto
  have "map (\<lambda>i. q931_buf r ! ((?p + i) mod 4096)) (map Suc [0..<n]) = ring_at ?r1 ((?p + 1) mod 4096) n"
    by (simp add: ring_at_def mod_simps)
  then have "ring_at r ?p (Suc n) = q931_buf r ! ?p # ring_at ?r1 ((?p + 1) mod 4096) n"
    using p unfolding ring_at_def [of r] upt_conv_Cons [OF zero_less_Suc] map_Suc_upt by simp
  moreover have "read_bytes (Suc n) r = Some (q931_buf r ! ?p # ring_at ?r1 ((?p + 1) mod 4096) n, r')"
    unfolding read_bytes.simps Let_def b(2) ring_step [OF p] using p b(1) r'(1) by (simp add: ld_def)
  ultimately show ?case using r' by (simp add: mod_simps)
qed

text \<open>The trace ring is first in, first out as long as it does not overflow: when \<open>u\<close> bytes are unread and a trace line of
  \<open>n\<close> bytes fits beside them, \<open>n\<close> is the number that is reported as available, and reading \<open>u + n\<close> bytes gives the unread bytes
  followed by the line.\<close>

theorem q931_ring_fifo:
  assumes "ring_ok r" and "q931_write r = (q931_read r + u) mod 4096" and "data \<noteq> []"
    and "u + length (dtrace_text send level2 data) \<le> 4096"
  shows "\<exists>r1 n r2. handle_dtrace_data send level2 data r = Some (r1, Some n) \<and> n = length (dtrace_text send level2 data) \<and>
    read_bytes (u + n) r1 = Some (ring_at r (q931_read r) u @ dtrace_text send level2 data, r2) \<and>
    q931_read r2 = q931_write r1"
proof -
  let ?t = "dtrace_text send level2 data" and ?p = "q931_read r" and ?w = "q931_write r"
  have "length (concat (map (\<lambda>b. [32, hexdigit (drop_bit 4 b AND 0xf), hexdigit (b AND 0xf)]) data)) = length data * 3"
    by (induction data) simp_all
  then have n: "length ?t = length data * 3 + 5" by (simp add: dtrace_text_def)
  from assms(1) have p: "?p < 4096" and w: "?w < 4096" by (simp_all add: ring_ok_def)
  from put_bytes_ring [OF assms(1), of ?t] assms(4) obtain r1 where r1: "put_bytes ?t r = Some r1" "ring_ok r1" "q931_read r1 = ?p"
    "q931_write r1 = (?w + length ?t) mod 4096"
    "\<And>j. j < 4096 \<Longrightarrow> q931_buf r1 ! j = (if ring_off ?w j < length ?t then ?t ! ring_off ?w j else q931_buf r ! j)" by auto
  have h: "handle_dtrace_data send level2 data r = Some (r1, Some (length ?t))"
    using assms(3) r1(1) n by (simp add: handle_dtrace_data_def)
  have at: "ring_at r1 ?p (u + length ?t) = ring_at r ?p u @ ?t"
  proof (rule nth_equalityI)
    fix i assume "i < length (ring_at r1 ?p (u + length ?t))"
    then have i: "i < u + length ?t" by (simp add: ring_at_def)
    let ?j = "(?p + i) mod 4096"
    have o: "ring_off ?w ?j = (if i < u then 4096 + i - u else i - u)"
    proof (cases "i < u")
      case True
      have "(?w + (4096 + i - u)) mod 4096 = (?p + u + (4096 + i - u)) mod 4096" unfolding assms(2) by (simp add: mod_simps)
      also have "?p + u + (4096 + i - u) = ?p + i + 4096" using assms(4) by linarith
      finally have "?j = (?w + (4096 + i - u)) mod 4096" by simp
      with ring_off_iff [OF w, of ?j "4096 + i - u"] True assms(4) show ?thesis by simp
    next
      case False
      have "(?w + (i - u)) mod 4096 = (?p + u + (i - u)) mod 4096" unfolding assms(2) by (simp add: mod_simps)
      with False have "?j = (?w + (i - u)) mod 4096" by simp
      with ring_off_iff [OF w, of ?j "i - u"] False i assms(4) show ?thesis by simp
    qed
    have "ring_at r1 ?p (u + length ?t) ! i = q931_buf r1 ! ?j" using i by (simp add: ring_at_def)
    also have "\<dots> = (if i < u then q931_buf r ! ?j else ?t ! (i - u))"
      using r1(5) [of ?j] o i assms(4) by auto
    also have "\<dots> = (ring_at r ?p u @ ?t) ! i" using i by (simp add: ring_at_def nth_append)
    finally show "ring_at r1 ?p (u + length ?t) ! i = (ring_at r ?p u @ ?t) ! i" .
  qed (simp add: ring_at_def)
  from read_bytes_ring [OF r1(2), of "u + length ?t"] obtain r2 where "read_bytes (u + length ?t) r1 = Some (ring_at r ?p u @ ?t, r2)"
    "q931_read r2 = (?p + (u + length ?t)) mod 4096" unfolding r1(3) at by blast
  moreover have "(?p + (u + length ?t)) mod 4096 = q931_write r1" unfolding r1(4) assms(2) by (simp add: mod_simps add.assoc)
  ultimately show ?thesis using h by auto
qed

theorem q931_ring_fifo_witness:
  "\<exists>r1 r2. handle_dtrace_data True False [0x1f] q931_init = Some (r1, Some 8) \<and>
    read_bytes 8 r1 = Some ([68, 51, 62, 58, 32, 49, 70, 10], r2)"
proof -
  have ok: "ring_ok q931_init" "q931_write q931_init = (q931_read q931_init + 0) mod 4096"
    by (simp_all add: ring_ok_def q931_init_def)
  have l: "dtrace_text True False [0x1f] = [68, 51, 62, 58, 32, 49, 70, 10]" by (simp add: dtrace_text_def hexdigit_def)
  have fits: "[0x1f] \<noteq> ([] :: bytes)" "0 + length (dtrace_text True False [0x1f]) \<le> 4096" unfolding l by simp_all
  have none: "ring_at q931_init (q931_read q931_init) 0 = []" by (simp add: ring_at_def)
  have n: "length (dtrace_text True False [0x1f]) = 8" unfolding l by simp
  from q931_ring_fifo [OF ok fits] show ?thesis unfolding none n unfolding l by (elim exE conjE) (hypsubst, unfold add_0 append_Nil, blast)
qed

end
