(* ===== verification/DrvTables.thy ===== *)
theory DrvTables
  imports DrvUtil CapiClients
begin

text \<open>
  The isdn4linux driver \<^verbatim>\<open>drivers/isdn/capi/capidrv.c\<close>, part 2: the three state machines of a controller (listen), of a
  connection (PLCI) and of a logical connection (NCCI).  The states and events are the constants of
  \<^verbatim>\<open>capidrv.h\<close>; the tables have the rows of the code in its order: actual state, next state and event.  A row of the tables for
  connections has a function that runs after the change of state, \<open>p0\<close> or \<open>n0\<close>, or none.  The empty row at the end of
  the C tables is the end of the list.
\<close>

section \<open>Tables\<close>

text \<open>The search of a table: the first row whose state and event fit.\<close>

fun row_for :: "('r \<Rightarrow> 'k) \<Rightarrow> 'r list \<Rightarrow> 'k \<Rightarrow> 'r option" where
  "row_for key [] k = None"
| "row_for key (r # rs) k = (if key r = k then Some r else row_for key rs k)"

lemma row_for_SomeD: "row_for key rs k = Some r \<Longrightarrow> r \<in> set rs \<and> key r = k"
  by (induction rs) (auto split: if_splits)

text \<open>What makes a table a state machine: no state has two rows for one event.  Then the order of the rows has no meaning.\<close>

locale transition_table =
  fixes key :: "'r \<Rightarrow> 'k"
    and rows :: "'r list"
  assumes deterministic: "distinct (map key rows)"
begin

lemma row_for_iff: "row_for key rows k = Some r \<longleftrightarrow> r \<in> set rows \<and> key r = k"
proof -
  have "distinct (map key rs) \<Longrightarrow> r \<in> set rs \<Longrightarrow> row_for key rs (key r) = Some r" for rs
    by (induction rs) (auto intro: rev_image_eqI)
  with deterministic row_for_SomeD [of key rows k r] show ?thesis by auto
qed

lemma row_for_None: "row_for key rows k = None \<longleftrightarrow> k \<notin> key ` set rows"
proof (cases "row_for key rows k")
  case None
  have "row_for key rs k = None \<Longrightarrow> k \<notin> key ` set rs" for rs by (induction rs) (auto split: if_splits)
  with None show ?thesis by simp
qed (auto dest: row_for_SomeD)

lemma order_free:
  assumes "set rows' = set rows"
  shows "row_for key rows' k = row_for key rows k"
proof (cases "row_for key rows' k")
  case None
  have "k \<notin> key ` set rows'" using None by (induction rows') (auto split: if_splits)
  with assms row_for_None have "row_for key rows k = None" by simp
  with None show ?thesis by simp
next
  case (Some r)
  from row_for_SomeD [OF Some] assms row_for_iff have "row_for key rows k = Some r" by simp
  with Some show ?thesis by simp
qed

end

section \<open>The listen state of a controller\<close>

datatype listen_state =
    ST_LISTEN_NONE
  | ST_LISTEN_WAIT_CONF
  | ST_LISTEN_ACTIVE
  | ST_LISTEN_ACTIVE_WAIT_CONF

datatype listen_event =
    EV_LISTEN_REQ
  | EV_LISTEN_CONF_ERROR
  | EV_LISTEN_CONF_EMPTY
  | EV_LISTEN_CONF_OK

definition listentable :: "(listen_state \<times> listen_state \<times> listen_event) list" where
  "listentable = [
    (ST_LISTEN_NONE, ST_LISTEN_WAIT_CONF, EV_LISTEN_REQ),
    (ST_LISTEN_ACTIVE, ST_LISTEN_ACTIVE_WAIT_CONF, EV_LISTEN_REQ),
    (ST_LISTEN_WAIT_CONF, ST_LISTEN_NONE, EV_LISTEN_CONF_ERROR),
    (ST_LISTEN_ACTIVE_WAIT_CONF, ST_LISTEN_ACTIVE, EV_LISTEN_CONF_ERROR),
    (ST_LISTEN_WAIT_CONF, ST_LISTEN_NONE, EV_LISTEN_CONF_EMPTY),
    (ST_LISTEN_ACTIVE_WAIT_CONF, ST_LISTEN_NONE, EV_LISTEN_CONF_EMPTY),
    (ST_LISTEN_WAIT_CONF, ST_LISTEN_ACTIVE, EV_LISTEN_CONF_OK),
    (ST_LISTEN_ACTIVE_WAIT_CONF, ST_LISTEN_ACTIVE, EV_LISTEN_CONF_OK)]"

section \<open>The state of a PLCI\<close>

datatype plci_state =
    ST_PLCI_NONE
  | ST_PLCI_OUTGOING
  | ST_PLCI_ALLOCATED
  | ST_PLCI_ACTIVE
  | ST_PLCI_INCOMING
  | ST_PLCI_FACILITY_IND
  | ST_PLCI_ACCEPTING
  | ST_PLCI_DISCONNECTING
  | ST_PLCI_DISCONNECTED
  | ST_PLCI_RESUMEING
  | ST_PLCI_RESUME
  | ST_PLCI_HELD

datatype plci_event =
    EV_PLCI_CONNECT_REQ
  | EV_PLCI_CONNECT_CONF_ERROR
  | EV_PLCI_CONNECT_CONF_OK
  | EV_PLCI_FACILITY_IND_UP
  | EV_PLCI_CONNECT_IND
  | EV_PLCI_CONNECT_ACTIVE_IND
  | EV_PLCI_CONNECT_REJECT
  | EV_PLCI_DISCONNECT_REQ
  | EV_PLCI_DISCONNECT_IND
  | EV_PLCI_FACILITY_IND_DOWN
  | EV_PLCI_DISCONNECT_RESP
  | EV_PLCI_CONNECT_RESP
  | EV_PLCI_RESUME_REQ
  | EV_PLCI_RESUME_CONF_OK
  | EV_PLCI_RESUME_CONF_ERROR
  | EV_PLCI_RESUME_IND
  | EV_PLCI_HOLD_IND
  | EV_PLCI_RETRIEVE_IND
  | EV_PLCI_SUSPEND_IND
  | EV_PLCI_CD_IND

datatype plci_func = P0

definition plcitable :: "(plci_state \<times> plci_state \<times> plci_event \<times> plci_func option) list" where
  "plcitable = [
    (ST_PLCI_NONE, ST_PLCI_OUTGOING, EV_PLCI_CONNECT_REQ, None),
    (ST_PLCI_NONE, ST_PLCI_ALLOCATED, EV_PLCI_FACILITY_IND_UP, None),
    (ST_PLCI_NONE, ST_PLCI_INCOMING, EV_PLCI_CONNECT_IND, None),
    (ST_PLCI_NONE, ST_PLCI_RESUMEING, EV_PLCI_RESUME_REQ, None),
    (ST_PLCI_OUTGOING, ST_PLCI_NONE, EV_PLCI_CONNECT_CONF_ERROR, Some P0),
    (ST_PLCI_OUTGOING, ST_PLCI_ALLOCATED, EV_PLCI_CONNECT_CONF_OK, None),
    (ST_PLCI_ALLOCATED, ST_PLCI_ACTIVE, EV_PLCI_CONNECT_ACTIVE_IND, None),
    (ST_PLCI_ALLOCATED, ST_PLCI_DISCONNECTING, EV_PLCI_DISCONNECT_REQ, None),
    (ST_PLCI_ALLOCATED, ST_PLCI_DISCONNECTING, EV_PLCI_FACILITY_IND_DOWN, None),
    (ST_PLCI_ALLOCATED, ST_PLCI_DISCONNECTED, EV_PLCI_DISCONNECT_IND, None),
    (ST_PLCI_ACTIVE, ST_PLCI_DISCONNECTING, EV_PLCI_DISCONNECT_REQ, None),
    (ST_PLCI_ACTIVE, ST_PLCI_DISCONNECTING, EV_PLCI_FACILITY_IND_DOWN, None),
    (ST_PLCI_ACTIVE, ST_PLCI_DISCONNECTED, EV_PLCI_DISCONNECT_IND, None),
    (ST_PLCI_ACTIVE, ST_PLCI_HELD, EV_PLCI_HOLD_IND, None),
    (ST_PLCI_ACTIVE, ST_PLCI_DISCONNECTING, EV_PLCI_SUSPEND_IND, None),
    (ST_PLCI_INCOMING, ST_PLCI_DISCONNECTING, EV_PLCI_CONNECT_REJECT, None),
    (ST_PLCI_INCOMING, ST_PLCI_FACILITY_IND, EV_PLCI_FACILITY_IND_UP, None),
    (ST_PLCI_INCOMING, ST_PLCI_ACCEPTING, EV_PLCI_CONNECT_RESP, None),
    (ST_PLCI_INCOMING, ST_PLCI_DISCONNECTING, EV_PLCI_DISCONNECT_REQ, None),
    (ST_PLCI_INCOMING, ST_PLCI_DISCONNECTING, EV_PLCI_FACILITY_IND_DOWN, None),
    (ST_PLCI_INCOMING, ST_PLCI_DISCONNECTED, EV_PLCI_DISCONNECT_IND, None),
    (ST_PLCI_INCOMING, ST_PLCI_DISCONNECTING, EV_PLCI_CD_IND, None),
    (ST_PLCI_FACILITY_IND, ST_PLCI_DISCONNECTING, EV_PLCI_CONNECT_REJECT, None),
    (ST_PLCI_FACILITY_IND, ST_PLCI_ACCEPTING, EV_PLCI_CONNECT_ACTIVE_IND, None),
    (ST_PLCI_FACILITY_IND, ST_PLCI_DISCONNECTING, EV_PLCI_DISCONNECT_REQ, None),
    (ST_PLCI_FACILITY_IND, ST_PLCI_DISCONNECTING, EV_PLCI_FACILITY_IND_DOWN, None),
    (ST_PLCI_FACILITY_IND, ST_PLCI_DISCONNECTED, EV_PLCI_DISCONNECT_IND, None),
    (ST_PLCI_ACCEPTING, ST_PLCI_ACTIVE, EV_PLCI_CONNECT_ACTIVE_IND, None),
    (ST_PLCI_ACCEPTING, ST_PLCI_DISCONNECTING, EV_PLCI_DISCONNECT_REQ, None),
    (ST_PLCI_ACCEPTING, ST_PLCI_DISCONNECTING, EV_PLCI_FACILITY_IND_DOWN, None),
    (ST_PLCI_ACCEPTING, ST_PLCI_DISCONNECTED, EV_PLCI_DISCONNECT_IND, None),
    (ST_PLCI_DISCONNECTING, ST_PLCI_DISCONNECTED, EV_PLCI_DISCONNECT_IND, None),
    (ST_PLCI_DISCONNECTED, ST_PLCI_NONE, EV_PLCI_DISCONNECT_RESP, Some P0),
    (ST_PLCI_RESUMEING, ST_PLCI_NONE, EV_PLCI_RESUME_CONF_ERROR, Some P0),
    (ST_PLCI_RESUMEING, ST_PLCI_RESUME, EV_PLCI_RESUME_CONF_OK, None),
    (ST_PLCI_RESUME, ST_PLCI_ACTIVE, EV_PLCI_RESUME_IND, None),
    (ST_PLCI_HELD, ST_PLCI_ACTIVE, EV_PLCI_RETRIEVE_IND, None)]"

section \<open>The state of an NCCI\<close>

text \<open>\<open>ST_NCCI_PREVIOUS\<close> is no state; as the next state it means the state before.\<close>

datatype ncci_state =
    ST_NCCI_PREVIOUS
  | ST_NCCI_NONE
  | ST_NCCI_OUTGOING
  | ST_NCCI_INCOMING
  | ST_NCCI_ALLOCATED
  | ST_NCCI_ACTIVE
  | ST_NCCI_RESETING
  | ST_NCCI_DISCONNECTING
  | ST_NCCI_DISCONNECTED

datatype ncci_event =
    EV_NCCI_CONNECT_B3_REQ
  | EV_NCCI_CONNECT_B3_IND
  | EV_NCCI_CONNECT_B3_CONF_OK
  | EV_NCCI_CONNECT_B3_CONF_ERROR
  | EV_NCCI_CONNECT_B3_REJECT
  | EV_NCCI_CONNECT_B3_RESP
  | EV_NCCI_CONNECT_B3_ACTIVE_IND
  | EV_NCCI_RESET_B3_REQ
  | EV_NCCI_RESET_B3_IND
  | EV_NCCI_DISCONNECT_B3_IND
  | EV_NCCI_DISCONNECT_B3_CONF_ERROR
  | EV_NCCI_DISCONNECT_B3_REQ
  | EV_NCCI_DISCONNECT_B3_RESP

datatype ncci_func = N0

definition nccitable :: "(ncci_state \<times> ncci_state \<times> ncci_event \<times> ncci_func option) list" where
  "nccitable = [
    (ST_NCCI_NONE, ST_NCCI_OUTGOING, EV_NCCI_CONNECT_B3_REQ, None),
    (ST_NCCI_NONE, ST_NCCI_INCOMING, EV_NCCI_CONNECT_B3_IND, None),
    (ST_NCCI_OUTGOING, ST_NCCI_ALLOCATED, EV_NCCI_CONNECT_B3_CONF_OK, None),
    (ST_NCCI_OUTGOING, ST_NCCI_NONE, EV_NCCI_CONNECT_B3_CONF_ERROR, Some N0),
    (ST_NCCI_INCOMING, ST_NCCI_DISCONNECTING, EV_NCCI_CONNECT_B3_REJECT, None),
    (ST_NCCI_INCOMING, ST_NCCI_ALLOCATED, EV_NCCI_CONNECT_B3_RESP, None),
    (ST_NCCI_INCOMING, ST_NCCI_DISCONNECTED, EV_NCCI_DISCONNECT_B3_IND, None),
    (ST_NCCI_INCOMING, ST_NCCI_DISCONNECTING, EV_NCCI_DISCONNECT_B3_REQ, None),
    (ST_NCCI_ALLOCATED, ST_NCCI_ACTIVE, EV_NCCI_CONNECT_B3_ACTIVE_IND, None),
    (ST_NCCI_ALLOCATED, ST_NCCI_DISCONNECTED, EV_NCCI_DISCONNECT_B3_IND, None),
    (ST_NCCI_ALLOCATED, ST_NCCI_DISCONNECTING, EV_NCCI_DISCONNECT_B3_REQ, None),
    (ST_NCCI_ACTIVE, ST_NCCI_ACTIVE, EV_NCCI_RESET_B3_IND, None),
    (ST_NCCI_ACTIVE, ST_NCCI_RESETING, EV_NCCI_RESET_B3_REQ, None),
    (ST_NCCI_ACTIVE, ST_NCCI_DISCONNECTED, EV_NCCI_DISCONNECT_B3_IND, None),
    (ST_NCCI_ACTIVE, ST_NCCI_DISCONNECTING, EV_NCCI_DISCONNECT_B3_REQ, None),
    (ST_NCCI_RESETING, ST_NCCI_ACTIVE, EV_NCCI_RESET_B3_IND, None),
    (ST_NCCI_RESETING, ST_NCCI_DISCONNECTED, EV_NCCI_DISCONNECT_B3_IND, None),
    (ST_NCCI_RESETING, ST_NCCI_DISCONNECTING, EV_NCCI_DISCONNECT_B3_REQ, None),
    (ST_NCCI_DISCONNECTING, ST_NCCI_DISCONNECTED, EV_NCCI_DISCONNECT_B3_IND, None),
    (ST_NCCI_DISCONNECTING, ST_NCCI_PREVIOUS, EV_NCCI_DISCONNECT_B3_CONF_ERROR, None),
    (ST_NCCI_DISCONNECTED, ST_NCCI_NONE, EV_NCCI_DISCONNECT_B3_RESP, Some N0)]"

section \<open>The transitions that the comments name\<close>

definition listen_doc :: "(listen_state \<times> listen_state \<times> listen_event) list" where
  "listen_doc = [
    (ST_LISTEN_NONE, ST_LISTEN_WAIT_CONF, EV_LISTEN_REQ),
    (ST_LISTEN_ACTIVE, ST_LISTEN_ACTIVE_WAIT_CONF, EV_LISTEN_REQ),
    (ST_LISTEN_WAIT_CONF, ST_LISTEN_NONE, EV_LISTEN_CONF_ERROR),
    (ST_LISTEN_ACTIVE_WAIT_CONF, ST_LISTEN_ACTIVE, EV_LISTEN_CONF_ERROR),
    (ST_LISTEN_WAIT_CONF, ST_LISTEN_NONE, EV_LISTEN_CONF_EMPTY),
    (ST_LISTEN_ACTIVE_WAIT_CONF, ST_LISTEN_NONE, EV_LISTEN_CONF_EMPTY),
    (ST_LISTEN_WAIT_CONF, ST_LISTEN_ACTIVE, EV_LISTEN_CONF_OK),
    (ST_LISTEN_ACTIVE_WAIT_CONF, ST_LISTEN_ACTIVE, EV_LISTEN_CONF_OK)]"

definition plci_doc :: "(plci_state \<times> plci_state \<times> plci_event) list" where
  "plci_doc = [
    (ST_PLCI_NONE, ST_PLCI_OUTGOING, EV_PLCI_CONNECT_REQ),
    (ST_PLCI_OUTGOING, ST_PLCI_NONE, EV_PLCI_CONNECT_CONF_ERROR),
    (ST_PLCI_OUTGOING, ST_PLCI_ALLOCATED, EV_PLCI_CONNECT_CONF_OK),
    (ST_PLCI_NONE, ST_PLCI_ALLOCATED, EV_PLCI_FACILITY_IND_UP),
    (ST_PLCI_NONE, ST_PLCI_INCOMING, EV_PLCI_CONNECT_IND),
    (ST_PLCI_ALLOCATED, ST_PLCI_ACTIVE, EV_PLCI_CONNECT_ACTIVE_IND),
    (ST_PLCI_INCOMING, ST_PLCI_DISCONNECTING, EV_PLCI_CONNECT_REJECT),
    (ST_PLCI_FACILITY_IND, ST_PLCI_DISCONNECTING, EV_PLCI_CONNECT_REJECT),
    (ST_PLCI_ALLOCATED, ST_PLCI_DISCONNECTING, EV_PLCI_DISCONNECT_REQ),
    (ST_PLCI_INCOMING, ST_PLCI_DISCONNECTING, EV_PLCI_DISCONNECT_REQ),
    (ST_PLCI_FACILITY_IND, ST_PLCI_DISCONNECTING, EV_PLCI_DISCONNECT_REQ),
    (ST_PLCI_ACCEPTING, ST_PLCI_DISCONNECTING, EV_PLCI_DISCONNECT_REQ),
    (ST_PLCI_ACTIVE, ST_PLCI_DISCONNECTING, EV_PLCI_DISCONNECT_REQ),
    (ST_PLCI_RESUME, ST_PLCI_DISCONNECTING, EV_PLCI_DISCONNECT_REQ),
    (ST_PLCI_HELD, ST_PLCI_DISCONNECTING, EV_PLCI_DISCONNECT_REQ),
    (ST_PLCI_ALLOCATED, ST_PLCI_DISCONNECTED, EV_PLCI_DISCONNECT_IND),
    (ST_PLCI_INCOMING, ST_PLCI_DISCONNECTED, EV_PLCI_DISCONNECT_IND),
    (ST_PLCI_FACILITY_IND, ST_PLCI_DISCONNECTED, EV_PLCI_DISCONNECT_IND),
    (ST_PLCI_ACCEPTING, ST_PLCI_DISCONNECTED, EV_PLCI_DISCONNECT_IND),
    (ST_PLCI_DISCONNECTING, ST_PLCI_DISCONNECTED, EV_PLCI_DISCONNECT_IND),
    (ST_PLCI_ACTIVE, ST_PLCI_DISCONNECTED, EV_PLCI_DISCONNECT_IND),
    (ST_PLCI_RESUME, ST_PLCI_DISCONNECTED, EV_PLCI_DISCONNECT_IND),
    (ST_PLCI_HELD, ST_PLCI_DISCONNECTED, EV_PLCI_DISCONNECT_IND),
    (ST_PLCI_OUTGOING, ST_PLCI_DISCONNECTING, EV_PLCI_FACILITY_IND_DOWN),
    (ST_PLCI_ALLOCATED, ST_PLCI_DISCONNECTING, EV_PLCI_FACILITY_IND_DOWN),
    (ST_PLCI_ACTIVE, ST_PLCI_DISCONNECTING, EV_PLCI_FACILITY_IND_DOWN),
    (ST_PLCI_INCOMING, ST_PLCI_DISCONNECTING, EV_PLCI_FACILITY_IND_DOWN),
    (ST_PLCI_FACILITY_IND, ST_PLCI_DISCONNECTING, EV_PLCI_FACILITY_IND_DOWN),
    (ST_PLCI_ACCEPTING, ST_PLCI_DISCONNECTING, EV_PLCI_FACILITY_IND_DOWN),
    (ST_PLCI_DISCONNECTED, ST_PLCI_NONE, EV_PLCI_DISCONNECT_RESP),
    (ST_PLCI_DISCONNECTED, ST_PLCI_NONE, EV_PLCI_CONNECT_RESP),
    (ST_PLCI_NONE, ST_PLCI_RESUMEING, EV_PLCI_RESUME_REQ),
    (ST_PLCI_RESUMEING, ST_PLCI_RESUME, EV_PLCI_RESUME_CONF_OK),
    (ST_PLCI_RESUMEING, ST_PLCI_NONE, EV_PLCI_RESUME_CONF_ERROR),
    (ST_PLCI_RESUME, ST_PLCI_ACTIVE, EV_PLCI_RESUME_IND),
    (ST_PLCI_ACTIVE, ST_PLCI_HELD, EV_PLCI_HOLD_IND),
    (ST_PLCI_HELD, ST_PLCI_ACTIVE, EV_PLCI_RETRIEVE_IND),
    (ST_PLCI_ACTIVE, ST_PLCI_DISCONNECTING, EV_PLCI_SUSPEND_IND),
    (ST_PLCI_INCOMING, ST_PLCI_DISCONNECTING, EV_PLCI_CD_IND)]"

definition ncci_doc :: "(ncci_state \<times> ncci_state \<times> ncci_event) list" where
  "ncci_doc = [
    (ST_NCCI_NONE, ST_NCCI_OUTGOING, EV_NCCI_CONNECT_B3_REQ),
    (ST_NCCI_NONE, ST_NCCI_INCOMING, EV_NCCI_CONNECT_B3_IND),
    (ST_NCCI_OUTGOING, ST_NCCI_ALLOCATED, EV_NCCI_CONNECT_B3_CONF_OK),
    (ST_NCCI_OUTGOING, ST_NCCI_NONE, EV_NCCI_CONNECT_B3_CONF_ERROR),
    (ST_NCCI_INCOMING, ST_NCCI_DISCONNECTING, EV_NCCI_CONNECT_B3_REJECT),
    (ST_NCCI_INCOMING, ST_NCCI_ALLOCATED, EV_NCCI_CONNECT_B3_RESP),
    (ST_NCCI_ALLOCATED, ST_NCCI_ACTIVE, EV_NCCI_CONNECT_B3_ACTIVE_IND),
    (ST_NCCI_ACTIVE, ST_NCCI_RESETING, EV_NCCI_RESET_B3_REQ),
    (ST_NCCI_RESETING, ST_NCCI_ACTIVE, EV_NCCI_RESET_B3_IND),
    (ST_NCCI_DISCONNECTING, ST_NCCI_DISCONNECTED, EV_NCCI_DISCONNECT_B3_IND),
    (ST_NCCI_DISCONNECTING, ST_NCCI_PREVIOUS, EV_NCCI_DISCONNECT_B3_CONF_ERROR),
    (ST_NCCI_INCOMING, ST_NCCI_DISCONNECTING, EV_NCCI_DISCONNECT_B3_REQ),
    (ST_NCCI_ALLOCATED, ST_NCCI_DISCONNECTING, EV_NCCI_DISCONNECT_B3_REQ),
    (ST_NCCI_RESETING, ST_NCCI_DISCONNECTING, EV_NCCI_DISCONNECT_B3_REQ),
    (ST_NCCI_ACTIVE, ST_NCCI_DISCONNECTING, EV_NCCI_DISCONNECT_B3_REQ),
    (ST_NCCI_DISCONNECTED, ST_NCCI_NONE, EV_NCCI_DISCONNECT_B3_RESP)]"

section \<open>The tables are state machines\<close>

interpretation listen_table: transition_table "\<lambda>(a, _, e). (a, e)" listentable
  by unfold_locales (simp add: listentable_def)

interpretation plci_table: transition_table "\<lambda>(a, _, e, _). (a, e)" plcitable
  by unfold_locales (simp add: plcitable_def)

interpretation ncci_table: transition_table "\<lambda>(a, _, e, _). (a, e)" nccitable
  by unfold_locales (simp add: nccitable_def)

text \<open>The transitions of the code against the transitions that the comments of \<^verbatim>\<open>capidrv.h\<close> give for each event.  The listen
  table is as documented.  The comments leave out four transitions of connections and five of logical connections, and they name six
  transitions of connections that the code does not have, among them that a held connection can be
  disconnected.
\<close>

theorem capidrv_tables_documented:
  "set listentable = set listen_doc \<and>
   (\<lambda>(a, n, e, f). (a, n, e)) ` set plcitable - set plci_doc = {
     (ST_PLCI_INCOMING, ST_PLCI_FACILITY_IND, EV_PLCI_FACILITY_IND_UP),
     (ST_PLCI_INCOMING, ST_PLCI_ACCEPTING, EV_PLCI_CONNECT_RESP),
     (ST_PLCI_FACILITY_IND, ST_PLCI_ACCEPTING, EV_PLCI_CONNECT_ACTIVE_IND),
     (ST_PLCI_ACCEPTING, ST_PLCI_ACTIVE, EV_PLCI_CONNECT_ACTIVE_IND)} \<and>
   set plci_doc - (\<lambda>(a, n, e, f). (a, n, e)) ` set plcitable = {
     (ST_PLCI_RESUME, ST_PLCI_DISCONNECTING, EV_PLCI_DISCONNECT_REQ),
     (ST_PLCI_HELD, ST_PLCI_DISCONNECTING, EV_PLCI_DISCONNECT_REQ),
     (ST_PLCI_RESUME, ST_PLCI_DISCONNECTED, EV_PLCI_DISCONNECT_IND),
     (ST_PLCI_HELD, ST_PLCI_DISCONNECTED, EV_PLCI_DISCONNECT_IND),
     (ST_PLCI_OUTGOING, ST_PLCI_DISCONNECTING, EV_PLCI_FACILITY_IND_DOWN),
     (ST_PLCI_DISCONNECTED, ST_PLCI_NONE, EV_PLCI_CONNECT_RESP)} \<and>
   (\<lambda>(a, n, e, f). (a, n, e)) ` set nccitable - set ncci_doc = {
     (ST_NCCI_INCOMING, ST_NCCI_DISCONNECTED, EV_NCCI_DISCONNECT_B3_IND),
     (ST_NCCI_ALLOCATED, ST_NCCI_DISCONNECTED, EV_NCCI_DISCONNECT_B3_IND),
     (ST_NCCI_ACTIVE, ST_NCCI_ACTIVE, EV_NCCI_RESET_B3_IND),
     (ST_NCCI_ACTIVE, ST_NCCI_DISCONNECTED, EV_NCCI_DISCONNECT_B3_IND),
     (ST_NCCI_RESETING, ST_NCCI_DISCONNECTED, EV_NCCI_DISCONNECT_B3_IND)} \<and>
   set ncci_doc \<subseteq> (\<lambda>(a, n, e, f). (a, n, e)) ` set nccitable"
proof -
  have "set listentable = set listen_doc" by (auto simp: listentable_def listen_doc_def)
  moreover note [simp] = plcitable_def plci_doc_def nccitable_def ncci_doc_def
  ultimately show ?thesis by (intro conjI) auto
qed

end
