(* ===== verification/DrvState.thy ===== *)
theory DrvState
  imports DrvTables CapiFill CapiPrint
begin

text \<open>
  The isdn4linux driver \<^verbatim>\<open>drivers/isdn/capi/capidrv.c\<close>, part 3: the data of controllers, connections (PLCI) and
  logical connections (NCCI), their allocation and release, the state machines with what they do, and sending of messages.

  Structures live at addresses given out by an allocator that never reuses one, so that an access through a
  dangling pointer is undefined (\<open>None\<close>); linked lists are lists of addresses, and a loop over one reads the structures it passes.
  \<open>global.ap\<close> lies at the address \<open>global_ap\<close> in the capicore.

  isdn4linux, the upper layer, is a parameter.  What the driver tells it is recorded in \<open>hl_log\<close>, newest first.  Every function that
  may call it takes the call as its argument \<open>cb\<close>, because isdn4linux may call the driver back from inside the call;
  \<open>DrvCommand\<close> says what \<open>cb\<close> is.
\<close>

section \<open>Data\<close>

record capidrv_ncci =
  nc_plcip :: nat
  nc_ncci :: u32
  nc_msgid :: u16
  nc_chan :: nat
  nc_state :: ncci_state
  nc_oldstate :: ncci_state
  nc_datahandle :: u16
  nc_ackqueue :: "(u16 \<times> int) list"

record capidrv_plci =
  pl_plci :: u32
  pl_msgid :: u16
  pl_chan :: nat
  pl_state :: plci_state
  pl_leasedline :: bool
  ncci_list :: "nat list"

record capidrv_bchan =
  bc_contr :: "nat option"
  bc_msn :: bytes
  bc_l2 :: int
  bc_l3 :: int
  bc_num :: bytes
  bc_mynum :: bytes
  bc_si1 :: int
  bc_si2 :: int
  bc_incoming :: bool
  bc_disconnecting :: bool
  bc_plcip :: "nat option"
  bc_nccip :: "nat option"

text \<open>\<open>listentimer\<close> is whether the timer is pending.  The ring of the trace is \<open>q931\<close>.\<close>

record capidrv_contr =
  contrnr :: u32
  myid :: int
  ct_state :: listen_state
  ct_cipmask :: u32
  ct_cipmask2 :: u32
  listentimer :: bool
  ct_msgid :: u16
  nbchan :: nat
  bchans :: "capidrv_bchan list"
  plci_list :: "nat list"
  q931 :: q931_ring

text \<open>What isdn4linux is told: \<open>isdn_ctrl\<close> with a status, received data, and the registration of a controller.\<close>

record isdn_setup =
  su_phone :: bytes
  su_eazmsn :: bytes
  su_si1 :: u8
  su_si2 :: u8
  su_plan :: u8
  su_screen :: u8

datatype isdn_stat =
    ISDN_STAT_RUN | ISDN_STAT_STOP | ISDN_STAT_UNLOAD
  | ISDN_STAT_ICALL nat isdn_setup
  | ISDN_STAT_DCONN nat | ISDN_STAT_DHUP nat
  | ISDN_STAT_BCONN nat | ISDN_STAT_BHUP nat
  | ISDN_STAT_BSENT nat int
  | ISDN_STAT_CINF nat string
  | ISDN_STAT_STAVAIL nat
  | ISDN_STAT_DISCH nat

datatype isdn_feature =
    ISDN_FEATURE_L2_HDLC | ISDN_FEATURE_L2_TRANS | ISDN_FEATURE_L3_TRANS | ISDN_FEATURE_P_UNKNOWN
  | ISDN_FEATURE_L2_X75I | ISDN_FEATURE_L2_X75UI | ISDN_FEATURE_L2_X75BUI
  | ISDN_FEATURE_L2_V11096 | ISDN_FEATURE_L2_V11019 | ISDN_FEATURE_L2_V11038 | ISDN_FEATURE_L2_MODEM

record isdn_if =
  channels :: nat
  maxbufsize :: nat
  features :: "isdn_feature set"
  hl_hdrlen :: nat
  if_id :: string

datatype hl_event =
    Statcallb int isdn_stat
  | Rcvcallb int nat bytes
  | Register_isdn isdn_if

record capidrv =
  cd_core :: core
  cd_brk :: nat
  contrs :: "nat \<rightharpoonup> capidrv_contr"
  contr_list :: "nat list"
  ncontr :: int
  plcis :: "nat \<rightharpoonup> capidrv_plci"
  nccis :: "nat \<rightharpoonup> capidrv_ncci"
  mod_refs :: int
  debugmode :: int
  hl_log :: "hl_event list"

text \<open>
  The commands of isdn4linux, \<open>isdn_ctrl\<close> with a command; \<open>c->arg\<close> is an \<open>ulong\<close>.  Strings of
  the commands are the bytes up to their NUL.
\<close>

datatype isdn_cmd =
    ISDN_CMD_IOCTL nat u32
  | ISDN_CMD_DIAL nat bytes bytes u8 u8
  | ISDN_CMD_ACCEPTD nat
  | ISDN_CMD_ACCEPTB nat
  | ISDN_CMD_HANGUP nat
  | ISDN_CMD_SETL2 nat
  | ISDN_CMD_SETL3 nat
  | ISDN_CMD_SETEAZ nat bytes
  | ISDN_CMD_CLREAZ nat
  | ISDN_CMD_other int

text \<open>
  What the code depends on: the capicore with the address of \<open>global.ap\<close>, the constants of \<^verbatim>\<open>linux/isdn.h\<close>,
  whether an allocation succeeds, the address of message data, and isdn4linux: what it answers to a status, the
  calls that it makes before it returns, and its answer to a registration.
\<close>

datatype hl_call =
    If_command int isdn_cmd
  | If_sendbuf int int bool bytes nat

record drv_cfg =
  dc_env :: core_env
  global_ap :: nat
  protos :: isdn_protos
  ISDN_MSNLEN :: nat
  kmalloc_ok :: "nat \<Rightarrow> bool"
  alloc_skb_ok :: "nat \<Rightarrow> bool"
  data_addr :: "bytes \<Rightarrow> u32"
  hl_answer :: "hl_event list \<Rightarrow> int"
  hl_calls :: "hl_event list \<Rightarrow> hl_call list"
  hl_register :: "hl_event list \<Rightarrow> int option"

type_synonym callback = "hl_event \<Rightarrow> capidrv \<Rightarrow> (int \<times> capidrv) option"

section \<open>Memory\<close>

definition drv_alloc :: "drv_cfg \<Rightarrow> capidrv \<Rightarrow> nat option \<times> capidrv" where
  "drv_alloc cfg s = (if kmalloc_ok cfg (cd_brk s) then Some (cd_brk s) else None, s\<lparr>cd_brk := cd_brk s + 1\<rparr>)"

definition drv_alloc_skb :: "drv_cfg \<Rightarrow> capidrv \<Rightarrow> bool \<times> capidrv" where
  "drv_alloc_skb cfg s = (alloc_skb_ok cfg (cd_brk s), s\<lparr>cd_brk := cd_brk s + 1\<rparr>)"

definition upd_contr :: "nat \<Rightarrow> (capidrv_contr \<Rightarrow> capidrv_contr) \<Rightarrow> capidrv \<Rightarrow> capidrv option" where
  "upd_contr c f s = do { ct \<leftarrow> contrs s c; Some (s\<lparr>contrs := (contrs s)(c \<mapsto> f ct)\<rparr>) }"

definition upd_plci :: "nat \<Rightarrow> (capidrv_plci \<Rightarrow> capidrv_plci) \<Rightarrow> capidrv \<Rightarrow> capidrv option" where
  "upd_plci p f s = do { pl \<leftarrow> plcis s p; Some (s\<lparr>plcis := (plcis s)(p \<mapsto> f pl)\<rparr>) }"

definition upd_ncci :: "nat \<Rightarrow> (capidrv_ncci \<Rightarrow> capidrv_ncci) \<Rightarrow> capidrv \<Rightarrow> capidrv option" where
  "upd_ncci n f s = do { nc \<leftarrow> nccis s n; Some (s\<lparr>nccis := (nccis s)(n \<mapsto> f nc)\<rparr>) }"

definition get_bchan :: "nat \<Rightarrow> nat \<Rightarrow> capidrv \<Rightarrow> capidrv_bchan option" where
  "get_bchan c i s = do { ct \<leftarrow> contrs s c; nth_opt (bchans ct) i }"

definition upd_bchan :: "nat \<Rightarrow> nat \<Rightarrow> (capidrv_bchan \<Rightarrow> capidrv_bchan) \<Rightarrow> capidrv \<Rightarrow> capidrv option" where
  "upd_bchan c i f s = do {
     b \<leftarrow> get_bchan c i s;
     upd_contr c (\<lambda>ct. ct\<lparr>bchans := (bchans ct)[i := f b]\<rparr>) s }"

text \<open>A list walked to the first structure with a property; the outer \<open>None\<close> is undefined behaviour, the inner one \<open>NULL\<close>.\<close>

fun find_in :: "(nat \<rightharpoonup> 'a) \<Rightarrow> ('a \<Rightarrow> bool) \<Rightarrow> nat list \<Rightarrow> nat option option" where
  "find_in h P [] = Some None"
| "find_in h P (p # ps) = do {
     x \<leftarrow> h p;
     if P x then Some (Some p) else find_in h P ps }"

text \<open>A list walked to an address, which is unlinked; the inner \<open>None\<close> says that it is not on the list.\<close>

fun unlink :: "(nat \<rightharpoonup> 'a) \<Rightarrow> nat \<Rightarrow> nat list \<Rightarrow> nat list option option" where
  "unlink h p [] = Some None"
| "unlink h p (q # qs) = do {
     x \<leftarrow> h q;
     if q = p then Some (Some qs)
     else do {
       r \<leftarrow> unlink h p qs;
       Some (map_option (Cons q) r) } }"

section \<open>Controllers\<close>

definition findcontrbydriverid :: "int \<Rightarrow> capidrv \<Rightarrow> nat option option" where
  "findcontrbydriverid driverid s = find_in (contrs s) (\<lambda>ct. myid ct = driverid) (contr_list s)"

definition findcontrbynumber :: "u32 \<Rightarrow> capidrv \<Rightarrow> nat option option" where
  "findcontrbynumber contr s = find_in (contrs s) (\<lambda>ct. contrnr ct = contr) (contr_list s)"

section \<open>Connections\<close>

definition new_plci :: "drv_cfg \<Rightarrow> nat \<Rightarrow> nat \<Rightarrow> capidrv \<Rightarrow> (nat option \<times> capidrv) option" where
  "new_plci cfg crd chan s =
     (case drv_alloc cfg s of
        (None, s) \<Rightarrow> Some (None, s)
      | (Some p, s) \<Rightarrow> do {
          let s = s\<lparr>plcis := (plcis s)(p \<mapsto> \<lparr>pl_plci = 0, pl_msgid = 0, pl_chan = chan, pl_state = ST_PLCI_NONE,
                pl_leasedline = False, ncci_list = []\<rparr>)\<rparr>;
          s \<leftarrow> upd_contr crd (\<lambda>ct. ct\<lparr>plci_list := p # plci_list ct\<rparr>) s;
          s \<leftarrow> upd_bchan crd chan (\<lambda>b. b\<lparr>bc_plcip := Some p\<rparr>) s;
          Some (Some p, s) })"

definition find_plci_by_plci :: "nat \<Rightarrow> u32 \<Rightarrow> capidrv \<Rightarrow> nat option option" where
  "find_plci_by_plci crd plci s = do {
     ct \<leftarrow> contrs s crd;
     find_in (plcis s) (\<lambda>p. pl_plci p = plci) (plci_list ct) }"

definition find_plci_by_msgid :: "nat \<Rightarrow> u16 \<Rightarrow> capidrv \<Rightarrow> nat option option" where
  "find_plci_by_msgid crd msgid s = do {
     ct \<leftarrow> contrs s crd;
     find_in (plcis s) (\<lambda>p. pl_msgid p = msgid) (plci_list ct) }"

definition find_plci_by_ncci :: "nat \<Rightarrow> u32 \<Rightarrow> capidrv \<Rightarrow> nat option option" where
  "find_plci_by_ncci crd ncci s = do {
     ct \<leftarrow> contrs s crd;
     find_in (plcis s) (\<lambda>p. pl_plci p = ncci AND 0xffff) (plci_list ct) }"

definition free_plci :: "nat \<Rightarrow> nat \<Rightarrow> capidrv \<Rightarrow> capidrv option" where
  "free_plci crd plcip s = do {
     ct \<leftarrow> contrs s crd;
     r \<leftarrow> unlink (plcis s) plcip (plci_list ct);
     case r of
       None \<Rightarrow> Some s
     | Some l \<Rightarrow> do {
         s \<leftarrow> upd_contr crd (\<lambda>ct. ct\<lparr>plci_list := l\<rparr>) s;
         pl \<leftarrow> plcis s plcip;
         s \<leftarrow> upd_bchan crd (pl_chan pl) (\<lambda>b. b\<lparr>bc_plcip := None, bc_disconnecting := False, bc_incoming := False\<rparr>) s;
         Some (s\<lparr>plcis := (plcis s)(plcip := None)\<rparr>) } }"

section \<open>Logical connections\<close>

definition new_ncci :: "drv_cfg \<Rightarrow> nat \<Rightarrow> nat \<Rightarrow> u32 \<Rightarrow> capidrv \<Rightarrow> (nat option \<times> capidrv) option" where
  "new_ncci cfg crd plcip ncci s =
     (case drv_alloc cfg s of
        (None, s) \<Rightarrow> Some (None, s)
      | (Some n, s) \<Rightarrow> do {
          pl \<leftarrow> plcis s plcip;
          let s = s\<lparr>nccis := (nccis s)(n \<mapsto> \<lparr>nc_plcip = plcip, nc_ncci = ncci, nc_msgid = 0, nc_chan = pl_chan pl,
                nc_state = ST_NCCI_NONE, nc_oldstate = ST_NCCI_NONE, nc_datahandle = 0, nc_ackqueue = []\<rparr>)\<rparr>;
          s \<leftarrow> upd_plci plcip (\<lambda>pl. pl\<lparr>ncci_list := n # ncci_list pl\<rparr>) s;
          s \<leftarrow> upd_bchan crd (pl_chan pl) (\<lambda>b. b\<lparr>bc_nccip := Some n\<rparr>) s;
          Some (Some n, s) })"

definition drv_find_ncci :: "nat \<Rightarrow> u32 \<Rightarrow> capidrv \<Rightarrow> nat option option" where
  "drv_find_ncci crd ncci s = do {
     p \<leftarrow> find_plci_by_ncci crd ncci s;
     case p of
       None \<Rightarrow> Some None
     | Some p \<Rightarrow> do {
         pl \<leftarrow> plcis s p;
         find_in (nccis s) (\<lambda>n. nc_ncci n = ncci) (ncci_list pl) } }"

definition find_ncci_by_msgid :: "nat \<Rightarrow> u32 \<Rightarrow> u16 \<Rightarrow> capidrv \<Rightarrow> nat option option" where
  "find_ncci_by_msgid crd ncci msgid s = do {
     p \<leftarrow> find_plci_by_ncci crd ncci s;
     case p of
       None \<Rightarrow> Some None
     | Some p \<Rightarrow> do {
         pl \<leftarrow> plcis s p;
         find_in (nccis s) (\<lambda>n. nc_msgid n = msgid) (ncci_list pl) } }"

definition free_ncci :: "nat \<Rightarrow> nat \<Rightarrow> capidrv \<Rightarrow> capidrv option" where
  "free_ncci crd nccip s = do {
     nc \<leftarrow> nccis s nccip;
     pl \<leftarrow> plcis s (nc_plcip nc);
     r \<leftarrow> unlink (nccis s) nccip (ncci_list pl);
     s \<leftarrow> (case r of None \<Rightarrow> Some s | Some l \<Rightarrow> upd_plci (nc_plcip nc) (\<lambda>pl. pl\<lparr>ncci_list := l\<rparr>) s);
     s \<leftarrow> upd_bchan crd (nc_chan nc) (\<lambda>b. b\<lparr>bc_nccip := None\<rparr>) s;
     Some (s\<lparr>nccis := (nccis s)(nccip := None)\<rparr>) }"

text \<open>The first argument is whether \<open>kmalloc\<close> succeeds; the result is whether 0 is returned (not -1).\<close>

definition capidrv_add_ack :: "bool \<Rightarrow> u16 \<Rightarrow> int \<Rightarrow> capidrv_ncci \<Rightarrow> bool \<times> capidrv_ncci" where
  "capidrv_add_ack mem h len nc =
     (if \<not> mem then (False, nc) else (True, nc\<lparr>nc_ackqueue := nc_ackqueue nc @ [(h, len)]\<rparr>))"

fun del_ack_entry :: "u16 \<Rightarrow> (u16 \<times> int) list \<Rightarrow> (int \<times> (u16 \<times> int) list) option" where
  "del_ack_entry h [] = None"
| "del_ack_entry h ((h', len) # q) =
     (if h' = h then Some (len, q) else map_option (apsnd (Cons (h', len))) (del_ack_entry h q))"

definition capidrv_del_ack :: "u16 \<Rightarrow> capidrv_ncci \<Rightarrow> int \<times> capidrv_ncci" where
  "capidrv_del_ack h nc =
     (case del_ack_entry h (nc_ackqueue nc) of
        Some (len, q) \<Rightarrow> (len, nc\<lparr>nc_ackqueue := q\<rparr>)
      | None \<Rightarrow> (-1, nc))"

section \<open>Messages\<close>

definition drv_get_message :: "drv_cfg \<Rightarrow> capidrv \<Rightarrow> (u16 \<times> bytes option option \<times> capidrv) option" where
  "drv_get_message cfg s = do {
     (info, msg, c) \<leftarrow> capi_get_message (global_ap cfg) (cd_core s);
     c \<leftarrow> (if info = 0 then do {
            m \<leftarrow> msg;
            m \<leftarrow> m;
            n \<leftarrow> msg_count CAPI_DATA_B3_IND m;
            count_rx (global_ap cfg) n c }
          else Some c);
     Some (info, msg, s\<lparr>cd_core := c\<rparr>) }"

definition drv_put_message :: "drv_cfg \<Rightarrow> bytes \<Rightarrow> capidrv \<Rightarrow> (u16 \<times> capidrv) option" where
  "drv_put_message cfg msg s = do {
     n \<leftarrow> msg_count CAPI_DATA_B3_REQ msg;
     (info, c) \<leftarrow> capi_put_message (dc_env cfg) (global_ap cfg) (Some msg) (cd_core s);
     c \<leftarrow> (if info = 0 then count_tx (global_ap cfg) n c else Some c);
     Some (info, s\<lparr>cd_core := c\<rparr>) }"

text \<open>The result of \<open>alloc_skb\<close> is used unchecked.\<close>

definition send_message :: "drv_cfg \<Rightarrow> cmsg \<Rightarrow> capidrv \<Rightarrow> capidrv option" where
  "send_message cfg c s = do {
     c \<leftarrow> capi_cmsg2message c (cmsg_buf c);
     len \<leftarrow> CAPIMSG_LEN (cur_m c);
     let (mem, s) = drv_alloc_skb cfg s;
     skb \<leftarrow> (if mem then lds (cur_m c) 0 (unat len) else None);
     (_, s) \<leftarrow> drv_put_message cfg skb s;
     Some s }"

definition ap_id :: "drv_cfg \<Rightarrow> capidrv \<Rightarrow> u16 option" where
  "ap_id cfg s = map_option appl_id (appls (cd_core s) (global_ap cfg))"

text \<open>\<open>card->msgid++\<close>\<close>

definition next_msgid :: "nat \<Rightarrow> capidrv \<Rightarrow> (u16 \<times> capidrv) option" where
  "next_msgid crd s = do {
     ct \<leftarrow> contrs s crd;
     s \<leftarrow> upd_contr crd (\<lambda>ct. ct\<lparr>ct_msgid := ct_msgid ct + 1\<rparr>) s;
     Some (ct_msgid ct, s) }"

section \<open>State machines\<close>

definition listen_change_state :: "nat \<Rightarrow> listen_event \<Rightarrow> capidrv \<Rightarrow> capidrv option" where
  "listen_change_state crd event s = do {
     ct \<leftarrow> contrs s crd;
     case row_for (\<lambda>(a, _, e). (a, e)) listentable (ct_state ct, event) of
       Some (_, next, _) \<Rightarrow> upd_contr crd (\<lambda>ct. ct\<lparr>ct_state := next\<rparr>) s
     | None \<Rightarrow> Some s }"

definition statcallb :: "callback \<Rightarrow> nat \<Rightarrow> isdn_stat \<Rightarrow> capidrv \<Rightarrow> (int \<times> capidrv) option" where
  "statcallb cb crd stat s = do {
     ct \<leftarrow> contrs s crd;
     cb (Statcallb (myid ct) stat) s }"

definition p0 :: "callback \<Rightarrow> nat \<Rightarrow> nat \<Rightarrow> capidrv \<Rightarrow> capidrv option" where
  "p0 cb crd plci s = do {
     pl \<leftarrow> plcis s plci;
     s \<leftarrow> upd_bchan crd (pl_chan pl) (\<lambda>b. b\<lparr>bc_contr := None\<rparr>) s;
     (_, s) \<leftarrow> statcallb cb crd (ISDN_STAT_DHUP (pl_chan pl)) s;
     free_plci crd plci s }"

definition plci_change_state :: "callback \<Rightarrow> nat \<Rightarrow> nat \<Rightarrow> plci_event \<Rightarrow> capidrv \<Rightarrow> capidrv option" where
  "plci_change_state cb crd plci event s = do {
     pl \<leftarrow> plcis s plci;
     case row_for (\<lambda>(a, _, e, _). (a, e)) plcitable (pl_state pl, event) of
       Some (_, next, _, changefunc) \<Rightarrow> do {
         s \<leftarrow> upd_plci plci (\<lambda>pl. pl\<lparr>pl_state := next\<rparr>) s;
         case changefunc of None \<Rightarrow> Some s | Some P0 \<Rightarrow> p0 cb crd plci s }
     | None \<Rightarrow> Some s }"

definition n0 :: "drv_cfg \<Rightarrow> callback \<Rightarrow> nat \<Rightarrow> nat \<Rightarrow> capidrv \<Rightarrow> capidrv option" where
  "n0 cfg cb crd ncci s = do {
     id \<leftarrow> ap_id cfg s;
     (msgid, s) \<leftarrow> next_msgid crd s;
     nc \<leftarrow> nccis s ncci;
     pl \<leftarrow> plcis s (nc_plcip nc);
     s \<leftarrow> send_message cfg (capi_fill_DISCONNECT_REQ id msgid (pl_plci pl) None None None None) s;
     s \<leftarrow> plci_change_state cb crd (nc_plcip nc) EV_PLCI_DISCONNECT_REQ s;
     nc \<leftarrow> nccis s ncci;
     (_, s) \<leftarrow> statcallb cb crd (ISDN_STAT_BHUP (nc_chan nc)) s;
     free_ncci crd ncci s }"

definition ncci_change_state :: "drv_cfg \<Rightarrow> callback \<Rightarrow> nat \<Rightarrow> nat \<Rightarrow> ncci_event \<Rightarrow> capidrv \<Rightarrow> capidrv option" where
  "ncci_change_state cfg cb crd ncci event s = do {
     nc \<leftarrow> nccis s ncci;
     case row_for (\<lambda>(a, _, e, _). (a, e)) nccitable (nc_state nc, event) of
       Some (act, next, _, changefunc) \<Rightarrow> do {
         s \<leftarrow> upd_ncci ncci (\<lambda>nc.
                if next = ST_NCCI_PREVIOUS then nc\<lparr>nc_state := nc_oldstate nc, nc_oldstate := act\<rparr>
                else nc\<lparr>nc_oldstate := act, nc_state := next\<rparr>) s;
         case changefunc of None \<Rightarrow> Some s | Some N0 \<Rightarrow> n0 cfg cb crd ncci s }
     | None \<Rightarrow> Some s }"

end
