(* ===== verification/DrvHandle.thy ===== *)
theory DrvHandle
  imports DrvState
begin

text \<open>
  The isdn4linux driver \<^verbatim>\<open>drivers/isdn/capi/capidrv.c\<close>, part 4: the handlers of the messages that a controller
  sends, and the loop that takes them from the queue of the application.  A message that the code only reports in the kernel log leaves
  the state as it is.
\<close>

section \<open>Controllers\<close>

text \<open>The first of the \<open>n\<close> channels from \<open>i\<close> on that has no connection.\<close>

primrec scan_bchans :: "capidrv_bchan list \<Rightarrow> nat \<Rightarrow> nat \<Rightarrow> nat option option" where
  "scan_bchans bs 0 i = Some None"
| "scan_bchans bs (Suc n) i = do {
     b \<leftarrow> nth_opt bs i;
     if bc_plcip b = None then Some (Some i) else scan_bchans bs n (Suc i) }"

definition new_bchan :: "nat \<Rightarrow> capidrv \<Rightarrow> (nat option \<times> capidrv) option" where
  "new_bchan crd s = do {
     ct \<leftarrow> contrs s crd;
     r \<leftarrow> scan_bchans (bchans ct) (nbchan ct) 0;
     case r of
       None \<Rightarrow> Some (None, s)
     | Some i \<Rightarrow> do {
         s \<leftarrow> upd_bchan crd i (\<lambda>b. b\<lparr>bc_disconnecting := False\<rparr>) s;
         Some (Some i, s) } }"

text \<open>The trace data inside \<open>ManuData\<close>: the layer, where the data starts, and its length, a \<open>u16\<close>.\<close>

definition manu_trace :: "bytes \<Rightarrow> (u16 \<times> nat \<times> u16) option" where
  "manu_trace md = do {
     l0 \<leftarrow> ld md 0;
     (off, len) \<leftarrow>
       (if l0 = 255 then do { a \<leftarrow> ld md 1; b \<leftarrow> ld md 2; Some (5, of_le16 a b) }
        else Some (3, (ucast l0 :: u16)));
     hi \<leftarrow> ld md (off - 1);
     lo \<leftarrow> ld md (off - 2);
     Some (of_le16 lo hi, off, len - 2) }"

text \<open>Whether the layer is traced: the direction and whether it is layer 2.\<close>

definition trace_layer :: "u16 \<Rightarrow> (bool \<times> bool) option" where
  "trace_layer layer =
     (let send = (if layer AND 0x300 \<noteq> 0 then layer AND 0x200 = 0 else layer AND 0x800 = 0)
      in if layer AND 0x0C00 \<noteq> 0 then if layer AND 0xff = 0x80 then Some (send, True) else None
         else if layer AND 0xff < 0x80 then Some (send, False) else None)"

definition card_dtrace :: "callback \<Rightarrow> nat \<Rightarrow> bool \<Rightarrow> bool \<Rightarrow> bytes \<Rightarrow> capidrv \<Rightarrow> capidrv option" where
  "card_dtrace cb crd send level2 data s = do {
     ct \<leftarrow> contrs s crd;
     (r, n) \<leftarrow> handle_dtrace_data send level2 data (q931 ct);
     s \<leftarrow> upd_contr crd (\<lambda>ct. ct\<lparr>q931 := r\<rparr>) s;
     case n of
       None \<Rightarrow> Some s
     | Some n \<Rightarrow> do {
         (_, s) \<leftarrow> statcallb cb crd (ISDN_STAT_STAVAIL n) s;
         Some s } }"

definition handle_controller :: "callback \<Rightarrow> cmsg \<Rightarrow> capidrv \<Rightarrow> capidrv option" where
  "handle_controller cb c s = do {
     r \<leftarrow> findcontrbynumber (dwords c AdrController AND 0x7f) s;
     case r of
       None \<Rightarrow> Some s
     | Some crd \<Rightarrow>
         let cmd = CAPICMD (Command c) (Subcommand c) in
         if cmd = CAPI_LISTEN_CONF then do {
           ct \<leftarrow> contrs s crd;
           if words c Info \<noteq> 0 then listen_change_state crd EV_LISTEN_CONF_ERROR s
           else if ct_cipmask ct = 0 then listen_change_state crd EV_LISTEN_CONF_EMPTY s
           else listen_change_state crd EV_LISTEN_CONF_OK s }
         else if cmd = CAPI_MANUFACTURER_IND then
           if dwords c ManuID = 0x214D5641 \<and> dwords c Class = 0 \<and> dwords c Function = 1 then do {
             md \<leftarrow> structs c ManuData;
             (layer, off, len) \<leftarrow> manu_trace md;
             case trace_layer layer of
               None \<Rightarrow> Some s
             | Some (send, level2) \<Rightarrow> do {
                 data \<leftarrow> lds md off (unat len);
                 card_dtrace cb crd send level2 data s } }
           else Some s
         else Some s }"

section \<open>Connections\<close>

text \<open>
  \<open>strncpy\<close> of \<open>n\<close> characters at \<open>off\<close> into a zeroed field of \<open>sz\<close> bytes.  A negative \<open>n\<close> becomes a huge \<open>size_t\<close>, and
  the padding with zeros runs over the whole memory.
\<close>

definition strncpy_field :: "nat \<Rightarrow> bytes \<Rightarrow> nat \<Rightarrow> int \<Rightarrow> bytes option" where
  "strncpy_field sz src off n =
     (if n < 0 \<or> n > int sz then None
      else let str = takeWhile (\<lambda>b. b \<noteq> 0) (take (nat n) (drop off src))
        in if length str < nat n \<and> off + length str \<ge> length src then None
           else Some (str @ replicate (sz - length str) 0))"

definition incoming_setup :: "drv_cfg \<Rightarrow> cmsg \<Rightarrow> isdn_setup option" where
  "incoming_setup cfg c = do {
     calling \<leftarrow> structs c CallingPartyNumber;
     n \<leftarrow> ld calling 0;
     phone \<leftarrow> strncpy_field (ISDN_MSNLEN cfg) calling 3 (uint n - 2);
     called \<leftarrow> structs c CalledPartyNumber;
     n \<leftarrow> ld called 0;
     eazmsn \<leftarrow> strncpy_field (ISDN_MSNLEN cfg) called 2 (uint n - 1);
     let si1 = cip2si1 (words c CIPValue);
     let si2 = cip2si2 (words c CIPValue);
     plan \<leftarrow> ld calling 1;
     screen \<leftarrow> ld calling 2;
     Some \<lparr>su_phone = phone, su_eazmsn = eazmsn, su_si1 = si1,
       su_si2 = (if si1 = 1 \<and> si2 \<noteq> 0 then 0 else si2), su_plan = plan, su_screen = screen\<rparr> }"

definition reject_call :: "drv_cfg \<Rightarrow> callback \<Rightarrow> nat \<Rightarrow> nat \<Rightarrow> cmsg \<Rightarrow> u16 \<Rightarrow> capidrv \<Rightarrow> capidrv option" where
  "reject_call cfg cb crd plcip c reject s = do {
     s \<leftarrow> send_message cfg (set_word Reject reject (capi_cmsg_answer c)) s;
     plci_change_state cb crd plcip EV_PLCI_CONNECT_REJECT s }"

definition handle_incoming_call :: "drv_cfg \<Rightarrow> callback \<Rightarrow> nat \<Rightarrow> cmsg \<Rightarrow> capidrv \<Rightarrow> capidrv option" where
  "handle_incoming_call cfg cb crd c s = do {
     (chan, s) \<leftarrow> new_bchan crd s;
     case chan of
       None \<Rightarrow> Some s
     | Some chan \<Rightarrow> do {
         (p, s) \<leftarrow> new_plci cfg crd chan s;
         case p of
           None \<Rightarrow> Some s
         | Some plcip \<Rightarrow> do {
             s \<leftarrow> upd_bchan crd chan (\<lambda>b. b\<lparr>bc_incoming := True\<rparr>) s;
             s \<leftarrow> upd_plci plcip (\<lambda>pl. pl\<lparr>pl_plci := dwords c AdrController\<rparr>) s;
             s \<leftarrow> plci_change_state cb crd plcip EV_PLCI_CONNECT_IND s;
             setup \<leftarrow> incoming_setup cfg c;
             (r, s) \<leftarrow> statcallb cb crd (ISDN_STAT_ICALL chan setup) s;
             if r = 0 \<or> r = 3 then reject_call cfg cb crd plcip c 1 s
             else if r = 1 then do {
               pl \<leftarrow> plcis s plcip;
               if pl_state pl = ST_PLCI_INCOMING then do {
                 id \<leftarrow> ap_id cfg s;
                 (msgid, s) \<leftarrow> next_msgid crd s;
                 s \<leftarrow> upd_plci plcip (\<lambda>pl. pl\<lparr>pl_msgid := msgid\<rparr>) s;
                 send_message cfg (capi_fill_ALERT_REQ id msgid (pl_plci pl) None None None None) s }
               else Some s }
             else if r = 2 then reject_call cfg cb crd plcip c 2 s
             else reject_call cfg cb crd plcip c 8 s } } }"

text \<open>The cases of \<open>handle_plci\<close> that have more than a few lines.\<close>

definition plci_disconnect_ind :: "drv_cfg \<Rightarrow> callback \<Rightarrow> nat \<Rightarrow> cmsg \<Rightarrow> capidrv \<Rightarrow> capidrv option" where
  "plci_disconnect_ind cfg cb crd c s = do {
     p \<leftarrow> find_plci_by_plci crd (dwords c AdrController) s;
     case p of
       None \<Rightarrow> send_message cfg (capi_cmsg_answer c) s
     | Some plcip \<Rightarrow> do {
         pl \<leftarrow> plcis s plcip;
         s \<leftarrow> upd_bchan crd (pl_chan pl) (\<lambda>b. b\<lparr>bc_disconnecting := True\<rparr>) s;
         s \<leftarrow> plci_change_state cb crd plcip EV_PLCI_DISCONNECT_IND s;
         s \<leftarrow> send_message cfg (capi_cmsg_answer c) s;
         plci_change_state cb crd plcip EV_PLCI_DISCONNECT_RESP s } }"

definition plci_connect_conf :: "callback \<Rightarrow> nat \<Rightarrow> cmsg \<Rightarrow> capidrv \<Rightarrow> capidrv option" where
  "plci_connect_conf cb crd c s = do {
     p \<leftarrow> find_plci_by_msgid crd (Messagenumber c) s;
     case p of
       None \<Rightarrow> Some s
     | Some plcip \<Rightarrow> do {
         s \<leftarrow> upd_plci plcip (\<lambda>pl. pl\<lparr>pl_plci := dwords c AdrController\<rparr>) s;
         plci_change_state cb crd plcip
           (if words c Info \<noteq> 0 then EV_PLCI_CONNECT_CONF_ERROR else EV_PLCI_CONNECT_CONF_OK) s } }"

definition plci_connect_active_ind :: "drv_cfg \<Rightarrow> callback \<Rightarrow> nat \<Rightarrow> cmsg \<Rightarrow> capidrv \<Rightarrow> capidrv option" where
  "plci_connect_active_ind cfg cb crd c s = do {
     p \<leftarrow> find_plci_by_plci crd (dwords c AdrController) s;
     case p of
       None \<Rightarrow> Some s
     | Some plcip \<Rightarrow> do {
         pl \<leftarrow> plcis s plcip;
         b \<leftarrow> get_bchan crd (pl_chan pl) s;
         s \<leftarrow> send_message cfg (capi_cmsg_answer c) s;
         if bc_incoming b then plci_change_state cb crd plcip EV_PLCI_CONNECT_ACTIVE_IND s
         else do {
           (n, s) \<leftarrow> new_ncci cfg crd plcip (dwords c AdrController) s;
           case n of
             None \<Rightarrow> Some s
           | Some nccip \<Rightarrow> do {
               id \<leftarrow> ap_id cfg s;
               (msgid, s) \<leftarrow> next_msgid crd s;
               s \<leftarrow> upd_ncci nccip (\<lambda>nc. nc\<lparr>nc_msgid := msgid\<rparr>) s;
               s \<leftarrow> send_message cfg (capi_fill_CONNECT_B3_REQ id msgid (pl_plci pl) None) s;
               (_, s) \<leftarrow> statcallb cb crd (ISDN_STAT_DCONN (pl_chan pl)) s;
               s \<leftarrow> plci_change_state cb crd plcip EV_PLCI_CONNECT_ACTIVE_IND s;
               ncci_change_state cfg cb crd nccip EV_NCCI_CONNECT_B3_REQ s } } } }"

definition plci_info_ind :: "callback \<Rightarrow> nat \<Rightarrow> cmsg \<Rightarrow> capidrv \<Rightarrow> capidrv option" where
  "plci_info_ind cb crd c s = do {
     p \<leftarrow> find_plci_by_plci crd (dwords c AdrController) s;
     case p of
       None \<Rightarrow> Some s
     | Some plcip \<Rightarrow>
         if words c InfoNumber = 0x4000 then do {
           ie \<leftarrow> structs c InfoElement;
           n \<leftarrow> ld ie 0;
           if n = 4 then do {
             pl \<leftarrow> plcis s plcip;
             b1 \<leftarrow> ld ie 1;
             b2 \<leftarrow> ld ie 2;
             b3 \<leftarrow> ld ie 3;
             b4 \<leftarrow> ld ie 4;
             (_, s) \<leftarrow> statcallb cb crd (ISDN_STAT_CINF (pl_chan pl) (digits 10 (unat (of_le32 b1 b2 b3 b4)))) s;
             Some s }
           else Some s }
         else Some s }"

definition handle_plci :: "drv_cfg \<Rightarrow> callback \<Rightarrow> cmsg \<Rightarrow> capidrv \<Rightarrow> capidrv option" where
  "handle_plci cfg cb c s = do {
     r \<leftarrow> findcontrbynumber (dwords c AdrController AND 0x7f) s;
     case r of
       None \<Rightarrow> Some s
     | Some crd \<Rightarrow>
         let cmd = CAPICMD (Command c) (Subcommand c) in
         if cmd = CAPI_DISCONNECT_IND then plci_disconnect_ind cfg cb crd c s
         else if cmd = CAPI_DISCONNECT_CONF then do {
           p \<leftarrow> find_plci_by_plci crd (dwords c AdrController) s;
           case p of
             None \<Rightarrow> Some s
           | Some plcip \<Rightarrow> do {
               pl \<leftarrow> plcis s plcip;
               upd_bchan crd (pl_chan pl) (\<lambda>b. b\<lparr>bc_disconnecting := True\<rparr>) s } }
         else if cmd = CAPI_CONNECT_IND then handle_incoming_call cfg cb crd c s
         else if cmd = CAPI_CONNECT_CONF then plci_connect_conf cb crd c s
         else if cmd = CAPI_CONNECT_ACTIVE_IND then plci_connect_active_ind cfg cb crd c s
         else if cmd = CAPI_INFO_IND then plci_info_ind cb crd c s
         else Some s }"

section \<open>Logical connections\<close>

definition ncci_connect_b3_active_ind :: "drv_cfg \<Rightarrow> callback \<Rightarrow> nat \<Rightarrow> cmsg \<Rightarrow> capidrv \<Rightarrow> capidrv option" where
  "ncci_connect_b3_active_ind cfg cb crd c s = do {
     n \<leftarrow> drv_find_ncci crd (dwords c AdrController) s;
     case n of
       None \<Rightarrow> Some s
     | Some nccip \<Rightarrow> do {
         s \<leftarrow> send_message cfg (capi_cmsg_answer c) s;
         s \<leftarrow> ncci_change_state cfg cb crd nccip EV_NCCI_CONNECT_B3_ACTIVE_IND s;
         nc \<leftarrow> nccis s nccip;
         (_, s) \<leftarrow> statcallb cb crd (ISDN_STAT_BCONN (nc_chan nc)) s;
         Some s } }"

definition ncci_connect_b3_ind :: "drv_cfg \<Rightarrow> callback \<Rightarrow> nat \<Rightarrow> cmsg \<Rightarrow> capidrv \<Rightarrow> capidrv option" where
  "ncci_connect_b3_ind cfg cb crd c s = do {
     p \<leftarrow> find_plci_by_ncci crd (dwords c AdrController) s;
     (n, s) \<leftarrow> (case p of None \<Rightarrow> Some (None, s) | Some plcip \<Rightarrow> new_ncci cfg crd plcip (dwords c AdrController) s);
     case n of
       Some nccip \<Rightarrow> do {
         s \<leftarrow> ncci_change_state cfg cb crd nccip EV_NCCI_CONNECT_B3_IND s;
         id \<leftarrow> ap_id cfg s;
         (msgid, s) \<leftarrow> next_msgid crd s;
         nc \<leftarrow> nccis s nccip;
         s \<leftarrow> send_message cfg (capi_fill_CONNECT_B3_RESP id msgid (nc_ncci nc) 0 None) s;
         ncci_change_state cfg cb crd nccip EV_NCCI_CONNECT_B3_RESP s }
     | None \<Rightarrow> do {
         id \<leftarrow> ap_id cfg s;
         (msgid, s) \<leftarrow> next_msgid crd s;
         send_message cfg (capi_fill_CONNECT_B3_RESP id msgid (dwords c AdrController) 2 None) s } }"

definition ncci_connect_b3_conf :: "drv_cfg \<Rightarrow> callback \<Rightarrow> nat \<Rightarrow> cmsg \<Rightarrow> capidrv \<Rightarrow> capidrv option" where
  "ncci_connect_b3_conf cfg cb crd c s = do {
     n \<leftarrow> find_ncci_by_msgid crd (dwords c AdrController) (Messagenumber c) s;
     case n of
       None \<Rightarrow> Some s
     | Some nccip \<Rightarrow> do {
         s \<leftarrow> upd_ncci nccip (\<lambda>nc. nc\<lparr>nc_ncci := dwords c AdrController\<rparr>) s;
         ncci_change_state cfg cb crd nccip
           (if words c Info \<noteq> 0 then EV_NCCI_CONNECT_B3_CONF_ERROR else EV_NCCI_CONNECT_B3_CONF_OK) s } }"

definition ncci_data_b3_conf :: "callback \<Rightarrow> nat \<Rightarrow> cmsg \<Rightarrow> capidrv \<Rightarrow> capidrv option" where
  "ncci_data_b3_conf cb crd c s = do {
     n \<leftarrow> drv_find_ncci crd (dwords c AdrController) s;
     case n of
       None \<Rightarrow> Some s
     | Some nccip \<Rightarrow> do {
         nc \<leftarrow> nccis s nccip;
         let (len, nc') = capidrv_del_ack (words c DataHandle) nc;
         s \<leftarrow> upd_ncci nccip (\<lambda>_. nc') s;
         if len < 0 then Some s
         else do {
           (_, s) \<leftarrow> statcallb cb crd (ISDN_STAT_BSENT (nc_chan nc) len) s;
           Some s } } }"

definition ncci_disconnect_b3_ind :: "drv_cfg \<Rightarrow> callback \<Rightarrow> nat \<Rightarrow> cmsg \<Rightarrow> capidrv \<Rightarrow> capidrv option" where
  "ncci_disconnect_b3_ind cfg cb crd c s = do {
     n \<leftarrow> drv_find_ncci crd (dwords c AdrController) s;
     case n of
       None \<Rightarrow> Some s
     | Some nccip \<Rightarrow> do {
         nc \<leftarrow> nccis s nccip;
         s \<leftarrow> upd_bchan crd (nc_chan nc) (\<lambda>b. b\<lparr>bc_disconnecting := True\<rparr>) s;
         s \<leftarrow> ncci_change_state cfg cb crd nccip EV_NCCI_DISCONNECT_B3_IND s;
         s \<leftarrow> send_message cfg (capi_cmsg_answer c) s;
         ncci_change_state cfg cb crd nccip EV_NCCI_DISCONNECT_B3_RESP s } }"

definition handle_ncci :: "drv_cfg \<Rightarrow> callback \<Rightarrow> cmsg \<Rightarrow> capidrv \<Rightarrow> capidrv option" where
  "handle_ncci cfg cb c s = do {
     r \<leftarrow> findcontrbynumber (dwords c AdrController AND 0x7f) s;
     case r of
       None \<Rightarrow> Some s
     | Some crd \<Rightarrow>
         let cmd = CAPICMD (Command c) (Subcommand c) in
         if cmd = CAPI_CONNECT_B3_ACTIVE_IND then ncci_connect_b3_active_ind cfg cb crd c s
         else if cmd = CAPI_CONNECT_B3_IND then ncci_connect_b3_ind cfg cb crd c s
         else if cmd = CAPI_CONNECT_B3_CONF then ncci_connect_b3_conf cfg cb crd c s
         else if cmd = CAPI_CONNECT_B3_T90_ACTIVE_IND then send_message cfg (capi_cmsg_answer c) s
         else if cmd = CAPI_DATA_B3_CONF then ncci_data_b3_conf cb crd c s
         else if cmd = CAPI_DISCONNECT_B3_IND then ncci_disconnect_b3_ind cfg cb crd c s
         else if cmd = CAPI_DISCONNECT_B3_CONF then do {
           n \<leftarrow> drv_find_ncci crd (dwords c AdrController) s;
           case n of
             None \<Rightarrow> Some s
           | Some nccip \<Rightarrow>
               if words c Info \<noteq> 0 then ncci_change_state cfg cb crd nccip EV_NCCI_DISCONNECT_B3_CONF_ERROR s
               else Some s }
         else if cmd = CAPI_RESET_B3_IND then do {
           n \<leftarrow> drv_find_ncci crd (dwords c AdrController) s;
           case n of
             None \<Rightarrow> Some s
           | Some nccip \<Rightarrow> do {
               s \<leftarrow> ncci_change_state cfg cb crd nccip EV_NCCI_RESET_B3_IND s;
               send_message cfg (capi_cmsg_answer c) s } }
         else Some s }"

text \<open>\<open>skb_pull\<close> does nothing if the length exceeds the message.\<close>

definition handle_data :: "drv_cfg \<Rightarrow> callback \<Rightarrow> cmsg \<Rightarrow> bytes \<Rightarrow> capidrv \<Rightarrow> capidrv option" where
  "handle_data cfg cb c skb s = do {
     r \<leftarrow> findcontrbynumber (dwords c AdrController AND 0x7f) s;
     case r of
       None \<Rightarrow> Some s
     | Some crd \<Rightarrow> do {
         n \<leftarrow> drv_find_ncci crd (dwords c AdrController) s;
         case n of
           None \<Rightarrow> Some s
         | Some nccip \<Rightarrow> do {
             mlen \<leftarrow> CAPIMSG_LEN skb;
             ct \<leftarrow> contrs s crd;
             nc \<leftarrow> nccis s nccip;
             let data = (if unat mlen \<le> length skb then drop (unat mlen) skb else skb);
             (_, s) \<leftarrow> cb (Rcvcallb (myid ct) (nc_chan nc) data) s;
             send_message cfg (capi_cmsg_answer c) s } } }"

section \<open>The loop\<close>

definition handle_message :: "drv_cfg \<Rightarrow> callback \<Rightarrow> bytes \<Rightarrow> capidrv \<Rightarrow> capidrv option" where
  "handle_message cfg cb skb s = do {
     c \<leftarrow> capi_message2cmsg skb;
     if Command c = CAPI_DATA_B3 \<and> Subcommand c = CAPI_IND then handle_data cfg cb c skb s
     else if dwords c AdrController AND 0xffffff00 = 0 then handle_controller cb c s
     else if dwords c AdrController AND 0xffff0000 = 0 then handle_plci cfg cb c s
     else handle_ncci cfg cb c s }"

partial_function (option) capidrv_recv_message :: "drv_cfg \<Rightarrow> callback \<Rightarrow> capidrv \<Rightarrow> capidrv option" where
  "capidrv_recv_message cfg cb s = do {
     (info, msg, s) \<leftarrow> drv_get_message cfg s;
     if info \<noteq> CAPINFO_0X11_NOERR then Some s
     else do {
       skb \<leftarrow> msg;
       skb \<leftarrow> skb;
       s \<leftarrow> handle_message cfg cb skb s;
       capidrv_recv_message cfg cb s } }"

end
