(* ===== verification/DrvCommand.thy ===== *)
theory DrvCommand
  imports DrvHandle "HOL-Library.Signed_Division"
begin

text \<open>
  The isdn4linux driver \<^verbatim>\<open>drivers/isdn/capi/capidrv.c\<close>, part 5: the commands of isdn4linux and sending of data, what
  isdn4linux may do inside a call of the driver, and the coming and going of controllers.
\<close>

section \<open>Commands\<close>

definition ENOSYS :: int where "ENOSYS = 38"
definition drv_ENODEV :: int where "drv_ENODEV = 19"
definition drv_EIO :: int where "drv_EIO = 5"

text \<open>\<open>ioctl\<close> 1 sets the debug mode.\<close>

definition capidrv_ioctl :: "nat \<Rightarrow> u32 \<Rightarrow> capidrv \<Rightarrow> int \<times> capidrv" where
  "capidrv_ioctl arg num s = (if arg = 1 then (0, s\<lparr>debugmode := sint num\<rparr>) else (- EINVAL, s))"

text \<open>\<open>c->arg % card->nbchan\<close>; a controller without channels makes it a division by zero.\<close>

definition chan_of :: "nat \<Rightarrow> nat \<Rightarrow> capidrv \<Rightarrow> nat option" where
  "chan_of crd arg s = do { ct \<leftarrow> contrs s crd; if nbchan ct = 0 then None else Some (arg mod nbchan ct) }"

text \<open>\<open>strncpy\<close> of at most \<open>n\<close> bytes of a string, filled up with zeros.\<close>

definition strncpy :: "bytes \<Rightarrow> nat \<Rightarrow> bytes" where
  "strncpy src n = (let str = takeWhile (\<lambda>x. x \<noteq> 0) (take n src) in str @ replicate (n - length str) 0)"

definition chars_of :: "bytes \<Rightarrow> string" where
  "chars_of = map (\<lambda>b. char_of (unat b))"

text \<open>The party numbers of an outgoing call, calling and called.\<close>

definition dial_numbers :: "drv_cfg \<Rightarrow> bool \<Rightarrow> capidrv_bchan \<Rightarrow> (bytes \<times> bytes) option" where
  "dial_numbers cfg isleasedline b =
     (if isleasedline then Some ([0], [0])
      else do {
        mynum \<leftarrow> c_string (bc_mynum b);
        num \<leftarrow> c_string (bc_num b);
        Some ([word_of_nat (length mynum + 2), 0, 0x80] @ strncpy (bc_mynum b) (ISDN_MSNLEN cfg),
              [word_of_nat (length num + 1), 0x80] @ strncpy (bc_num b) (ISDN_MSNLEN cfg)) })"

definition cmd_dial :: "drv_cfg \<Rightarrow> callback \<Rightarrow> nat \<Rightarrow> nat \<Rightarrow> bytes \<Rightarrow> bytes \<Rightarrow> u8 \<Rightarrow> u8 \<Rightarrow> capidrv \<Rightarrow> (int \<times> capidrv) option" where
  "cmd_dial cfg cb crd arg phone eazmsn si1 si2 s = do {
     i \<leftarrow> chan_of crd arg s;
     b \<leftarrow> get_bchan crd i s;
     case bc_plcip b of
       Some p \<Rightarrow> do { _ \<leftarrow> plcis s p; Some (0, s) }
     | None \<Rightarrow> do {
         s \<leftarrow> upd_bchan crd i (\<lambda>b. b\<lparr>bc_si1 := uint si1, bc_si2 := uint si2,
                bc_num := strncpy phone (ISDN_MSNLEN cfg), bc_mynum := strncpy eazmsn (ISDN_MSNLEN cfg)\<rparr>) s;
         b \<leftarrow> get_bchan crd i s;
         num \<leftarrow> c_string (bc_num b);
         (rc, info) \<leftarrow> FVteln2capi20 (chars_of num);
         let isleasedline = (rc = 0);
         (calling, called) \<leftarrow> dial_numbers cfg isleasedline b;
         id \<leftarrow> ap_id cfg s;
         (msgid, s) \<leftarrow> next_msgid crd s;
         ct \<leftarrow> contrs s crd;
         let c = capi_fill_CONNECT_REQ id msgid (contrnr ct)
               (si2cip (word_of_int (bc_si1 b)) (word_of_int (bc_si2 b)))
               (Some called) (Some calling) None None
               (ucast (b1prot (protos cfg) (bc_l2 b) (bc_l3 b))) (ucast (b2prot (protos cfg) (bc_l2 b) (bc_l3 b)))
               (ucast (b3prot (protos cfg) (bc_l2 b) (bc_l3 b))) (b1config (protos cfg) (bc_l2 b) (bc_l3 b))
               None None None None None (if isleasedline then info else None) None None None;
         (p, s) \<leftarrow> new_plci cfg crd i s;
         case p of
           None \<Rightarrow> do {
             (_, s) \<leftarrow> statcallb cb crd (ISDN_STAT_DHUP i) s;
             Some (-1, s) }
         | Some plcip \<Rightarrow> do {
             s \<leftarrow> upd_plci plcip (\<lambda>pl. pl\<lparr>pl_msgid := msgid, pl_leasedline := isleasedline\<rparr>) s;
             s \<leftarrow> plci_change_state cb crd plcip EV_PLCI_CONNECT_REQ s;
             s \<leftarrow> send_message cfg c s;
             Some (0, s) } } }"

text \<open>The message is assembled twice, the second time in \<open>send_message\<close>.\<close>

definition cmd_acceptd :: "drv_cfg \<Rightarrow> callback \<Rightarrow> nat \<Rightarrow> nat \<Rightarrow> capidrv \<Rightarrow> (int \<times> capidrv) option" where
  "cmd_acceptd cfg cb crd arg s = do {
     i \<leftarrow> chan_of crd arg s;
     b \<leftarrow> get_bchan crd i s;
     id \<leftarrow> ap_id cfg s;
     (msgid, s) \<leftarrow> next_msgid crd s;
     plcip \<leftarrow> bc_plcip b;
     pl \<leftarrow> plcis s plcip;
     c \<leftarrow> (let c = capi_fill_CONNECT_RESP id msgid (pl_plci pl) 0
            (ucast (b1prot (protos cfg) (bc_l2 b) (bc_l3 b))) (ucast (b2prot (protos cfg) (bc_l2 b) (bc_l3 b)))
            (ucast (b3prot (protos cfg) (bc_l2 b) (bc_l3 b))) (b1config (protos cfg) (bc_l2 b) (bc_l3 b))
            None None None None None None None None None in capi_cmsg2message c (cmsg_buf c));
     s \<leftarrow> plci_change_state cb crd plcip EV_PLCI_CONNECT_RESP s;
     s \<leftarrow> send_message cfg (c\<lparr>cmsg_buf := cur_m c\<rparr>) s;
     Some (0, s) }"

definition cmd_hangup :: "drv_cfg \<Rightarrow> callback \<Rightarrow> nat \<Rightarrow> nat \<Rightarrow> capidrv \<Rightarrow> (int \<times> capidrv) option" where
  "cmd_hangup cfg cb crd arg s = do {
     i \<leftarrow> chan_of crd arg s;
     b \<leftarrow> get_bchan crd i s;
     if bc_disconnecting b then Some (0, s)
     else (case bc_nccip b of
       Some nccip \<Rightarrow> do {
         s \<leftarrow> upd_bchan crd i (\<lambda>b. b\<lparr>bc_disconnecting := True\<rparr>) s;
         id \<leftarrow> ap_id cfg s;
         (msgid, s) \<leftarrow> next_msgid crd s;
         nc \<leftarrow> nccis s nccip;
         s \<leftarrow> ncci_change_state cfg cb crd nccip EV_NCCI_DISCONNECT_B3_REQ s;
         s \<leftarrow> send_message cfg (capi_fill_DISCONNECT_B3_REQ id msgid (nc_ncci nc) None) s;
         Some (0, s) }
     | None \<Rightarrow>
         (case bc_plcip b of
            Some plcip \<Rightarrow> do {
              pl \<leftarrow> plcis s plcip;
              if pl_state pl = ST_PLCI_INCOMING then do {
                s \<leftarrow> upd_bchan crd i (\<lambda>b. b\<lparr>bc_disconnecting := True\<rparr>) s;
                Some (0, s) }
              else if pl_plci pl \<noteq> 0 then do {
                s \<leftarrow> upd_bchan crd i (\<lambda>b. b\<lparr>bc_disconnecting := True\<rparr>) s;
                id \<leftarrow> ap_id cfg s;
                (msgid, s) \<leftarrow> next_msgid crd s;
                s \<leftarrow> plci_change_state cb crd plcip EV_PLCI_DISCONNECT_REQ s;
                s \<leftarrow> send_message cfg (capi_fill_DISCONNECT_REQ id msgid (pl_plci pl) None None None None) s;
                Some (0, s) }
              else Some (- EINVAL, s) }
          | None \<Rightarrow> Some (- EINVAL, s))) }"

fun capidrv_command :: "drv_cfg \<Rightarrow> callback \<Rightarrow> isdn_cmd \<Rightarrow> nat \<Rightarrow> capidrv \<Rightarrow> (int \<times> capidrv) option" where
  "capidrv_command cfg cb (ISDN_CMD_IOCTL arg num) crd s = Some (capidrv_ioctl arg num s)"
| "capidrv_command cfg cb (ISDN_CMD_DIAL arg phone eazmsn si1 si2) crd s = cmd_dial cfg cb crd arg phone eazmsn si1 si2 s"
| "capidrv_command cfg cb (ISDN_CMD_ACCEPTD arg) crd s = cmd_acceptd cfg cb crd arg s"
| "capidrv_command cfg cb (ISDN_CMD_ACCEPTB arg) crd s = Some (- ENOSYS, s)"
| "capidrv_command cfg cb (ISDN_CMD_HANGUP arg) crd s = cmd_hangup cfg cb crd arg s"
| "capidrv_command cfg cb (ISDN_CMD_SETL2 arg) crd s = do {
     i \<leftarrow> chan_of crd (arg mod 256) s;
     s \<leftarrow> upd_bchan crd i (\<lambda>b. b\<lparr>bc_l2 := sint (word_of_nat (arg div 256) :: 32 word)\<rparr>) s;
     Some (0, s) }"
| "capidrv_command cfg cb (ISDN_CMD_SETL3 arg) crd s = do {
     i \<leftarrow> chan_of crd (arg mod 256) s;
     s \<leftarrow> upd_bchan crd i (\<lambda>b. b\<lparr>bc_l3 := sint (word_of_nat (arg div 256) :: 32 word)\<rparr>) s;
     Some (0, s) }"
| "capidrv_command cfg cb (ISDN_CMD_SETEAZ arg num) crd s = do {
     i \<leftarrow> chan_of crd arg s;
     s \<leftarrow> upd_bchan crd i (\<lambda>b. b\<lparr>bc_msn := strncpy num (ISDN_MSNLEN cfg)\<rparr>) s;
     Some (0, s) }"
| "capidrv_command cfg cb (ISDN_CMD_CLREAZ arg) crd s = do {
     i \<leftarrow> chan_of crd arg s;
     s \<leftarrow> upd_bchan crd i (\<lambda>b. b\<lparr>bc_msn := (bc_msn b)[0 := 0]\<rparr>) s;
     Some (0, s) }"
| "capidrv_command cfg cb (ISDN_CMD_other n) crd s = Some (- EINVAL, s)"

definition if_command :: "drv_cfg \<Rightarrow> callback \<Rightarrow> int \<Rightarrow> isdn_cmd \<Rightarrow> capidrv \<Rightarrow> (int \<times> capidrv) option" where
  "if_command cfg cb driver cmd s = do {
     r \<leftarrow> findcontrbydriverid driver s;
     case r of
       Some crd \<Rightarrow> capidrv_command cfg cb cmd crd s
     | None \<Rightarrow> Some (- drv_ENODEV, s) }"

section \<open>Data\<close>

text \<open>\<open>channel % card->nbchan\<close>, both of type \<open>int\<close>.\<close>

definition signed_chan :: "int \<Rightarrow> nat \<Rightarrow> nat option" where
  "signed_chan channel n =
     (if n = 0 \<or> channel smod int n < 0 then None else Some (nat (channel smod int n)))"

definition drop_ack :: "u16 \<Rightarrow> nat \<Rightarrow> capidrv \<Rightarrow> capidrv option" where
  "drop_ack h nccip = upd_ncci nccip (\<lambda>nc. snd (capidrv_del_ack h nc))"

text \<open>
  The header goes in front of the data in the buffer if it has room for it, and into a copy otherwise.
  A confirmation is only asked for if \<open>doack\<close> is set; the entry is queued all the same.
\<close>

definition if_sendbuf :: "drv_cfg \<Rightarrow> int \<Rightarrow> int \<Rightarrow> bool \<Rightarrow> bytes \<Rightarrow> nat \<Rightarrow> capidrv \<Rightarrow> (int \<times> capidrv) option" where
  "if_sendbuf cfg driver channel doack skb headroom s = do {
     r \<leftarrow> findcontrbydriverid driver s;
     case r of
       None \<Rightarrow> Some (0, s)
     | Some crd \<Rightarrow> do {
         ct \<leftarrow> contrs s crd;
         i \<leftarrow> signed_chan channel (nbchan ct);
         b \<leftarrow> get_bchan crd i s;
         case bc_nccip b of
           None \<Rightarrow> Some (0, s)
         | Some nccip \<Rightarrow> do {
             nc \<leftarrow> nccis s nccip;
             if nc_state nc \<noteq> ST_NCCI_ACTIVE then Some (0, s)
             else do {
               let h = nc_datahandle nc;
               let len = int (length skb);
               a \<leftarrow> ap_id cfg s;
               (msgid, s) \<leftarrow> next_msgid crd s;
               let c = capi_fill_DATA_B3_REQ a msgid (nc_ncci nc) (data_addr cfg skb) (word_of_nat (length skb)) h 0;
               let (mem, s) = drv_alloc cfg s;
               if mem = None then Some (0, s)
               else do {
                 s \<leftarrow> upd_ncci nccip (\<lambda>nc. snd (capidrv_add_ack True h (if doack then len else -1) nc)) s;
                 c \<leftarrow> capi_cmsg2message c (cmsg_buf c);
                 msglen \<leftarrow> CAPIMSG_LEN (cur_m c);
                 let (nskb, s) = (if headroom < unat msglen then drv_alloc_skb cfg s else (True, s));
                 if \<not> nskb then do {
                   s \<leftarrow> drop_ack h nccip s;
                   Some (0, s) }
                 else do {
                   hdr \<leftarrow> lds (cur_m c) 0 (unat msglen);
                   (errcode, s) \<leftarrow> drv_put_message cfg (hdr @ skb) s;
                   if errcode = CAPINFO_0X11_NOERR then do {
                     s \<leftarrow> upd_ncci nccip (\<lambda>nc. nc\<lparr>nc_datahandle := nc_datahandle nc + 1\<rparr>) s;
                     Some (len, s) }
                   else do {
                     s \<leftarrow> drop_ack h nccip s;
                     Some (if errcode = CAPINFO_0X11_QUEUEFULL then 0 else -1, s) } } } } } } }"

text \<open>The second component is what is stored in the buffer of the user.\<close>

definition if_readstat :: "nat \<Rightarrow> int \<Rightarrow> capidrv \<Rightarrow> (int \<times> bytes \<times> capidrv) option" where
  "if_readstat len driver s = do {
     r \<leftarrow> findcontrbydriverid driver s;
     case r of
       None \<Rightarrow> Some (- drv_ENODEV, [], s)
     | Some crd \<Rightarrow> do {
         ct \<leftarrow> contrs s crd;
         (bs, q) \<leftarrow> read_bytes len (q931 ct);
         s \<leftarrow> upd_contr crd (\<lambda>ct. ct\<lparr>q931 := q\<rparr>) s;
         Some (int len, bs, s) } }"

section \<open>isdn4linux inside a call\<close>

text \<open>
  isdn4linux is told something: this is recorded, isdn4linux makes the calls that it wants, and it answers.  Inside
  these calls it may be told something again; \<open>depth\<close> is how deep it still calls the driver back.
\<close>

fun hl_call :: "drv_cfg \<Rightarrow> callback \<Rightarrow> hl_call \<Rightarrow> capidrv \<Rightarrow> capidrv option" where
  "hl_call cfg cb (If_command driver cmd) s = map_option snd (if_command cfg cb driver cmd s)"
| "hl_call cfg cb (If_sendbuf driver channel doack skb headroom) s = map_option snd (if_sendbuf cfg driver channel doack skb headroom s)"

primrec isdn4linux :: "drv_cfg \<Rightarrow> nat \<Rightarrow> callback" where
  "isdn4linux cfg 0 e s = (let s = s\<lparr>hl_log := e # hl_log s\<rparr> in Some (hl_answer cfg (hl_log s), s))"
| "isdn4linux cfg (Suc depth) e s = (let s = s\<lparr>hl_log := e # hl_log s\<rparr> in do {
     s' \<leftarrow> fold_opt (hl_call cfg (isdn4linux cfg depth)) (hl_calls cfg (hl_log s)) s;
     Some (hl_answer cfg (hl_log s), s') })"

section \<open>Controllers\<close>

text \<open>\<open>strstr\<close> of \<open>AVM\<close> in an array of bytes.\<close>

fun has_AVM :: "bytes \<Rightarrow> bool" where
  "has_AVM [] = False"
| "has_AVM (b # bs) \<longleftrightarrow> take 3 (b # bs) = [65, 86, 77] \<or> has_AVM bs"

definition enable_dchannel_trace :: "drv_cfg \<Rightarrow> nat \<Rightarrow> capidrv \<Rightarrow> capidrv option" where
  "enable_dchannel_trace cfg crd s = do {
     ct \<leftarrow> contrs s crd;
     let contr = (ucast (contrnr ct) :: u16);
     m \<leftarrow> capi_get_manufacturer (dc_env cfg) (uint contr) (replicate CAPI_MANUFACTURER_LEN 0) (cd_core s);
     case m of
       None \<Rightarrow> Some s
     | Some m \<Rightarrow> do {
         m \<leftarrow> c_string m;
         if \<not> has_AVM m then Some s
         else do {
           v \<leftarrow> capi_get_version (dc_env cfg) (uint contr) (cd_core s);
           case v of
             None \<Rightarrow> Some s
           | Some v \<Rightarrow> do {
               let v0 = (ucast (drop_bit 4 (majormanuversion v) AND 0x0f) :: u16);
               let v1 = (ucast (push_bit 4 (majormanuversion v) AND 0xf0) :: u16) OR
                        ucast (drop_bit 4 (minormanuversion v) AND 0x0f);
               id \<leftarrow> ap_id cfg s;
               (msgid, s) \<leftarrow> next_msgid crd s;
               send_message cfg (capi_fill_MANUFACTURER_REQ id msgid (ucast contr) 0x214D5641 0 1
                 (Some (if v0 > 3 \<or> v0 = 3 \<and> v1 > 5 then [4, 128, 12, 0, 0, 0] else [4, 2, 3, 0, 0, 0]))) s } } } }"

definition send_listen :: "drv_cfg \<Rightarrow> nat \<Rightarrow> capidrv \<Rightarrow> capidrv option" where
  "send_listen cfg crd s = do {
     id \<leftarrow> ap_id cfg s;
     (msgid, s) \<leftarrow> next_msgid crd s;
     ct \<leftarrow> contrs s crd;
     s \<leftarrow> send_message cfg (capi_fill_LISTEN_REQ id msgid (contrnr ct) (push_bit 6 1) (ct_cipmask ct) (ct_cipmask2 ct) None None) s;
     listen_change_state crd EV_LISTEN_REQ s }"

text \<open>\<open>mod_timer\<close> and \<open>del_timer\<close> set and clear \<open>listentimer\<close>; the timer runs when it is set.\<close>

definition listentimerfunc :: "drv_cfg \<Rightarrow> nat \<Rightarrow> capidrv \<Rightarrow> capidrv option" where
  "listentimerfunc cfg crd s = do {
     s \<leftarrow> send_listen cfg crd s;
     upd_contr crd (\<lambda>ct. ct\<lparr>listentimer := True\<rparr>) s }"

definition contr_if :: "u16 \<Rightarrow> capi_profile \<Rightarrow> isdn_if" where
  "contr_if contr profp =
     \<lparr>channels = unat (nbchannel profp), maxbufsize = 2048,
      features = {ISDN_FEATURE_L2_HDLC, ISDN_FEATURE_L2_TRANS, ISDN_FEATURE_L3_TRANS, ISDN_FEATURE_P_UNKNOWN,
          ISDN_FEATURE_L2_X75I, ISDN_FEATURE_L2_X75UI, ISDN_FEATURE_L2_X75BUI} \<union>
        (if support1 profp AND push_bit 2 1 \<noteq> 0
         then {ISDN_FEATURE_L2_V11096, ISDN_FEATURE_L2_V11019, ISDN_FEATURE_L2_V11038} else {}) \<union>
        (if support1 profp AND push_bit 8 1 \<noteq> 0 then {ISDN_FEATURE_L2_MODEM} else {}),
      hl_hdrlen = 22, if_id = ''capidrv-'' @ digits 10 (unat contr)\<rparr>"

definition zero_bchan :: "drv_cfg \<Rightarrow> capidrv_bchan" where
  "zero_bchan cfg = \<lparr>bc_contr = None, bc_msn = replicate (ISDN_MSNLEN cfg) 0, bc_l2 = 0, bc_l3 = 0,
     bc_num = replicate (ISDN_MSNLEN cfg) 0, bc_mynum = replicate (ISDN_MSNLEN cfg) 0, bc_si1 = 0, bc_si2 = 0,
     bc_incoming = False, bc_disconnecting = False, bc_plcip = None, bc_nccip = None\<rparr>"

definition zero_contr :: capidrv_contr where
  "zero_contr = \<lparr>contrnr = 0, myid = 0, ct_state = ST_LISTEN_NONE, ct_cipmask = 0, ct_cipmask2 = 0, listentimer = False,
     ct_msgid = 0, nbchan = 0, bchans = [], plci_list = [], q931 = q931_init\<rparr>"

text \<open>
  \<open>module_ok\<close> is the result of \<open>try_module_get\<close>.  The channels are not initialised (here: there are none) until the
  controller is on the list.  The first failure after the module has been taken does not give it back.
\<close>

definition capidrv_addcontr :: "drv_cfg \<Rightarrow> callback \<Rightarrow> bool \<Rightarrow> u16 \<Rightarrow> capi_profile \<Rightarrow> capidrv \<Rightarrow> (int \<times> capidrv) option" where
  "capidrv_addcontr cfg cb module_ok contr profp s =
     (if \<not> module_ok then Some (-1, s)
      else let s = s\<lparr>mod_refs := mod_refs s + 1\<rparr> in
        (case drv_alloc cfg s of
           (None, s) \<Rightarrow> Some (-1, s)
         | (Some crd, s) \<Rightarrow>
             (case drv_alloc cfg s of
                (None, s) \<Rightarrow> Some (-1, s\<lparr>mod_refs := mod_refs s - 1\<rparr>)
              | (Some _, s) \<Rightarrow> do {
                  let ifc = contr_if contr profp;
                  let s = s\<lparr>hl_log := Register_isdn ifc # hl_log s\<rparr>;
                  case hl_register cfg (hl_log s) of
                    None \<Rightarrow> Some (-1, s\<lparr>mod_refs := mod_refs s - 1\<rparr>)
                  | Some drv \<Rightarrow> do {
                      let n = unat (nbchannel profp);
                      let s = s\<lparr>contrs := (contrs s)(crd \<mapsto> zero_contr\<lparr>contrnr := ucast contr, nbchan := n, myid := drv\<rparr>),
                            contr_list := crd # contr_list s, ncontr := ncontr s + 1\<rparr>;
                      s \<leftarrow> upd_contr crd (\<lambda>ct. ct\<lparr>bchans := replicate n ((zero_bchan cfg)\<lparr>bc_contr := Some crd\<rparr>)\<rparr>) s;
                      (_, s) \<leftarrow> statcallb cb crd ISDN_STAT_RUN s;
                      s \<leftarrow> upd_contr crd (\<lambda>ct. ct\<lparr>ct_cipmask := 0x1FFF03FF, ct_cipmask2 := 0\<rparr>) s;
                      s \<leftarrow> send_listen cfg crd s;
                      s \<leftarrow> upd_contr crd (\<lambda>ct. ct\<lparr>listentimer := True\<rparr>) s;
                      s \<leftarrow> enable_dchannel_trace cfg crd s;
                      Some (0, s) } })))"

text \<open>The loop over the channels, from the last one down; \<open>n\<close> is \<open>card->nbchan\<close>.\<close>

primrec delcontr_chans :: "callback \<Rightarrow> nat \<Rightarrow> nat \<Rightarrow> capidrv \<Rightarrow> capidrv option" where
  "delcontr_chans cb crd 0 s = Some s"
| "delcontr_chans cb crd (Suc n) s = do {
     (_, s) \<leftarrow> statcallb cb crd (ISDN_STAT_DISCH n) s;
     b \<leftarrow> get_bchan crd n s;
     s \<leftarrow> (case bc_nccip b of None \<Rightarrow> Some s | Some nccip \<Rightarrow> free_ncci crd nccip s);
     b \<leftarrow> get_bchan crd n s;
     s \<leftarrow> (case bc_plcip b of None \<Rightarrow> Some s | Some plcip \<Rightarrow> free_plci crd plcip s);
     s \<leftarrow> upd_contr crd (\<lambda>ct. ct\<lparr>nbchan := n\<rparr>) s;
     delcontr_chans cb crd n s }"

definition capidrv_delcontr :: "drv_cfg \<Rightarrow> callback \<Rightarrow> u16 \<Rightarrow> capidrv \<Rightarrow> (int \<times> capidrv) option" where
  "capidrv_delcontr cfg cb contr s = do {
     r \<leftarrow> findcontrbynumber (ucast contr) s;
     case r of
       None \<Rightarrow> Some (-1, s)
     | Some crd \<Rightarrow> do {
         s \<leftarrow> upd_contr crd (\<lambda>ct. ct\<lparr>listentimer := False\<rparr>) s;
         (_, s) \<leftarrow> statcallb cb crd ISDN_STAT_STOP s;
         ct \<leftarrow> contrs s crd;
         s \<leftarrow> delcontr_chans cb crd (nbchan ct) s;
         s \<leftarrow> upd_contr crd (\<lambda>ct. ct\<lparr>bchans := []\<rparr>) s;
         (_, s) \<leftarrow> statcallb cb crd ISDN_STAT_UNLOAD s;
         r \<leftarrow> unlink (contrs s) crd (contr_list s);
         let s = (case r of None \<Rightarrow> s | Some l \<Rightarrow> s\<lparr>contr_list := l, ncontr := ncontr s - 1\<rparr>);
         Some (0, s\<lparr>mod_refs := mod_refs s - 1, contrs := (contrs s)(crd := None)\<rparr>) } }"

text \<open>The class interface: a device of the capicore comes and goes.\<close>

definition capidrv_add :: "drv_cfg \<Rightarrow> callback \<Rightarrow> bool \<Rightarrow> nat \<Rightarrow> capidrv \<Rightarrow> (int \<times> capidrv) option" where
  "capidrv_add cfg cb module_ok d s = do {
     dev \<leftarrow> devs (cd_core s) d;
     (_, s) \<leftarrow> capidrv_addcontr cfg cb module_ok (word_of_nat (dev_id dev)) (dev_profile dev) s;
     Some (0, s) }"

definition capidrv_remove :: "drv_cfg \<Rightarrow> callback \<Rightarrow> nat \<Rightarrow> capidrv \<Rightarrow> capidrv option" where
  "capidrv_remove cfg cb d s = do {
     dev \<leftarrow> devs (cd_core s) d;
     (_, s) \<leftarrow> capidrv_delcontr cfg cb (word_of_nat (dev_id dev)) s;
     Some s }"

text \<open>
  The module: \<open>class_res\<close> is the result of \<open>class_interface_register\<close>.  The handler \<open>capidrv_signal\<close> schedules
  the tasklet, which runs \<open>capidrv_recv_message\<close>.
\<close>

definition capidrv_signal_handler :: nat where "capidrv_signal_handler = 3"

definition capidrv_init :: "drv_cfg \<Rightarrow> int \<Rightarrow> capidrv \<Rightarrow> (int \<times> capidrv) option" where
  "capidrv_init cfg class_res s = do {
     c \<leftarrow> upd_appl (global_ap cfg) (\<lambda>ap. ap\<lparr>appl_params := \<lparr>level3cnt = -2, datablkcnt = 16, datablklen = 2048\<rparr>\<rparr>) (cd_core s);
     c \<leftarrow> capi_set_signal (Some (global_ap cfg)) (Some capidrv_signal_handler) 0 c;
     (errcode, c) \<leftarrow> capi_register (dc_env cfg) (Some (global_ap cfg)) c;
     if errcode \<noteq> 0 then Some (- drv_EIO, s\<lparr>cd_core := c\<rparr>)
     else if class_res \<noteq> 0 then do {
       (_, c) \<leftarrow> capi_release (dc_env cfg) (global_ap cfg) c;
       Some (class_res, s\<lparr>cd_core := c\<rparr>) }
     else Some (0, s\<lparr>cd_core := c\<rparr>) }"

definition capidrv_exit :: "drv_cfg \<Rightarrow> capidrv \<Rightarrow> capidrv option" where
  "capidrv_exit cfg s = do {
     (_, c) \<leftarrow> capi_release (dc_env cfg) (global_ap cfg) (cd_core s);
     Some (s\<lparr>cd_core := c\<rparr>) }"

end
