(* ===== verification/DrvInv.thy ===== *)
theory DrvInv
  imports DrvCommand DrvUtilProps
begin

text \<open>
  The invariant of \<^verbatim>\<open>capidrv.c\<close>: the pointers between controllers, channels, connections and logical connections
  fit together.  It speaks about the links only (\<open>cview\<close>, \<open>pview\<close>, \<open>nview\<close>), so most operations keep it because they do
  not touch a link.

  The facts about an operation are stated with \<open>outcome d\<close>: if the operation is defined, its result satisfies
  the condition, and if \<open>d\<close> is set, it is defined.  One proof gives partial correctness in every situation (\<open>d = False\<close>) and
  total correctness where the surroundings behave (\<open>d = True\<close>).
\<close>

section \<open>Outcomes\<close>

definition outcome :: "bool \<Rightarrow> 'a option \<Rightarrow> ('a \<Rightarrow> bool) \<Rightarrow> bool" where
  "outcome d m P \<longleftrightarrow> (case m of None \<Rightarrow> \<not> d | Some x \<Rightarrow> P x)"

lemma outcome_simps [simp]: "outcome d (Some x) P = P x" "outcome d None P = (\<not> d)"
  by (simp_all add: outcome_def)

lemma outcome_total: "outcome True m P \<longleftrightarrow> (\<exists>x. m = Some x \<and> P x)"
  by (simp add: outcome_def split: option.splits)

lemma outcome_partial: "outcome d m P \<Longrightarrow> m = Some x \<Longrightarrow> P x"
  by (simp add: outcome_def)

lemma outcome_mono: "outcome d m P \<Longrightarrow> (\<And>x. P x \<Longrightarrow> Q x) \<Longrightarrow> outcome d m Q"
  by (simp add: outcome_def split: option.splits)

lemma outcome_bind: "outcome d m P \<Longrightarrow> (\<And>x. P x \<Longrightarrow> outcome d (f x) Q) \<Longrightarrow> outcome d (Option.bind m f) Q"
  by (cases m) simp_all

lemma outcome_opt: "(d \<longrightarrow> m \<noteq> None) \<Longrightarrow> (\<And>x. m = Some x \<Longrightarrow> outcome d (f x) Q) \<Longrightarrow> outcome d (Option.bind m f) Q"
  by (cases m) auto

lemma outcome_pair: "outcome d m (\<lambda>(x, y). P x y) \<Longrightarrow> (\<And>x y. P x y \<Longrightarrow> outcome d (f x y) Q) \<Longrightarrow>
    outcome d (Option.bind m (\<lambda>(x, y). f x y)) Q"
  by (cases m) auto

lemma outcome_map: "outcome d m (\<lambda>x. P (f x)) \<Longrightarrow> outcome d (map_option f m) P"
  by (cases m) simp_all

section \<open>Links\<close>

definition cview :: "capidrv \<Rightarrow> nat \<Rightarrow> (nat \<times> nat list \<times> (nat option \<times> nat option) list) option" where
  "cview s c = map_option (\<lambda>ct. (nbchan ct, plci_list ct, map (\<lambda>b. (bc_plcip b, bc_nccip b)) (bchans ct))) (contrs s c)"

definition pview :: "capidrv \<Rightarrow> nat \<Rightarrow> (nat \<times> nat list) option" where
  "pview s p = map_option (\<lambda>pl. (pl_chan pl, ncci_list pl)) (plcis s p)"

definition nview :: "capidrv \<Rightarrow> nat \<Rightarrow> (nat \<times> nat) option" where
  "nview s n = map_option (\<lambda>nc. (nc_plcip nc, nc_chan nc)) (nccis s n)"

definition same_view :: "capidrv \<Rightarrow> capidrv \<Rightarrow> bool" where
  "same_view s s' \<longleftrightarrow> cview s' = cview s \<and> pview s' = pview s \<and> nview s' = nview s \<and> contr_list s' = contr_list s"

text \<open>A controller: its channels point to the connections on its list, and to logical connections that exist.\<close>

definition contr_ok :: "(nat \<Rightarrow> (nat \<times> nat list) option) \<Rightarrow> (nat \<Rightarrow> (nat \<times> nat) option) \<Rightarrow>
    nat \<times> nat list \<times> (nat option \<times> nat option) list \<Rightarrow> bool" where
  "contr_ok pv nv = (\<lambda>(n, l, bs). n \<le> length bs \<and> distinct l \<and>
     (\<forall>p\<in>set l. \<exists>ch ns. pv p = Some (ch, ns) \<and> ch < n \<and> fst (bs ! ch) = Some p) \<and>
     (\<forall>i<length bs. \<forall>p. fst (bs ! i) = Some p \<longrightarrow> p \<in> set l \<and> (\<exists>ns. pv p = Some (i, ns))) \<and>
     (\<forall>i<length bs. \<forall>m. snd (bs ! i) = Some m \<longrightarrow>
        (\<exists>q. nv m = Some (q, i) \<and> (\<forall>ch ns. pv q = Some (ch, ns) \<longrightarrow> q \<in> set l \<and> m \<in> set ns))))"

definition on_list :: "(nat \<Rightarrow> (nat \<times> nat list \<times> 'a) option) \<Rightarrow> nat \<Rightarrow> nat \<Rightarrow> bool" where
  "on_list cv c p \<longleftrightarrow> (\<exists>n l bs. cv c = Some (n, l, bs) \<and> p \<in> set l)"

definition links_ok :: "capidrv \<Rightarrow> bool" where
  "links_ok s \<longleftrightarrow>
     distinct (contr_list s) \<and> set (contr_list s) = dom (cview s) \<and>
     (\<forall>c x. cview s c = Some x \<longrightarrow> contr_ok (pview s) (nview s) x) \<and>
     (\<forall>c c' p. on_list (cview s) c p \<longrightarrow> on_list (cview s) c' p \<longrightarrow> c = c') \<and>
     (\<forall>p\<in>dom (pview s). \<exists>c. on_list (cview s) c p) \<and>
     (\<forall>p ch ns. pview s p = Some (ch, ns) \<longrightarrow> distinct ns \<and> (\<forall>m\<in>set ns. nview s m = Some (p, ch))) \<and>
     (\<forall>c\<in>dom (cview s). c < cd_brk s) \<and> (\<forall>p\<in>dom (pview s). p < cd_brk s) \<and>
     (\<forall>m q ch. nview s m = Some (q, ch) \<longrightarrow> m < cd_brk s \<and> q < cd_brk s)"

definition rings_ok :: "capidrv \<Rightarrow> bool" where
  "rings_ok s \<longleftrightarrow> (\<forall>c ct. contrs s c = Some ct \<longrightarrow> ring_ok (q931 ct))"

text \<open>The invariant; \<open>q\<close> are the messages that wait for the driver.\<close>

definition drv_inv :: "drv_cfg \<Rightarrow> bytes list \<Rightarrow> capidrv \<Rightarrow> bool" where
  "drv_inv cfg q s \<longleftrightarrow> core_inv (dc_env cfg) (cd_core s) \<and> global_ap cfg \<in> set (capi_appls_list (cd_core s)) \<and>
     links_ok s \<and> rings_ok s \<and> map_option msg_queue (appls (cd_core s) (global_ap cfg)) = Some q"

text \<open>What calls of the driver by isdn4linux do to the links: they only add some.\<close>

definition grows :: "capidrv \<Rightarrow> capidrv \<Rightarrow> bool" where
  "grows s s' \<longleftrightarrow> contr_list s' = contr_list s \<and>
     (\<forall>c n l bs. cview s c = Some (n, l, bs) \<longrightarrow>
        (\<exists>l' bs'. cview s' c = Some (n, l', bs') \<and> set l \<subseteq> set l' \<and> length bs' = length bs)) \<and>
     (\<forall>p ch ns. pview s p = Some (ch, ns) \<longrightarrow> (\<exists>ns'. pview s' p = Some (ch, ns') \<and> set ns \<subseteq> set ns')) \<and>
     (\<forall>m x. nview s m = Some x \<longrightarrow> nview s' m = Some x)"

lemma same_view_refl [simp]: "same_view s s" by (simp add: same_view_def)
lemma same_view_trans [trans]: "same_view s t \<Longrightarrow> same_view t u \<Longrightarrow> same_view s u" by (simp add: same_view_def)
lemma same_view_grows: "same_view s s' \<Longrightarrow> grows s s'" by (simp add: same_view_def grows_def)
lemma links_grow_refl [simp]: "grows s s" by (simp add: grows_def)

lemma grows_contr:
  assumes "grows s s'" and "cview s c = Some (n, l, bs)"
  obtains l' bs' where "cview s' c = Some (n, l', bs')" "set l \<subseteq> set l'" "length bs' = length bs"
  using assms unfolding grows_def by blast

lemma grows_plci:
  assumes "grows s s'" and "pview s p = Some (ch, ns)"
  obtains ns' where "pview s' p = Some (ch, ns')" "set ns \<subseteq> set ns'"
  using assms unfolding grows_def by blast

lemma grows_ncci: "grows s s' \<Longrightarrow> nview s m = Some x \<Longrightarrow> nview s' m = Some x"
  unfolding grows_def by blast

lemma growsI:
  assumes "contr_list s' = contr_list s"
    and "\<And>c n l bs. cview s c = Some (n, l, bs) \<Longrightarrow>
        \<exists>l' bs'. cview s' c = Some (n, l', bs') \<and> set l \<subseteq> set l' \<and> length bs' = length bs"
    and "\<And>p ch ns. pview s p = Some (ch, ns) \<Longrightarrow> \<exists>ns'. pview s' p = Some (ch, ns') \<and> set ns \<subseteq> set ns'"
    and "\<And>m x. nview s m = Some x \<Longrightarrow> nview s' m = Some x"
  shows "grows s s'"
  using assms unfolding grows_def by blast

lemma links_grow_trans [trans]:
  assumes "grows s t" and "grows t u"
  shows "grows s u"
proof (rule growsI)
  show "contr_list u = contr_list s" using assms by (simp add: grows_def)
next
  fix c n l bs assume "cview s c = Some (n, l, bs)"
  with assms(1) obtain l1 bs1 where 1: "cview t c = Some (n, l1, bs1)" "set l \<subseteq> set l1" "length bs1 = length bs"
    by (rule grows_contr)
  from assms(2) 1(1) obtain l2 bs2 where "cview u c = Some (n, l2, bs2)" "set l1 \<subseteq> set l2" "length bs2 = length bs1"
    by (rule grows_contr)
  with 1 show "\<exists>l' bs'. cview u c = Some (n, l', bs') \<and> set l \<subseteq> set l' \<and> length bs' = length bs" by auto
next
  fix p ch ns assume "pview s p = Some (ch, ns)"
  with assms(1) obtain n1 where 1: "pview t p = Some (ch, n1)" "set ns \<subseteq> set n1" by (rule grows_plci)
  from assms(2) 1(1) obtain n2 where "pview u p = Some (ch, n2)" "set n1 \<subseteq> set n2" by (rule grows_plci)
  with 1 show "\<exists>ns'. pview u p = Some (ch, ns') \<and> set ns \<subseteq> set ns'" by auto
next
  fix m x assume "nview s m = Some x"
  with assms grows_ncci show "nview u m = Some x" by blast
qed

lemma links_ok_same:
  assumes "links_ok s" and "same_view s s'" and "cd_brk s \<le> cd_brk s'"
  shows "links_ok s'"
proof -
  have v: "cview s' = cview s" "pview s' = pview s" "nview s' = nview s" "contr_list s' = contr_list s"
    using assms(2) by (simp_all add: same_view_def)
  from assms(1) have "(\<forall>c\<in>dom (cview s). c < cd_brk s') \<and> (\<forall>p\<in>dom (pview s). p < cd_brk s') \<and>
      (\<forall>m q ch. nview s m = Some (q, ch) \<longrightarrow> m < cd_brk s' \<and> q < cd_brk s')"
    unfolding links_ok_def using assms(3) by (meson order_less_le_trans)
  with assms(1) show ?thesis unfolding links_ok_def v by simp
qed

section \<open>Operations that touch no link\<close>

definition keeps :: "drv_cfg \<Rightarrow> bytes list \<Rightarrow> capidrv \<Rightarrow> capidrv \<Rightarrow> bool" where
  "keeps cfg q s s' \<longleftrightarrow> drv_inv cfg q s' \<and> same_view s s'"

definition adds :: "drv_cfg \<Rightarrow> bytes list \<Rightarrow> capidrv \<Rightarrow> capidrv \<Rightarrow> bool" where
  "adds cfg q s s' \<longleftrightarrow> drv_inv cfg q s' \<and> grows s s'"

lemma keepsD: "keeps cfg q s s' \<Longrightarrow> drv_inv cfg q s'" "keeps cfg q s s' \<Longrightarrow> same_view s s'"
  by (simp_all add: keeps_def)

lemma addsD: "adds cfg q s s' \<Longrightarrow> drv_inv cfg q s'" "adds cfg q s s' \<Longrightarrow> grows s s'"
  by (simp_all add: adds_def)

lemma keeps_adds: "keeps cfg q s s' \<Longrightarrow> adds cfg q s s'"
  by (simp add: keeps_def adds_def same_view_grows)

lemma keeps_trans: "keeps cfg q s t \<Longrightarrow> keeps cfg q t u \<Longrightarrow> keeps cfg q s u"
  by (auto simp: keeps_def intro: same_view_trans)

lemma adds_trans: "adds cfg q s t \<Longrightarrow> adds cfg q t u \<Longrightarrow> adds cfg q s u"
  by (auto simp: adds_def intro: links_grow_trans)

lemma keeps_refl: "drv_inv cfg q s \<Longrightarrow> keeps cfg q s s" by (simp add: keeps_def)
lemma adds_refl: "drv_inv cfg q s \<Longrightarrow> adds cfg q s s" by (simp add: adds_def)

lemma drv_inv_parts:
  assumes "drv_inv cfg q s"
  shows "core_inv (dc_env cfg) (cd_core s)" "global_ap cfg \<in> set (capi_appls_list (cd_core s))" "links_ok s" "rings_ok s"
    "map_option msg_queue (appls (cd_core s) (global_ap cfg)) = Some q"
  using assms by (simp_all add: drv_inv_def)

lemma keepsI:
  assumes "drv_inv cfg q s" and "same_view s s'" and "cd_brk s \<le> cd_brk s'" and "cd_core s' = cd_core s" and "rings_ok s'"
  shows "keeps cfg q s s'"
  using assms links_ok_same [OF _ assms(2,3)] by (simp add: keeps_def drv_inv_def)

text \<open>Updates of single structures.\<close>

lemma map_upd_same: "m p = Some x \<Longrightarrow> (map_option g \<circ> (m(p \<mapsto> f x))) = (map_option g \<circ> m) \<longleftrightarrow> g (f x) = g x"
  by (auto simp: fun_eq_iff dest: spec [of _ p])

lemma upd_contr_keeps:
  assumes "drv_inv cfg q s" and "d \<longrightarrow> contrs s c \<noteq> None"
    and "\<And>ct. contrs s c = Some ct \<Longrightarrow> nbchan (f ct) = nbchan ct \<and> plci_list (f ct) = plci_list ct \<and>
      map (\<lambda>b. (bc_plcip b, bc_nccip b)) (bchans (f ct)) = map (\<lambda>b. (bc_plcip b, bc_nccip b)) (bchans ct) \<and>
      (ring_ok (q931 ct) \<longrightarrow> ring_ok (q931 (f ct)))"
  shows "outcome d (upd_contr c f s) (keeps cfg q s)"
proof (cases "contrs s c")
  case None
  with assms(2) show ?thesis by (simp add: upd_contr_def)
next
  case (Some ct)
  let ?s = "s\<lparr>contrs := (contrs s)(c \<mapsto> f ct)\<rparr>"
  note f = assms(3) [OF Some]
  have "same_view s ?s" using Some f by (auto simp: same_view_def cview_def pview_def nview_def fun_eq_iff)
  moreover have "rings_ok ?s" using drv_inv_parts(4) [OF assms(1)] Some f by (auto simp: rings_ok_def)
  ultimately have "keeps cfg q s ?s" by (intro keepsI [OF assms(1)]) simp_all
  then show ?thesis by (simp add: upd_contr_def Some)
qed

lemma upd_bchan_keeps:
  assumes "drv_inv cfg q s" and "d \<longrightarrow> get_bchan c i s \<noteq> None"
    and "\<And>b. bc_plcip (f b) = bc_plcip b \<and> bc_nccip (f b) = bc_nccip b"
  shows "outcome d (upd_bchan c i f s) (keeps cfg q s)"
proof (cases "get_bchan c i s")
  case None
  with assms(2) show ?thesis by (simp add: upd_bchan_def)
next
  case (Some b)
  then obtain ct where ct: "contrs s c = Some ct" "i < length (bchans ct)" "b = bchans ct ! i"
    by (auto simp: get_bchan_def buf_simps)
  have "map (\<lambda>b. (bc_plcip b, bc_nccip b)) ((bchans ct)[i := f b]) = map (\<lambda>b. (bc_plcip b, bc_nccip b)) (bchans ct)"
    by (rule nth_equalityI) (auto simp: nth_list_update ct assms(3))
  with ct(1) have "outcome d (upd_contr c (\<lambda>ct. ct\<lparr>bchans := (bchans ct)[i := f b]\<rparr>) s) (keeps cfg q s)"
    by (intro upd_contr_keeps [OF assms(1)]) auto
  with Some show ?thesis by (simp add: upd_bchan_def)
qed

lemma upd_plci_keeps:
  assumes "drv_inv cfg q s" and "d \<longrightarrow> plcis s p \<noteq> None"
    and "\<And>pl. pl_chan (f pl) = pl_chan pl \<and> ncci_list (f pl) = ncci_list pl"
  shows "outcome d (upd_plci p f s) (keeps cfg q s)"
proof (cases "plcis s p")
  case None
  with assms(2) show ?thesis by (simp add: upd_plci_def)
next
  case (Some pl)
  let ?s = "s\<lparr>plcis := (plcis s)(p \<mapsto> f pl)\<rparr>"
  have "same_view s ?s" using Some assms(3) by (auto simp: same_view_def cview_def pview_def nview_def fun_eq_iff)
  moreover have "rings_ok ?s" using drv_inv_parts(4) [OF assms(1)] by (simp add: rings_ok_def)
  ultimately have "keeps cfg q s ?s" by (intro keepsI [OF assms(1)]) simp_all
  then show ?thesis by (simp add: upd_plci_def Some)
qed

lemma upd_ncci_keeps:
  assumes "drv_inv cfg q s" and "d \<longrightarrow> nccis s n \<noteq> None"
    and "\<And>nc. nccis s n = Some nc \<Longrightarrow> nc_plcip (f nc) = nc_plcip nc \<and> nc_chan (f nc) = nc_chan nc"
  shows "outcome d (upd_ncci n f s) (keeps cfg q s)"
proof (cases "nccis s n")
  case None
  with assms(2) show ?thesis by (simp add: upd_ncci_def)
next
  case (Some nc)
  let ?s = "s\<lparr>nccis := (nccis s)(n \<mapsto> f nc)\<rparr>"
  have "same_view s ?s" using Some assms(3) [OF Some] by (auto simp: same_view_def cview_def pview_def nview_def fun_eq_iff)
  moreover have "rings_ok ?s" using drv_inv_parts(4) [OF assms(1)] by (simp add: rings_ok_def)
  ultimately have "keeps cfg q s ?s" by (intro keepsI [OF assms(1)]) simp_all
  then show ?thesis by (simp add: upd_ncci_def Some)
qed

lemma listen_change_state_keeps:
  assumes "drv_inv cfg q s" and "d \<longrightarrow> contrs s c \<noteq> None"
  shows "outcome d (listen_change_state c ev s) (keeps cfg q s)"
  unfolding listen_change_state_def
  by (rule outcome_opt) (use assms upd_contr_keeps [OF assms] keeps_refl in \<open>auto split: option.splits\<close>)

lemma next_msgid_keeps:
  assumes "drv_inv cfg q s" and "d \<longrightarrow> contrs s c \<noteq> None"
  shows "outcome d (next_msgid c s) (\<lambda>(_, s'). keeps cfg q s s')"
  unfolding next_msgid_def
  by (intro outcome_opt outcome_bind [OF upd_contr_keeps [OF assms]]) (use assms in auto)

lemma alloc_keeps:
  assumes "drv_inv cfg q s"
  shows "keeps cfg q s (s\<lparr>cd_brk := Suc (cd_brk s)\<rparr>)"
  using drv_inv_parts(4) [OF assms]
  by (intro keepsI [OF assms]) (simp_all add: same_view_def cview_def pview_def nview_def fun_eq_iff rings_ok_def)

text \<open>Messages.\<close>

lemma keeps_core:
  assumes "drv_inv cfg q s" and "core_inv (dc_env cfg) c" and "global_ap cfg \<in> set (capi_appls_list c)"
    and "map_option msg_queue (appls c (global_ap cfg)) = Some q"
  shows "keeps cfg q s (s\<lparr>cd_core := c\<rparr>)"
proof -
  let ?s = "s\<lparr>cd_core := c\<rparr>"
  have v: "same_view s ?s" by (simp add: same_view_def cview_def pview_def nview_def fun_eq_iff)
  moreover have "rings_ok ?s" using drv_inv_parts(4) [OF assms(1)] by (simp add: rings_ok_def)
  ultimately show ?thesis
    using assms links_ok_same [OF drv_inv_parts(3) [OF assms(1)] v] by (simp add: keeps_def drv_inv_def)
qed

lemma put_message_queue: "capi_put_message env a m c = Some (info, c') \<Longrightarrow> appls c' = appls c"
  by (auto simp: capi_put_message_def log_drv_def Let_def split: option.splits if_splits)

lemma count_tx_queue: "count_tx a n c = Some c' \<Longrightarrow> map_option msg_queue (appls c' a) = map_option msg_queue (appls c a)"
  by (auto simp: count_tx_def upd_appl_def)

lemma drv_put_message_keeps:
  assumes inv: "drv_inv cfg q s" and m: "d \<longrightarrow> msg_count CAPI_DATA_B3_REQ m \<noteq> None"
  shows "outcome d (drv_put_message cfg m s) (\<lambda>(_, s'). keeps cfg q s s')"
proof (cases "msg_count CAPI_DATA_B3_REQ m")
  case None
  with m show ?thesis by (simp add: drv_put_message_def)
next
  case (Some n)
  note c = drv_inv_parts(1,2) [OF inv]
  from capi_put_message_defined [OF c, of "Some m"] obtain info c1
    where p: "capi_put_message (dc_env cfg) (global_ap cfg) (Some m) (cd_core s) = Some (info, c1)" by auto
  from capi_put_message_keeps [OF c p] have inv1: "core_inv (dc_env cfg) c1" .
  from capi_put_message_ids [OF p] c(2) have l1: "global_ap cfg \<in> set (capi_appls_list c1)" by (simp add: same_ids_def)
  have "\<exists>ap. appls c1 (global_ap cfg) = Some ap" using inv1 l1 by (auto simp: core_inv_def appls_ok_def)
  then obtain c2 where t: "count_tx (global_ap cfg) n c1 = Some c2" by (auto simp: count_tx_def upd_appl_def)
  have q1: "map_option msg_queue (appls c1 (global_ap cfg)) = Some q"
    using drv_inv_parts(5) [OF inv] put_message_queue [OF p] by simp
  from count_inv(1) [OF inv1 t] count_ids(1) [OF t] l1 q1 have "keeps cfg q s (s\<lparr>cd_core := c2\<rparr>)"
    by (intro keeps_core [OF inv]) (simp_all add: same_ids_def count_tx_queue [OF t])
  with keeps_core [OF inv inv1 l1 q1] show ?thesis by (simp add: drv_put_message_def Some p t)
qed

definition assembled :: "cmsg \<Rightarrow> bytes option" where
  "assembled c = do {
     c \<leftarrow> capi_cmsg2message c (cmsg_buf c);
     len \<leftarrow> CAPIMSG_LEN (cur_m c);
     lds (cur_m c) 0 (unat len) }"

text \<open>A message that can be assembled in its buffer and sent.\<close>

definition sendable :: "cmsg \<Rightarrow> bool" where
  "sendable c \<longleftrightarrow> (\<exists>m. assembled c = Some m \<and> msg_count CAPI_DATA_B3_REQ m \<noteq> None)"

lemma send_message_assembled:
  "send_message cfg c s = (case assembled c of None \<Rightarrow> None
     | Some m \<Rightarrow> if alloc_skb_ok cfg (cd_brk s)
         then map_option snd (drv_put_message cfg m (s\<lparr>cd_brk := cd_brk s + 1\<rparr>)) else None)"
  by (auto simp: send_message_def assembled_def drv_alloc_skb_def Let_def bind_eq_None_conv split: option.splits bind_splits)

lemma send_message_keeps:
  assumes inv: "drv_inv cfg q s" and d: "d \<longrightarrow> sendable c \<and> alloc_skb_ok cfg (cd_brk s)"
  shows "outcome d (send_message cfg c s) (keeps cfg q s)"
proof (cases "assembled c")
  case None
  with d show ?thesis by (auto simp: send_message_assembled sendable_def)
next
  case (Some m)
  have "outcome d (drv_put_message cfg m (s\<lparr>cd_brk := Suc (cd_brk s)\<rparr>)) (\<lambda>(_, s'). keeps cfg q (s\<lparr>cd_brk := Suc (cd_brk s)\<rparr>) s')"
    using d Some by (intro drv_put_message_keeps keepsD(1) [OF alloc_keeps [OF inv]]) (auto simp: sendable_def)
  then have "outcome d (drv_put_message cfg m (s\<lparr>cd_brk := Suc (cd_brk s)\<rparr>)) (\<lambda>x. keeps cfg q s (snd x))"
    by (rule outcome_mono) (auto intro: keeps_trans [OF alloc_keeps [OF inv]])
  with d Some show ?thesis by (auto simp: send_message_assembled intro: outcome_map)
qed

section \<open>New connections\<close>

lemma links_okD:
  assumes "links_ok s"
  shows "distinct (contr_list s)" "set (contr_list s) = dom (cview s)"
    "cview s c = Some x \<Longrightarrow> contr_ok (pview s) (nview s) x"
    "on_list (cview s) c p \<Longrightarrow> on_list (cview s) c' p \<Longrightarrow> c = c'"
    "pview s p = Some y \<Longrightarrow> \<exists>c. on_list (cview s) c p"
    "pview s p = Some (ch, ns) \<Longrightarrow> distinct ns \<and> (\<forall>m\<in>set ns. nview s m = Some (p, ch))"
    "cview s c = Some x \<Longrightarrow> c < cd_brk s" "pview s p = Some y \<Longrightarrow> p < cd_brk s"
    "nview s m = Some (q, j) \<Longrightarrow> m < cd_brk s \<and> q < cd_brk s"
  using assms unfolding links_ok_def by (blast+)

lemma links_okI:
  assumes "distinct (contr_list s)" "set (contr_list s) = dom (cview s)"
    "\<And>c x. cview s c = Some x \<Longrightarrow> contr_ok (pview s) (nview s) x"
    "\<And>c c' p. on_list (cview s) c p \<Longrightarrow> on_list (cview s) c' p \<Longrightarrow> c = c'"
    "\<And>p y. pview s p = Some y \<Longrightarrow> \<exists>c. on_list (cview s) c p"
    "\<And>p ch ns. pview s p = Some (ch, ns) \<Longrightarrow> distinct ns \<and> (\<forall>m\<in>set ns. nview s m = Some (p, ch))"
    "\<And>c x. cview s c = Some x \<Longrightarrow> c < cd_brk s" "\<And>p y. pview s p = Some y \<Longrightarrow> p < cd_brk s"
    "\<And>m q j. nview s m = Some (q, j) \<Longrightarrow> m < cd_brk s \<and> q < cd_brk s"
  shows "links_ok s"
  using assms unfolding links_ok_def by (intro conjI allI ballI impI) blast+

lemma contr_okD:
  assumes "contr_ok pv nv (n, l, bs)"
  shows "n \<le> length bs" "distinct l"
    "p \<in> set l \<Longrightarrow> \<exists>ch ns. pv p = Some (ch, ns) \<and> ch < n \<and> fst (bs ! ch) = Some p"
    "i < length bs \<Longrightarrow> fst (bs ! i) = Some p \<Longrightarrow> p \<in> set l \<and> (\<exists>ns. pv p = Some (i, ns))"
    "i < length bs \<Longrightarrow> snd (bs ! i) = Some m \<Longrightarrow>
       \<exists>q. nv m = Some (q, i) \<and> (\<forall>ch ns. pv q = Some (ch, ns) \<longrightarrow> q \<in> set l \<and> m \<in> set ns)"
  using assms unfolding contr_ok_def by auto

lemma contr_okI:
  assumes "n \<le> length bs" "distinct l"
    "\<And>p. p \<in> set l \<Longrightarrow> \<exists>ch ns. pv p = Some (ch, ns) \<and> ch < n \<and> fst (bs ! ch) = Some p"
    "\<And>i p. i < length bs \<Longrightarrow> fst (bs ! i) = Some p \<Longrightarrow> p \<in> set l \<and> (\<exists>ns. pv p = Some (i, ns))"
    "\<And>i m. i < length bs \<Longrightarrow> snd (bs ! i) = Some m \<Longrightarrow>
       \<exists>q. nv m = Some (q, i) \<and> (\<forall>ch ns. pv q = Some (ch, ns) \<longrightarrow> q \<in> set l \<and> m \<in> set ns)"
  shows "contr_ok pv nv (n, l, bs)"
  using assms unfolding contr_ok_def by auto

lemma on_list_upd: "on_list (cv(c \<mapsto> (n, l, bs))) c' p \<longleftrightarrow> (if c' = c then p \<in> set l else on_list cv c' p)"
  by (auto simp: on_list_def)

lemma on_listI: "cv c = Some (n, l, bs) \<Longrightarrow> p \<in> set l \<Longrightarrow> on_list cv c p"
  unfolding on_list_def by blast

lemma contr_ok_other:
  assumes ok: "contr_ok pv nv (n, l, bs)" and p: "\<And>q. q \<in> set l \<Longrightarrow> pv' q = pv q"
    and m: "\<And>i m q. i < length bs \<Longrightarrow> snd (bs ! i) = Some m \<Longrightarrow> nv m = Some (q, i) \<Longrightarrow>
      nv' m = nv m \<and> (pv' q = pv q \<or> pv' q = None)"
  shows "contr_ok pv' nv' (n, l, bs)"
proof (rule contr_okI)
  fix i q assume "i < length bs" "fst (bs ! i) = Some q"
  with contr_okD(4) [OF ok] p show "q \<in> set l \<and> (\<exists>ns. pv' q = Some (i, ns))" by simp
next
  fix i k assume k: "i < length bs" "snd (bs ! i) = Some k"
  from contr_okD(5) [OF ok k] obtain q where q: "nv k = Some (q, i)"
    "\<forall>ch ns. pv q = Some (ch, ns) \<longrightarrow> q \<in> set l \<and> k \<in> set ns" by blast
  with m [OF k q(1)] show "\<exists>q. nv' k = Some (q, i) \<and> (\<forall>ch ns. pv' q = Some (ch, ns) \<longrightarrow> q \<in> set l \<and> k \<in> set ns)" by auto
qed (use contr_okD(1-3) [OF ok] p in simp_all)

lemma links_new_plci:
  assumes ok: "links_ok s" and c: "cview s c = Some (n, l, bs)" and i: "i < n" "fst (bs ! i) = None" and p: "p = cd_brk s"
    and s': "cview s' = (cview s)(c \<mapsto> (n, p # l, bs[i := (Some p, snd (bs ! i))]))" "pview s' = (pview s)(p \<mapsto> (i, []))"
      "nview s' = nview s" "contr_list s' = contr_list s" "cd_brk s' = Suc (cd_brk s)"
  shows "links_ok s'"
proof -
  note D = links_okD [OF ok]
  note K = contr_okD [OF D(3) [OF c]]
  have fresh: "pview s p = None" using D(8) [of p] p by (cases "pview s p") auto
  have no_owner: "q \<noteq> p" if "nview s m = Some (q, j)" for m q j using D(9) [OF that] p by auto
  have no_list: "\<not> on_list (cview s) c' p" for c'
  proof
    assume "on_list (cview s) c' p"
    then obtain n' l' bs' where "cview s c' = Some (n', l', bs')" "p \<in> set l'" by (auto simp: on_list_def)
    from contr_okD(3) [OF D(3) [OF this(1)] this(2)] fresh show False by auto
  qed
  then have pl: "p \<notin> set l" using c by (auto simp: on_list_def)
  have il: "i < length bs" using i(1) K(1) by simp
  show ?thesis
  proof (rule links_okI, unfold s')
    fix c' x assume x: "((cview s)(c \<mapsto> (n, p # l, bs[i := (Some p, snd (bs ! i))]))) c' = Some x"
    show "contr_ok ((pview s)(p \<mapsto> (i, []))) (nview s) x"
    proof (cases "c' = c")
      case True
      have "contr_ok ((pview s)(p \<mapsto> (i, []))) (nview s) (n, p # l, bs[i := (Some p, snd (bs ! i))])"
      proof (rule contr_okI)
        fix q assume q: "q \<in> set (p # l)"
        show "\<exists>ch ns. ((pview s)(p \<mapsto> (i, []))) q = Some (ch, ns) \<and> ch < n \<and> fst (bs[i := (Some p, snd (bs ! i))] ! ch) = Some q"
        proof (cases "q = p")
          case True
          with i(1) il show ?thesis by simp
        next
          case False
          with q K(3) [of q] obtain ch ns where "pview s q = Some (ch, ns)" "ch < n" "fst (bs ! ch) = Some q" by auto
          with False i(2) show ?thesis by (cases "ch = i") auto
        qed
      next
        fix j q assume "j < length (bs[i := (Some p, snd (bs ! i))])" "fst (bs[i := (Some p, snd (bs ! i))] ! j) = Some q"
        with K(4) [of j q] pl il show "q \<in> set (p # l) \<and> (\<exists>ns. ((pview s)(p \<mapsto> (i, []))) q = Some (j, ns))"
          by (cases "j = i") auto
      next
        fix j m assume "j < length (bs[i := (Some p, snd (bs ! i))])" "snd (bs[i := (Some p, snd (bs ! i))] ! j) = Some m"
        then have "j < length bs" "snd (bs ! j) = Some m" using il by (cases "j = i"; simp)+
        with K(5) [of j m] no_owner show "\<exists>q. nview s m = Some (q, j) \<and>
            (\<forall>ch ns. ((pview s)(p \<mapsto> (i, []))) q = Some (ch, ns) \<longrightarrow> q \<in> set (p # l) \<and> m \<in> set ns)" by fastforce
      qed (use K(1,2) pl in simp_all)
      with True x show ?thesis by simp
    next
      case False
      obtain n' l' bs' where x': "x = (n', l', bs')" by (cases x)
      with False x have cx: "cview s c' = Some (n', l', bs')" by simp
      have "q \<noteq> p" if "q \<in> set l'" for q using no_list [of c'] on_listI [where cv = "cview s", OF cx that] by auto
      with no_owner show ?thesis unfolding x' by (intro contr_ok_other [OF D(3) [OF cx]]) auto
    qed
  next
    fix c1 c2 q assume "on_list ((cview s)(c \<mapsto> (n, p # l, bs[i := (Some p, snd (bs ! i))]))) c1 q"
      "on_list ((cview s)(c \<mapsto> (n, p # l, bs[i := (Some p, snd (bs ! i))]))) c2 q"
    with D(4) no_list on_listI [where cv = "cview s", OF c] show "c1 = c2" by (auto simp: on_list_upd split: if_splits)
  next
    fix q y assume "((pview s)(p \<mapsto> (i, []))) q = Some y"
    with D(5) [of q] obtain c' where "q = p \<or> on_list (cview s) c' q" by (auto split: if_splits)
    then show "\<exists>c'. on_list ((cview s)(c \<mapsto> (n, p # l, bs[i := (Some p, snd (bs ! i))]))) c' q"
      using c by (cases "c' = c") (auto simp: on_list_upd on_list_def)
  next
    fix q ch ns assume "((pview s)(p \<mapsto> (i, []))) q = Some (ch, ns)"
    with D(6) [of q ch ns] show "distinct ns \<and> (\<forall>m\<in>set ns. nview s m = Some (q, ch))" by (auto split: if_splits)
  qed (use D(1,2) D(7-9) c p in \<open>auto split: if_splits intro: less_SucI\<close>)
qed

lemma links_free_plci:
  assumes ok: "links_ok s" and c: "cview s c = Some (n, l, bs)" and p: "p \<in> set l" "pview s p = Some (i, ns)"
    and s': "cview s' = (cview s)(c \<mapsto> (n, remove1 p l, bs[i := (None, snd (bs ! i))]))" "pview s' = (pview s)(p := None)"
      "nview s' = nview s" "contr_list s' = contr_list s" "cd_brk s' = cd_brk s"
  shows "links_ok s'"
proof -
  note D = links_okD [OF ok]
  note K = contr_okD [OF D(3) [OF c]]
  have pl: "set (remove1 p l) = set l - {p}" using K(2) by simp
  from K(3) [OF p(1)] p(2) have i: "i < n" "fst (bs ! i) = Some p" by auto
  then have il: "i < length bs" using K(1) by simp
  have only: "c' = c" if "on_list (cview s) c' p" for c' using D(4) that on_listI [where cv = "cview s", OF c p(1)] by blast
  show ?thesis
  proof (rule links_okI, unfold s')
    fix c' x assume x: "((cview s)(c \<mapsto> (n, remove1 p l, bs[i := (None, snd (bs ! i))]))) c' = Some x"
    show "contr_ok ((pview s)(p := None)) (nview s) x"
    proof (cases "c' = c")
      case True
      have "contr_ok ((pview s)(p := None)) (nview s) (n, remove1 p l, bs[i := (None, snd (bs ! i))])"
      proof (rule contr_okI)
        fix q assume "q \<in> set (remove1 p l)"
        then have q: "q \<in> set l" "q \<noteq> p" by (simp_all add: pl)
        from K(3) [OF q(1)] obtain ch ns where "pview s q = Some (ch, ns)" "ch < n" "fst (bs ! ch) = Some q" by auto
        with q(2) i(2) show "\<exists>ch ns. ((pview s)(p := None)) q = Some (ch, ns) \<and> ch < n \<and>
            fst (bs[i := (None, snd (bs ! i))] ! ch) = Some q" by (cases "ch = i") auto
      next
        fix j q assume "j < length (bs[i := (None, snd (bs ! i))])" "fst (bs[i := (None, snd (bs ! i))] ! j) = Some q"
        then have j: "j \<noteq> i" "j < length bs" "fst (bs ! j) = Some q" using il by (cases "j = i"; simp)+
        with K(4) [OF j(2,3)] p(2) show "q \<in> set (remove1 p l) \<and> (\<exists>ns. ((pview s)(p := None)) q = Some (j, ns))"
          by (auto simp: pl)
      next
        fix j m assume "j < length (bs[i := (None, snd (bs ! i))])" "snd (bs[i := (None, snd (bs ! i))] ! j) = Some m"
        then have "j < length bs" "snd (bs ! j) = Some m" using il by (cases "j = i"; simp)+
        with K(5) [of j m] obtain q where "nview s m = Some (q, j)"
          "\<forall>ch ns. pview s q = Some (ch, ns) \<longrightarrow> q \<in> set l \<and> m \<in> set ns" by blast
        then show "\<exists>q. nview s m = Some (q, j) \<and>
            (\<forall>ch ns. ((pview s)(p := None)) q = Some (ch, ns) \<longrightarrow> q \<in> set (remove1 p l) \<and> m \<in> set ns)" by (auto simp: pl)
      qed (use K(1,2) in simp_all)
      with True x show ?thesis by simp
    next
      case False
      obtain n' l' bs' where x': "x = (n', l', bs')" by (cases x)
      with False x have cx: "cview s c' = Some (n', l', bs')" by simp
      have "q \<noteq> p" if "q \<in> set l'" for q using only [of c'] False on_listI [where cv = "cview s", OF cx that] by auto
      then show ?thesis unfolding x' by (intro contr_ok_other [OF D(3) [OF cx]]) auto
    qed
  next
    fix c1 c2 q assume "on_list ((cview s)(c \<mapsto> (n, remove1 p l, bs[i := (None, snd (bs ! i))]))) c1 q"
      "on_list ((cview s)(c \<mapsto> (n, remove1 p l, bs[i := (None, snd (bs ! i))]))) c2 q"
    with D(4) on_listI [where cv = "cview s", OF c] show "c1 = c2" by (auto simp: on_list_upd pl split: if_splits)
  next
    fix q y assume q: "((pview s)(p := None)) q = Some y"
    with D(5) [of q] obtain c' where "on_list (cview s) c' q" by (auto split: if_splits)
    with q c show "\<exists>c'. on_list ((cview s)(c \<mapsto> (n, remove1 p l, bs[i := (None, snd (bs ! i))]))) c' q"
      by (cases "c' = c") (auto simp: on_list_upd on_list_def pl split: if_splits)
  next
    fix q ch ns assume "((pview s)(p := None)) q = Some (ch, ns)"
    with D(6) [of q ch ns] show "distinct ns \<and> (\<forall>m\<in>set ns. nview s m = Some (q, ch))" by (auto split: if_splits)
  qed (use D(1,2) D(7-9) c in \<open>auto split: if_splits\<close>)
qed

lemma links_new_ncci:
  assumes ok: "links_ok s" and c: "cview s c = Some (n, l, bs)" and p: "p \<in> set l" "pview s p = Some (i, ns)" and m: "m = cd_brk s"
    and s': "cview s' = (cview s)(c \<mapsto> (n, l, bs[i := (fst (bs ! i), Some m)]))" "pview s' = (pview s)(p \<mapsto> (i, m # ns))"
      "nview s' = (nview s)(m \<mapsto> (p, i))" "contr_list s' = contr_list s" "cd_brk s' = Suc (cd_brk s)"
  shows "links_ok s'"
proof -
  note D = links_okD [OF ok]
  note K = contr_okD [OF D(3) [OF c]]
  from K(3) [OF p(1)] p(2) have i: "i < n" "fst (bs ! i) = Some p" by auto
  then have il: "i < length bs" using K(1) by simp
  have only: "c' = c" if "on_list (cview s) c' p" for c' using D(4) that on_listI [where cv = "cview s", OF c p(1)] by blast
  have fresh: "nview s m = None" using D(9) [of m] m by (cases "nview s m") auto
  have old: "k \<noteq> m" if "nview s k = Some x" for k x using fresh that by auto
  show ?thesis
  proof (rule links_okI, unfold s')
    fix c' x assume x: "((cview s)(c \<mapsto> (n, l, bs[i := (fst (bs ! i), Some m)]))) c' = Some x"
    show "contr_ok ((pview s)(p \<mapsto> (i, m # ns))) ((nview s)(m \<mapsto> (p, i))) x"
    proof (cases "c' = c")
      case True
      have "contr_ok ((pview s)(p \<mapsto> (i, m # ns))) ((nview s)(m \<mapsto> (p, i))) (n, l, bs[i := (fst (bs ! i), Some m)])"
      proof (rule contr_okI)
        fix q assume q: "q \<in> set l"
        from K(3) [OF q] obtain ch ns' where "pview s q = Some (ch, ns')" "ch < n" "fst (bs ! ch) = Some q" by auto
        then show "\<exists>ch ns'. ((pview s)(p \<mapsto> (i, m # ns))) q = Some (ch, ns') \<and> ch < n \<and>
            fst (bs[i := (fst (bs ! i), Some m)] ! ch) = Some q"
          using p(2) il by (cases "q = p"; cases "ch = i") auto
      next
        fix j q assume "j < length (bs[i := (fst (bs ! i), Some m)])" "fst (bs[i := (fst (bs ! i), Some m)] ! j) = Some q"
        then have j: "j < length bs" "fst (bs ! j) = Some q" using il by (cases "j = i"; simp)+
        with K(4) [OF j] p(2) show "q \<in> set l \<and> (\<exists>ns'. ((pview s)(p \<mapsto> (i, m # ns))) q = Some (j, ns'))" by auto
      next
        fix j k assume j: "j < length (bs[i := (fst (bs ! i), Some m)])" "snd (bs[i := (fst (bs ! i), Some m)] ! j) = Some k"
        show "\<exists>q. ((nview s)(m \<mapsto> (p, i))) k = Some (q, j) \<and>
            (\<forall>ch ns'. ((pview s)(p \<mapsto> (i, m # ns))) q = Some (ch, ns') \<longrightarrow> q \<in> set l \<and> k \<in> set ns')"
        proof (cases "j = i")
          case True
          with j il p show ?thesis by auto
        next
          case False
          with j have "j < length bs" "snd (bs ! j) = Some k" by simp_all
          with K(5) [of j k] obtain q where "nview s k = Some (q, j)"
            "\<forall>ch ns. pview s q = Some (ch, ns) \<longrightarrow> q \<in> set l \<and> k \<in> set ns" by blast
          with old p(2) show ?thesis by auto
        qed
      qed (use K(1,2) in simp_all)
      with True x show ?thesis by simp
    next
      case False
      obtain n' l' bs' where x': "x = (n', l', bs')" by (cases x)
      with False x have cx: "cview s c' = Some (n', l', bs')" by simp
      have 1: "q \<noteq> p" if "q \<in> set l'" for q using only [of c'] False on_listI [where cv = "cview s", OF cx that] by auto
      have 2: "q \<noteq> p" if k: "j < length bs'" "snd (bs' ! j) = Some k" "nview s k = Some (q, j)" for j k q
        using contr_okD(5) [OF D(3) [OF cx] k(1,2)] k(3) 1 p(2) by auto
      show ?thesis unfolding x' by (rule contr_ok_other [OF D(3) [OF cx]]) (use 1 2 old in auto)
    qed
  next
    fix c1 c2 q assume "on_list ((cview s)(c \<mapsto> (n, l, bs[i := (fst (bs ! i), Some m)]))) c1 q"
      "on_list ((cview s)(c \<mapsto> (n, l, bs[i := (fst (bs ! i), Some m)]))) c2 q"
    with D(4) on_listI [where cv = "cview s", OF c] show "c1 = c2" by (auto simp: on_list_upd split: if_splits)
  next
    fix q y assume q: "((pview s)(p \<mapsto> (i, m # ns))) q = Some y"
    with D(5) [of q] p(2) D(5) [of p] obtain c' where "on_list (cview s) c' q" by (auto split: if_splits)
    with c show "\<exists>c'. on_list ((cview s)(c \<mapsto> (n, l, bs[i := (fst (bs ! i), Some m)]))) c' q"
      by (cases "c' = c") (auto simp: on_list_upd on_list_def)
  next
    fix q ch ns' assume q: "((pview s)(p \<mapsto> (i, m # ns))) q = Some (ch, ns')"
    have "m \<notin> set ns" using D(6) [OF p(2)] fresh by auto
    with D(6) [OF p(2)] D(6) [of q ch ns'] q old show "distinct ns' \<and> (\<forall>k\<in>set ns'. ((nview s)(m \<mapsto> (p, i))) k = Some (q, ch))"
      by (auto split: if_splits)
  qed (use D(1,2) D(7-9) D(8) [OF p(2)] c m in \<open>auto split: if_splits intro: less_SucI\<close>)
qed

lemma links_free_ncci:
  assumes ok: "links_ok s" and c: "cview s c = Some (n, l, bs)" and p: "p \<in> set l" "pview s p = Some (i, ns)" "m \<in> set ns"
    and s': "cview s' = (cview s)(c \<mapsto> (n, l, bs[i := (fst (bs ! i), None)]))" "pview s' = (pview s)(p \<mapsto> (i, remove1 m ns))"
      "nview s' = (nview s)(m := None)" "contr_list s' = contr_list s" "cd_brk s' = cd_brk s"
  shows "links_ok s'"
proof -
  note D = links_okD [OF ok]
  note K = contr_okD [OF D(3) [OF c]]
  from K(3) [OF p(1)] p(2) have i: "i < n" "fst (bs ! i) = Some p" by auto
  then have il: "i < length bs" using K(1) by simp
  have only: "c' = c" if "on_list (cview s) c' p" for c' using D(4) that on_listI [where cv = "cview s", OF c p(1)] by blast
  from D(6) [OF p(2)] p(3) have m: "nview s m = Some (p, i)" and rem: "set (remove1 m ns) = set ns - {m}" "distinct ns" by simp_all
  show ?thesis
  proof (rule links_okI, unfold s')
    fix c' x assume x: "((cview s)(c \<mapsto> (n, l, bs[i := (fst (bs ! i), None)]))) c' = Some x"
    show "contr_ok ((pview s)(p \<mapsto> (i, remove1 m ns))) ((nview s)(m := None)) x"
    proof (cases "c' = c")
      case True
      have "contr_ok ((pview s)(p \<mapsto> (i, remove1 m ns))) ((nview s)(m := None)) (n, l, bs[i := (fst (bs ! i), None)])"
      proof (rule contr_okI)
        fix q assume q: "q \<in> set l"
        from K(3) [OF q] obtain ch ns' where "pview s q = Some (ch, ns')" "ch < n" "fst (bs ! ch) = Some q" by auto
        then show "\<exists>ch ns'. ((pview s)(p \<mapsto> (i, remove1 m ns))) q = Some (ch, ns') \<and> ch < n \<and>
            fst (bs[i := (fst (bs ! i), None)] ! ch) = Some q"
          using p(2) il by (cases "q = p"; cases "ch = i") auto
      next
        fix j q assume "j < length (bs[i := (fst (bs ! i), None)])" "fst (bs[i := (fst (bs ! i), None)] ! j) = Some q"
        then have j: "j < length bs" "fst (bs ! j) = Some q" using il by (cases "j = i"; simp)+
        with K(4) [OF j] p(2) show "q \<in> set l \<and> (\<exists>ns'. ((pview s)(p \<mapsto> (i, remove1 m ns))) q = Some (j, ns'))" by auto
      next
        fix j k assume "j < length (bs[i := (fst (bs ! i), None)])" "snd (bs[i := (fst (bs ! i), None)] ! j) = Some k"
        then have j: "j \<noteq> i" "j < length bs" "snd (bs ! j) = Some k" using il by (cases "j = i"; simp)+
        from K(5) [OF j(2,3)] obtain q where "nview s k = Some (q, j)"
          "\<forall>ch ns. pview s q = Some (ch, ns) \<longrightarrow> q \<in> set l \<and> k \<in> set ns" by blast
        with j(1) m p(2) show "\<exists>q. ((nview s)(m := None)) k = Some (q, j) \<and>
            (\<forall>ch ns'. ((pview s)(p \<mapsto> (i, remove1 m ns))) q = Some (ch, ns') \<longrightarrow> q \<in> set l \<and> k \<in> set ns')"
          by (auto simp: rem(1))
      qed (use K(1,2) in simp_all)
      with True x show ?thesis by simp
    next
      case False
      obtain n' l' bs' where x': "x = (n', l', bs')" by (cases x)
      with False x have cx: "cview s c' = Some (n', l', bs')" by simp
      have 1: "q \<noteq> p" if "q \<in> set l'" for q using only [of c'] False on_listI [where cv = "cview s", OF cx that] by auto
      have 2: "q \<noteq> p" if k: "j < length bs'" "snd (bs' ! j) = Some k" "nview s k = Some (q, j)" for j k q
        using contr_okD(5) [OF D(3) [OF cx] k(1,2)] k(3) 1 p(2) by auto
      have "k \<noteq> m" if k: "j < length bs'" "snd (bs' ! j) = Some k" "nview s k = Some (q, j)" for j k q
        using 2 [OF k] k(3) m by auto
      with 1 2 show ?thesis unfolding x' by (intro contr_ok_other [OF D(3) [OF cx]]) auto
    qed
  next
    fix c1 c2 q assume "on_list ((cview s)(c \<mapsto> (n, l, bs[i := (fst (bs ! i), None)]))) c1 q"
      "on_list ((cview s)(c \<mapsto> (n, l, bs[i := (fst (bs ! i), None)]))) c2 q"
    with D(4) on_listI [where cv = "cview s", OF c] show "c1 = c2" by (auto simp: on_list_upd split: if_splits)
  next
    fix q y assume q: "((pview s)(p \<mapsto> (i, remove1 m ns))) q = Some y"
    with D(5) [of q] p(2) D(5) [of p] obtain c' where "on_list (cview s) c' q" by (auto split: if_splits)
    with c show "\<exists>c'. on_list ((cview s)(c \<mapsto> (n, l, bs[i := (fst (bs ! i), None)]))) c' q"
      by (cases "c' = c") (auto simp: on_list_upd on_list_def)
  next
    fix q ch ns' assume q: "((pview s)(p \<mapsto> (i, remove1 m ns))) q = Some (ch, ns')"
    show "distinct ns' \<and> (\<forall>k\<in>set ns'. ((nview s)(m := None)) k = Some (q, ch))"
    proof (cases "q = p")
      case True
      with q D(6) [OF p(2)] show ?thesis by (auto simp: rem(1))
    next
      case False
      with q D(6) [of q ch ns'] m show ?thesis by auto
    qed
  qed (use D(1,2) D(7-9) D(8) [OF p(2)] c in \<open>auto split: if_splits\<close>)
qed

end
