(* ===== verification/DrvInvOps.thy ===== *)
theory DrvInvOps
  imports DrvInv
begin

text \<open>
  The operations of \<^verbatim>\<open>capidrv.c\<close> on connections keep the invariant: allocation, search and release, and the changes of
  state.  isdn4linux enters as the locale \<open>upper_layer\<close>: a call of it may change whatever it wants through the interface of the driver,
  which only adds connections.
\<close>

section \<open>Where connections are\<close>

definition ncci_on :: "capidrv \<Rightarrow> nat \<Rightarrow> nat \<Rightarrow> bool" where
  "ncci_on s c m \<longleftrightarrow> (\<exists>p ch ns. on_list (cview s) c p \<and> pview s p = Some (ch, ns) \<and> m \<in> set ns)"

abbreviation plci_on :: "capidrv \<Rightarrow> nat \<Rightarrow> nat \<Rightarrow> bool" where
  "plci_on s \<equiv> on_list (cview s)"

lemma contr_mapped_grows: "grows s s' \<Longrightarrow> contrs s c \<noteq> None \<Longrightarrow> contrs s' c \<noteq> None"
proof -
  assume g: "grows s s'" and "contrs s c \<noteq> None"
  then obtain n l bs where "cview s c = Some (n, l, bs)" by (auto simp: cview_def)
  from g this obtain l' bs' where "cview s' c = Some (n, l', bs')" by (rule grows_contr)
  then show ?thesis by (auto simp: cview_def)
qed

lemma plci_on_grows: "grows s s' \<Longrightarrow> plci_on s c p \<Longrightarrow> plci_on s' c p"
  unfolding on_list_def by (meson grows_contr subsetD)

lemma ncci_on_grows: "grows s s' \<Longrightarrow> ncci_on s c m \<Longrightarrow> ncci_on s' c m"
  unfolding ncci_on_def by (meson grows_plci plci_on_grows subsetD)

lemma ncci_mapped_grows: "grows s s' \<Longrightarrow> nccis s m \<noteq> None \<Longrightarrow> nccis s' m \<noteq> None"
  using grows_ncci [of s s' m] by (auto simp: nview_def)

lemma plci_mapped_grows: "grows s s' \<Longrightarrow> plcis s p \<noteq> None \<Longrightarrow> plcis s' p \<noteq> None"
proof -
  assume g: "grows s s'" and "plcis s p \<noteq> None"
  then obtain ch ns where "pview s p = Some (ch, ns)" by (auto simp: pview_def)
  from g this obtain ns' where "pview s' p = Some (ch, ns')" by (rule grows_plci)
  then show ?thesis by (auto simp: pview_def)
qed

lemmas stays = contr_mapped_grows plci_on_grows ncci_on_grows ncci_mapped_grows plci_mapped_grows

lemma plci_onE:
  assumes "links_ok s" and "plci_on s c p"
  obtains ct pl where "contrs s c = Some ct" "p \<in> set (plci_list ct)" "plcis s p = Some pl" "pl_chan pl < nbchan ct"
    "nbchan ct \<le> length (bchans ct)" "bc_plcip (bchans ct ! pl_chan pl) = Some p" "distinct (plci_list ct)"
    "set (plci_list ct) \<subseteq> dom (plcis s)"
proof -
  from assms(2) obtain ct where ct: "contrs s c = Some ct" "p \<in> set (plci_list ct)" by (auto simp: on_list_def cview_def)
  let ?bs = "map (\<lambda>b. (bc_plcip b, bc_nccip b)) (bchans ct)"
  have "cview s c = Some (nbchan ct, plci_list ct, ?bs)" using ct(1) by (simp add: cview_def)
  from links_okD(3) [OF assms(1) this] have ok: "contr_ok (pview s) (nview s) (nbchan ct, plci_list ct, ?bs)" .
  from contr_okD(3) [OF ok ct(2)] obtain pl where pl: "plcis s p = Some pl" "pl_chan pl < nbchan ct" "fst (?bs ! pl_chan pl) = Some p"
    by (auto simp: pview_def)
  have "set (plci_list ct) \<subseteq> dom (plcis s)"
  proof
    fix q assume "q \<in> set (plci_list ct)"
    from contr_okD(3) [OF ok this] show "q \<in> dom (plcis s)" by (auto simp: pview_def)
  qed
  with that ct pl contr_okD(1,2) [OF ok] show ?thesis by simp
qed

lemma ncci_onE:
  assumes "links_ok s" and "ncci_on s c m"
  obtains p pl nc where "plci_on s c p" "plcis s p = Some pl" "m \<in> set (ncci_list pl)" "nccis s m = Some nc"
    "nc_plcip nc = p" "nc_chan nc = pl_chan pl" "distinct (ncci_list pl)" "set (ncci_list pl) \<subseteq> dom (nccis s)"
proof -
  from assms(2) obtain p pl where p: "plci_on s c p" "plcis s p = Some pl" "m \<in> set (ncci_list pl)"
    by (auto simp: ncci_on_def pview_def)
  have "pview s p = Some (pl_chan pl, ncci_list pl)" using p(2) by (simp add: pview_def)
  from links_okD(6) [OF assms(1) this] have d: "distinct (ncci_list pl)"
    and m: "\<forall>m\<in>set (ncci_list pl). nview s m = Some (p, pl_chan pl)" by simp_all
  from m p(3) obtain nc where "nccis s m = Some nc" "nc_plcip nc = p" "nc_chan nc = pl_chan pl" by (auto simp: nview_def)
  moreover have "set (ncci_list pl) \<subseteq> dom (nccis s)" using m by (auto simp: nview_def)
  ultimately show ?thesis using that p d by blast
qed

section \<open>Searching\<close>

lemma find_in_ok: "set ps \<subseteq> dom h \<Longrightarrow> \<exists>r. find_in h P ps = Some r \<and> (\<forall>p. r = Some p \<longrightarrow> p \<in> set ps \<and> P (the (h p)))"
  by (induction ps) auto

lemma unlink_ok: "set ps \<subseteq> dom h \<Longrightarrow> unlink h p ps = Some (if p \<in> set ps then Some (remove1 p ps) else None)"
  by (induction ps) auto

lemma findcontr_ok:
  assumes "drv_inv cfg q s"
  shows "outcome d (findcontrbynumber n s) (\<lambda>r. \<forall>c. r = Some c \<longrightarrow> contrs s c \<noteq> None)"
    "outcome d (findcontrbydriverid i s) (\<lambda>r. \<forall>c. r = Some c \<longrightarrow> contrs s c \<noteq> None)"
proof -
  have l: "set (contr_list s) \<subseteq> dom (contrs s)"
    using links_okD(2) [OF drv_inv_parts(3) [OF assms]] by (auto simp: cview_def dom_def)
  have "outcome d (find_in (contrs s) P (contr_list s)) (\<lambda>r. \<forall>c. r = Some c \<longrightarrow> contrs s c \<noteq> None)" for P
    using find_in_ok [OF l, of P] l by (auto dest!: subsetD [OF l])
  then show "outcome d (findcontrbynumber n s) (\<lambda>r. \<forall>c. r = Some c \<longrightarrow> contrs s c \<noteq> None)"
    "outcome d (findcontrbydriverid i s) (\<lambda>r. \<forall>c. r = Some c \<longrightarrow> contrs s c \<noteq> None)"
    unfolding findcontrbynumber_def findcontrbydriverid_def by blast+
qed

lemma find_plci_in:
  assumes "drv_inv cfg q s" and "d \<longrightarrow> contrs s c \<noteq> None"
  shows "outcome d (do { ct \<leftarrow> contrs s c; find_in (plcis s) P (plci_list ct) }) (\<lambda>r. \<forall>p. r = Some p \<longrightarrow> plci_on s c p)"
proof (cases "contrs s c")
  case (Some ct)
  have cv: "cview s c = Some (nbchan ct, plci_list ct, map (\<lambda>b. (bc_plcip b, bc_nccip b)) (bchans ct))"
    using Some by (simp add: cview_def)
  from contr_okD(3) [OF links_okD(3) [OF drv_inv_parts(3) [OF assms(1)] cv]]
  have "set (plci_list ct) \<subseteq> dom (plcis s)" by (force simp: pview_def)
  from find_in_ok [OF this, of P] Some cv show ?thesis by (auto simp: on_list_def)
qed (use assms(2) in simp)

lemmas find_plci_ok =
  find_plci_in [where P = "\<lambda>p. pl_plci p = x" for x, folded find_plci_by_plci_def]
  find_plci_in [where P = "\<lambda>p. pl_msgid p = x" for x, folded find_plci_by_msgid_def]
  find_plci_in [where P = "\<lambda>p. pl_plci p = x AND 0xffff" for x, folded find_plci_by_ncci_def]

lemma find_ncci_in:
  assumes "drv_inv cfg q s" and "d \<longrightarrow> contrs s c \<noteq> None"
  shows "outcome d (do {
     p \<leftarrow> find_plci_by_ncci c ncci s;
     case p of
       None \<Rightarrow> Some None
     | Some p \<Rightarrow> do {
         pl \<leftarrow> plcis s p;
         find_in (nccis s) P (ncci_list pl) } }) (\<lambda>r. \<forall>m. r = Some m \<longrightarrow> ncci_on s c m)"
proof (rule outcome_bind [OF find_plci_ok(3) [OF assms]])
  fix r assume r: "\<forall>p. r = Some p \<longrightarrow> plci_on s c p"
  show "outcome d (case r of None \<Rightarrow> Some None
     | Some p \<Rightarrow> do { pl \<leftarrow> plcis s p; find_in (nccis s) P (ncci_list pl) }) (\<lambda>r. \<forall>m. r = Some m \<longrightarrow> ncci_on s c m)"
  proof (cases r)
    case (Some p)
    with r have p: "plci_on s c p" by simp
    with drv_inv_parts(3) [OF assms(1)] obtain pl where pl: "plcis s p = Some pl" by (rule plci_onE) simp
    then have pv: "pview s p = Some (pl_chan pl, ncci_list pl)" by (simp add: pview_def)
    from links_okD(6) [OF drv_inv_parts(3) [OF assms(1)] pv] have "set (ncci_list pl) \<subseteq> dom (nccis s)"
      by (auto simp: nview_def)
    moreover have "ncci_on s c m" if "m \<in> set (ncci_list pl)" for m using p pv that unfolding ncci_on_def by blast
    ultimately show ?thesis using find_in_ok [of "ncci_list pl" "nccis s" P] pl Some by auto
  qed simp
qed

lemmas find_ncci_ok =
  find_ncci_in [where P = "\<lambda>n. nc_ncci n = x" and ncci = x for x, folded drv_find_ncci_def]
  find_ncci_in [where P = "\<lambda>n. nc_msgid n = x" for x, folded find_ncci_by_msgid_def]

section \<open>Allocation and release\<close>

lemma new_plci_adds:
  assumes inv: "drv_inv cfg q s" and ct: "contrs s c = Some ct" and i: "i < nbchan ct" "bc_plcip (bchans ct ! i) = None"
  shows "outcome d (new_plci cfg c i s) (\<lambda>(r, s'). adds cfg q s s' \<and> (\<forall>p. r = Some p \<longrightarrow> plci_on s' c p))"
proof (cases "kmalloc_ok cfg (cd_brk s)")
  case False
  then show ?thesis using keeps_adds [OF alloc_keeps [OF inv]] by (simp add: new_plci_def drv_alloc_def)
next
  case True
  note ok = drv_inv_parts(3) [OF inv]
  let ?p = "cd_brk s" and ?bs = "map (\<lambda>b. (bc_plcip b, bc_nccip b)) (bchans ct)"
  have cv: "cview s c = Some (nbchan ct, plci_list ct, ?bs)" using ct by (simp add: cview_def)
  from contr_okD(1) [OF links_okD(3) [OF ok cv]] i(1) have il: "i < length (bchans ct)" by simp
  let ?ct = "ct\<lparr>plci_list := ?p # plci_list ct, bchans := (bchans ct)[i := (bchans ct ! i)\<lparr>bc_plcip := Some ?p\<rparr>]\<rparr>"
  let ?s = "s\<lparr>cd_brk := Suc ?p, contrs := (contrs s)(c \<mapsto> ?ct), plcis := (plcis s)(?p \<mapsto> \<lparr>pl_plci = 0, pl_msgid = 0, pl_chan = i,
      pl_state = ST_PLCI_NONE, pl_leasedline = False, ncci_list = []\<rparr>)\<rparr>"
  have e: "new_plci cfg c i s = Some (Some ?p, ?s)"
    using True ct il by (simp add: new_plci_def drv_alloc_def upd_contr_def upd_bchan_def get_bchan_def)
  have v: "cview ?s = (cview s)(c \<mapsto> (nbchan ct, ?p # plci_list ct, ?bs[i := (Some ?p, snd (?bs ! i))]))"
    "pview ?s = (pview s)(?p \<mapsto> (i, []))" "nview ?s = nview s"
    using il by (auto simp: cview_def pview_def nview_def fun_eq_iff map_update)
  have "links_ok ?s" by (rule links_new_plci [OF ok cv i(1) _ refl v]) (use i(2) il in simp_all)
  moreover have "rings_ok ?s" using drv_inv_parts(4) [OF inv] ct by (auto simp: rings_ok_def)
  ultimately have "drv_inv cfg q ?s" using drv_inv_parts(1,2,5) [OF inv] by (simp add: drv_inv_def)
  moreover have "pview s ?p = None" using links_okD(8) [OF ok, of ?p] by (cases "pview s ?p") auto
  with cv have "grows s ?s" by - (rule growsI, unfold v, auto split: if_splits)
  moreover have "plci_on ?s c ?p" unfolding v by (simp add: on_list_def)
  ultimately show ?thesis unfolding e by (simp add: adds_def)
qed

lemma free_plci_ok:
  assumes inv: "drv_inv cfg q s" and p: "plci_on s c p"
  shows "\<exists>s' ct pl. free_plci c p s = Some s' \<and> drv_inv cfg q s' \<and> contrs s c = Some ct \<and> plcis s p = Some pl \<and>
    s' = s\<lparr>plcis := (plcis s)(p := None), contrs := (contrs s)(c \<mapsto> ct\<lparr>plci_list := remove1 p (plci_list ct),
      bchans := (bchans ct)[pl_chan pl := (bchans ct ! pl_chan pl)\<lparr>bc_plcip := None, bc_disconnecting := False, bc_incoming := False\<rparr>]\<rparr>)\<rparr>"
proof -
  note ok = drv_inv_parts(3) [OF inv]
  from ok p obtain ct pl where ct: "contrs s c = Some ct" "p \<in> set (plci_list ct)" "plcis s p = Some pl"
    "pl_chan pl < nbchan ct" "nbchan ct \<le> length (bchans ct)" "set (plci_list ct) \<subseteq> dom (plcis s)" by (rule plci_onE)
  let ?i = "pl_chan pl" and ?bs = "map (\<lambda>b. (bc_plcip b, bc_nccip b)) (bchans ct)"
  let ?ct = "ct\<lparr>plci_list := remove1 p (plci_list ct), bchans := (bchans ct)[?i := (bchans ct ! ?i)\<lparr>bc_plcip := None,
      bc_disconnecting := False, bc_incoming := False\<rparr>]\<rparr>"
  let ?s = "s\<lparr>plcis := (plcis s)(p := None), contrs := (contrs s)(c \<mapsto> ?ct)\<rparr>"
  have e: "free_plci c p s = Some ?s"
    using ct unlink_ok [OF ct(6), of p] by (simp add: free_plci_def upd_contr_def upd_bchan_def get_bchan_def)
  have cv: "cview s c = Some (nbchan ct, plci_list ct, ?bs)" and pv: "pview s p = Some (?i, ncci_list pl)"
    using ct by (simp_all add: cview_def pview_def)
  have "links_ok ?s"
    by (rule links_free_plci [OF ok cv ct(2) pv])
      (use ct in \<open>auto simp: cview_def pview_def nview_def fun_eq_iff map_update\<close>)
  moreover have "rings_ok ?s" using drv_inv_parts(4) [OF inv] ct by (auto simp: rings_ok_def)
  ultimately have "drv_inv cfg q ?s" using drv_inv_parts(1,2,5) [OF inv] by (simp add: drv_inv_def)
  with e ct show ?thesis by blast
qed

lemma new_ncci_adds:
  assumes inv: "drv_inv cfg q s" and p: "plci_on s c p"
  shows "outcome d (new_ncci cfg c p n s) (\<lambda>(r, s'). adds cfg q s s' \<and> (\<forall>m. r = Some m \<longrightarrow> ncci_on s' c m))"
proof (cases "kmalloc_ok cfg (cd_brk s)")
  case False
  then show ?thesis using keeps_adds [OF alloc_keeps [OF inv]] by (simp add: new_ncci_def drv_alloc_def)
next
  case True
  note ok = drv_inv_parts(3) [OF inv]
  from ok p obtain ct pl where ct: "contrs s c = Some ct" "p \<in> set (plci_list ct)" "plcis s p = Some pl"
    "pl_chan pl < nbchan ct" "nbchan ct \<le> length (bchans ct)" by (rule plci_onE)
  let ?m = "cd_brk s" and ?i = "pl_chan pl" and ?bs = "map (\<lambda>b. (bc_plcip b, bc_nccip b)) (bchans ct)"
  let ?ct = "ct\<lparr>bchans := (bchans ct)[?i := (bchans ct ! ?i)\<lparr>bc_nccip := Some ?m\<rparr>]\<rparr>"
  let ?s = "s\<lparr>cd_brk := Suc ?m, contrs := (contrs s)(c \<mapsto> ?ct), plcis := (plcis s)(p \<mapsto> pl\<lparr>ncci_list := ?m # ncci_list pl\<rparr>),
      nccis := (nccis s)(?m \<mapsto> \<lparr>nc_plcip = p, nc_ncci = n, nc_msgid = 0, nc_chan = ?i,
      nc_state = ST_NCCI_NONE, nc_oldstate = ST_NCCI_NONE, nc_datahandle = 0, nc_ackqueue = []\<rparr>)\<rparr>"
  have e: "new_ncci cfg c p n s = Some (Some ?m, ?s)"
    using True ct by (simp add: new_ncci_def drv_alloc_def upd_plci_def upd_contr_def upd_bchan_def get_bchan_def)
  have cv: "cview s c = Some (nbchan ct, plci_list ct, ?bs)" and pv: "pview s p = Some (?i, ncci_list pl)"
    using ct by (simp_all add: cview_def pview_def)
  have v: "cview ?s = (cview s)(c \<mapsto> (nbchan ct, plci_list ct, ?bs[?i := (fst (?bs ! ?i), Some ?m)]))"
    "pview ?s = (pview s)(p \<mapsto> (?i, ?m # ncci_list pl))" "nview ?s = (nview s)(?m \<mapsto> (p, ?i))"
    using ct by (auto simp: cview_def pview_def nview_def fun_eq_iff map_update)
  have "links_ok ?s" by (rule links_new_ncci [OF ok cv ct(2) pv refl v]) simp_all
  moreover have "rings_ok ?s" using drv_inv_parts(4) [OF inv] ct by (auto simp: rings_ok_def)
  ultimately have "drv_inv cfg q ?s" using drv_inv_parts(1,2,5) [OF inv] by (simp add: drv_inv_def)
  moreover have "nview s ?m = None" using links_okD(9) [OF ok, of ?m] by (cases "nview s ?m") auto
  with cv pv have "grows s ?s" by - (rule growsI, unfold v, auto split: if_splits)
  moreover have "plci_on ?s c p" using ct(2) unfolding v on_list_def fun_upd_same by blast
  then have "ncci_on ?s c ?m" unfolding ncci_on_def v by - (rule exI [of _ p], simp)
  ultimately show ?thesis unfolding e by (simp add: adds_def)
qed

lemma drv_free_ncci_ok:
  assumes inv: "drv_inv cfg q s" and m: "ncci_on s c m"
  shows "\<exists>s'. free_ncci c m s = Some s' \<and> drv_inv cfg q s' \<and> (\<forall>p. plci_on s c p \<longrightarrow> plci_on s' c p)"
proof -
  note ok = drv_inv_parts(3) [OF inv]
  from ok m obtain p pl nc where p: "plci_on s c p" "plcis s p = Some pl" "m \<in> set (ncci_list pl)" "nccis s m = Some nc"
    "nc_plcip nc = p" "nc_chan nc = pl_chan pl" "set (ncci_list pl) \<subseteq> dom (nccis s)" by (rule ncci_onE)
  from ok p(1) obtain ct where ct: "contrs s c = Some ct" "p \<in> set (plci_list ct)"
    "pl_chan pl < nbchan ct" "nbchan ct \<le> length (bchans ct)" by (rule plci_onE) (use p(2) in simp)
  let ?i = "pl_chan pl" and ?bs = "map (\<lambda>b. (bc_plcip b, bc_nccip b)) (bchans ct)"
  let ?ct = "ct\<lparr>bchans := (bchans ct)[?i := (bchans ct ! ?i)\<lparr>bc_nccip := None\<rparr>]\<rparr>"
  let ?s = "s\<lparr>nccis := (nccis s)(m := None), plcis := (plcis s)(p \<mapsto> pl\<lparr>ncci_list := remove1 m (ncci_list pl)\<rparr>),
      contrs := (contrs s)(c \<mapsto> ?ct)\<rparr>"
  have e: "free_ncci c m s = Some ?s"
    using ct p unlink_ok [OF p(7), of m] by (simp add: free_ncci_def upd_plci_def upd_contr_def upd_bchan_def get_bchan_def)
  have cv: "cview s c = Some (nbchan ct, plci_list ct, ?bs)" and pv: "pview s p = Some (?i, ncci_list pl)"
    using ct p(2) by (simp_all add: cview_def pview_def)
  have "links_ok ?s"
    by (rule links_free_ncci [OF ok cv ct(2) pv p(3)])
      (use ct p in \<open>auto simp: cview_def pview_def nview_def fun_eq_iff map_update\<close>)
  moreover have "rings_ok ?s" using drv_inv_parts(4) [OF inv] ct by (auto simp: rings_ok_def)
  ultimately have "drv_inv cfg q ?s" using drv_inv_parts(1,2,5) [OF inv] by (simp add: drv_inv_def)
  moreover have "plci_on ?s c q" if "plci_on s c q" for q using that ct(1) by (auto simp: on_list_def cview_def)
  ultimately show ?thesis using e by blast
qed

end
