(* ===== verification/DrvWp.thy ===== *)
theory DrvWp
  imports DrvInvOps
begin

text \<open>
  Weakest preconditions for the operations of \<^verbatim>\<open>capidrv.c\<close>: one rule per operation that says what its result may be assumed to
  satisfy, collected in \<open>drv_wp\<close>.  What an operation needs to be defined is asked for only if definedness is to be shown.
\<close>

named_theorems drv_wp
named_theorems drv_stay

section \<open>Structures that exist\<close>

definition contr_in :: "capidrv \<Rightarrow> nat \<Rightarrow> bool" where "contr_in s c \<longleftrightarrow> contrs s c \<noteq> None"
definition plci_in :: "capidrv \<Rightarrow> nat \<Rightarrow> bool" where "plci_in s p \<longleftrightarrow> plcis s p \<noteq> None"
definition ncci_in :: "capidrv \<Rightarrow> nat \<Rightarrow> bool" where "ncci_in s m \<longleftrightarrow> nccis s m \<noteq> None"
definition chan_in :: "capidrv \<Rightarrow> nat \<Rightarrow> nat \<Rightarrow> bool" where "chan_in s c i \<longleftrightarrow> get_bchan c i s \<noteq> None"

text \<open>A channel without a connection.\<close>

definition chan_free :: "capidrv \<Rightarrow> nat \<Rightarrow> nat \<Rightarrow> bool" where
  "chan_free s c i \<longleftrightarrow> (\<exists>n l bs. cview s c = Some (n, l, bs) \<and> i < n \<and> i < length bs \<and> fst (bs ! i) = None)"

lemma chan_in_view: "chan_in s c i \<longleftrightarrow> (\<exists>n l bs. cview s c = Some (n, l, bs) \<and> i < length bs)"
  by (auto simp: chan_in_def get_bchan_def cview_def nth_opt_def split: option.splits if_splits bind_splits)

lemma chan_in_grows: "grows s t \<Longrightarrow> chan_in s c i \<Longrightarrow> chan_in t c i"
  unfolding chan_in_view by (metis grows_contr)

lemma stays_in [drv_stay]:
  "grows s t \<Longrightarrow> contr_in s c \<Longrightarrow> contr_in t c"
  "grows s t \<Longrightarrow> plci_in s p \<Longrightarrow> plci_in t p"
  "grows s t \<Longrightarrow> ncci_in s m \<Longrightarrow> ncci_in t m"
  "grows s t \<Longrightarrow> chan_in s c i \<Longrightarrow> chan_in t c i"
  "grows s t \<Longrightarrow> plci_on s c p \<Longrightarrow> plci_on t c p"
  "grows s t \<Longrightarrow> ncci_on s c m \<Longrightarrow> ncci_on t c m"
  unfolding contr_in_def plci_in_def ncci_in_def by (rule stays chan_in_grows; assumption)+

lemma stays_same [drv_stay]:
  "same_view s t \<Longrightarrow> contr_in s c \<Longrightarrow> contr_in t c"
  "same_view s t \<Longrightarrow> plci_in s p \<Longrightarrow> plci_in t p"
  "same_view s t \<Longrightarrow> ncci_in s m \<Longrightarrow> ncci_in t m"
  "same_view s t \<Longrightarrow> chan_in s c i \<Longrightarrow> chan_in t c i"
  "same_view s t \<Longrightarrow> plci_on s c p \<Longrightarrow> plci_on t c p"
  "same_view s t \<Longrightarrow> ncci_on s c m \<Longrightarrow> ncci_on t c m"
  by (rule stays_in, erule same_view_grows, assumption)+

lemma chan_free_same [drv_stay]: "same_view s t \<Longrightarrow> chan_free s c i \<Longrightarrow> chan_free t c i"
  by (simp add: same_view_def chan_free_def)

lemma on_in:
  assumes "drv_inv cfg q s"
  shows "plci_on s c p \<Longrightarrow> plci_in s p" "plci_on s c p \<Longrightarrow> contr_in s c"
    "ncci_on s c m \<Longrightarrow> ncci_in s m" "ncci_on s c m \<Longrightarrow> contr_in s c"
    "chan_in s c i \<Longrightarrow> contr_in s c" "chan_free s c i \<Longrightarrow> chan_in s c i"
proof -
  note ok = drv_inv_parts(3) [OF assms]
  show p: "plci_in s p" "contr_in s c" if "plci_on s c p" for p
    by (rule plci_onE [OF ok that]; simp add: plci_in_def contr_in_def)+
  show "ncci_in s m" "contr_in s c" if "ncci_on s c m"
    by (rule ncci_onE [OF ok that]; use p in \<open>simp add: ncci_in_def\<close>)+
  show "chan_in s c i \<Longrightarrow> contr_in s c" by (auto simp: chan_in_def get_bchan_def contr_in_def)
  show "chan_free s c i \<Longrightarrow> chan_in s c i" by (auto simp: chan_free_def chan_in_view)
qed

lemma plci_chan_in [drv_stay]:
  assumes "plcis s p = Some pl" and "drv_inv cfg q s" and "plci_on s c p"
  shows "chan_in s c (pl_chan pl)"
  by (rule plci_onE [OF drv_inv_parts(3) [OF assms(2)] assms(3)])
    (use assms(1) in \<open>simp add: chan_in_def get_bchan_def\<close>)

lemma ncci_chan_in [drv_stay]:
  assumes "nccis s m = Some nc" and "drv_inv cfg q s" and "ncci_on s c m"
  shows "chan_in s c (nc_chan nc)" "plci_on s c (nc_plcip nc)" "plci_in s (nc_plcip nc)"
proof -
  from drv_inv_parts(3) [OF assms(2)] assms(3) obtain p pl where
    p: "plci_on s c p" "plcis s p = Some pl" "nc_plcip nc = p" "nc_chan nc = pl_chan pl"
    by (rule ncci_onE) (use assms(1) in simp)
  with plci_chan_in [OF p(2) assms(2) p(1)] on_in(1) [OF assms(2)]
  show "chan_in s c (nc_chan nc)" "plci_on s c (nc_plcip nc)" "plci_in s (nc_plcip nc)" by simp_all
qed

section \<open>Control\<close>

lemma wp_bind [drv_wp]: "outcome d m (\<lambda>x. outcome d (f x) Q) \<Longrightarrow> outcome d (Option.bind m f) Q"
  by (cases m) simp_all

lemma wp_return [drv_wp]: "Q x \<Longrightarrow> outcome d (Some x) Q"
  by simp

lemma wp_if [drv_wp]: "(b \<Longrightarrow> outcome d x Q) \<Longrightarrow> (\<not> b \<Longrightarrow> outcome d y Q) \<Longrightarrow> outcome d (if b then x else y) Q"
  by simp

lemma wp_pair [drv_wp]: "outcome d (f a b) Q \<Longrightarrow> outcome d (case (a, b) of (x, y) \<Rightarrow> f x y) Q"
  by simp

lemma wp_prod: "(\<And>a b. x = (a, b) \<Longrightarrow> outcome d (f a b) Q) \<Longrightarrow> outcome d (case x of (a, b) \<Rightarrow> f a b) Q"
  by (cases x) simp

lemma wp_let [drv_wp]: "outcome d (f x) Q \<Longrightarrow> outcome d (let y = x in f y) Q"
  by simp

lemma wp_none [drv_wp]: "outcome d a Q \<Longrightarrow> outcome d (case None of None \<Rightarrow> a | Some y \<Rightarrow> f y) Q"
  by simp

lemma wp_some [drv_wp]: "outcome d (f x) Q \<Longrightarrow> outcome d (case Some x of None \<Rightarrow> a | Some y \<Rightarrow> f y) Q"
  by simp

lemma wp_option: "(x = None \<Longrightarrow> outcome d a Q) \<Longrightarrow> (\<And>y. x = Some y \<Longrightarrow> outcome d (f y) Q) \<Longrightarrow>
    outcome d (case x of None \<Rightarrow> a | Some y \<Rightarrow> f y) Q"
  by (cases x) simp_all

lemma wp_read: "(d \<Longrightarrow> m \<noteq> None) \<Longrightarrow> (\<And>x. m = Some x \<Longrightarrow> Q x) \<Longrightarrow> outcome d m Q"
  by (cases m) auto

lemma wp_by: "outcome d m P \<Longrightarrow> (\<And>x. P x \<Longrightarrow> Q x) \<Longrightarrow> outcome d m Q"
  by (rule outcome_mono)

lemma wp_keeps: "outcome d m (keeps cfg q s) \<Longrightarrow> (\<And>t. drv_inv cfg q t \<Longrightarrow> same_view s t \<Longrightarrow> Q t) \<Longrightarrow> outcome d m Q"
  by (erule outcome_mono) (simp add: keeps_def)

lemma wp_keeps2: "outcome d m (\<lambda>(_, t). keeps cfg q s t) \<Longrightarrow>
    (\<And>x t. drv_inv cfg q t \<Longrightarrow> same_view s t \<Longrightarrow> Q (x, t)) \<Longrightarrow> outcome d m Q"
  by (erule outcome_mono) (auto simp: keeps_def)

lemma wp_adds2: "outcome d m (\<lambda>(_, t). adds cfg q s t) \<Longrightarrow>
    (\<And>x t. drv_inv cfg q t \<Longrightarrow> grows s t \<Longrightarrow> Q (x, t)) \<Longrightarrow> outcome d m Q"
  by (erule outcome_mono) (auto simp: adds_def)

section \<open>Reading\<close>

lemma wp_contrs [drv_wp]: "(d \<Longrightarrow> contr_in s c) \<Longrightarrow> (\<And>ct. contrs s c = Some ct \<Longrightarrow> Q ct) \<Longrightarrow> outcome d (contrs s c) Q"
  by (rule wp_read) (simp_all add: contr_in_def)

lemma wp_plcis [drv_wp]: "(d \<Longrightarrow> plci_in s p) \<Longrightarrow> (\<And>pl. plcis s p = Some pl \<Longrightarrow> Q pl) \<Longrightarrow> outcome d (plcis s p) Q"
  by (rule wp_read) (simp_all add: plci_in_def)

lemma wp_nccis [drv_wp]: "(d \<Longrightarrow> ncci_in s m) \<Longrightarrow> (\<And>nc. nccis s m = Some nc \<Longrightarrow> Q nc) \<Longrightarrow> outcome d (nccis s m) Q"
  by (rule wp_read) (simp_all add: ncci_in_def)

lemma wp_get_bchan [drv_wp]: "(d \<Longrightarrow> chan_in s c i) \<Longrightarrow> (\<And>b. get_bchan c i s = Some b \<Longrightarrow> Q b) \<Longrightarrow> outcome d (get_bchan c i s) Q"
  by (rule wp_read) (simp_all add: chan_in_def)

lemma wp_structs [drv_wp]: "(d \<Longrightarrow> structs c f \<noteq> None) \<Longrightarrow> (\<And>x. structs c f = Some x \<Longrightarrow> Q x) \<Longrightarrow> outcome d (structs c f) Q"
  by (rule wp_read)

lemma wp_ld [drv_wp]: "(d \<Longrightarrow> i < length m) \<Longrightarrow> (\<And>x. i < length m \<Longrightarrow> x = m ! i \<Longrightarrow> Q x) \<Longrightarrow> outcome d (ld m i) Q"
  by (rule wp_read) (auto simp: buf_simps)

lemma ap_id_defined: "drv_inv cfg q s \<Longrightarrow> ap_id cfg s \<noteq> None"
  using drv_inv_parts(5) [of cfg q s] by (auto simp: ap_id_def)

lemma wp_ap_id [drv_wp]: "drv_inv cfg q s \<Longrightarrow> (\<And>x. ap_id cfg s = Some x \<Longrightarrow> Q x) \<Longrightarrow> outcome d (ap_id cfg s) Q"
  using ap_id_defined by (blast intro: wp_read)

lemma wp_lds [drv_wp]: "(d \<Longrightarrow> i + n \<le> length m) \<Longrightarrow> (\<And>x. Q x) \<Longrightarrow> outcome d (lds m i n) Q"
  by (rule wp_read) (auto simp: buf_simps)

section \<open>Searching\<close>

lemma wp_findcontr [drv_wp]:
  assumes "drv_inv cfg q s"
  shows "Q None \<Longrightarrow> (\<And>c. contr_in s c \<Longrightarrow> Q (Some c)) \<Longrightarrow> outcome d (findcontrbynumber n s) Q"
    "Q None \<Longrightarrow> (\<And>c. contr_in s c \<Longrightarrow> Q (Some c)) \<Longrightarrow> outcome d (findcontrbydriverid i s) Q"
  unfolding contr_in_def by (rule wp_by [OF findcontr_ok(1) [OF assms]], case_tac x; simp)
    (rule wp_by [OF findcontr_ok(2) [OF assms]], case_tac x; simp)

lemma wp_found: "outcome d m (\<lambda>r. \<forall>p. r = Some p \<longrightarrow> P p) \<Longrightarrow> Q None \<Longrightarrow> (\<And>p. P p \<Longrightarrow> Q (Some p)) \<Longrightarrow> outcome d m Q"
  by (erule outcome_mono) (case_tac x; simp)

lemma wp_find [drv_wp]:
  assumes "drv_inv cfg q s" and "d \<Longrightarrow> contr_in s c"
  shows "Q None \<Longrightarrow> (\<And>p. plci_on s c p \<Longrightarrow> plci_in s p \<Longrightarrow> Q (Some p)) \<Longrightarrow> outcome d (find_plci_by_plci c x s) Q"
    "Q None \<Longrightarrow> (\<And>p. plci_on s c p \<Longrightarrow> plci_in s p \<Longrightarrow> Q (Some p)) \<Longrightarrow> outcome d (find_plci_by_msgid c y s) Q"
    "Q None \<Longrightarrow> (\<And>p. plci_on s c p \<Longrightarrow> plci_in s p \<Longrightarrow> Q (Some p)) \<Longrightarrow> outcome d (find_plci_by_ncci c x s) Q"
    "Q None \<Longrightarrow> (\<And>m. ncci_on s c m \<Longrightarrow> ncci_in s m \<Longrightarrow> Q (Some m)) \<Longrightarrow> outcome d (drv_find_ncci c x s) Q"
    "Q None \<Longrightarrow> (\<And>m. ncci_on s c m \<Longrightarrow> ncci_in s m \<Longrightarrow> Q (Some m)) \<Longrightarrow> outcome d (find_ncci_by_msgid c x y s) Q"
  using assms by - (rule wp_found, (rule find_plci_ok find_ncci_ok; simp add: contr_in_def), assumption, simp add: on_in)+

section \<open>Changes\<close>

lemma wp_upd_contr:
  assumes "drv_inv cfg q s" and "d \<Longrightarrow> contr_in s c"
    and "\<And>ct. contrs s c = Some ct \<Longrightarrow> nbchan (f ct) = nbchan ct \<and> plci_list (f ct) = plci_list ct \<and>
      map (\<lambda>b. (bc_plcip b, bc_nccip b)) (bchans (f ct)) = map (\<lambda>b. (bc_plcip b, bc_nccip b)) (bchans ct) \<and>
      (ring_ok (q931 ct) \<longrightarrow> ring_ok (q931 (f ct)))"
    and "\<And>t. drv_inv cfg q t \<Longrightarrow> same_view s t \<Longrightarrow> Q t"
  shows "outcome d (upd_contr c f s) Q"
  by (rule wp_keeps [OF upd_contr_keeps [OF assms(1) _ assms(3)] assms(4)]) (use assms(2) in \<open>simp_all add: contr_in_def\<close>)

lemma wp_upd_bchan [drv_wp]:
  assumes "drv_inv cfg q s" and "d \<Longrightarrow> chan_in s c i"
    and "\<And>b. bc_plcip (f b) = bc_plcip b \<and> bc_nccip (f b) = bc_nccip b"
    and "\<And>t. drv_inv cfg q t \<Longrightarrow> same_view s t \<Longrightarrow> Q t"
  shows "outcome d (upd_bchan c i f s) Q"
  by (rule wp_keeps [OF upd_bchan_keeps [OF assms(1) _ assms(3)] assms(4)]) (use assms(2) in \<open>simp_all add: chan_in_def\<close>)

lemma wp_upd_plci [drv_wp]:
  assumes "drv_inv cfg q s" and "d \<Longrightarrow> plci_in s p"
    and "\<And>pl. pl_chan (f pl) = pl_chan pl \<and> ncci_list (f pl) = ncci_list pl"
    and "\<And>t. drv_inv cfg q t \<Longrightarrow> same_view s t \<Longrightarrow> Q t"
  shows "outcome d (upd_plci p f s) Q"
  by (rule wp_keeps [OF upd_plci_keeps [OF assms(1) _ assms(3)] assms(4)]) (use assms(2) in \<open>simp_all add: plci_in_def\<close>)

lemma wp_upd_ncci [drv_wp]:
  assumes "drv_inv cfg q s" and "d \<Longrightarrow> ncci_in s m"
    and "\<And>nc. nccis s m = Some nc \<Longrightarrow> nc_plcip (f nc) = nc_plcip nc \<and> nc_chan (f nc) = nc_chan nc"
    and "\<And>t. drv_inv cfg q t \<Longrightarrow> same_view s t \<Longrightarrow> Q t"
  shows "outcome d (upd_ncci m f s) Q"
  by (rule wp_keeps [OF upd_ncci_keeps [OF assms(1) _ assms(3)] assms(4)]) (use assms(2) in \<open>simp_all add: ncci_in_def\<close>)

lemma wp_next_msgid [drv_wp]:
  assumes "drv_inv cfg q s" and "d \<Longrightarrow> contr_in s c" and "\<And>x t. drv_inv cfg q t \<Longrightarrow> same_view s t \<Longrightarrow> Q (x, t)"
  shows "outcome d (next_msgid c s) Q"
  by (rule wp_keeps2 [OF next_msgid_keeps [OF assms(1)]]) (use assms(2,3) in \<open>simp_all add: contr_in_def\<close>)

lemma wp_listen_change_state [drv_wp]:
  assumes "drv_inv cfg q s" and "d \<Longrightarrow> contr_in s c" and "\<And>t. drv_inv cfg q t \<Longrightarrow> same_view s t \<Longrightarrow> Q t"
  shows "outcome d (listen_change_state c ev s) Q"
  by (rule wp_keeps [OF listen_change_state_keeps [OF assms(1)] assms(3)]) (use assms(2) in \<open>simp_all add: contr_in_def\<close>)

lemma wp_send_message [drv_wp]:
  assumes "drv_inv cfg q s" and "d \<Longrightarrow> sendable c" and "d \<Longrightarrow> alloc_skb_ok cfg (cd_brk s)"
    and "\<And>t. drv_inv cfg q t \<Longrightarrow> same_view s t \<Longrightarrow> Q t"
  shows "outcome d (send_message cfg c s) Q"
  by (rule wp_keeps [OF send_message_keeps [OF assms(1)] assms(4)]) (use assms(2,3) in simp_all)

lemma wp_new_plci [drv_wp]:
  assumes inv: "drv_inv cfg q s" and free: "chan_free s c i"
    and "\<And>t. drv_inv cfg q t \<Longrightarrow> grows s t \<Longrightarrow> Q (None, t)"
    and "\<And>p t. drv_inv cfg q t \<Longrightarrow> grows s t \<Longrightarrow> plci_on t c p \<Longrightarrow> plci_in t p \<Longrightarrow> Q (Some p, t)"
  shows "outcome d (new_plci cfg c i s) Q"
proof -
  from free obtain ct where "contrs s c = Some ct" "i < nbchan ct" "bc_plcip (bchans ct ! i) = None"
    by (auto simp: chan_free_def cview_def)
  from new_plci_adds [OF inv this, of d] show ?thesis
    by (rule outcome_mono) (use assms(3,4) in \<open>auto simp: adds_def on_in split: option.splits\<close>; metis option.exhaust on_in)
qed

lemma wp_new_ncci [drv_wp]:
  assumes inv: "drv_inv cfg q s" and p: "plci_on s c p"
    and "\<And>t. drv_inv cfg q t \<Longrightarrow> grows s t \<Longrightarrow> Q (None, t)"
    and "\<And>m t. drv_inv cfg q t \<Longrightarrow> grows s t \<Longrightarrow> ncci_on t c m \<Longrightarrow> ncci_in t m \<Longrightarrow> Q (Some m, t)"
  shows "outcome d (new_ncci cfg c p n s) Q"
  using new_ncci_adds [OF inv p, of d n]
  by (rule outcome_mono) (use assms(3,4) in \<open>auto simp: adds_def on_in split: option.splits\<close>; metis option.exhaust on_in)

lemma wp_free_plci [drv_wp]:
  assumes "drv_inv cfg q s" and "plci_on s c p" and "\<And>t. drv_inv cfg q t \<Longrightarrow> Q t"
  shows "outcome d (free_plci c p s) Q"
  using free_plci_ok [OF assms(1,2)] assms(3) by auto

lemma wp_free_ncci [drv_wp]:
  assumes "drv_inv cfg q s" and "ncci_on s c m" and "\<And>t. drv_inv cfg q t \<Longrightarrow> Q t"
  shows "outcome d (free_ncci c m s) Q"
  using drv_free_ncci_ok [OF assms(1,2)] assms(3) by auto

text \<open>Allocations.\<close>

lemma wp_alloc [drv_wp]:
  assumes "drv_inv cfg q s" and "\<And>x t. drv_inv cfg q t \<Longrightarrow> same_view s t \<Longrightarrow> outcome d (f x t) Q"
  shows "outcome d (case drv_alloc cfg s of (x, t) \<Rightarrow> f x t) Q"
  using assms(2) [OF keepsD [OF alloc_keeps [OF assms(1)]]] by (simp add: drv_alloc_def)

lemma wp_alloc_skb [drv_wp]:
  assumes "drv_inv cfg q s" and "\<And>x t. drv_inv cfg q t \<Longrightarrow> same_view s t \<Longrightarrow> outcome d (f x t) Q"
  shows "outcome d (case (if b then drv_alloc_skb cfg s else (True, s)) of (x, t) \<Rightarrow> f x t) Q"
  using assms(2) [OF keepsD [OF alloc_keeps [OF assms(1)]]] assms(2) [OF assms(1) same_view_refl]
  by (simp add: drv_alloc_skb_def)

lemma wp_drv_put_message [drv_wp]:
  assumes "drv_inv cfg q s" and "d \<Longrightarrow> msg_count CAPI_DATA_B3_REQ m \<noteq> None"
    and "\<And>x t. drv_inv cfg q t \<Longrightarrow> same_view s t \<Longrightarrow> Q (x, t)"
  shows "outcome d (drv_put_message cfg m s) Q"
  by (rule wp_keeps2 [OF drv_put_message_keeps [OF assms(1)]]) (use assms(2,3) in simp_all)

end
