(* ===== verification/DrvSend.thy ===== *)
theory DrvSend
  imports DrvWp
begin

text \<open>
  Which messages \<open>send_message\<close> of \<^verbatim>\<open>capidrv.c\<close> can assemble in the buffer of 180 bytes: all the requests and responses
  that the driver makes up, and the answers to all indications without a variable part.
\<close>

section \<open>Assembling\<close>

lemma header_reads:
  "CAPIMSG_LEN (header_bytes c n @ r) = Some (word_of_nat n)"
  "CAPIMSG_CMD (header_bytes c n @ r) = Some (CAPICMD (Command c) (Subcommand c))"
  by (simp_all add: header_bytes_def CAPIMSG_LEN_def CAPIMSG_U16_def CAPIMSG_CMD_def le16_def)

lemma assembled_enc:
  assumes "layout (Command c) (Subcommand c) = Some xs" and "readys c xs"
    and "8 + length (encs c xs) \<le> length (cmsg_buf c)" and "length (cmsg_buf c) < 65536"
  shows "assembled c = Some (header_bytes c (8 + length (encs c xs)) @ encs c xs)"
proof -
  let ?n = "8 + length (encs c xs)"
  have n: "unat (word_of_nat ?n :: u16) = ?n" by (rule unat_word_of_nat_u16) (use assms(3,4) in simp)
  show ?thesis
    unfolding assembled_def capi_cmsg2message_enc [OF assms(1-3)]
    by (simp add: header_reads n del: of_nat_add)
qed

lemma sendableI:
  assumes "layout (Command c) (Subcommand c) = Some xs" and "readys c xs"
    and "8 + length (encs c xs) \<le> length (cmsg_buf c)" and "length (cmsg_buf c) < 65536"
    and "CAPICMD (Command c) (Subcommand c) \<noteq> CAPI_DATA_B3_REQ"
  shows "sendable c"
  using assms(5) unfolding sendable_def assembled_enc [OF assms(1-4)]
  by (auto simp: msg_count_def header_reads simp del: of_nat_add)

text \<open>The members of a message that is made up by a \<open>capi_fill_\<close> function.\<close>

definition fits_buf :: "cmsg \<Rightarrow> bool" where
  "fits_buf c \<longleftrightarrow> (case layout (Command c) (Subcommand c) of
     None \<Rightarrow> False
   | Some xs \<Rightarrow> readys c xs \<and> 8 + length (encs c xs) \<le> length (cmsg_buf c) \<and> length (cmsg_buf c) < 65536 \<and>
       CAPICMD (Command c) (Subcommand c) \<noteq> CAPI_DATA_B3_REQ)"

lemma fits_sendable: "fits_buf c \<Longrightarrow> sendable c"
  by (auto simp: fits_buf_def split: option.splits intro: sendableI)

lemmas fits_simps =
  fits_buf_def set_word_def set_dword_def set_struct_def fill_members_def capi_cmsg_header_def zero_cmsg_def
  enc_par_def struct_bytes_cstruct ready_par_def cdef_def cstruct_def fill_layouts

lemma sendable_fill [drv_wp]:
  "sendable (capi_fill_DISCONNECT_REQ a m x None None None None)"
  "sendable (capi_fill_DISCONNECT_B3_REQ a m x None)"
  "sendable (capi_fill_ALERT_REQ a m x None None None None)"
  "sendable (capi_fill_CONNECT_B3_REQ a m x None)"
  "sendable (capi_fill_CONNECT_B3_RESP a m x r None)"
  "sendable (capi_fill_LISTEN_REQ a m x i c1 c2 None None)"
  by (rule fits_sendable; simp add: capi_fill_DISCONNECT_REQ_def capi_fill_DISCONNECT_B3_REQ_def capi_fill_ALERT_REQ_def
      capi_fill_CONNECT_B3_REQ_def capi_fill_CONNECT_B3_RESP_def capi_fill_LISTEN_REQ_def fits_simps)+

text \<open>The answers.\<close>

lemma sendable_answer:
  assumes "length (cmsg_buf c) = 180" and "Subcommand c = CAPI_IND"
    and "Command c \<in> {CAPI_DISCONNECT, CAPI_CONNECT_ACTIVE, CAPI_CONNECT_B3_ACTIVE, CAPI_CONNECT_B3_T90_ACTIVE,
      CAPI_DISCONNECT_B3, CAPI_RESET_B3, CAPI_DATA_B3}"
  shows "sendable (capi_cmsg_answer c)"
proof -
  have r: "CAPI_IND OR 1 = CAPI_RESP" by simp
  from assms show ?thesis
    by (intro fits_sendable) (auto simp: capi_cmsg_answer_def fits_simps simp del: r)
qed

section \<open>Data\<close>

text \<open>The 22 bytes in front of the data.\<close>

definition data_hdr :: "u16 \<Rightarrow> u16 \<Rightarrow> u32 \<Rightarrow> u32 \<Rightarrow> u16 \<Rightarrow> u16 \<Rightarrow> bytes" where
  "data_hdr a m ncci addr len h =
     [22, 0] @ le16 a @ [0x86, 0x80] @ le16 m @ le32 ncci @ le32 addr @ le16 len @ le16 h @ le16 0"

lemma length_data_hdr [simp]: "length (data_hdr a m n x l h) = 22"
  by (simp add: data_hdr_def)

lemma data_hdr_reads:
  "CAPIMSG_LEN (data_hdr a m n x l h @ r) = Some 22" "CAPIMSG_CMD (data_hdr a m n x l h @ r) = Some CAPI_DATA_B3_REQ"
  "CAPIMSG_DATALEN (data_hdr a m n x l h @ r) = Some l"
proof -
  show "CAPIMSG_LEN (data_hdr a m n x l h @ r) = Some 22" "CAPIMSG_CMD (data_hdr a m n x l h @ r) = Some CAPI_DATA_B3_REQ"
    by (simp_all add: data_hdr_def CAPIMSG_LEN_def CAPIMSG_U16_def CAPIMSG_CMD_def le16_def of_le16_def)
  show "CAPIMSG_DATALEN (data_hdr a m n x l h @ r) = Some l"
    by (simp add: data_hdr_def CAPIMSG_DATALEN_def CAPIMSG_U16_def le16_def le32_def)
qed

lemma data_message:
  fixes a m n x l h
  defines "c \<equiv> capi_fill_DATA_B3_REQ a m n x l h 0"
  shows "\<exists>c' r. capi_cmsg2message c (cmsg_buf c) = Some c' \<and> cur_m c' = data_hdr a m n x l h @ r"
proof -
  let ?xs = "[Fld 3, Fld 24, Fld 26, Fld 25, Fld 32]"
  have l: "layout (Command c) (Subcommand c) = Some ?xs"
    by (simp add: c_def capi_fill_DATA_B3_REQ_def fits_simps)
  have r: "readys c ?xs" and e: "encs c ?xs = le32 n @ le32 x @ le16 l @ le16 h @ le16 0" and b: "length (cmsg_buf c) = 180"
    by (simp_all add: c_def capi_fill_DATA_B3_REQ_def fits_simps)
  have "header_bytes c 22 = [22, 0] @ le16 a @ [0x86, 0x80] @ le16 m"
    by (simp add: header_bytes_def c_def capi_fill_DATA_B3_REQ_def fits_simps le16_def)
  with capi_cmsg2message_enc [OF l r, of "cmsg_buf c"] b show ?thesis unfolding e by (simp add: data_hdr_def)
qed

section \<open>What decoding leaves alone\<close>

lemma get_par_buf: "get_par t f c = Some c' \<Longrightarrow>
    cmsg_buf c' = cmsg_buf c \<and> Command c' = Command c \<and> Subcommand c' = Subcommand c"
  by (auto simp: get_par_def split: ctyp.splits)

lemma jumpcstruct_buf: "jumpcstruct c = Some c' \<Longrightarrow>
    cmsg_buf c' = cmsg_buf c \<and> Command c' = Command c \<and> Subcommand c' = Subcommand c"
proof -
  assume "jumpcstruct c = Some c'"
  then have c': "c' = c\<lparr>cur_p := cur_p c'\<rparr>" using jumpcstruct_frame by blast
  show ?thesis using arg_cong [OF c', of cmsg_buf] arg_cong [OF c', of Command] arg_cong [OF c', of Subcommand] by simp
qed

lemma message_2_pars_buf: "message_2_pars c = Some c' \<Longrightarrow>
    cmsg_buf c' = cmsg_buf c \<and> Command c' = Command c \<and> Subcommand c' = Subcommand c"
proof (induction c arbitrary: c' rule: message_2_pars.induct)
  case (1 c)
  from "1.prems" obtain t where t: "TYP c = Some t" by (subst (asm) message_2_pars.simps) auto
  show ?case
  proof (cases "t = CEND")
    case True
    with t "1.prems" show ?thesis by (subst (asm) message_2_pars.simps) simp
  next
    case False
    from "1.prems" t False obtain f c1 where f: "OFF c = Some f"
      and c1: "(if t = CMSTRUCT
             then do {
               b \<leftarrow> ld (cur_m c) (cur_l c);
               if b = 0
               then jumpcstruct (c\<lparr>mstructs := (mstructs c)(f := CAPI_DEFAULT), cur_l := cur_l c + 1\<rparr>)
               else message_2_pars
                      (c\<lparr>mstructs := (mstructs c)(f := CAPI_COMPOSE),
                         cur_l := (if b = 255 then cur_l c + 3 else cur_l c + 1),
                         cur_p := cur_p c + 1\<rparr>) }
             else get_par t f c) = Some c1"
      and rest: "message_2_pars (c1\<lparr>cur_p := cur_p c1 + 1\<rparr>) = Some c'"
      by (subst (asm) message_2_pars.simps) (auto simp only: if_False bind_eq_Some_conv option.inject)
    have "cmsg_buf c1 = cmsg_buf c \<and> Command c1 = Command c \<and> Subcommand c1 = Subcommand c"
    proof (cases "t = CMSTRUCT")
      case True
      with c1 obtain b where b: "ld (cur_m c) (cur_l c) = Some b" by auto
      show ?thesis
      proof (cases "b = 0")
        case True
        with c1 b \<open>t = CMSTRUCT\<close> show ?thesis by (auto dest: jumpcstruct_buf)
      next
        case b0: False
        from "1.IH"(1) [OF t False f True b b0] c1 b b0 True show ?thesis by simp
      qed
    next
      case other: False
      with c1 show ?thesis by (auto dest: get_par_buf)
    qed
    with "1.IH"(2) [OF t False f c1 rest] show ?thesis by simp
  qed
qed

lemma decoded_frame:
  assumes "capi_message2cmsg m = Some c"
  shows "length (cmsg_buf c) = 180" "ld m 4 = Some (Command c)" "ld m 5 = Some (Subcommand c)"
  using assms by (auto simp: capi_message2cmsg_def zero_cmsg_def dest!: message_2_pars_buf)

end
