(* ===== verification/DrvCalls.thy ===== *)
theory DrvCalls
  imports DrvSend
begin

text \<open>
  The interface of the isdn4linux driver \<^verbatim>\<open>capidrv.c\<close> to isdn4linux, and what the operations on connections and the handlers of
  messages keep under it.
\<close>

section \<open>Events that end a connection\<close>

text \<open>Only three events let a connection end, and only two a logical connection.\<close>

definition plci_ends :: "plci_event \<Rightarrow> bool" where
  "plci_ends ev \<longleftrightarrow> ev = EV_PLCI_CONNECT_CONF_ERROR \<or> ev = EV_PLCI_DISCONNECT_RESP \<or> ev = EV_PLCI_RESUME_CONF_ERROR"

definition ncci_ends :: "ncci_event \<Rightarrow> bool" where
  "ncci_ends ev \<longleftrightarrow> ev = EV_NCCI_CONNECT_B3_CONF_ERROR \<or> ev = EV_NCCI_DISCONNECT_B3_RESP"

lemma plci_row:
  assumes "row_for (\<lambda>(a, _, e, _). (a, e)) plcitable (z, ev) = Some (act, nxt, ev', fn)"
  shows "fn = None \<or> plci_ends ev"
  using row_for_SomeD [OF assms] by (auto simp: plcitable_def plci_ends_def)

lemma ncci_row:
  assumes "row_for (\<lambda>(a, _, e, _). (a, e)) nccitable (z, ev) = Some (act, nxt, ev', fn)"
  shows "fn = None \<or> ncci_ends ev"
  using row_for_SomeD [OF assms] by (auto simp: nccitable_def ncci_ends_def)

section \<open>isdn4linux\<close>

text \<open>
  What the driver asks of isdn4linux: whatever it does inside a call keeps the invariant and no connection is
  released.  If the operations are to be shown defined (\<open>d\<close>), the calls are, and message buffers can be had.
\<close>

locale upper_layer =
  fixes cfg :: drv_cfg and cb :: callback and d :: bool
  assumes answers: "drv_inv cfg q s \<Longrightarrow> outcome d (cb e s) (\<lambda>(_, s'). adds cfg q s s')"
    and memory: "d \<Longrightarrow> alloc_skb_ok cfg n"
begin

lemma wp_cb [drv_wp]:
  assumes "drv_inv cfg q s" and "\<And>x t. drv_inv cfg q t \<Longrightarrow> grows s t \<Longrightarrow> Q (x, t)"
  shows "outcome d (cb e s) Q"
  by (rule wp_adds2 [OF answers [OF assms(1)]]) (rule assms(2))

lemma wp_statcallb [drv_wp]:
  assumes "drv_inv cfg q s" and "d \<Longrightarrow> contr_in s c" and "\<And>x t. drv_inv cfg q t \<Longrightarrow> grows s t \<Longrightarrow> Q (x, t)"
  shows "outcome d (statcallb cb c e s) Q"
  unfolding statcallb_def by (intro drv_wp wp_cb [where q = q]) (use assms in auto)

lemma wp_p0 [drv_wp]:
  assumes "drv_inv cfg q s" and "plci_on s c p" and "\<And>t. drv_inv cfg q t \<Longrightarrow> Q t"
  shows "outcome d (p0 cb c p s) Q"
  unfolding p0_def
  by (intro drv_wp; (assumption | rule assms(1,3) | blast intro: drv_stay assms on_in(1,2) [OF assms(1,2)] | simp; fail))

section \<open>Changes of state\<close>

lemma wp_plci_change_state [drv_wp]:
  assumes "drv_inv cfg q s" and "\<not> plci_ends ev" and "d \<Longrightarrow> plci_in s p"
    and "\<And>t. drv_inv cfg q t \<Longrightarrow> same_view s t \<Longrightarrow> Q t"
  shows "outcome d (plci_change_state cb c p ev s) Q"
proof (cases "plcis s p")
  case (Some pl)
  show ?thesis
  proof (cases "row_for (\<lambda>(a, _, e, _). (a, e)) plcitable (pl_state pl, ev)")
    case None
    with Some assms(1,4) show ?thesis by (simp add: plci_change_state_def)
  next
    case (Some r)
    obtain act nxt ev' fn where r: "r = (act, nxt, ev', fn)" by (cases r)
    with plci_row [OF Some [unfolded r]] assms(2) have "fn = None" by blast
    with Some r \<open>plcis s p = Some pl\<close> show ?thesis
      by (simp add: plci_change_state_def) (intro drv_wp; (assumption | rule assms | simp; fail))
  qed
qed (use assms(3) in \<open>auto simp: plci_change_state_def plci_in_def\<close>)

text \<open>Any event, which may release the connection.\<close>

lemma wp_plci_change_state_any:
  assumes "drv_inv cfg q s" and "plci_on s c p" and "\<And>t. drv_inv cfg q t \<Longrightarrow> Q t"
  shows "outcome d (plci_change_state cb c p ev s) Q"
proof (cases "row_for (\<lambda>(a, _, e, _). (a, e)) plcitable (pl_state (the (plcis s p)), ev)")
  case None
  with assms on_in(1) [OF assms(1,2)] show ?thesis by (auto simp: plci_change_state_def plci_in_def)
next
  case (Some r)
  obtain act nxt ev' fn where r: "r = (act, nxt, ev', fn)" by (cases r)
  from on_in(1) [OF assms(1,2)] obtain pl where pl: "plcis s p = Some pl" by (auto simp: plci_in_def)
  have "outcome d (do { s \<leftarrow> upd_plci p (\<lambda>pl. pl\<lparr>pl_state := nxt\<rparr>) s;
      case fn of None \<Rightarrow> Some s | Some P0 \<Rightarrow> p0 cb c p s }) Q"
    by (cases fn rule: option.exhaust; cases "the fn"; simp; intro drv_wp; (assumption | rule assms(1,3) | blast intro: drv_stay assms on_in(1,2) [OF assms(1,2)] | simp; fail))
  with Some r pl show ?thesis by (simp add: plci_change_state_def)
qed

lemma wp_n0 [drv_wp]:
  assumes "drv_inv cfg q s" and "ncci_on s c m" and "\<And>t. drv_inv cfg q t \<Longrightarrow> Q t"
  shows "outcome d (n0 cfg cb c m s) Q"
  unfolding n0_def
  by (intro drv_wp; (assumption | rule assms(1,3) memory | blast intro: drv_stay assms on_in(3,4) [OF assms(1,2)] | simp add: plci_ends_def; fail))

lemma wp_ncci_change_state [drv_wp]:
  assumes "drv_inv cfg q s" and "\<not> ncci_ends ev" and "d \<Longrightarrow> ncci_in s m"
    and "\<And>t. drv_inv cfg q t \<Longrightarrow> same_view s t \<Longrightarrow> Q t"
  shows "outcome d (ncci_change_state cfg cb c m ev s) Q"
proof (cases "nccis s m")
  case (Some nc)
  show ?thesis
  proof (cases "row_for (\<lambda>(a, _, e, _). (a, e)) nccitable (nc_state nc, ev)")
    case None
    with Some assms(1,4) show ?thesis by (simp add: ncci_change_state_def)
  next
    case (Some r)
    obtain act nxt ev' fn where r: "r = (act, nxt, ev', fn)" by (cases r)
    with ncci_row [OF Some [unfolded r]] assms(2) have "fn = None" by blast
    with Some r \<open>nccis s m = Some nc\<close> show ?thesis
      by (simp add: ncci_change_state_def) (intro drv_wp; (assumption | rule assms | simp; fail))
  qed
qed (use assms(3) in \<open>auto simp: ncci_change_state_def ncci_in_def\<close>)

lemma wp_ncci_change_state_any:
  assumes "drv_inv cfg q s" and "ncci_on s c m" and "\<And>t. drv_inv cfg q t \<Longrightarrow> Q t"
  shows "outcome d (ncci_change_state cfg cb c m ev s) Q"
proof (cases "row_for (\<lambda>(a, _, e, _). (a, e)) nccitable (nc_state (the (nccis s m)), ev)")
  case None
  with assms on_in(3) [OF assms(1,2)] show ?thesis by (auto simp: ncci_change_state_def ncci_in_def)
next
  case (Some r)
  obtain act nxt ev' fn where r: "r = (act, nxt, ev', fn)" by (cases r)
  from on_in(3) [OF assms(1,2)] obtain nc where nc: "nccis s m = Some nc" by (auto simp: ncci_in_def)
  have "outcome d (do { s \<leftarrow> upd_ncci m (\<lambda>nc.
                if nxt = ST_NCCI_PREVIOUS then nc\<lparr>nc_state := nc_oldstate nc, nc_oldstate := act\<rparr>
                else nc\<lparr>nc_oldstate := act, nc_state := nxt\<rparr>) s;
      case fn of None \<Rightarrow> Some s | Some N0 \<Rightarrow> n0 cfg cb c m s }) Q"
    by (cases fn rule: option.exhaust; cases "the fn"; simp; intro drv_wp; (assumption | rule assms(1,3) | blast intro: drv_stay assms on_in(3,4) [OF assms(1,2)] | simp; fail))
  with Some r nc show ?thesis by (simp add: ncci_change_state_def)
qed

end

end
