(* ===== verification/DrvMessages.thy ===== *)
theory DrvMessages
  imports DrvCalls
begin

text \<open>
  The handlers of messages in \<^verbatim>\<open>capidrv.c\<close>: under the interface to isdn4linux every message keeps the
  invariant, and a message whose own fields can be read is handled without undefined behaviour.
\<close>

section \<open>Messages that can be handled\<close>

text \<open>What the handlers read of a message beyond the parameters of fixed length.\<close>

definition manu_ok :: "cmsg \<Rightarrow> bool" where
  "manu_ok c \<longleftrightarrow> (case structs c ManuData of
     None \<Rightarrow> False
   | Some md \<Rightarrow> (case manu_trace md of
       None \<Rightarrow> False
     | Some (layer, off, len) \<Rightarrow> trace_layer layer = None \<or> off + unat len \<le> length md))"

definition info_ok :: "cmsg \<Rightarrow> bool" where
  "info_ok c \<longleftrightarrow> (case structs c InfoElement of
     None \<Rightarrow> False
   | Some ie \<Rightarrow> 0 < length ie \<and> (ie ! 0 = 4 \<longrightarrow> 4 < length ie))"

definition call_ok :: "drv_cfg \<Rightarrow> cmsg \<Rightarrow> bool" where
  "call_ok cfg c \<longleftrightarrow> incoming_setup cfg c \<noteq> None \<and> (\<forall>r. fits_buf (set_word Reject r (capi_cmsg_answer c)))"

definition good_params :: "drv_cfg \<Rightarrow> cmsg \<Rightarrow> bool" where
  "good_params cfg c \<longleftrightarrow>
     (let cmd = CAPICMD (Command c) (Subcommand c) in
       (cmd = CAPI_CONNECT_IND \<longrightarrow> call_ok cfg c) \<and>
       (cmd = CAPI_INFO_IND \<and> words c InfoNumber = 0x4000 \<longrightarrow> info_ok c) \<and>
       (cmd = CAPI_MANUFACTURER_IND \<and> dwords c ManuID = 0x214D5641 \<and> dwords c Class = 0 \<and> dwords c Function = 1 \<longrightarrow>
          manu_ok c))"

definition good_cmsg :: "drv_cfg \<Rightarrow> cmsg \<Rightarrow> bool" where
  "good_cmsg cfg c \<longleftrightarrow> length (cmsg_buf c) = 180 \<and> good_params cfg c"

definition good_message :: "drv_cfg \<Rightarrow> bytes \<Rightarrow> bool" where
  "good_message cfg m \<longleftrightarrow> (case capi_message2cmsg m of None \<Rightarrow> False | Some c \<Rightarrow> good_params cfg c)"

lemma put_bytes_ok: "ring_ok r \<Longrightarrow> \<exists>r'. put_bytes bs r = Some r' \<and> ring_ok r'"
proof (induction bs arbitrary: r)
  case (Cons b bs)
  from put_bytes_ring [OF Cons.prems, of "[b]"] obtain r1 where "put_bytes [b] r = Some r1" "ring_ok r1" by auto
  with Cons.IH [of r1] put_bytes_append [of "[b]" bs r] show ?case by auto
qed (simp add: put_bytes_def)

lemma handle_dtrace_data_ok: "ring_ok r \<Longrightarrow> \<exists>r' n. handle_dtrace_data b l data r = Some (r', n) \<and> ring_ok r'"
  using put_bytes_ok [of r "dtrace_text b l data"] by (auto simp: handle_dtrace_data_def)

lemma manu_okD:
  assumes "manu_ok c"
  shows "structs c ManuData \<noteq> None" "structs c ManuData = Some md \<Longrightarrow> manu_trace md \<noteq> None"
    "structs c ManuData = Some md \<Longrightarrow> manu_trace md = Some x \<Longrightarrow> x = (l, y) \<Longrightarrow> y = (i, n) \<Longrightarrow> trace_layer l = Some z \<Longrightarrow>
      i + unat n \<le> length md"
  using assms by (auto simp: manu_ok_def split: option.splits)

lemma scan_bchans_ok:
  "i + n \<le> length bs \<Longrightarrow> \<exists>r. scan_bchans bs n i = Some r \<and> (\<forall>j. r = Some j \<longrightarrow> j < i + n \<and> bc_plcip (bs ! j) = None)"
proof (induction n arbitrary: i)
  case (Suc n)
  from Suc.IH [of "Suc i"] Suc.prems obtain r where "scan_bchans bs n (Suc i) = Some r"
    "\<forall>j. r = Some j \<longrightarrow> j < Suc i + n \<and> bc_plcip (bs ! j) = None" by auto
  with Suc.prems show ?case by auto
qed simp

lemma del_ack_links: "nc_plcip (snd (capidrv_del_ack h nc)) = nc_plcip nc \<and> nc_chan (snd (capidrv_del_ack h nc)) = nc_chan nc"
  by (simp add: capidrv_del_ack_def split: option.splits)

lemma message2cmsg_len: "capi_message2cmsg m = Some c \<Longrightarrow> CAPIMSG_LEN m \<noteq> None"
  by (auto simp: capi_message2cmsg_def CAPIMSG_LEN_def CAPIMSG_U16_def split: option.splits)

context upper_layer begin

section \<open>Controllers\<close>

lemma wp_card_dtrace [drv_wp]:
  assumes "drv_inv cfg q s" and "d \<Longrightarrow> contr_in s c" and "\<And>t. drv_inv cfg q t \<Longrightarrow> grows s t \<Longrightarrow> Q t"
  shows "outcome d (card_dtrace cb c b l data s) Q"
  unfolding card_dtrace_def
proof (intro wp_bind wp_contrs, rule assms(2), assumption)
  fix ct assume ct: "contrs s c = Some ct"
  with drv_inv_parts(4) [OF assms(1)] have "ring_ok (q931 ct)" by (simp add: rings_ok_def)
  from handle_dtrace_data_ok [OF this] obtain r n where r: "handle_dtrace_data b l data (q931 ct) = Some (r, n)" "ring_ok r"
    by blast
  have c: "contr_in s c" using ct by (simp add: contr_in_def)
  show "outcome d (handle_dtrace_data b l data (q931 ct)) (\<lambda>x. outcome d (case x of (r, n) \<Rightarrow> do {
      s \<leftarrow> upd_contr c (\<lambda>ct. ct\<lparr>q931 := r\<rparr>) s;
      case n of None \<Rightarrow> Some s | Some n \<Rightarrow> do { (_, s) \<leftarrow> statcallb cb c (ISDN_STAT_STAVAIL n) s; Some s } }) Q)"
    unfolding r(1)
    by (intro drv_wp wp_option wp_upd_contr; (assumption | rule assms(1) c | blast intro: drv_stay c | simp add: r(2); fail
        | blast intro: assms(3) same_view_grows links_grow_trans))
qed

lemma wp_handle_controller:
  assumes "drv_inv cfg q s" and "d \<Longrightarrow> good_cmsg cfg c" and "\<And>t. drv_inv cfg q t \<Longrightarrow> Q t"
  shows "outcome d (handle_controller cb c s) Q"
proof -
  have manu: "d \<Longrightarrow> CAPICMD (Command c) (Subcommand c) = CAPI_MANUFACTURER_IND \<Longrightarrow>
      dwords c ManuID = 0x214D5641 \<and> dwords c Class = 0 \<and> dwords c Function = 1 \<Longrightarrow> manu_ok c"
    using assms(2) by (simp add: good_cmsg_def good_params_def)
  show ?thesis
    unfolding handle_controller_def
    by (intro drv_wp wp_option wp_prod wp_read [where m = "manu_trace x" for x] assms(3);
        (assumption | rule assms(1) | blast intro: drv_stay assms | rule manu_okD [OF manu]; assumption))
qed

section \<open>Incoming calls\<close>

lemma wp_new_bchan [drv_wp]:
  assumes "drv_inv cfg q s" and "contr_in s c" and "Q (None, s)"
    and "\<And>i t. drv_inv cfg q t \<Longrightarrow> same_view s t \<Longrightarrow> chan_free t c i \<Longrightarrow> chan_in t c i \<Longrightarrow> Q (Some i, t)"
  shows "outcome d (new_bchan c s) Q"
proof -
  from assms(2) obtain ct where ct: "contrs s c = Some ct" by (auto simp: contr_in_def)
  then have cv: "cview s c = Some (nbchan ct, plci_list ct, map (\<lambda>b. (bc_plcip b, bc_nccip b)) (bchans ct))"
    by (simp add: cview_def)
  from contr_okD(1) [OF links_okD(3) [OF drv_inv_parts(3) [OF assms(1)] cv]] have n: "nbchan ct \<le> length (bchans ct)" by simp
  with scan_bchans_ok [of 0 "nbchan ct" "bchans ct"] obtain r where r: "scan_bchans (bchans ct) (nbchan ct) 0 = Some r"
    "\<forall>j. r = Some j \<longrightarrow> j < nbchan ct \<and> bc_plcip (bchans ct ! j) = None" by auto
  show ?thesis
  proof (cases r)
    case None
    with ct r assms(3) show ?thesis by (simp add: new_bchan_def)
  next
    case (Some i)
    with r(2) cv n have free: "chan_free s c i" by (auto simp: chan_free_def)
    have "outcome d (do { s \<leftarrow> upd_bchan c i (\<lambda>b. b\<lparr>bc_disconnecting := False\<rparr>) s; Some (Some i, s) }) Q"
      by (intro drv_wp assms(4); (assumption | rule assms(1) | blast intro: drv_stay free on_in(6) [OF assms(1)] | simp; fail))
    with ct r(1) Some show ?thesis by (simp add: new_bchan_def)
  qed
qed

lemma wp_reject_call [drv_wp]:
  assumes "drv_inv cfg q s" and "plci_in s p" and "d \<Longrightarrow> sendable (set_word Reject r (capi_cmsg_answer c))"
    and "\<And>t. drv_inv cfg q t \<Longrightarrow> same_view s t \<Longrightarrow> Q t"
  shows "outcome d (reject_call cfg cb crd p c r s) Q"
  unfolding reject_call_def
  by (intro drv_wp assms(4); (assumption | rule assms memory | erule (1) same_view_trans | blast intro: drv_stay assms | simp add: plci_ends_def; fail))

lemma wp_handle_incoming_call:
  assumes "drv_inv cfg q s" and "contr_in s crd" and "d \<Longrightarrow> call_ok cfg c" and "\<And>t. drv_inv cfg q t \<Longrightarrow> Q t"
  shows "outcome d (handle_incoming_call cfg cb crd c s) Q"
proof -
  have inc: "incoming_setup cfg c \<noteq> None" and rej: "sendable (set_word Reject r (capi_cmsg_answer c))" if d for r
    using assms(3) [OF that] fits_sendable by (auto simp: call_ok_def)
  show ?thesis
    unfolding handle_incoming_call_def
    by (intro drv_wp wp_read [where m = "incoming_setup cfg c"] assms(4);
        (assumption | rule assms(1,2) memory | erule inc rej | blast intro: drv_stay assms | simp add: plci_ends_def; fail))
qed

section \<open>Connections\<close>

lemma wp_plci_disconnect_ind:
  assumes "drv_inv cfg q s" and "contr_in s crd" and "d \<Longrightarrow> sendable (capi_cmsg_answer c)" and "\<And>t. drv_inv cfg q t \<Longrightarrow> Q t"
  shows "outcome d (plci_disconnect_ind cfg cb crd c s) Q"
  unfolding plci_disconnect_ind_def
  by (intro drv_wp wp_plci_change_state_any assms(4);
      (assumption | rule assms(1,2,3) memory | blast intro: drv_stay assms | simp add: plci_ends_def; fail))

lemma wp_plci_connect_conf:
  assumes "drv_inv cfg q s" and "contr_in s crd" and "\<And>t. drv_inv cfg q t \<Longrightarrow> Q t"
  shows "outcome d (plci_connect_conf cb crd c s) Q"
  unfolding plci_connect_conf_def
  by (intro drv_wp wp_plci_change_state_any assms(3); (assumption | rule assms(1,2) | blast intro: drv_stay assms | simp; fail))

lemma wp_plci_connect_active_ind:
  assumes "drv_inv cfg q s" and "contr_in s crd" and "d \<Longrightarrow> sendable (capi_cmsg_answer c)" and "\<And>t. drv_inv cfg q t \<Longrightarrow> Q t"
  shows "outcome d (plci_connect_active_ind cfg cb crd c s) Q"
  unfolding plci_connect_active_ind_def
  by (intro drv_wp assms(4);
      (assumption | rule assms(1,2,3) memory | blast intro: drv_stay assms | simp add: plci_ends_def ncci_ends_def; fail))

lemma wp_plci_info_ind:
  assumes "drv_inv cfg q s" and "contr_in s crd" and "d \<Longrightarrow> words c InfoNumber = 0x4000 \<Longrightarrow> info_ok c"
    and "\<And>t. drv_inv cfg q t \<Longrightarrow> Q t"
  shows "outcome d (plci_info_ind cb crd c s) Q"
  unfolding plci_info_ind_def
  by (intro drv_wp assms(4);
      (assumption | rule assms(1,2) | blast intro: drv_stay assms
        | drule (1) assms(3); simp add: info_ok_def split: option.splits; fail))

lemma wp_handle_plci:
  assumes "drv_inv cfg q s" and "d \<Longrightarrow> good_cmsg cfg c" and "\<And>t. drv_inv cfg q t \<Longrightarrow> Q t"
  shows "outcome d (handle_plci cfg cb c s) Q"
  unfolding handle_plci_def
  by (intro drv_wp wp_plci_disconnect_ind wp_handle_incoming_call wp_plci_connect_conf wp_plci_connect_active_ind
        wp_plci_info_ind assms(3);
      (assumption | rule assms(1) | blast intro: drv_stay assms
        | drule assms(2); simp add: good_cmsg_def good_params_def sendable_answer; fail | simp; fail))

section \<open>Logical connections\<close>

lemma wp_ncci_connect_b3_active_ind:
  assumes "drv_inv cfg q s" and "contr_in s crd" and "d \<Longrightarrow> sendable (capi_cmsg_answer c)" and "\<And>t. drv_inv cfg q t \<Longrightarrow> Q t"
  shows "outcome d (ncci_connect_b3_active_ind cfg cb crd c s) Q"
  unfolding ncci_connect_b3_active_ind_def
  by (intro drv_wp assms(4); (assumption | rule assms(1,2,3) memory | blast intro: drv_stay assms | simp add: ncci_ends_def; fail))

lemma wp_ncci_connect_b3_ind:
  assumes "drv_inv cfg q s" and "contr_in s crd" and "\<And>t. drv_inv cfg q t \<Longrightarrow> Q t"
  shows "outcome d (ncci_connect_b3_ind cfg cb crd c s) Q"
  unfolding ncci_connect_b3_ind_def
  by (intro drv_wp assms(3); (assumption | rule assms(1,2) memory | blast intro: drv_stay assms | simp add: ncci_ends_def; fail))

lemma wp_ncci_connect_b3_conf:
  assumes "drv_inv cfg q s" and "contr_in s crd" and "\<And>t. drv_inv cfg q t \<Longrightarrow> Q t"
  shows "outcome d (ncci_connect_b3_conf cfg cb crd c s) Q"
  unfolding ncci_connect_b3_conf_def
  by (intro drv_wp wp_ncci_change_state_any assms(3); (assumption | rule assms(1,2) | blast intro: drv_stay assms | simp; fail))

lemma wp_ncci_data_b3_conf:
  assumes "drv_inv cfg q s" and "contr_in s crd" and "\<And>t. drv_inv cfg q t \<Longrightarrow> Q t"
  shows "outcome d (ncci_data_b3_conf cb crd c s) Q"
  unfolding ncci_data_b3_conf_def
  by (intro drv_wp wp_prod assms(3);
     (assumption | rule assms(1,2) | blast intro: drv_stay assms | use del_ack_links in \<open>force simp: prod_eq_iff\<close>))

lemma wp_ncci_disconnect_b3_ind:
  assumes "drv_inv cfg q s" and "contr_in s crd" and "d \<Longrightarrow> sendable (capi_cmsg_answer c)" and "\<And>t. drv_inv cfg q t \<Longrightarrow> Q t"
  shows "outcome d (ncci_disconnect_b3_ind cfg cb crd c s) Q"
  unfolding ncci_disconnect_b3_ind_def
  by (intro drv_wp wp_ncci_change_state_any assms(4);
      (assumption | rule assms(1,2,3) memory | blast intro: drv_stay assms | simp add: ncci_ends_def; fail))

lemma wp_handle_ncci:
  assumes "drv_inv cfg q s" and "d \<Longrightarrow> good_cmsg cfg c" and "\<And>t. drv_inv cfg q t \<Longrightarrow> Q t"
  shows "outcome d (handle_ncci cfg cb c s) Q"
  unfolding handle_ncci_def
  by (intro drv_wp wp_ncci_connect_b3_active_ind wp_ncci_connect_b3_ind wp_ncci_connect_b3_conf wp_ncci_data_b3_conf
        wp_ncci_disconnect_b3_ind wp_ncci_change_state_any assms(3);
      (assumption | rule assms(1) memory | blast intro: drv_stay assms
        | drule assms(2); simp add: good_cmsg_def good_params_def sendable_answer; fail | simp; fail))

section \<open>Data and the choice of the handler\<close>

lemma wp_handle_data:
  assumes "drv_inv cfg q s" and "d \<Longrightarrow> sendable (capi_cmsg_answer c) \<and> CAPIMSG_LEN skb \<noteq> None" and "\<And>t. drv_inv cfg q t \<Longrightarrow> Q t"
  shows "outcome d (handle_data cfg cb c skb s) Q"
  unfolding handle_data_def
  by (intro drv_wp wp_read [where m = "CAPIMSG_LEN skb"] assms(3);
      (assumption | rule assms(1) memory | blast intro: drv_stay assms dest: assms(2) | simp; fail))

lemma wp_handle_message:
  assumes "drv_inv cfg q s" and "d \<Longrightarrow> good_message cfg m" and "\<And>t. drv_inv cfg q t \<Longrightarrow> Q t"
  shows "outcome d (handle_message cfg cb m s) Q"
proof (cases "capi_message2cmsg m")
  case None
  with assms(2) show ?thesis by (auto simp: handle_message_def good_message_def)
next
  case (Some c)
  with assms(2) have good: "d \<Longrightarrow> good_cmsg cfg c"
    using decoded_frame(1) [OF Some] by (simp add: good_message_def good_cmsg_def)
  show ?thesis
    unfolding handle_message_def Some bind.bind_lunit
    by (intro drv_wp wp_handle_data wp_handle_controller wp_handle_plci wp_handle_ncci assms(3);
        (assumption | rule assms(1) | erule good
          | drule good; simp add: good_cmsg_def good_params_def sendable_answer message2cmsg_len [OF Some]; fail))
qed

end

end
