(* ===== verification/DrvDriver.thy ===== *)
theory DrvDriver
  imports DrvMessages
begin

text \<open>
  The commands of isdn4linux keep the invariant of \<^verbatim>\<open>capidrv.c\<close> and only add connections.  So isdn4linux, which calls
  the driver from inside its callbacks to any depth, has the interface \<open>upper_layer\<close>.
\<close>

section \<open>Channels of a command\<close>

definition chan_below :: "capidrv \<Rightarrow> nat \<Rightarrow> nat \<Rightarrow> bool" where
  "chan_below s c i \<longleftrightarrow> (\<exists>n l bs. cview s c = Some (n, l, bs) \<and> i < n)"

definition has_channels :: "capidrv \<Rightarrow> nat \<Rightarrow> bool" where
  "has_channels s c \<longleftrightarrow> (\<exists>ct. contrs s c = Some ct \<and> nbchan ct \<noteq> 0)"

lemma chan_below_in:
  assumes "drv_inv cfg q s" and "chan_below s c i"
  shows "chan_in s c i"
proof -
  from assms(2) obtain n l bs where c: "cview s c = Some (n, l, bs)" "i < n" by (auto simp: chan_below_def)
  from contr_okD(1) [OF links_okD(3) [OF drv_inv_parts(3) [OF assms(1)] c(1)]] c show ?thesis
    by (auto simp: chan_in_view)
qed

lemma wp_chan_of [drv_wp]:
  assumes "drv_inv cfg q s" and "d \<Longrightarrow> has_channels s c"
    and "\<And>i. chan_below s c i \<Longrightarrow> chan_in s c i \<Longrightarrow> contr_in s c \<Longrightarrow> Q i"
  shows "outcome d (chan_of c arg s) Q"
proof (cases "contrs s c")
  case None
  with assms(2) show ?thesis by (auto simp: chan_of_def has_channels_def)
next
  case (Some ct)
  show ?thesis
  proof (cases "nbchan ct = 0")
    case True
    with assms(2) Some show ?thesis by (auto simp: chan_of_def has_channels_def)
  next
    case False
    then have "chan_below s c (arg mod nbchan ct)" using Some by (simp add: chan_below_def cview_def)
    with assms(3) chan_below_in [OF assms(1)] Some False show ?thesis by (simp add: chan_of_def contr_in_def)
  qed
qed

lemma bchan_links:
  assumes "get_bchan c i s = Some b" and "drv_inv cfg q s"
  shows "bc_plcip b = Some p \<Longrightarrow> plci_on s c p" "bc_nccip b = Some m \<Longrightarrow> ncci_in s m"
    "bc_plcip b = None \<Longrightarrow> chan_below s c i \<Longrightarrow> chan_free s c i"
proof -
  from assms(1) obtain ct where ct: "contrs s c = Some ct" "i < length (bchans ct)" "b = bchans ct ! i"
    by (auto simp: get_bchan_def buf_simps)
  have cv: "cview s c = Some (nbchan ct, plci_list ct, map (\<lambda>b. (bc_plcip b, bc_nccip b)) (bchans ct))"
    using ct(1) by (simp add: cview_def)
  note K = contr_okD [OF links_okD(3) [OF drv_inv_parts(3) [OF assms(2)] cv]]
  show "bc_plcip b = Some p \<Longrightarrow> plci_on s c p"
    using K(4) [of i p] ct by (auto intro: on_listI [where cv = "cview s", OF cv])
  show "bc_nccip b = Some m \<Longrightarrow> ncci_in s m"
    using K(5) [of i m] ct by (auto simp: nview_def ncci_in_def)
  show "bc_plcip b = None \<Longrightarrow> chan_below s c i \<Longrightarrow> chan_free s c i"
    using cv ct by (auto simp: chan_below_def chan_free_def)
qed

lemma bchan_plci_in: "get_bchan c i s = Some b \<Longrightarrow> bc_plcip b = Some p \<Longrightarrow> drv_inv cfg q s \<Longrightarrow> plci_in s p"
  using bchan_links(1) on_in(1) by blast

text \<open>A chain of steps.\<close>

lemma grows_then: "grows x t \<Longrightarrow> grows s x \<Longrightarrow> grows s t" "same_view x t \<Longrightarrow> grows s x \<Longrightarrow> grows s t"
  using links_grow_trans same_view_grows by blast+

lemma keeps_debugmode: "drv_inv cfg q s \<Longrightarrow> keeps cfg q s (s\<lparr>debugmode := n\<rparr>)"
  using drv_inv_parts(4) [of cfg q s]
  by (auto intro!: keepsI simp: same_view_def cview_def pview_def nview_def fun_eq_iff rings_ok_def)

lemma keeps_log: "drv_inv cfg q s \<Longrightarrow> keeps cfg q s (s\<lparr>hl_log := l\<rparr>)"
  using drv_inv_parts(4) [of cfg q s]
  by (auto intro!: keepsI simp: same_view_def cview_def pview_def nview_def fun_eq_iff rings_ok_def)

text \<open>The commands that are shown defined; a call that is made or accepted depends on the strings and on the channel.\<close>

fun simple_cmd :: "isdn_cmd \<Rightarrow> bool" where
  "simple_cmd (ISDN_CMD_DIAL arg phone eazmsn si1 si2) = False"
| "simple_cmd (ISDN_CMD_ACCEPTD arg) = False"
| "simple_cmd _ = True"

section \<open>Sending data\<close>

text \<open>The part of \<open>if_sendbuf\<close> that queues the acknowledge and sends, with the header written out.\<close>

definition queue_data :: "drv_cfg \<Rightarrow> bool \<Rightarrow> bytes \<Rightarrow> nat \<Rightarrow> nat \<Rightarrow> u16 \<Rightarrow> bytes \<Rightarrow> capidrv \<Rightarrow> (int \<times> capidrv) option" where
  "queue_data cfg doack skb headroom nccip h hdr s = do {
     s \<leftarrow> upd_ncci nccip (\<lambda>nc. snd (capidrv_add_ack True h (if doack then int (length skb) else -1) nc)) s;
     let (nskb, s) = (if headroom < 22 then drv_alloc_skb cfg s else (True, s));
     if \<not> nskb then do { s \<leftarrow> drop_ack h nccip s; Some (0, s) }
     else do {
       (errcode, s) \<leftarrow> drv_put_message cfg (hdr @ skb) s;
       if errcode = CAPINFO_0X11_NOERR then do {
         s \<leftarrow> upd_ncci nccip (\<lambda>nc. nc\<lparr>nc_datahandle := nc_datahandle nc + 1\<rparr>) s;
         Some (int (length skb), s) }
       else do {
         s \<leftarrow> drop_ack h nccip s;
         Some (if errcode = CAPINFO_0X11_QUEUEFULL then 0 else -1, s) } } }"

lemma if_sendbuf_eq:
  "if_sendbuf cfg driver channel doack skb headroom s = do {
     r \<leftarrow> findcontrbydriverid driver s;
     case r of
       None \<Rightarrow> Some (0, s)
     | Some crd \<Rightarrow> do {
         ct \<leftarrow> contrs s crd;
         i \<leftarrow> signed_chan channel (nbchan ct);
         b \<leftarrow> get_bchan crd i s;
         case bc_nccip b of
           None \<Rightarrow> Some (0, s)
         | Some nccip \<Rightarrow> do {
             nc \<leftarrow> nccis s nccip;
             if nc_state nc \<noteq> ST_NCCI_ACTIVE then Some (0, s)
             else do {
               a \<leftarrow> ap_id cfg s;
               (msgid, s) \<leftarrow> next_msgid crd s;
               let (mem, s) = drv_alloc cfg s;
               if mem = None then Some (0, s)
               else queue_data cfg doack skb headroom nccip (nc_datahandle nc)
                 (data_hdr a msgid (nc_ncci nc) (data_addr cfg skb) (word_of_nat (length skb)) (nc_datahandle nc)) s } } } }"
proof -
  define C where "C a m n x l h = the (capi_cmsg2message (capi_fill_DATA_B3_REQ a m n x l h 0)
      (cmsg_buf (capi_fill_DATA_B3_REQ a m n x l h 0)))" for a m n x l h
  have C: "capi_cmsg2message (capi_fill_DATA_B3_REQ a m n x l h 0) (cmsg_buf (capi_fill_DATA_B3_REQ a m n x l h 0)) =
        Some (C a m n x l h)"
      "CAPIMSG_LEN (cur_m (C a m n x l h)) = Some 22" "lds (cur_m (C a m n x l h)) 0 22 = Some (data_hdr a m n x l h)"
    for a m n x l h
    using data_message [of a m n x l h] unfolding C_def by (auto simp: data_hdr_reads)
  have u: "unat (22 :: u16) = 22" by simp
  show ?thesis
    unfolding if_sendbuf_def queue_data_def Let_def C bind.bind_lunit u by (rule refl)
qed

lemma ack_links:
  "nc_plcip (snd (capidrv_add_ack b h l nc)) = nc_plcip nc \<and> nc_chan (snd (capidrv_add_ack b h l nc)) = nc_chan nc"
  by (simp add: capidrv_add_ack_def)

lemma nat_mod_bounds: "n \<noteq> 0 \<Longrightarrow> \<not> a mod int n < 0" "n \<noteq> 0 \<Longrightarrow> nat (a mod int n) < n"
proof -
  assume "n \<noteq> 0"
  then have "0 \<le> a mod int n" "a mod int n < int n" by simp_all
  then show "\<not> a mod int n < 0" "nat (a mod int n) < n" by linarith+
qed

lemma signed_chan_below: "signed_chan channel n = Some i \<Longrightarrow> i < n"
  by (auto simp: signed_chan_def signed_modulo_int_def sgn_if nat_mod_bounds split: if_splits)

lemma signed_chan_total: "0 \<le> channel \<Longrightarrow> n \<noteq> 0 \<Longrightarrow> signed_chan channel n \<noteq> None"
  by (auto simp: signed_chan_def signed_modulo_int_def sgn_if nat_mod_bounds)

lemma contr_chan: "drv_inv cfg q s \<Longrightarrow> contrs s c = Some ct \<Longrightarrow> i < nbchan ct \<Longrightarrow> chan_in s c i"
  by (rule chan_below_in) (auto simp: chan_below_def cview_def)

context upper_layer begin

lemma wp_hangup:
  assumes "drv_inv cfg q s" and "d \<Longrightarrow> has_channels s c" and "\<And>r t. drv_inv cfg q t \<Longrightarrow> grows s t \<Longrightarrow> Q (r, t)"
  shows "outcome d (cmd_hangup cfg cb c arg s) Q"
  unfolding cmd_hangup_def
  by (intro drv_wp wp_option assms(3);
      (assumption | rule assms(1,2) memory | rule links_grow_refl | (erule grows_then)+, rule links_grow_refl
        | blast intro: drv_stay bchan_links(2) bchan_plci_in assms(1) | simp add: plci_ends_def ncci_ends_def; fail))

lemma wp_dial:
  assumes "drv_inv cfg q s" and "\<not> d" and "\<And>r t. drv_inv cfg q t \<Longrightarrow> grows s t \<Longrightarrow> Q (r, t)"
  shows "outcome d (cmd_dial cfg cb c arg phone eazmsn si1 si2 s) Q"
  unfolding cmd_dial_def
  by (intro drv_wp wp_option wp_prod wp_read [where m = "c_string x" for x] wp_read [where m = "FVteln2capi20 x" for x]
        wp_read [where m = "dial_numbers cfg x y" for x y] assms(3);
      (assumption | rule assms(1) | simp add: assms(2) plci_ends_def; fail | rule links_grow_refl | (erule grows_then)+, rule links_grow_refl
        | blast intro: drv_stay bchan_links(3) assms(1)))

lemma wp_acceptd:
  assumes "drv_inv cfg q s" and "\<not> d" and "\<And>r t. drv_inv cfg q t \<Longrightarrow> grows s t \<Longrightarrow> Q (r, t)"
  shows "outcome d (cmd_acceptd cfg cb c arg s) Q"
  unfolding cmd_acceptd_def
  by (intro drv_wp wp_read [where m = "bc_plcip x" for x] wp_read [where m = "capi_cmsg2message x y" for x y] assms(3);
      (assumption | rule assms(1) | simp add: assms(2) plci_ends_def; fail | rule links_grow_refl | (erule grows_then)+, rule links_grow_refl))

lemma wp_command:
  assumes "drv_inv cfg q s" and "d \<Longrightarrow> simple_cmd cmd \<and> has_channels s c"
    and "\<And>r t. drv_inv cfg q t \<Longrightarrow> grows s t \<Longrightarrow> Q (r, t)"
  shows "outcome d (capidrv_command cfg cb cmd c s) Q"
proof (cases cmd)
  case (ISDN_CMD_IOCTL arg num)
  with assms(1,3) keeps_debugmode [OF assms(1)] show ?thesis
    by (auto simp: capidrv_ioctl_def keeps_def same_view_grows)
next
  case (ISDN_CMD_DIAL arg phone eazmsn si1 si2)
  with assms(2) have "\<not> d" by auto
  show ?thesis unfolding ISDN_CMD_DIAL capidrv_command.simps by (rule wp_dial [OF assms(1) \<open>\<not> d\<close>]) (rule assms(3))
next
  case (ISDN_CMD_ACCEPTD arg)
  with assms(2) have "\<not> d" by auto
  show ?thesis unfolding ISDN_CMD_ACCEPTD capidrv_command.simps by (rule wp_acceptd [OF assms(1) \<open>\<not> d\<close>]) (rule assms(3))
next
  case (ISDN_CMD_HANGUP arg)
  with assms(2) show ?thesis by (auto intro: wp_hangup assms)
next
  case (ISDN_CMD_SETL2 arg)
  with assms(2) show ?thesis
    by simp (intro drv_wp assms(3); (assumption | rule assms(1) | erule same_view_grows | blast | simp))
next
  case (ISDN_CMD_SETL3 arg)
  with assms(2) show ?thesis
    by simp (intro drv_wp assms(3); (assumption | rule assms(1) | erule same_view_grows | blast | simp))
next
  case (ISDN_CMD_SETEAZ arg num)
  with assms(2) show ?thesis
    by simp (intro drv_wp assms(3); (assumption | rule assms(1) | erule same_view_grows | blast | simp))
next
  case (ISDN_CMD_CLREAZ arg)
  with assms(2) show ?thesis
    by simp (intro drv_wp assms(3); (assumption | rule assms(1) | erule same_view_grows | blast | simp))
qed (use assms(1,3) in simp_all)

lemma wp_if_command:
  assumes "drv_inv cfg q s" and "d \<Longrightarrow> simple_cmd cmd \<and> (\<forall>c. contr_in s c \<longrightarrow> has_channels s c)"
    and "\<And>r t. drv_inv cfg q t \<Longrightarrow> grows s t \<Longrightarrow> Q (r, t)"
  shows "outcome d (if_command cfg cb driver cmd s) Q"
  unfolding if_command_def
  by (intro drv_wp wp_command assms(3); (assumption | rule assms(1) | rule links_grow_refl | use assms(2) in blast))

lemma wp_queue_data [drv_wp]:
  assumes "drv_inv cfg q s" and "d \<Longrightarrow> ncci_in s m" and "d \<Longrightarrow> msg_count CAPI_DATA_B3_REQ (hdr @ skb) \<noteq> None"
    and "\<And>r t. drv_inv cfg q t \<Longrightarrow> same_view s t \<Longrightarrow> Q (r, t)"
  shows "outcome d (queue_data cfg doack skb headroom m h hdr s) Q"
  unfolding queue_data_def drop_ack_def
  by (intro drv_wp assms(4);
      (assumption | rule assms(1,3) ack_links del_ack_links | blast intro: drv_stay assms same_view_trans | simp; fail))

lemma wp_if_sendbuf:
  assumes "drv_inv cfg q s" and "d \<Longrightarrow> 0 \<le> channel \<and> (\<forall>c. contr_in s c \<longrightarrow> has_channels s c)"
    and "\<And>r t. drv_inv cfg q t \<Longrightarrow> same_view s t \<Longrightarrow> Q (r, t)"
  shows "outcome d (if_sendbuf cfg driver channel doack skb headroom s) Q"
proof -
  have sc: "d \<Longrightarrow> contrs s c = Some ct \<Longrightarrow> signed_chan channel (nbchan ct) \<noteq> None" for c ct
    using assms(2) signed_chan_total [of channel "nbchan ct"] by (force simp: has_channels_def contr_in_def)
  show ?thesis
    unfolding if_sendbuf_eq
    by (intro drv_wp wp_option wp_read [where m = "signed_chan x y" for x y] assms(3);
        (assumption | rule assms(1) | rule same_view_refl | (simp add: msg_count_def data_hdr_reads; fail)
          | erule (1) sc | (rule contr_chan [OF assms(1)], assumption, erule signed_chan_below)
          | blast intro: drv_stay bchan_links(2) same_view_trans assms(1)))
qed

lemma wp_if_readstat:
  assumes "drv_inv cfg q s" and "\<And>r b t. drv_inv cfg q t \<Longrightarrow> same_view s t \<Longrightarrow> Q (r, b, t)"
  shows "outcome d (if_readstat len driver s) Q"
  unfolding if_readstat_def
proof (intro wp_bind wp_findcontr(2) [OF assms(1)] wp_contrs wp_none wp_some wp_return assms(2) [OF assms(1)] same_view_refl)
  fix c ct assume c: "contr_in s c" "contrs s c = Some ct"
  with drv_inv_parts(4) [OF assms(1)] have "ring_ok (q931 ct)" by (simp add: rings_ok_def)
  from read_bytes_ring [OF this, of len] obtain bs r where r: "read_bytes len (q931 ct) = Some (bs, r)" "ring_ok r" by blast
  show "outcome d (read_bytes len (q931 ct)) (\<lambda>x. outcome d (case x of (bs, q) \<Rightarrow> do {
      s \<leftarrow> upd_contr c (\<lambda>ct. ct\<lparr>q931 := q\<rparr>) s; Some (int len, bs, s) }) Q)"
    unfolding r(1)
    by (intro drv_wp wp_upd_contr assms(2); (assumption | rule assms(1) c | simp add: r(2)))
qed

end

section \<open>isdn4linux inside a call\<close>

text \<open>To whatever depth isdn4linux calls back, it has the interface; when it does not call back, its answers are defined.\<close>

lemma hl_call_adds:
  assumes "upper_layer cfg cb False" and "drv_inv cfg q s"
  shows "outcome False (hl_call cfg cb k s) (adds cfg q s)"
proof (cases k)
  case (If_command driver cmd)
  have "outcome False (if_command cfg cb driver cmd s) (\<lambda>x. adds cfg q s (snd x))"
    by (rule upper_layer.wp_if_command [OF assms]) (simp_all add: adds_def)
  then show ?thesis by (simp add: If_command outcome_map)
next
  case (If_sendbuf driver channel doack skb headroom)
  have "outcome False (if_sendbuf cfg driver channel doack skb headroom s) (\<lambda>x. adds cfg q s (snd x))"
    by (rule upper_layer.wp_if_sendbuf [OF assms]) (simp_all add: adds_def same_view_grows)
  then show ?thesis by (simp add: If_sendbuf outcome_map)
qed

lemma isdn4linux_upper_layer: "upper_layer cfg (isdn4linux cfg depth) False"
proof (induction depth)
  case 0
  show ?case
    by unfold_locales (auto simp: Let_def intro!: keeps_adds keeps_log)
next
  case (Suc depth)
  show ?case
  proof
    fix q e and s :: capidrv
    assume inv: "drv_inv cfg q s"
    let ?s = "s\<lparr>hl_log := e # hl_log s\<rparr>"
    note l = keeps_adds [OF keeps_log [OF inv, of "e # hl_log s"]]
    have "outcome False (fold_opt (hl_call cfg (isdn4linux cfg depth)) ks t) (adds cfg q t)" if "drv_inv cfg q t" for ks t
      using that
    proof (induction ks arbitrary: t)
      case (Cons k ks)
      have "outcome False (fold_opt (hl_call cfg (isdn4linux cfg depth)) ks u) (adds cfg q t)" if u: "adds cfg q t u" for u
        by (rule outcome_mono [OF Cons.IH [OF addsD(1) [OF u]]]) (rule adds_trans [OF u])
      then show ?case by (simp add: outcome_bind [OF hl_call_adds [OF Suc Cons.prems]])
    qed (simp add: adds_refl)
    from this [OF addsD(1) [OF l]]
    show "outcome False (isdn4linux cfg (Suc depth) e s) (\<lambda>(_, s'). adds cfg q s s')"
      by (auto simp: Let_def intro!: outcome_bind elim!: outcome_mono intro: adds_trans [OF l])
  qed simp
qed

interpretation hl: upper_layer cfg "isdn4linux cfg depth" False for cfg depth
  by (rule isdn4linux_upper_layer)

interpretation quiet: upper_layer "cfg\<lparr>alloc_skb_ok := \<lambda>_. True\<rparr>" "isdn4linux cfg' 0" True for cfg cfg'
  by unfold_locales (auto simp: Let_def intro!: keeps_adds keeps_log)

end
