(* ===== verification/DrvSteps.thy ===== *)
theory DrvSteps
  imports DrvDriver
begin

text \<open>
  Controllers come and go, and the states that \<^verbatim>\<open>capidrv.c\<close> can reach: the invariant holds in all of them.
\<close>

section \<open>A controller comes\<close>

lemma links_new_contr:
  assumes ok: "links_ok s" and fresh: "cview s c = None" and c: "c < cd_brk s'" "cd_brk s \<le> cd_brk s'"
    and s': "cview s' = (cview s)(c \<mapsto> (n, [], replicate n (None, None)))" "pview s' = pview s" "nview s' = nview s"
      "contr_list s' = c # contr_list s"
  shows "links_ok s'"
proof -
  note D = links_okD [OF ok]
  have below: "x < cd_brk s'" if "x < cd_brk s" for x using that c(2) by simp
  have new: "\<not> on_list (cview s) c p" for p using fresh by (simp add: on_list_def)
  show ?thesis
  proof (rule links_okI, unfold s')
    fix c1 x assume "((cview s)(c \<mapsto> (n, [], replicate n (None, None)))) c1 = Some x"
    then show "contr_ok (pview s) (nview s) x" using D(3) [of c1] by (auto simp: contr_ok_def split: if_splits)
  next
    fix c1 c2 p assume "on_list ((cview s)(c \<mapsto> (n, [], replicate n (None, None)))) c1 p"
      "on_list ((cview s)(c \<mapsto> (n, [], replicate n (None, None)))) c2 p"
    then show "c1 = c2" using D(4) by (auto simp: on_list_upd split: if_splits)
  next
    fix p y assume "pview s p = Some y"
    from D(5) [OF this] obtain c1 where "on_list (cview s) c1 p" by blast
    with new show "\<exists>c1. on_list ((cview s)(c \<mapsto> (n, [], replicate n (None, None)))) c1 p"
      by (intro exI [of _ c1]) (auto simp: on_list_upd)
  qed (use D(1,2) D(6-9) fresh c(1) in \<open>auto split: if_splits intro!: below\<close>)
qed

lemma rings_new: "rings_ok s \<Longrightarrow> ring_ok (q931 ct) \<Longrightarrow> rings_ok (s\<lparr>contr_list := l, ncontr := k, contrs := (contrs s)(c \<mapsto> ct)\<rparr>)"
  by (simp add: rings_ok_def)

section \<open>A controller goes\<close>

text \<open>The number of channels that the driver still uses.\<close>

definition nch :: "capidrv \<Rightarrow> nat \<Rightarrow> nat option" where
  "nch s c = map_option fst (cview s c)"

lemma nch_grows: "grows s t \<Longrightarrow> nch s c = Some n \<Longrightarrow> nch t c = Some n"
  unfolding nch_def grows_def by (cases "cview s c") fastforce+

lemma nch_same: "same_view s t \<Longrightarrow> nch t c = nch s c"
  by (simp add: nch_def same_view_def)

lemma links_shrink:
  assumes ok: "links_ok s" and c: "cview s c = Some (Suc n, l, bs)" and b: "fst (bs ! n) = None"
    and s': "cview s' = (cview s)(c \<mapsto> (n, l, bs))" "pview s' = pview s" "nview s' = nview s"
      "contr_list s' = contr_list s" "cd_brk s' = cd_brk s"
  shows "links_ok s'"
proof -
  note D = links_okD [OF ok]
  note K = contr_okD [OF D(3) [OF c]]
  have on: "on_list ((cview s)(c \<mapsto> (n, l, bs))) = on_list (cview s)"
    using c by (auto simp: fun_eq_iff on_list_upd on_list_def)
  show ?thesis
  proof (rule links_okI, unfold s' on)
    fix c1 x assume x: "((cview s)(c \<mapsto> (n, l, bs))) c1 = Some x"
    have "contr_ok (pview s) (nview s) (n, l, bs)"
    proof (rule contr_okI)
      fix p assume "p \<in> set l"
      from K(3) [OF this] obtain ch ns where p: "pview s p = Some (ch, ns)" "ch < Suc n" "fst (bs ! ch) = Some p" by auto
      with b have "ch \<noteq> n" by auto
      with p show "\<exists>ch ns. pview s p = Some (ch, ns) \<and> ch < n \<and> fst (bs ! ch) = Some p" by auto
    qed (use K in auto)
    with x D(3) [of c1] show "contr_ok (pview s) (nview s) x" by (auto split: if_splits)
  qed (use D c in \<open>auto split: if_splits\<close>)
qed

lemma links_no_chans:
  assumes ok: "links_ok s" and c: "cview s c = Some (0, l, bs)"
    and s': "cview s' = (cview s)(c \<mapsto> (0, l, []))" "pview s' = pview s" "nview s' = nview s"
      "contr_list s' = contr_list s" "cd_brk s' = cd_brk s"
  shows "links_ok s'"
proof -
  note D = links_okD [OF ok]
  from contr_okD(3) [OF D(3) [OF c]] have l: "l = []" by (cases l) auto
  have on: "on_list ((cview s)(c \<mapsto> (0, l, []))) = on_list (cview s)"
    using c by (auto simp: fun_eq_iff on_list_upd on_list_def)
  have "contr_ok (pview s) (nview s) (0, l, [])" by (simp add: contr_ok_def l)
  then have all: "contr_ok (pview s) (nview s) x" if "((cview s)(c \<mapsto> (0, l, []))) c1 = Some x" for c1 x
    using that D(3) [of c1] by (auto split: if_splits)
  show ?thesis
    by (rule links_okI, unfold s' on, rule_tac [3] all) (use D c in \<open>auto split: if_splits\<close>)
qed

lemma links_del_contr:
  assumes ok: "links_ok s" and c: "cview s c = Some (0, l, bs)"
    and s': "cview s' = (cview s)(c := None)" "pview s' = pview s" "nview s' = nview s"
      "contr_list s' = remove1 c (contr_list s)" "cd_brk s' = cd_brk s"
  shows "links_ok s'"
proof -
  note D = links_okD [OF ok]
  from contr_okD(3) [OF D(3) [OF c]] have l: "l = []" by (cases l) auto
  have on: "on_list ((cview s)(c := None)) = on_list (cview s)"
    using c l by (auto simp: fun_eq_iff on_list_def)
  show ?thesis
    by (rule links_okI, unfold s' on) (use D in \<open>auto split: if_splits\<close>)
qed

lemma free_nch:
  "free_ncci c m s = Some t \<Longrightarrow> nch t k = nch s k"
  "free_plci c p s = Some t \<Longrightarrow> nch t k = nch s k"
  by (auto simp: free_ncci_def free_plci_def upd_plci_def upd_bchan_def upd_contr_def get_bchan_def nch_def cview_def
      split: option.splits if_splits)

text \<open>Releasing the logical connection of a channel: it is undefined if its connection is gone.\<close>

lemma free_bchan_ncci:
  assumes inv: "drv_inv cfg q s" and b: "get_bchan c i s = Some b" "bc_nccip b = Some m" and f: "free_ncci c m s = Some t"
  shows "drv_inv cfg q t"
proof -
  from f obtain nc pl where nc: "nccis s m = Some nc" "plcis s (nc_plcip nc) = Some pl" by (auto simp: free_ncci_def)
  from b obtain ct where ct: "contrs s c = Some ct" "i < length (bchans ct)" "b = bchans ct ! i"
    by (auto simp: get_bchan_def buf_simps)
  then have cv: "cview s c = Some (nbchan ct, plci_list ct, map (\<lambda>b. (bc_plcip b, bc_nccip b)) (bchans ct))"
    by (simp add: cview_def)
  from contr_okD(5) [OF links_okD(3) [OF drv_inv_parts(3) [OF inv] cv], of i m] ct b(2) nc
  have "nc_plcip nc \<in> set (plci_list ct)" "m \<in> set (ncci_list pl)" by (auto simp: nview_def pview_def)
  then have "ncci_on s c m" using on_listI [where cv = "cview s", OF cv] nc unfolding ncci_on_def pview_def by fastforce
  from drv_free_ncci_ok [OF inv this] f show ?thesis by auto
qed

lemma free_bchan_plci:
  assumes inv: "drv_inv cfg q s" and b: "get_bchan c i s = Some b" "bc_plcip b = Some p"
  shows "\<exists>t b'. free_plci c p s = Some t \<and> drv_inv cfg q t \<and> get_bchan c i t = Some b' \<and> bc_plcip b' = None"
proof -
  from bchan_links(1) [OF b(1) inv b(2)] have p: "plci_on s c p" .
  from free_plci_ok [OF inv p] obtain t ct pl where t: "free_plci c p s = Some t" "drv_inv cfg q t" "contrs s c = Some ct"
    "plcis s p = Some pl" "t = s\<lparr>plcis := (plcis s)(p := None), contrs := (contrs s)(c \<mapsto> ct\<lparr>plci_list := remove1 p (plci_list ct),
      bchans := (bchans ct)[pl_chan pl := (bchans ct ! pl_chan pl)\<lparr>bc_plcip := None, bc_disconnecting := False, bc_incoming := False\<rparr>]\<rparr>)\<rparr>"
    by blast
  from b(1) t(3) have i: "i < length (bchans ct)" "b = bchans ct ! i" by (auto simp: get_bchan_def buf_simps)
  have cv: "cview s c = Some (nbchan ct, plci_list ct, map (\<lambda>b. (bc_plcip b, bc_nccip b)) (bchans ct))"
    using t(3) by (simp add: cview_def)
  from contr_okD(4) [OF links_okD(3) [OF drv_inv_parts(3) [OF inv] cv], of i p] i b(2) t(4) have "pl_chan pl = i"
    by (auto simp: pview_def)
  with t i show ?thesis by (simp add: get_bchan_def)
qed

lemma shrink_inv:
  assumes inv: "drv_inv cfg q s" and n: "nch s c = Some (Suc n)" and b: "get_bchan c n s = Some b" "bc_plcip b = None"
    and u: "upd_contr c (\<lambda>ct. ct\<lparr>nbchan := n\<rparr>) s = Some t"
  shows "drv_inv cfg q t" "nch t c = Some n"
proof -
  from u obtain ct where ct: "contrs s c = Some ct" "t = s\<lparr>contrs := (contrs s)(c \<mapsto> ct\<lparr>nbchan := n\<rparr>)\<rparr>"
    by (auto simp: upd_contr_def)
  let ?bs = "map (\<lambda>b. (bc_plcip b, bc_nccip b)) (bchans ct)"
  have cv: "cview s c = Some (Suc n, plci_list ct, ?bs)" using ct(1) n by (simp add: cview_def nch_def)
  have "fst (?bs ! n) = None" using b ct(1) by (auto simp: get_bchan_def buf_simps)
  from links_shrink [OF drv_inv_parts(3) [OF inv] cv this, of t] have "links_ok t"
    by (auto simp: ct(2) cview_def pview_def nview_def fun_eq_iff)
  moreover have "rings_ok t" using drv_inv_parts(4) [OF inv] ct by (auto simp: rings_ok_def)
  ultimately show "drv_inv cfg q t" using drv_inv_parts(1,2,5) [OF inv] by (simp add: drv_inv_def ct(2))
  show "nch t c = Some n" by (simp add: ct(2) nch_def cview_def)
qed

context upper_layer begin

lemma delcontr_chans_inv:
  assumes "\<not> d" and "drv_inv cfg q s" and "nch s c = Some n" and "delcontr_chans cb c n s = Some t"
  shows "drv_inv cfg q t \<and> nch t c = Some 0"
  using assms(2-4)
proof (induction n arbitrary: s)
  case (Suc n)
  from Suc.prems(3) obtain r s1 b s2 b2 s3 s4 where
    1: "statcallb cb c (ISDN_STAT_DISCH n) s = Some (r, s1)" and
    b: "get_bchan c n s1 = Some b" and 2: "(case bc_nccip b of None \<Rightarrow> Some s1 | Some m \<Rightarrow> free_ncci c m s1) = Some s2" and
    b2: "get_bchan c n s2 = Some b2" and 3: "(case bc_plcip b2 of None \<Rightarrow> Some s2 | Some p \<Rightarrow> free_plci c p s2) = Some s3" and
    4: "upd_contr c (\<lambda>ct. ct\<lparr>nbchan := n\<rparr>) s3 = Some s4" and t: "delcontr_chans cb c n s4 = Some t"
    by auto
  have "outcome d (statcallb cb c (ISDN_STAT_DISCH n) s) (\<lambda>(_, u). drv_inv cfg q u \<and> grows s u)"
    by (rule wp_statcallb [OF Suc.prems(1)]) (use assms(1) in simp_all)
  with 1 have i1: "drv_inv cfg q s1" "nch s1 c = Some (Suc n)" using nch_grows [OF _ Suc.prems(2)] by auto
  have i2: "drv_inv cfg q s2" "nch s2 c = Some (Suc n)"
    using 2 i1 free_bchan_ncci [OF i1(1) b] free_nch(1) by (auto split: option.splits)
  have i3: "drv_inv cfg q s3 \<and> nch s3 c = Some (Suc n) \<and> (\<exists>b. get_bchan c n s3 = Some b \<and> bc_plcip b = None)"
  proof (cases "bc_plcip b2")
    case None
    with 3 i2 b2 show ?thesis by simp
  next
    case (Some p)
    with 3 free_bchan_plci [OF i2(1) b2 Some] free_nch(2) [of c p s2 s3 c] i2(2) show ?thesis by auto
  qed
  then obtain b3 where b3: "get_bchan c n s3 = Some b3" "bc_plcip b3 = None" by blast
  from shrink_inv [OF _ _ b3 4] i3 t Suc.IH show ?case by blast
qed simp

end

section \<open>The queue of messages\<close>

lemma keeps_core_queue:
  assumes "drv_inv cfg q s" and "core_inv (dc_env cfg) c" and "global_ap cfg \<in> set (capi_appls_list c)"
    and "map_option msg_queue (appls c (global_ap cfg)) = Some r"
  shows "drv_inv cfg r (s\<lparr>cd_core := c\<rparr>)" "same_view s (s\<lparr>cd_core := c\<rparr>)"
proof -
  let ?s = "s\<lparr>cd_core := c\<rparr>"
  show v: "same_view s ?s" by (simp add: same_view_def cview_def pview_def nview_def fun_eq_iff)
  moreover have "rings_ok ?s" using drv_inv_parts(4) [OF assms(1)] by (simp add: rings_ok_def)
  ultimately show "drv_inv cfg r ?s"
    using assms links_ok_same [OF drv_inv_parts(3) [OF assms(1)] v] by (simp add: drv_inv_def)
qed

lemma drv_get_message_cases:
  assumes inv: "drv_inv cfg q s" and m: "d \<Longrightarrow> q \<noteq> [] \<Longrightarrow> msg_count CAPI_DATA_B3_IND (hd q) \<noteq> None"
  shows "outcome d (drv_get_message cfg s) (\<lambda>(info, msg, t).
    if info = 0 then \<exists>m r. q = m # r \<and> msg = Some (Some m) \<and> drv_inv cfg r t \<and> same_view s t
    else t = s \<and> (q = [] \<or> appl_info (the (appls (cd_core s) (global_ap cfg))) \<noteq> 0))"
proof -
  let ?a = "global_ap cfg" and ?c = "cd_core s"
  note P = drv_inv_parts [OF inv]
  from P(5) obtain ap where ap: "appls ?c ?a = Some ap" "msg_queue ap = q" by auto
  show ?thesis
  proof (cases "appl_info ap = 0 \<and> q \<noteq> []")
    case False
    with ap show ?thesis by (cases q) (auto simp: drv_get_message_def capi_get_message_def)
  next
    case True
    then obtain m r where q: "q = m # r" by (cases q) auto
    let ?c1 = "?c\<lparr>appls := (appls ?c)(?a \<mapsto> ap\<lparr>msg_queue := r\<rparr>)\<rparr>"
    have g: "capi_get_message ?a ?c = Some (0, Some (Some m), ?c1)"
      using True ap q by (simp add: capi_get_message_def upd_appl_def)
    from capi_get_message_same [OF P(1) g] P(2) have c1: "core_inv (dc_env cfg) ?c1" "?a \<in> set (capi_appls_list ?c1)"
      by (simp_all add: same_ids_def)
    show ?thesis
    proof (cases "msg_count CAPI_DATA_B3_IND m")
      case None
      with m q g show ?thesis by (auto simp: drv_get_message_def)
    next
      case (Some n)
      obtain c2 where c2: "count_rx ?a n ?c1 = Some c2" by (auto simp: count_rx_def upd_appl_def)
      have "map_option msg_queue (appls c2 ?a) = Some r" using c2 by (auto simp: count_rx_def upd_appl_def)
      with keeps_core_queue [OF inv count_inv(2) [OF c1(1) c2]] count_ids(2) [OF c2] c1(2)
      show ?thesis using g Some c2 q by (simp add: drv_get_message_def same_ids_def)
    qed
  qed
qed

context upper_layer begin

lemma recv_message_inv:
  assumes "\<not> d" and "capidrv_recv_message cfg' cb' s = Some t" and "cfg' = cfg" and "cb' = cb" and "drv_inv cfg q s"
  shows "\<exists>q'. drv_inv cfg q' t"
  using assms(3-5)
proof (induction arbitrary: q rule: capidrv_recv_message.raw_induct [OF _ assms(2)])
  case (1 recv cfg' cb' s t)
  from "1.prems" have e: "cfg' = cfg" "cb' = cb" by simp_all
  from "1.hyps" [unfolded e] obtain info msg s1 where g: "drv_get_message cfg s = Some (info, msg, s1)"
    and rest: "(if info \<noteq> CAPINFO_0X11_NOERR then Some s1
      else do { skb \<leftarrow> msg; skb \<leftarrow> skb; s \<leftarrow> handle_message cfg cb skb s1; recv cfg cb s }) = Some t" by auto
  have o: "outcome False (drv_get_message cfg s) (\<lambda>(info, msg, t).
    if info = 0 then \<exists>m r. q = m # r \<and> msg = Some (Some m) \<and> drv_inv cfg r t \<and> same_view s t
    else t = s \<and> (q = [] \<or> appl_info (the (appls (cd_core s) (global_ap cfg))) \<noteq> 0))"
    by (rule drv_get_message_cases [OF "1.prems"(3)]) simp
  show ?case
  proof (cases "info = 0")
    case False
    with rest o g "1.prems"(3) show ?thesis by auto
  next
    case True
    with o g obtain m r where m: "msg = Some (Some m)" "drv_inv cfg r s1" by auto
    with True rest obtain s2 where h: "handle_message cfg cb m s1 = Some s2" "recv cfg cb s2 = Some t" by auto
    have "outcome d (handle_message cfg cb m s1) (drv_inv cfg r)"
      by (rule wp_handle_message [OF m(2)]) (use assms(1) in simp_all)
    from outcome_partial [OF this h(1)] have "drv_inv cfg r s2" .
    with "1.IH" [of cfg cb s2 t] h(2) show ?thesis by simp
  qed
qed

text \<open>Every message that waits is handled, and then the tasklet returns.\<close>

lemma recv_message_total:
  assumes "d" and "drv_inv cfg q s" and "\<forall>m\<in>set q. good_message cfg m \<and> msg_count CAPI_DATA_B3_IND m \<noteq> None"
  shows "\<exists>t q'. capidrv_recv_message cfg cb s = Some t \<and> drv_inv cfg q' t \<and>
    (q' = [] \<or> appl_info (the (appls (cd_core t) (global_ap cfg))) \<noteq> 0)"
  using assms(2,3)
proof (induction q arbitrary: s)
  case Nil
  from drv_get_message_cases [OF Nil(1), of d] assms(1) Nil(1) show ?case by (subst capidrv_recv_message.simps) (auto simp: outcome_total split: if_splits)
next
  case (Cons m q)
  have "outcome d (drv_get_message cfg s) (\<lambda>(info, msg, t).
    if info = 0 then \<exists>m' r. m # q = m' # r \<and> msg = Some (Some m') \<and> drv_inv cfg r t \<and> same_view s t
    else t = s \<and> (m # q = [] \<or> appl_info (the (appls (cd_core s) (global_ap cfg))) \<noteq> 0))"
    by (rule drv_get_message_cases [OF Cons(2)]) (use Cons(3) in simp)
  with assms(1) obtain info msg t where g: "drv_get_message cfg s = Some (info, msg, t)"
    and c: "if info = 0 then msg = Some (Some m) \<and> drv_inv cfg q t
      else t = s \<and> appl_info (the (appls (cd_core s) (global_ap cfg))) \<noteq> 0"
    by (auto simp: outcome_total split: if_splits)
  show ?case
  proof (cases "info = 0")
    case False
    with c g Cons(2) show ?thesis by (subst capidrv_recv_message.simps) auto
  next
    case True
    with c have t: "msg = Some (Some m)" "drv_inv cfg q t" by simp_all
    have "outcome d (handle_message cfg cb m t) (drv_inv cfg q)"
      by (rule wp_handle_message [OF t(2)]) (use Cons(3) in simp_all)
    with assms(1) obtain u where u: "handle_message cfg cb m t = Some u" "drv_inv cfg q u" by (auto simp: outcome_total)
    from Cons.IH [OF u(2)] Cons(3) g True t u(1) show ?thesis by (subst capidrv_recv_message.simps) auto
  qed
qed

section \<open>The operations on controllers\<close>

lemma wp_send_listen [drv_wp]:
  assumes "drv_inv cfg q s" and "d \<Longrightarrow> contr_in s c" and "\<And>t. drv_inv cfg q t \<Longrightarrow> same_view s t \<Longrightarrow> Q t"
  shows "outcome d (send_listen cfg c s) Q"
  unfolding send_listen_def
  by (intro drv_wp assms(3); (assumption | rule assms(1,2) memory | blast intro: drv_stay assms same_view_trans))

lemma wp_listentimerfunc:
  assumes "drv_inv cfg q s" and "d \<Longrightarrow> contr_in s c" and "\<And>t. drv_inv cfg q t \<Longrightarrow> same_view s t \<Longrightarrow> Q t"
  shows "outcome d (listentimerfunc cfg c s) Q"
  unfolding listentimerfunc_def
  by (intro drv_wp wp_upd_contr assms(3);
      (assumption | rule assms(1,2) memory | blast intro: drv_stay assms same_view_trans | simp; fail))

lemma enable_dchannel_trace_inv:
  assumes "\<not> d" and "drv_inv cfg q s"
  shows "outcome d (enable_dchannel_trace cfg c s) (drv_inv cfg q)"
  unfolding enable_dchannel_trace_def Let_def
  by (intro drv_wp wp_option wp_read [where m = "capi_get_manufacturer x y z u" for x y z u]
        wp_read [where m = "capi_get_version x y z" for x y z] wp_read [where m = "c_string x" for x];
      (assumption | rule assms(2) | simp add: assms(1); fail))

lemma statcallb_partial:
  assumes "\<not> d" and "drv_inv cfg q s" and "statcallb cb c e s = Some (r, t)"
  shows "drv_inv cfg q t" "grows s t"
proof -
  have "outcome d (statcallb cb c e s) (\<lambda>(_, u). drv_inv cfg q u \<and> grows s u)"
    by (rule wp_statcallb [OF assms(2)]) (use assms(1) in simp_all)
  from outcome_partial [OF this assms(3)] show "drv_inv cfg q t" "grows s t" by simp_all
qed

lemma delcontr_inv:
  assumes "\<not> d" and "drv_inv cfg q s" and "capidrv_delcontr cfg cb contr s = Some (r, t)"
  shows "drv_inv cfg q t"
proof (cases "findcontrbynumber (ucast contr) s = Some None")
  case True
  with assms(2,3) show ?thesis by (simp add: capidrv_delcontr_def)
next
  case False
  with assms(3) obtain c s1 r2 s2 ct s3 s4 r5 s5 l where
    1: "upd_contr c (\<lambda>ct. ct\<lparr>listentimer := False\<rparr>) s = Some s1" and
    2: "statcallb cb c ISDN_STAT_STOP s1 = Some (r2, s2)" and ct: "contrs s2 c = Some ct" and
    3: "delcontr_chans cb c (nbchan ct) s2 = Some s3" and 4: "upd_contr c (\<lambda>ct. ct\<lparr>bchans := []\<rparr>) s3 = Some s4" and
    5: "statcallb cb c ISDN_STAT_UNLOAD s4 = Some (r5, s5)" and l: "unlink (contrs s5) c (contr_list s5) = Some l" and
    t: "t = (case l of None \<Rightarrow> s5 | Some l \<Rightarrow> s5\<lparr>contr_list := l, ncontr := ncontr s5 - 1\<rparr>)
       \<lparr>mod_refs := mod_refs (case l of None \<Rightarrow> s5 | Some l \<Rightarrow> s5\<lparr>contr_list := l, ncontr := ncontr s5 - 1\<rparr>) - 1,
        contrs := (contrs (case l of None \<Rightarrow> s5 | Some l \<Rightarrow> s5\<lparr>contr_list := l, ncontr := ncontr s5 - 1\<rparr>))(c := None)\<rparr>"
    by (auto simp: capidrv_delcontr_def Let_def split: option.splits)
  have "outcome d (upd_contr c (\<lambda>ct. ct\<lparr>listentimer := False\<rparr>) s) (drv_inv cfg q)"
    by (rule wp_upd_contr [OF assms(2)]) (use assms(1) in simp_all)
  from outcome_partial [OF this 1] have i1: "drv_inv cfg q s1" .
  note i2 = statcallb_partial [OF assms(1) i1 2]
  have "nch s2 c = Some (nbchan ct)" using ct by (simp add: nch_def cview_def)
  from delcontr_chans_inv [OF assms(1) i2(1) this 3] have i3: "drv_inv cfg q s3" "nch s3 c = Some 0" by simp_all
  from 4 obtain ct3 where ct3: "contrs s3 c = Some ct3" "s4 = s3\<lparr>contrs := (contrs s3)(c \<mapsto> ct3\<lparr>bchans := []\<rparr>)\<rparr>"
    by (auto simp: upd_contr_def)
  have "links_ok s4"
    by (rule links_no_chans [OF drv_inv_parts(3) [OF i3(1)], of c])
      (use ct3 i3(2) in \<open>auto simp: cview_def pview_def nview_def fun_eq_iff nch_def\<close>)
  moreover have "rings_ok s4" using drv_inv_parts(4) [OF i3(1)] ct3 by (auto simp: rings_ok_def)
  ultimately have i4: "drv_inv cfg q s4" using drv_inv_parts(1,2,5) [OF i3(1)] by (simp add: drv_inv_def ct3(2))
  note i5 = statcallb_partial [OF assms(1) i4 5]
  have "nch s4 c = Some 0" using i3(2) ct3 by (simp add: nch_def cview_def)
  from nch_grows [OF i5(2) this] obtain li bs where cv: "cview s5 c = Some (0, li, bs)" by (auto simp: nch_def)
  note L = links_okD [OF drv_inv_parts(3) [OF i5(1)]]
  have "set (contr_list s5) \<subseteq> dom (contrs s5)" using L(2) by (auto simp: cview_def dom_def)
  moreover have "c \<in> set (contr_list s5)" using L(2) cv by blast
  ultimately have "l = Some (remove1 c (contr_list s5))" using l unlink_ok [of "contr_list s5" "contrs s5" c] by simp
  then have t': "t = s5\<lparr>contr_list := remove1 c (contr_list s5), ncontr := ncontr s5 - 1, mod_refs := mod_refs s5 - 1,
      contrs := (contrs s5)(c := None)\<rparr>" by (simp add: t)
  have "links_ok t"
    by (rule links_del_contr [OF drv_inv_parts(3) [OF i5(1)] cv]) (auto simp: t' cview_def pview_def nview_def fun_eq_iff)
  moreover have "rings_ok t" using drv_inv_parts(4) [OF i5(1)] by (auto simp: rings_ok_def t')
  ultimately show ?thesis using drv_inv_parts(1,2,5) [OF i5(1)] by (simp add: drv_inv_def t')
qed

text \<open>The rest of \<open>capidrv_addcontr\<close>, once the controller is on the list.\<close>

lemma addcontr_rest:
  assumes "\<not> d" and "drv_inv cfg q s"
  shows "outcome d (do {
      (_, s) \<leftarrow> statcallb cb c ISDN_STAT_RUN s;
      s \<leftarrow> upd_contr c (\<lambda>ct. ct\<lparr>ct_cipmask := 0x1FFF03FF, ct_cipmask2 := 0\<rparr>) s;
      s \<leftarrow> send_listen cfg c s;
      s \<leftarrow> upd_contr c (\<lambda>ct. ct\<lparr>listentimer := True\<rparr>) s;
      s \<leftarrow> enable_dchannel_trace cfg c s;
      Some (0 :: int, s) }) (\<lambda>(_, t). drv_inv cfg q t)"
  by (intro drv_wp wp_upd_contr wp_by [OF enable_dchannel_trace_inv [OF assms(1)]];
      (assumption | rule assms(2) | simp add: assms(1)))

lemma addcontr_inv:
  assumes "\<not> d" and "drv_inv cfg q s" and "capidrv_addcontr cfg cb module_ok contr profp s = Some (r, t)"
  shows "drv_inv cfg q t"
proof -
  have mk: "drv_inv cfg q (u\<lparr>mod_refs := k\<rparr>)" if "drv_inv cfg q u" for u k
    using keepsD(1) [OF keepsI [OF that, of "u\<lparr>mod_refs := k\<rparr>"]] drv_inv_parts(4) [OF that]
    by (simp add: same_view_def cview_def pview_def nview_def fun_eq_iff rings_ok_def)
  define s3 where "s3 = s\<lparr>mod_refs := mod_refs s + 1, cd_brk := Suc (Suc (cd_brk s)),
      hl_log := Register_isdn (contr_if contr profp) # hl_log s\<rparr>"
  have al: "drv_inv cfg q (u\<lparr>cd_brk := Suc (cd_brk u)\<rparr>)" if "drv_inv cfg q u" for u
    using keepsD(1) [OF alloc_keeps [OF that]] .
  have i3: "drv_inv cfg q s3"
    using keepsD(1) [OF keeps_log [OF al [OF al [OF mk [OF assms(2)]]]]] unfolding s3_def by simp
  consider "drv_inv cfg q t"
    | drv where "hl_register cfg (hl_log s3) = Some drv" "kmalloc_ok cfg (cd_brk s)" "kmalloc_ok cfg (Suc (cd_brk s))" module_ok
    using assms(3) mk [OF assms(2)] al [OF mk [OF assms(2)]] mk [OF al [OF al [OF mk [OF assms(2)]]]] mk [OF i3] assms(2)
      al [OF al [OF assms(2)]] keepsD(1) [OF keeps_log [OF al [OF al [OF assms(2)]]], of "Register_isdn (contr_if contr profp) # hl_log s"]
    by (auto simp: capidrv_addcontr_def drv_alloc_def Let_def s3_def split: if_splits option.splits)
  then show ?thesis
  proof cases
    case 2
    let ?c = "cd_brk s" and ?n = "unat (nbchannel profp)"
    define s4 where "s4 = s3\<lparr>contr_list := ?c # contr_list s3, ncontr := ncontr s3 + 1,
        contrs := (contrs s3)(?c \<mapsto> zero_contr\<lparr>contrnr := ucast contr, nbchan := ?n, myid := drv,
          bchans := replicate ?n ((zero_bchan cfg)\<lparr>bc_contr := Some ?c\<rparr>)\<rparr>)\<rparr>"
    have "cview s3 ?c = None" using links_okD(7) [OF drv_inv_parts(3) [OF assms(2)], of ?c]
      by (cases "cview s ?c") (auto simp: s3_def cview_def)
    then have "links_ok s4"
      by (rule links_new_contr [OF drv_inv_parts(3) [OF i3], of ?c _ ?n])
        (auto simp: s4_def s3_def cview_def pview_def nview_def fun_eq_iff zero_contr_def zero_bchan_def)
    moreover have "rings_ok s4" using drv_inv_parts(4) [OF i3] unfolding s4_def
      by (intro rings_new) (simp_all add: zero_contr_def ring_ok_def q931_init_def)
    ultimately have i4: "drv_inv cfg q s4" using drv_inv_parts(1,2,5) [OF i3] by (simp add: drv_inv_def s4_def)
    have "capidrv_addcontr cfg cb module_ok contr profp s = do {
      (_, s) \<leftarrow> statcallb cb ?c ISDN_STAT_RUN s4;
      s \<leftarrow> upd_contr ?c (\<lambda>ct. ct\<lparr>ct_cipmask := 0x1FFF03FF, ct_cipmask2 := 0\<rparr>) s;
      s \<leftarrow> send_listen cfg ?c s;
      s \<leftarrow> upd_contr ?c (\<lambda>ct. ct\<lparr>listentimer := True\<rparr>) s;
      s \<leftarrow> enable_dchannel_trace cfg ?c s;
      Some (0, s) }"
      using 2 by (simp add: capidrv_addcontr_def drv_alloc_def Let_def s3_def s4_def upd_contr_def)
    with outcome_partial [OF addcontr_rest [OF assms(1) i4], of ?c "(r, t)"] assms(3) show ?thesis by simp
  qed
qed

end

section \<open>Reachable states\<close>

text \<open>The static variables of the module before \<open>capidrv_init\<close>; the capicore is at work already.\<close>

definition drv_start :: "core \<Rightarrow> capidrv" where
  "drv_start c = \<lparr>cd_core = c, cd_brk = 0, contrs = (\<lambda>_. None), contr_list = [], ncontr = 0, plcis = (\<lambda>_. None), nccis = (\<lambda>_. None),
     mod_refs = 0, debugmode = 0, hl_log = []\<rparr>"

text \<open>
  One step is a run of the tasklet, a call by isdn4linux, a run of the timer of a controller, the coming or going of a device, or
  a step of the capicore by others, who leave the application of the driver registered.  Inside every step, isdn4linux
  may call back to the given depth.
\<close>

inductive drv_step :: "drv_cfg \<Rightarrow> nat \<Rightarrow> capidrv \<Rightarrow> capidrv \<Rightarrow> bool" for cfg depth where
  receives: "capidrv_recv_message cfg (isdn4linux cfg depth) s = Some s' \<Longrightarrow> drv_step cfg depth s s'"
| commands: "if_command cfg (isdn4linux cfg depth) driver cmd s = Some (r, s') \<Longrightarrow> drv_step cfg depth s s'"
| sends: "if_sendbuf cfg driver channel doack skb headroom s = Some (r, s') \<Longrightarrow> drv_step cfg depth s s'"
| reads: "if_readstat len driver s = Some (r, bs, s') \<Longrightarrow> drv_step cfg depth s s'"
| listens: "contrs s c = Some ct \<Longrightarrow> listentimer ct \<Longrightarrow> listentimerfunc cfg c s = Some s' \<Longrightarrow> drv_step cfg depth s s'"
| comes: "capidrv_add cfg (isdn4linux cfg depth) module_ok dev s = Some (r, s') \<Longrightarrow> drv_step cfg depth s s'"
| goes: "capidrv_remove cfg (isdn4linux cfg depth) dev s = Some s' \<Longrightarrow> drv_step cfg depth s s'"
| others: "core_step (dc_env cfg) (cd_core s) c \<Longrightarrow> global_ap cfg \<in> set (capi_appls_list c) \<Longrightarrow>
    drv_step cfg depth s (s\<lparr>cd_core := c\<rparr>)"

inductive drv_reachable :: "drv_cfg \<Rightarrow> nat \<Rightarrow> capidrv \<Rightarrow> bool" for cfg depth where
  drv_starts: "reachable (dc_env cfg) c \<Longrightarrow> global_ap cfg \<notin> set (capi_appls_list c) \<Longrightarrow>
    capidrv_init cfg 0 (drv_start c) = Some (0, s) \<Longrightarrow> drv_reachable cfg depth s"
| drv_steps: "drv_reachable cfg depth s \<Longrightarrow> drv_step cfg depth s s' \<Longrightarrow> drv_reachable cfg depth s'"

lemma links_start: "links_ok (drv_start c)"
proof -
  have v: "cview (drv_start c) = (\<lambda>_. None)" "pview (drv_start c) = (\<lambda>_. None)" "nview (drv_start c) = (\<lambda>_. None)"
    by (simp_all add: fun_eq_iff drv_start_def cview_def pview_def nview_def)
  show ?thesis unfolding links_ok_def v by (simp add: on_list_def drv_start_def)
qed

lemma capidrv_init_inv:
  assumes c: "reachable (dc_env cfg) c" "CAPI_MAX_APPLS (dc_env cfg) < 65535" "global_ap cfg \<notin> set (capi_appls_list c)"
    and init: "capidrv_init cfg 0 (drv_start c) = Some (0, s)"
  shows "\<exists>q. drv_inv cfg q s"
proof -
  let ?a = "global_ap cfg"
  from init obtain c1 c2 err c3 where
    1: "upd_appl ?a (\<lambda>ap. ap\<lparr>appl_params := \<lparr>level3cnt = -2, datablkcnt = 16, datablklen = 2048\<rparr>\<rparr>) c = Some c1" and
    2: "capi_set_signal (Some ?a) (Some capidrv_signal_handler) 0 c1 = Some c2" and
    3: "capi_register (dc_env cfg) (Some ?a) c2 = Some (err, c3)" and s: "err = 0" "s = (drv_start c)\<lparr>cd_core := c3\<rparr>"
    by (auto simp: capidrv_init_def drv_start_def drv_EIO_def split: if_splits)
  from 1 obtain ap where "c1 = c\<lparr>appls := (appls c)(?a \<mapsto> ap)\<rparr>" by (auto simp: upd_appl_def)
  with core_step_inv [OF core_step.appl_write [OF c(3)] reachable_inv [OF c(1,2)] c(2)] c(3)
  have i1: "core_inv (dc_env cfg) c1" "?a \<notin> set (capi_appls_list c1)" by auto
  from 2 have "capi_appls_list c2 = capi_appls_list c1" by (auto simp: capi_set_signal_def upd_appl_def)
  with core_step_inv [OF core_step.appl_set_signal [OF 2] i1(1) c(2)] i1(2)
  have i2: "core_inv (dc_env cfg) c2" "?a \<notin> set (capi_appls_list c2)" by auto
  from 3 obtain ap2 where "appls c2 ?a = Some ap2" by (auto simp: capi_register_def)
  from capi_register_inv [OF i2 this c(2)] 3 s(1)
  have i3: "core_inv (dc_env cfg) c3" "?a \<in> set (capi_appls_list c3)" by (auto split: if_splits)
  then obtain ap3 where "appls c3 ?a = Some ap3" by (auto simp: core_inv_def appls_ok_def)
  moreover have "links_ok s" using links_start [of c] links_ok_same [of "drv_start c" s]
    by (simp add: s same_view_def cview_def pview_def nview_def fun_eq_iff)
  moreover have "rings_ok s" by (simp add: rings_ok_def s drv_start_def)
  ultimately show ?thesis using i3 by (auto simp: drv_inv_def s)
qed

lemma drv_step_inv:
  assumes "drv_step cfg depth s s'" and inv: "drv_inv cfg q s" and max: "CAPI_MAX_APPLS (dc_env cfg) < 65535"
  shows "\<exists>q. drv_inv cfg q s'"
  using assms(1)
proof cases
  case receives
  from hl.recv_message_inv [OF _ this refl refl inv] show ?thesis by simp
next
  case (commands driver cmd r)
  have "outcome False (if_command cfg (isdn4linux cfg depth) driver cmd s) (\<lambda>(_, t). drv_inv cfg q t)"
    by (rule hl.wp_if_command [OF inv]) simp_all
  from outcome_partial [OF this commands] show ?thesis by auto
next
  case (sends driver channel doack skb headroom r)
  have "outcome False (if_sendbuf cfg driver channel doack skb headroom s) (\<lambda>(_, t). drv_inv cfg q t)"
    by (rule hl.wp_if_sendbuf [OF inv]) simp_all
  from outcome_partial [OF this sends] show ?thesis by auto
next
  case (reads len driver r bs)
  have "outcome False (if_readstat len driver s) (\<lambda>(_, _, t). drv_inv cfg q t)"
    by (rule hl.wp_if_readstat [OF inv]) simp
  from outcome_partial [OF this reads] show ?thesis by auto
next
  case (listens c ct)
  have "outcome False (listentimerfunc cfg c s) (drv_inv cfg q)"
    by (rule hl.wp_listentimerfunc [OF inv]) simp_all
  from outcome_partial [OF this listens(3)] show ?thesis by blast
next
  case (comes module_ok dev r)
  then obtain x t where "capidrv_addcontr cfg (isdn4linux cfg depth) module_ok x (dev_profile (the (devs (cd_core s) dev))) s = Some (t, s')"
    by (auto simp: capidrv_add_def)
  from hl.addcontr_inv [OF _ inv this] show ?thesis by auto
next
  case (goes dev)
  then obtain x t where "capidrv_delcontr cfg (isdn4linux cfg depth) x s = Some (t, s')" by (auto simp: capidrv_remove_def)
  from hl.delcontr_inv [OF _ inv this] show ?thesis by auto
next
  case (others c)
  from core_step_inv [OF others(2) drv_inv_parts(1) [OF inv] max] have c: "core_inv (dc_env cfg) c" .
  with others(3) obtain ap where "appls c (global_ap cfg) = Some ap" by (auto simp: core_inv_def appls_ok_def)
  with keeps_core_queue(1) [OF inv c others(3)] others(1) show ?thesis by auto
qed

theorem drv_reachable_inv:
  assumes "drv_reachable cfg depth s" and "CAPI_MAX_APPLS (dc_env cfg) < 65535"
  shows "\<exists>q. drv_inv cfg q s"
  using assms(1)
proof induction
  case (drv_starts c s)
  with capidrv_init_inv assms(2) show ?case by blast
next
  case (drv_steps s s')
  with drv_step_inv assms(2) show ?case by blast
qed

end
