(* ===== verification/DrvProps.thy ===== *)
theory DrvProps
  imports DrvSteps
begin

text \<open>
  What \<^verbatim>\<open>capidrv.c\<close> guarantees, and where it fails, with a run that shows the hypotheses to be satisfiable.
\<close>

section \<open>A run\<close>

text \<open>A device with two channels, the driver, and its controller; isdn4linux answers 1 and does not call back.\<close>

definition drv_demo_protos :: isdn_protos where
  "drv_demo_protos = \<lparr>L2_X75I = 0, L2_X75UI = 1, L2_X75BUI = 2, L2_HDLC = 3, L2_TRANS = 4, L2_V11096 = 7, L2_V11019 = 8,
     L2_V11038 = 9, L2_FAX = 11, L2_MODEM = 10\<rparr>"

definition drv_demo_cfg :: drv_cfg where
  "drv_demo_cfg = \<lparr>dc_env = demo_env, global_ap = 2, protos = drv_demo_protos, ISDN_MSNLEN = 32, kmalloc_ok = (\<lambda>_. True),
     alloc_skb_ok = (\<lambda>_. True), data_addr = (\<lambda>_. 0), hl_answer = (\<lambda>_. 1), hl_calls = (\<lambda>_. []), hl_register = (\<lambda>_. Some 5)\<rparr>"

definition drv_demo_core :: "core option" where
  "drv_demo_core = do {
     c \<leftarrow> upd_dev 1 (\<lambda>d. d\<lparr>dev_profile := (dev_profile d)\<lparr>nbchannel := 2\<rparr>\<rparr>) (snd (capi_device_alloc (Some 1) (core_init demo_env)));
     (_, c) \<leftarrow> capi_device_register demo_env 0 (Some 1) c;
     Some (c\<lparr>appls := (appls c)(2 \<mapsto> demo_appl)\<rparr>) }"

definition drv_demo :: "capidrv option" where
  "drv_demo = do {
     c \<leftarrow> drv_demo_core;
     (r, s) \<leftarrow> capidrv_init drv_demo_cfg 0 (drv_start c);
     (r, s) \<leftarrow> (if r = 0 then capidrv_add drv_demo_cfg (isdn4linux drv_demo_cfg 0) True 1 s else None);
     Some s }"

lemma drv_demo_core_reachable:
  "\<exists>c. drv_demo_core = Some c \<and> reachable demo_env c \<and> capi_appls_list c = []"
proof -
  let ?c1 = "snd (capi_device_alloc (Some 1) (core_init demo_env))"
  have 1: "reachable demo_env ?c1"
    by (rule reach_step [OF reach_init], rule core_step.dev_alloc [of _ 1 "fst (capi_device_alloc (Some 1) (core_init demo_env))"])
      (simp_all add: core_init_def)
  obtain c2 where c2: "upd_dev 1 (\<lambda>d. d\<lparr>dev_profile := (dev_profile d)\<lparr>nbchannel := 2\<rparr>\<rparr>) ?c1 = Some c2"
    and d2: "dinfo c2 1 = Some (0, 1, False)"
    by (simp add: demo_simps dinfo_def)
  obtain dev where "devs ?c1 1 = Some dev" by (simp add: demo_simps)
  from reach_step [OF 1 core_step.dev_fill [OF this c2]] have 2: "reachable demo_env c2" by simp
  from c2 have "\<exists>r c3. capi_device_register demo_env 0 (Some 1) c2 = Some (r, c3) \<and> capi_appls_list c3 = []"
    by (auto simp: demo_simps)
  then obtain r c3 where c3: "capi_device_register demo_env 0 (Some 1) c2 = Some (r, c3)" and l3: "capi_appls_list c3 = []" by blast
  from reach_step [OF 2 core_step.dev_register [OF d2 c3]] have 3: "reachable demo_env c3" .
  let ?c4 = "c3\<lparr>appls := (appls c3)(2 \<mapsto> demo_appl)\<rparr>"
  have "reachable demo_env ?c4" by (rule reach_step [OF 3 core_step.appl_write]) (simp add: l3)
  with c2 c3 l3 show ?thesis by (simp add: drv_demo_core_def)
qed

lemma drv_demo_runs:
  "case drv_demo of None \<Rightarrow> False | Some s \<Rightarrow> contr_list s = [0] \<and> (case contrs s 0 of None \<Rightarrow> False
     | Some ct \<Rightarrow> nbchan ct = 2 \<and> length (bchans ct) = 2 \<and> plci_list ct = [] \<and> ct_state ct = ST_LISTEN_WAIT_CONF \<and> contrnr ct = 1) \<and>
     (case appls (cd_core s) 2 of None \<Rightarrow> False | Some ap \<Rightarrow> msg_queue ap = [] \<and> appl_info ap = 0)"
  by code_simp

lemma drv_demo_max: "CAPI_MAX_APPLS (dc_env drv_demo_cfg) < 65535"
  by (simp add: drv_demo_cfg_def demo_env_def)

lemma drv_demo_reachable:
  "\<exists>s. drv_demo = Some s \<and> drv_reachable drv_demo_cfg 0 s"
proof -
  obtain c where c: "drv_demo_core = Some c" "reachable demo_env c" "capi_appls_list c = []"
    using drv_demo_core_reachable by blast
  have "\<exists>t. drv_demo = Some t" by (cases drv_demo) (use drv_demo_runs in auto)
  then obtain s t r where s: "capidrv_init drv_demo_cfg 0 (drv_start c) = Some (0, s)"
    and t: "capidrv_add drv_demo_cfg (isdn4linux drv_demo_cfg 0) True 1 s = Some (r, t)" "drv_demo = Some t"
    by (auto simp: drv_demo_def c(1) split: if_splits)
  have "drv_reachable drv_demo_cfg 0 s"
    by (rule drv_starts [of _ c]) (use c s in \<open>simp_all add: drv_demo_cfg_def\<close>)
  from drv_steps [OF this drv_step.comes [OF t(1)]] t(2) show ?thesis by blast
qed

lemma drv_demo_facts:
  obtains s ct where "drv_reachable drv_demo_cfg 0 s" "contrs s 0 = Some ct" "nbchan ct = 2" "length (bchans ct) = 2" "plci_list ct = []"
    "contr_list s = [0]" "\<exists>ap. appls (cd_core s) 2 = Some ap \<and> msg_queue ap = [] \<and> appl_info ap = 0"
proof -
  obtain s where s: "drv_demo = Some s" "drv_reachable drv_demo_cfg 0 s" using drv_demo_reachable by blast
  from drv_demo_runs [unfolded s(1)] that [OF s(2)] show ?thesis by (auto split: option.splits)
qed

section \<open>Safety\<close>

text \<open>C16: The pointers between controllers, channels, connections and logical connections fit together in every
  reachable state, however deep isdn4linux calls the driver back: a connection on the list of its controller exists and its channel,
  which is one of the channels in use, points back to it; a channel points only to a connection on the
  list that has this channel, and to a logical connection that exists and has it; a logical connection on the list
  of a connection exists and points back to it.\<close>

theorem drv_links:
  assumes "drv_reachable cfg depth s" and "CAPI_MAX_APPLS (dc_env cfg) < 65535" and "contrs s c = Some ct"
  shows "nbchan ct \<le> length (bchans ct) \<and> distinct (plci_list ct) \<and>
    (\<forall>p\<in>set (plci_list ct). \<exists>pl. plcis s p = Some pl \<and> pl_chan pl < nbchan ct \<and> bc_plcip (bchans ct ! pl_chan pl) = Some p \<and>
       distinct (ncci_list pl) \<and> (\<forall>m\<in>set (ncci_list pl). \<exists>nc. nccis s m = Some nc \<and> nc_plcip nc = p \<and> nc_chan nc = pl_chan pl)) \<and>
    (\<forall>i<length (bchans ct).
       (\<forall>p. bc_plcip (bchans ct ! i) = Some p \<longrightarrow> p \<in> set (plci_list ct) \<and> pl_chan (the (plcis s p)) = i) \<and>
       (\<forall>m. bc_nccip (bchans ct ! i) = Some m \<longrightarrow> (\<exists>nc. nccis s m = Some nc \<and> nc_chan nc = i)))"
proof -
  from drv_reachable_inv [OF assms(1,2)] obtain q where inv: "drv_inv cfg q s" by blast
  let ?bs = "map (\<lambda>b. (bc_plcip b, bc_nccip b)) (bchans ct)"
  have cv: "cview s c = Some (nbchan ct, plci_list ct, ?bs)" using assms(3) by (simp add: cview_def)
  note L = links_okD [OF drv_inv_parts(3) [OF inv]]
  note K = contr_okD [OF L(3) [OF cv]]
  have "\<exists>pl. plcis s p = Some pl \<and> pl_chan pl < nbchan ct \<and> bc_plcip (bchans ct ! pl_chan pl) = Some p \<and>
       distinct (ncci_list pl) \<and> (\<forall>m\<in>set (ncci_list pl). \<exists>nc. nccis s m = Some nc \<and> nc_plcip nc = p \<and> nc_chan nc = pl_chan pl)"
    if p: "p \<in> set (plci_list ct)" for p
  proof -
    from K(3) [OF p] K(1) obtain pl where pl: "plcis s p = Some pl" "pl_chan pl < nbchan ct"
      "bc_plcip (bchans ct ! pl_chan pl) = Some p" by (auto simp: pview_def)
    moreover have "pview s p = Some (pl_chan pl, ncci_list pl)" using pl(1) by (simp add: pview_def)
    from L(6) [OF this] have "distinct (ncci_list pl)" "\<forall>m\<in>set (ncci_list pl). \<exists>nc. nccis s m = Some nc \<and> nc_plcip nc = p \<and> nc_chan nc = pl_chan pl"
      by (auto simp: nview_def)
    ultimately show ?thesis by blast
  qed
  moreover have "p \<in> set (plci_list ct) \<and> pl_chan (the (plcis s p)) = i"
    if "i < length (bchans ct)" "bc_plcip (bchans ct ! i) = Some p" for i p
    using K(4) [of i p] that by (auto simp: pview_def)
  moreover have "\<exists>nc. nccis s m = Some nc \<and> nc_chan nc = i"
    if "i < length (bchans ct)" "bc_nccip (bchans ct ! i) = Some m" for i m
    using K(5) [of i m] that by (auto simp: nview_def)
  ultimately show ?thesis using K(1,2) by simp
qed

theorem drv_links_witness:
  "\<exists>s ct. drv_reachable drv_demo_cfg 0 s \<and> contrs s 0 = Some ct \<and> nbchan ct = 2 \<and> nbchan ct \<le> length (bchans ct) \<and> distinct (plci_list ct)"
proof (rule drv_demo_facts)
  fix s ct assume s: "drv_reachable drv_demo_cfg 0 s" "contrs s 0 = Some ct" "nbchan ct = 2"
  with drv_links [OF s(1) drv_demo_max s(2)] show ?thesis by blast
qed

section \<open>Termination\<close>

text \<open>C17: The tasklet returns.  In every reachable state, if message buffers can be had, isdn4linux does not call back, and
  every message that waits for the driver can be decoded and read, \<open>capidrv_recv_message\<close> handles all of them without touching an
  invalid pointer and returns with the queue empty, or with an error that was signalled to the application.\<close>

theorem drv_recv_terminates:
  assumes "drv_reachable cfg depth s" and "CAPI_MAX_APPLS (dc_env cfg) < 65535" and "\<forall>n. alloc_skb_ok cfg n"
    and "appls (cd_core s) (global_ap cfg) = Some ap"
    and "\<forall>m\<in>set (msg_queue ap). good_message cfg m \<and> msg_count CAPI_DATA_B3_IND m \<noteq> None"
  shows "\<exists>t ap'. capidrv_recv_message cfg (isdn4linux cfg 0) s = Some t \<and> appls (cd_core t) (global_ap cfg) = Some ap' \<and>
    (msg_queue ap' = [] \<or> appl_info ap' \<noteq> 0)"
proof -
  from drv_reachable_inv [OF assms(1,2)] obtain q where inv: "drv_inv cfg q s" by blast
  with drv_inv_parts(5) assms(4) have q: "q = msg_queue ap" by fastforce
  have c: "cfg\<lparr>alloc_skb_ok := \<lambda>_. True\<rparr> = cfg" using assms(3) by (cases cfg) (simp add: fun_eq_iff)
  from quiet.recv_message_total [where cfg = cfg and cfg' = cfg, unfolded c, OF TrueI inv] assms(5)
  obtain t q' where t: "capidrv_recv_message cfg (isdn4linux cfg 0) s = Some t" "drv_inv cfg q' t"
    "q' = [] \<or> appl_info (the (appls (cd_core t) (global_ap cfg))) \<noteq> 0" by (auto simp: q)
  from drv_inv_parts(5) [OF t(2)] obtain ap' where "appls (cd_core t) (global_ap cfg) = Some ap'" "msg_queue ap' = q'" by auto
  with t show ?thesis by auto
qed

text \<open>A LISTEN_CONF waits.\<close>

definition drv_demo_conf :: bytes where
  "drv_demo_conf = [14, 0, 1, 0, CAPI_LISTEN, CAPI_CONF, 1, 0, 1, 0, 0, 0, 0, 0]"

lemma drv_demo_conf_count: "msg_count CAPI_DATA_B3_IND drv_demo_conf = Some 14"
  by code_simp

lemma drv_demo_conf_good: "good_message drv_demo_cfg drv_demo_conf"
proof -
  let ?c = "capi_cmsg_header 1 CAPI_LISTEN CAPI_CONF 1 1" and ?xs = "[Fld 3, Fld 35]"
  have l: "layout CAPI_LISTEN CAPI_CONF = Some ?xs" by code_simp
  have e: "encs ?c ?xs = [1, 0, 0, 0, 0, 0]" and r: "readys ?c ?xs" by code_simp+
  have "drv_demo_conf = header_bytes ?c 14 @ encs ?c ?xs @ []" unfolding e by code_simp
  with capi_message2cmsg_enc [OF l r, of 14 "[]"] obtain c where "capi_message2cmsg drv_demo_conf = Some c"
    "Command c = CAPI_LISTEN" by (auto simp: capi_cmsg_header_def)
  then show ?thesis by (simp add: good_message_def good_params_def)
qed

theorem drv_recv_terminates_witness:
  "\<exists>s t. drv_reachable drv_demo_cfg 0 s \<and> map_option msg_queue (appls (cd_core s) 2) = Some [drv_demo_conf] \<and>
    capidrv_recv_message drv_demo_cfg (isdn4linux drv_demo_cfg 0) s = Some t"
proof (rule drv_demo_facts)
  fix s ct assume s: "drv_reachable drv_demo_cfg 0 s" and "\<exists>ap. appls (cd_core s) 2 = Some ap \<and> msg_queue ap = [] \<and> appl_info ap = 0"
  then obtain ap where ap: "appls (cd_core s) 2 = Some ap" "msg_queue ap = []" by blast
  let ?c = "(cd_core s)\<lparr>appls := (appls (cd_core s))(2 \<mapsto> ap\<lparr>msg_queue := [drv_demo_conf]\<rparr>)\<rparr>"
  have "capi_appl_enqueue_message 2 drv_demo_conf (cd_core s) = Some ?c"
    using ap by (simp add: capi_appl_enqueue_message_def upd_appl_def)
  moreover obtain q where "drv_inv drv_demo_cfg q s" using drv_reachable_inv [OF s drv_demo_max] by blast
  then have "global_ap drv_demo_cfg \<in> set (capi_appls_list ?c)" using drv_inv_parts(2) by fastforce
  ultimately have r: "drv_reachable drv_demo_cfg 0 (s\<lparr>cd_core := ?c\<rparr>)"
    by (intro drv_steps [OF s] drv_step.others core_step.enqueue_message)
  have "appls (cd_core (s\<lparr>cd_core := ?c\<rparr>)) (global_ap drv_demo_cfg) = Some (ap\<lparr>msg_queue := [drv_demo_conf]\<rparr>)"
    by (simp add: drv_demo_cfg_def)
  from drv_recv_terminates [OF r drv_demo_max _ this] drv_demo_conf_good drv_demo_conf_count obtain t
    where "capidrv_recv_message drv_demo_cfg (isdn4linux drv_demo_cfg 0) (s\<lparr>cd_core := ?c\<rparr>) = Some t"
    by (auto simp: drv_demo_cfg_def)
  with r show ?thesis by - (rule exI [of _ "s\<lparr>cd_core := ?c\<rparr>"], simp)
qed

end
