(* ===== verification/DrvDataProps.thy ===== *)
theory DrvDataProps
  imports DrvProps
begin

text \<open>
  Data and the end of a connection in \<^verbatim>\<open>capidrv.c\<close>: what \<open>if_sendbuf\<close> sends and queues, what a confirmation
  reports, and what a DISCONNECT_IND does.
\<close>

section \<open>The queue of acknowledges\<close>

lemma del_ack_first:
  "h \<notin> fst ` set xs \<Longrightarrow> del_ack_entry h (xs @ (h, l) # ys) = Some (l, xs @ ys)"
  by (induction xs) (auto simp: image_iff)

lemma del_ack_last: "h \<notin> fst ` set (nc_ackqueue nc) \<Longrightarrow> snd (capidrv_del_ack h (nc\<lparr>nc_ackqueue := nc_ackqueue nc @ [(h, l)]\<rparr>)) = nc"
  using del_ack_first [of h "nc_ackqueue nc" l "[]"] by (simp add: capidrv_del_ack_def)

section \<open>Sending\<close>

lemma drv_put_message_explicit:
  assumes inv: "drv_inv cfg q s" and n: "msg_count CAPI_DATA_B3_REQ m = Some n"
  shows "\<exists>err c' c''. capi_put_message (dc_env cfg) (global_ap cfg) (Some m) (cd_core s) = Some (err, c') \<and>
    drv_put_message cfg m s = Some (err, s\<lparr>cd_core := c''\<rparr>) \<and> drv_trace c'' = drv_trace c'"
proof -
  let ?a = "global_ap cfg"
  note P = drv_inv_parts [OF inv]
  from capi_put_message_defined [OF P(1,2), of "Some m"] obtain err c'
    where p: "capi_put_message (dc_env cfg) ?a (Some m) (cd_core s) = Some (err, c')" by auto
  from P(5) put_message_queue [OF p] obtain ap where "appls c' ?a = Some ap" by auto
  then obtain c'' where c: "count_tx ?a n c' = Some c''" "drv_trace c'' = drv_trace c'" by (auto simp: count_tx_def upd_appl_def)
  show ?thesis
  proof (cases "err = 0")
    case True
    with p c n show ?thesis by (auto simp: drv_put_message_def intro!: exI [of _ c''])
  next
    case False
    with p n show ?thesis by (auto simp: drv_put_message_def intro!: exI [of _ c'])
  qed
qed

text \<open>C18: \<open>if_sendbuf\<close> on an active logical connection hands the 22 bytes of the DATA_B3_REQ header (with the
  application number, the next message number, the logical connection, the length and the next data handle) and the data to the
  capicore.  If that takes it, the length is returned, the handle advances, and the handle waits for its confirmation; if not,
  0 (queue full) or -1 is returned and nothing waits.\<close>

theorem drv_sendbuf:
  assumes inv: "drv_inv cfg q s" and "\<forall>n. kmalloc_ok cfg n \<and> alloc_skb_ok cfg n"
    and "findcontrbydriverid driver s = Some (Some c)" and "contrs s c = Some ct" and "signed_chan channel (nbchan ct) = Some i"
    and "bc_nccip (bchans ct ! i) = Some m" and "nccis s m = Some nc" and "nc_state nc = ST_NCCI_ACTIVE"
    and "nc_datahandle nc \<notin> fst ` set (nc_ackqueue nc)" and "appls (cd_core s) (global_ap cfg) = Some ap"
  shows "\<exists>err core' t.
    capi_put_message (dc_env cfg) (global_ap cfg)
      (Some (data_hdr (appl_id ap) (ct_msgid ct) (nc_ncci nc) (data_addr cfg skb) (word_of_nat (length skb)) (nc_datahandle nc) @ skb))
      (cd_core s) = Some (err, core') \<and>
    if_sendbuf cfg driver channel doack skb headroom s =
      Some (if err = 0 then int (length skb) else if err = CAPINFO_0X11_QUEUEFULL then 0 else -1, t) \<and>
    drv_trace (cd_core t) = drv_trace core' \<and>
    nccis t = (nccis s)(m \<mapsto> if err = 0
      then nc\<lparr>nc_datahandle := nc_datahandle nc + 1,
              nc_ackqueue := nc_ackqueue nc @ [(nc_datahandle nc, if doack then int (length skb) else -1)]\<rparr>
      else nc)"
proof -
  have i: "i < length (bchans ct)"
    using contr_chan [OF inv assms(4) signed_chan_below [OF assms(5)]] assms(4) by (auto simp: chan_in_def get_bchan_def buf_simps)
  let ?h = "nc_datahandle nc" and ?len = "if doack then int (length skb) else -1"
  let ?hdr = "data_hdr (appl_id ap) (ct_msgid ct) (nc_ncci nc) (data_addr cfg skb) (word_of_nat (length skb)) ?h"
  let ?s1 = "s\<lparr>contrs := (contrs s)(c \<mapsto> ct\<lparr>ct_msgid := ct_msgid ct + 1\<rparr>)\<rparr>"
  let ?s2 = "?s1\<lparr>cd_brk := Suc (cd_brk s)\<rparr>"
  have 1: "next_msgid c s = Some (ct_msgid ct, ?s1)" using assms(4) by (simp add: next_msgid_def upd_contr_def)
  have "outcome True (next_msgid c s) (\<lambda>(_, s'). keeps cfg q s s')" by (rule next_msgid_keeps [OF inv]) (simp add: assms(4))
  then have i1: "drv_inv cfg q ?s1" unfolding 1 by (simp add: keeps_def)
  from keepsD(1) [OF alloc_keeps [OF i1]] have i2: "drv_inv cfg q ?s2" by simp
  define l where "l = (if doack then int (length skb) else -1)"
  let ?nc = "nc\<lparr>nc_ackqueue := nc_ackqueue nc @ [(?h, l)]\<rparr>"
  have h: "capidrv_add_ack True ?h l nc = (True, ?nc)" by (simp add: capidrv_add_ack_def)
  let ?s3 = "?s2\<lparr>nccis := (nccis s)(m \<mapsto> ?nc)\<rparr>"
  define s3 where "s3 = (if headroom < 22 then ?s3\<lparr>cd_brk := Suc (cd_brk ?s3)\<rparr> else ?s3)"
  have "outcome True (upd_ncci m (\<lambda>nc. snd (capidrv_add_ack True ?h l nc)) ?s2) (\<lambda>t. drv_inv cfg q t)"
    by (rule wp_upd_ncci [OF i2]) (simp_all add: ncci_in_def assms(7) capidrv_add_ack_def)
  then have i3: "drv_inv cfg q ?s3" by (simp add: upd_ncci_def assms(7) h)
  have sk: "(if headroom < 22 then drv_alloc_skb cfg ?s3 else (True, ?s3)) = (True, s3)"
    using assms(2) by (simp add: drv_alloc_skb_def s3_def)
  have s3: "cd_core s3 = cd_core s" "nccis s3 = (nccis s)(m \<mapsto> ?nc)" by (simp_all add: s3_def)
  from i3 keepsD(1) [OF alloc_keeps [OF i3]] have i4: "drv_inv cfg q s3" by (simp add: s3_def)
  have "msg_count CAPI_DATA_B3_REQ (?hdr @ skb) = Some (22 + unat (word_of_nat (length skb) :: u16))"
    by (simp add: msg_count_def data_hdr_reads)
  from drv_put_message_explicit [OF i4 this] obtain err c' c'' where
    p: "capi_put_message (dc_env cfg) (global_ap cfg) (Some (?hdr @ skb)) (cd_core s) = Some (err, c')"
      "drv_put_message cfg (?hdr @ skb) s3 = Some (err, s3\<lparr>cd_core := c''\<rparr>)" "drv_trace c'' = drv_trace c'"
    by (auto simp: s3)
  have "if_sendbuf cfg driver channel doack skb headroom s = do {
       (errcode, s) \<leftarrow> drv_put_message cfg (?hdr @ skb) s3;
       if errcode = CAPINFO_0X11_NOERR then do {
         s \<leftarrow> upd_ncci m (\<lambda>nc. nc\<lparr>nc_datahandle := nc_datahandle nc + 1\<rparr>) s;
         Some (int (length skb), s) }
       else do {
         s \<leftarrow> drop_ack ?h m s;
         Some (if errcode = CAPINFO_0X11_QUEUEFULL then 0 else -1, s) } }"
    using assms(2-8,10) i 1 h sk
    by (cases "headroom < 22")
      (simp_all add: if_sendbuf_eq get_bchan_def drv_alloc_def ap_id_def queue_data_def upd_ncci_def Let_def l_def [symmetric])
  with p show ?thesis
    by (auto simp: upd_ncci_def drop_ack_def s3 del_ack_last [OF assms(9)] l_def [symmetric] intro!: exI [of _ err] exI [of _ c'])
qed

section \<open>Confirmations\<close>

text \<open>C19: A DATA_B3_CONF is reported to isdn4linux as sent data of the length that was queued with its handle, in
  whatever order confirmations come, and the entry is removed; nothing is reported if no acknowledge was asked for (length -1), or if
  no entry has the handle.  isdn4linux does not call the driver back meanwhile (depth 0).\<close>

theorem drv_data_confirmed:
  assumes "drv_find_ncci c (dwords cm AdrController) s = Some (Some m)" and "nccis s m = Some nc" and "contrs s c = Some ct"
  shows "(nc_ackqueue nc = xs @ (words cm DataHandle, len) # ys \<and> words cm DataHandle \<notin> fst ` set xs \<longrightarrow>
      ncci_data_b3_conf (isdn4linux cfg 0) c cm s =
        Some (s\<lparr>nccis := (nccis s)(m \<mapsto> nc\<lparr>nc_ackqueue := xs @ ys\<rparr>),
          hl_log := (if len < 0 then [] else [Statcallb (myid ct) (ISDN_STAT_BSENT (nc_chan nc) len)]) @ hl_log s\<rparr>)) \<and>
    (words cm DataHandle \<notin> fst ` set (nc_ackqueue nc) \<longrightarrow> ncci_data_b3_conf (isdn4linux cfg 0) c cm s = Some s)"
proof -
  have none: "del_ack_entry h l = None" if "h \<notin> fst ` set l" for h and l :: "(u16 \<times> int) list"
    using that by (induction l) (auto simp: image_iff)
  show ?thesis
    using assms none [of "words cm DataHandle" "nc_ackqueue nc"] del_ack_first [of "words cm DataHandle" xs len ys]
    by (auto simp: ncci_data_b3_conf_def capidrv_del_ack_def upd_ncci_def statcallb_def Let_def fun_upd_idem)
qed

section \<open>The end of a connection\<close>

lemma send_message_explicit:
  assumes "drv_inv cfg q s" and "sendable c" and "alloc_skb_ok cfg (cd_brk s)"
  shows "\<exists>k n. send_message cfg c s = Some (s\<lparr>cd_core := k, cd_brk := n\<rparr>)"
proof -
  have "outcome True (send_message cfg c s) (keeps cfg q s)" by (rule send_message_keeps [OF assms(1)]) (use assms in simp)
  then obtain t where t: "send_message cfg c s = Some t" by (auto simp: outcome_total)
  then obtain m r where "drv_put_message cfg m (s\<lparr>cd_brk := cd_brk s + 1\<rparr>) = Some (r, t)"
    by (auto simp: send_message_assembled split: option.splits if_splits)
  then obtain k where "t = s\<lparr>cd_brk := cd_brk s + 1, cd_core := k\<rparr>" by (auto simp: drv_put_message_def)
  then have "t = s\<lparr>cd_core := k, cd_brk := cd_brk s + 1\<rparr>" by simp
  with t show ?thesis by blast
qed

text \<open>A DISCONNECT_IND goes to the handler of connections.\<close>

lemma handle_disconnect_ind:
  assumes "capi_message2cmsg msg = Some cm" and "Command cm = CAPI_DISCONNECT" and "Subcommand cm = CAPI_IND"
    and "plci = dwords cm AdrController" and "plci AND 0xffffff00 \<noteq> 0" and "plci AND 0xffff0000 = 0"
    and "findcontrbynumber (plci AND 0x7f) s = Some (Some c)"
  shows "handle_message cfg cb msg s = plci_disconnect_ind cfg cb c cm s" and "sendable (capi_cmsg_answer cm)"
proof -
  show "sendable (capi_cmsg_answer cm)" by (rule sendable_answer) (use decoded_frame(1) [OF assms(1)] assms(2,3) in simp_all)
  show "handle_message cfg cb msg s = plci_disconnect_ind cfg cb c cm s"
    using assms by (simp add: handle_message_def handle_plci_def Let_def)
qed

text \<open>What it does to the state: the logical connections stay as they are.\<close>

lemma disconnect_ind_releases:
  assumes inv: "drv_inv cfg q s" and "\<forall>n. alloc_skb_ok cfg n" and "sendable (capi_cmsg_answer cm)" and "contrs s c = Some ct"
    and "find_plci_by_plci c (dwords cm AdrController) s = Some (Some p)" and "plcis s p = Some pl"
    and "pl_state pl \<in> {ST_PLCI_ALLOCATED, ST_PLCI_ACTIVE, ST_PLCI_INCOMING, ST_PLCI_FACILITY_IND, ST_PLCI_ACCEPTING, ST_PLCI_DISCONNECTING}"
  shows "\<exists>t. plci_disconnect_ind cfg (isdn4linux cfg 0) c cm s = Some t \<and> plcis t = (plcis s)(p := None) \<and> nccis t = nccis s \<and>
    contr_list t = contr_list s \<and> hl_log t = Statcallb (myid ct) (ISDN_STAT_DHUP (pl_chan pl)) # hl_log s \<and>
    contrs t = (contrs s)(c \<mapsto> ct\<lparr>plci_list := remove1 p (plci_list ct), bchans := (bchans ct)[pl_chan pl :=
      (bchans ct ! pl_chan pl)\<lparr>bc_contr := None, bc_plcip := None, bc_disconnecting := False, bc_incoming := False\<rparr>]\<rparr>)"
proof -
  have "outcome True (find_plci_by_plci c (dwords cm AdrController) s) (\<lambda>r. \<forall>p. r = Some p \<longrightarrow> plci_on s c p)"
    by (rule find_plci_ok(1) [OF inv]) (simp add: assms(4))
  with assms(5) have on: "plci_on s c p" by simp
  with drv_inv_parts(3) [OF inv] have P: "p \<in> set (plci_list ct)" "pl_chan pl < length (bchans ct)" "set (plci_list ct) \<subseteq> dom (plcis s)"
    by (rule plci_onE; use assms(4,6) in simp)+
  let ?b = "bchans ct ! pl_chan pl" and ?a = "capi_cmsg_answer cm"
  let ?ct = "ct\<lparr>bchans := (bchans ct)[pl_chan pl := ?b\<lparr>bc_disconnecting := True\<rparr>]\<rparr>"
  let ?s2 = "s\<lparr>contrs := (contrs s)(c \<mapsto> ?ct), plcis := (plcis s)(p \<mapsto> pl\<lparr>pl_state := ST_PLCI_DISCONNECTED\<rparr>)\<rparr>"
  have "outcome True (upd_bchan c (pl_chan pl) (\<lambda>b. b\<lparr>bc_disconnecting := True\<rparr>) s) (\<lambda>t. outcome True
      (upd_plci p (\<lambda>pl. pl\<lparr>pl_state := ST_PLCI_DISCONNECTED\<rparr>) t) (drv_inv cfg q))"
    by (intro wp_upd_bchan [OF inv] wp_upd_plci) (use on_in(1) [OF inv on] plci_chan_in [OF assms(6) inv on] in \<open>auto intro: drv_stay\<close>)
  then have i2: "drv_inv cfg q ?s2"
    using assms(4,6) P by (simp add: upd_bchan_def get_bchan_def upd_contr_def upd_plci_def)
  from send_message_explicit [OF i2 assms(3)] assms(2) obtain k n
    where sm: "send_message cfg ?a ?s2 = Some (?s2\<lparr>cd_core := k, cd_brk := n\<rparr>)" by auto
  have row: "row_for (\<lambda>(a, _, e, _). (a, e)) plcitable (pl_state pl, EV_PLCI_DISCONNECT_IND) =
      Some (pl_state pl, ST_PLCI_DISCONNECTED, EV_PLCI_DISCONNECT_IND, None)"
    and row2: "row_for (\<lambda>(a, _, e, _). (a, e)) plcitable (ST_PLCI_DISCONNECTED, EV_PLCI_DISCONNECT_RESP) =
      Some (ST_PLCI_DISCONNECTED, ST_PLCI_NONE, EV_PLCI_DISCONNECT_RESP, Some P0)"
    using assms(7) by (auto simp: plcitable_def)
  have u: "unlink ((plcis s)(p \<mapsto> pl\<lparr>pl_state := ST_PLCI_NONE\<rparr>)) p (plci_list ct) = Some (Some (remove1 p (plci_list ct)))"
    using unlink_ok [of "plci_list ct" "(plcis s)(p \<mapsto> pl\<lparr>pl_state := ST_PLCI_NONE\<rparr>)" p] P by auto
  show ?thesis
    using assms(4-6) P sm row row2 u
    by (simp add: plci_disconnect_ind_def plci_change_state_def p0_def statcallb_def
        free_plci_def upd_bchan_def get_bchan_def upd_contr_def upd_plci_def Let_def)
qed

text \<open>C20: A DISCONNECT_IND for a connection that is neither new nor suspended ends it: isdn4linux is told that the
  channel is hung up, the connection is released and taken off the list of its controller, and the channel is free for the next
  connection.  isdn4linux does not call the driver back meanwhile (depth 0).\<close>

theorem drv_disconnect:
  assumes inv: "drv_inv cfg q s" and "\<forall>n. alloc_skb_ok cfg n"
    and "capi_message2cmsg msg = Some cm" and "Command cm = CAPI_DISCONNECT" and "Subcommand cm = CAPI_IND"
    and "plci = dwords cm AdrController" and "plci AND 0xffffff00 \<noteq> 0" and "plci AND 0xffff0000 = 0"
    and "findcontrbynumber (plci AND 0x7f) s = Some (Some c)" and "contrs s c = Some ct"
    and "find_plci_by_plci c plci s = Some (Some p)" and "plcis s p = Some pl"
    and "pl_state pl \<in> {ST_PLCI_ALLOCATED, ST_PLCI_ACTIVE, ST_PLCI_INCOMING, ST_PLCI_FACILITY_IND, ST_PLCI_ACCEPTING, ST_PLCI_DISCONNECTING}"
  shows "\<exists>t. handle_message cfg (isdn4linux cfg 0) msg s = Some t \<and> drv_inv cfg q t \<and> plcis t = (plcis s)(p := None) \<and>
    hl_log t = Statcallb (myid ct) (ISDN_STAT_DHUP (pl_chan pl)) # hl_log s \<and>
    contrs t = (contrs s)(c \<mapsto> ct\<lparr>plci_list := remove1 p (plci_list ct), bchans := (bchans ct)[pl_chan pl :=
      (bchans ct ! pl_chan pl)\<lparr>bc_contr := None, bc_plcip := None, bc_disconnecting := False, bc_incoming := False\<rparr>]\<rparr>)"
proof -
  note H = handle_disconnect_ind [OF assms(3-9)]
  have f: "find_plci_by_plci c (dwords cm AdrController) s = Some (Some p)" using assms(6,11) by simp
  have "outcome False (handle_message cfg (isdn4linux cfg 0) msg s) (drv_inv cfg q)"
    by (rule hl.wp_handle_message [OF inv]) simp_all
  with disconnect_ind_releases [OF assms(1,2) H(2) assms(10) f assms(12,13)] show ?thesis
    unfolding H(1) by fastforce
qed

section \<open>A connection\<close>

text \<open>The device of the run, with a connection (at 7, on channel 0) and its logical connection (at 8), both active.\<close>

definition drv_demo_ncci :: capidrv_ncci where
  "drv_demo_ncci = \<lparr>nc_plcip = 7, nc_ncci = 0x10101, nc_msgid = 0, nc_chan = 0, nc_state = ST_NCCI_ACTIVE,
     nc_oldstate = ST_NCCI_OUTGOING, nc_datahandle = 3, nc_ackqueue = [(1, 5), (2, -1)]\<rparr>"

definition drv_demo_plci :: capidrv_plci where
  "drv_demo_plci = \<lparr>pl_plci = 0x101, pl_msgid = 0, pl_chan = 0, pl_state = ST_PLCI_ACTIVE, pl_leasedline = False, ncci_list = [8]\<rparr>"

definition drv_demo_contr :: capidrv_contr where
  "drv_demo_contr = zero_contr\<lparr>contrnr := 1, myid := 5, ct_msgid := 4, nbchan := 1, plci_list := [7],
     bchans := [(zero_bchan drv_demo_cfg)\<lparr>bc_contr := Some 0, bc_plcip := Some 7, bc_nccip := Some 8\<rparr>]\<rparr>"

definition drv_demo_conn :: "capidrv \<Rightarrow> capidrv" where
  "drv_demo_conn s = s\<lparr>cd_brk := 9, contrs := [0 \<mapsto> drv_demo_contr], contr_list := [0], plcis := [7 \<mapsto> drv_demo_plci],
     nccis := [8 \<mapsto> drv_demo_ncci]\<rparr>"

lemmas drv_demo_defs = drv_demo_conn_def drv_demo_contr_def drv_demo_plci_def drv_demo_ncci_def zero_contr_def zero_bchan_def

lemma drv_demo_connected:
  obtains s ap where "drv_inv drv_demo_cfg [] (drv_demo_conn s)" "appls (cd_core (drv_demo_conn s)) 2 = Some ap"
proof (rule drv_demo_facts)
  fix s ct assume s: "drv_reachable drv_demo_cfg 0 s" and "\<exists>ap. appls (cd_core s) 2 = Some ap \<and> msg_queue ap = [] \<and> appl_info ap = 0"
  then obtain ap where ap: "appls (cd_core s) 2 = Some ap" "msg_queue ap = []" by blast
  obtain q where "drv_inv drv_demo_cfg q s" using drv_reachable_inv [OF s drv_demo_max] by blast
  note P = drv_inv_parts(1,2) [OF this]
  have v: "cview (drv_demo_conn s) = [0 \<mapsto> (1, [7], [(Some 7, Some 8)])]" "pview (drv_demo_conn s) = [7 \<mapsto> (0, [8])]"
    "nview (drv_demo_conn s) = [8 \<mapsto> (7, 0)]"
    by (simp_all add: fun_eq_iff cview_def pview_def nview_def drv_demo_defs)
  have "links_ok (drv_demo_conn s)"
    unfolding links_ok_def v by (auto simp: drv_demo_conn_def contr_ok_def on_list_def)
  moreover have "rings_ok (drv_demo_conn s)" by (auto simp: rings_ok_def drv_demo_defs ring_ok_def q931_init_def)
  moreover have "map_option msg_queue (appls (cd_core (drv_demo_conn s)) (global_ap drv_demo_cfg)) = Some []"
    using ap by (simp add: drv_demo_conn_def drv_demo_cfg_def)
  ultimately have "drv_inv drv_demo_cfg [] (drv_demo_conn s)" using P by (simp add: drv_inv_def drv_demo_conn_def)
  with that [of s ap] ap show ?thesis by (simp add: drv_demo_conn_def)
qed

theorem drv_sendbuf_witness:
  "\<exists>s r. drv_inv drv_demo_cfg [] (drv_demo_conn s) \<and> if_sendbuf drv_demo_cfg 5 0 True [1, 2, 3] 30 (drv_demo_conn s) = Some r"
proof (rule drv_demo_connected)
  fix s ap assume inv: "drv_inv drv_demo_cfg [] (drv_demo_conn s)" and ap: "appls (cd_core (drv_demo_conn s)) 2 = Some ap"
  have "\<exists>err core' t.
    if_sendbuf drv_demo_cfg 5 0 True [1, 2, 3] 30 (drv_demo_conn s) =
      Some (if err = 0 then int (length [1, 2, 3 :: u8]) else if err = CAPINFO_0X11_QUEUEFULL then 0 else -1, t)"
    using drv_sendbuf [OF inv, of 5 0 drv_demo_contr 0 0 8 drv_demo_ncci ap "[1, 2, 3]" True 30] ap
    by (auto simp: drv_demo_cfg_def findcontrbydriverid_def drv_demo_defs signed_chan_def signed_modulo_int_def signed_divide_int_def)
  then obtain r where "if_sendbuf drv_demo_cfg 5 0 True [1, 2, 3] 30 (drv_demo_conn s) = Some r" by auto
  with inv show ?thesis by blast
qed

theorem drv_data_confirmed_witness:
  "\<forall>s. ncci_data_b3_conf (isdn4linux drv_demo_cfg 0) 0
      ((capi_cmsg_header 1 CAPI_DATA_B3 CAPI_CONF 1 0x10101)\<lparr>words := (\<lambda>_. 1)\<rparr>) (drv_demo_conn s) =
    Some ((drv_demo_conn s)\<lparr>nccis := (nccis (drv_demo_conn s))(8 \<mapsto> drv_demo_ncci\<lparr>nc_ackqueue := [(2, -1)]\<rparr>),
      hl_log := Statcallb 5 (ISDN_STAT_BSENT 0 5) # hl_log (drv_demo_conn s)\<rparr>)"
proof
  fix s
  let ?cm = "(capi_cmsg_header 1 CAPI_DATA_B3 CAPI_CONF 1 0x10101)\<lparr>words := (\<lambda>_. 1)\<rparr>"
  have "dwords ?cm AdrController = 0x10101" by (simp add: capi_cmsg_header_def)
  then have "drv_find_ncci 0 (dwords ?cm AdrController) (drv_demo_conn s) = Some (Some 8)"
    by (simp add: drv_find_ncci_def find_plci_by_ncci_def find_plci_by_plci_def drv_demo_defs capi_cmsg_header_def)
  from drv_data_confirmed [OF this, of drv_demo_ncci drv_demo_contr "[]" 5 "[(2, -1)]" drv_demo_cfg]
  show "ncci_data_b3_conf (isdn4linux drv_demo_cfg 0) 0 ?cm (drv_demo_conn s) =
    Some ((drv_demo_conn s)\<lparr>nccis := (nccis (drv_demo_conn s))(8 \<mapsto> drv_demo_ncci\<lparr>nc_ackqueue := [(2, -1)]\<rparr>),
      hl_log := Statcallb 5 (ISDN_STAT_BSENT 0 5) # hl_log (drv_demo_conn s)\<rparr>)"
    by (simp add: drv_demo_defs)
qed

text \<open>DISCONNECT_IND for the connection.\<close>

definition drv_demo_disc :: bytes where
  "drv_demo_disc = [14, 0, 1, 0, CAPI_DISCONNECT, CAPI_IND, 1, 0, 1, 1, 0, 0, 0, 0]"

lemma le32_inj: "le32 a = le32 b \<longleftrightarrow> a = b"
  unfolding le32_def by (auto intro: of_le32_le32 [of a, symmetric, THEN trans] simp: of_le32_le32)

lemma drv_demo_disc_bytes:
  "header_bytes (capi_cmsg_header 1 CAPI_DISCONNECT CAPI_IND 1 0x101) 14 @ [1, 1, 0, 0, 0, 0] = drv_demo_disc"
  by code_simp

lemma drv_demo_disc_decoded:
  "\<exists>c. capi_message2cmsg drv_demo_disc = Some c \<and> Command c = CAPI_DISCONNECT \<and> Subcommand c = CAPI_IND \<and> dwords c AdrController = 0x101"
proof -
  let ?c = "capi_cmsg_header 1 CAPI_DISCONNECT CAPI_IND 1 0x101" and ?xs = "[Fld 3, Fld 44]"
  have l: "layout CAPI_DISCONNECT CAPI_IND = Some ?xs" by code_simp
  have e: "encs ?c ?xs = [1, 1, 0, 0, 0, 0]" and r: "readys ?c ?xs" by code_simp+
  have "drv_demo_disc = header_bytes ?c 14 @ encs ?c ?xs @ []" unfolding e append_Nil2 drv_demo_disc_bytes ..
  with capi_message2cmsg_enc [OF l r, of 14 "[]"] obtain c where c: "capi_message2cmsg drv_demo_disc = Some c"
    "Command c = CAPI_DISCONNECT" "Subcommand c = CAPI_IND" "agrees ?c c ?xs" by (auto simp: capi_cmsg_header_def)
  from c(4) have "dwords c AdrController = 0x101" by (simp add: agree_par_def enc_par_def cdef_def capi_cmsg_header_def le32_inj)
  with c(1-3) show ?thesis by blast
qed

theorem drv_disconnect_witness:
  "\<exists>s t. drv_inv drv_demo_cfg [] (drv_demo_conn s) \<and>
    handle_message drv_demo_cfg (isdn4linux drv_demo_cfg 0) drv_demo_disc (drv_demo_conn s) = Some t \<and> plcis t 7 = None"
proof (rule drv_demo_connected)
  fix s ap assume inv: "drv_inv drv_demo_cfg [] (drv_demo_conn s)"
  obtain c where c: "capi_message2cmsg drv_demo_disc = Some c" "Command c = CAPI_DISCONNECT" "Subcommand c = CAPI_IND"
    "dwords c AdrController = 0x101" using drv_demo_disc_decoded by blast
  have "findcontrbynumber (0x101 AND 0x7f) (drv_demo_conn s) = Some (Some 0)"
    and "find_plci_by_plci 0 0x101 (drv_demo_conn s) = Some (Some 7)"
    by (simp_all add: findcontrbynumber_def find_plci_by_plci_def drv_demo_defs)
  with drv_disconnect [OF inv _ c(1-3) c(4) [symmetric], of 0 drv_demo_contr 7 drv_demo_plci] inv
  show ?thesis by (fastforce simp: drv_demo_cfg_def drv_demo_defs)
qed

end
