(* ===== verification/DrvFaults.thy ===== *)
theory DrvFaults
  imports DrvDataProps
begin

text \<open>
  Two places where \<^verbatim>\<open>capidrv.c\<close> relies on others: an incoming call relies on the network for the length of the
  numbers, and the removal of a controller relies on the device for a DISCONNECT_B3_IND before each DISCONNECT_IND.
\<close>

section \<open>Incoming calls\<close>

lemma strncpy_field_struct:
  assumes "off + k = length src" and "0 \<notin> set (drop off src)"
  shows "strncpy_field sz src off (int k) = (if k \<le> sz then Some (drop off src @ replicate (sz - k) 0) else None)"
proof -
  define d where "d = drop off src"
  have "take k d = d" and "length d = k" using assms(1) by (auto simp: d_def)
  moreover have "takeWhile (\<lambda>b. b \<noteq> 0) d = d"
    using assms(2) by (auto simp only: takeWhile_eq_all_conv d_def)
  ultimately show ?thesis unfolding strncpy_field_def Let_def d_def [symmetric] by (simp del: takeWhile_eq_all_conv)
qed

lemma strncpy_field_negative: "n < 0 \<Longrightarrow> strncpy_field sz src off n = None"
  by (simp add: strncpy_field_def)

text \<open>C21: The numbers of an incoming call are copied into the fields of the setup parameters as they are, and filled up with zeros, exactly
  if they fit: the calling number has its two bytes of type and screening and at most \<open>ISDN_MSNLEN\<close> digits, the called number its
  byte of type and at most \<open>ISDN_MSNLEN\<close> digits.  The bytes of type, screening and digits are assumed not to be zero, where
  \<open>strncpy\<close> would stop.  A shorter or longer structure makes \<open>handle_incoming_call\<close> write
  outside of the fields.\<close>

theorem incoming_setup_bounds:
  assumes "structs c CallingPartyNumber = Some (word_of_nat (length calling) # calling)" and "length calling < 255"
    and "structs c CalledPartyNumber = Some (word_of_nat (length called) # called)" and "length called < 255"
    and "0 \<notin> set calling" and "0 \<notin> set called"
  shows "(incoming_setup cfg c = None) =
      (length calling < 2 \<or> ISDN_MSNLEN cfg + 2 < length calling \<or> length called < 1 \<or> ISDN_MSNLEN cfg + 1 < length called) \<and>
    (\<forall>su. incoming_setup cfg c = Some su \<longrightarrow>
      su_phone su = drop 2 calling @ replicate (ISDN_MSNLEN cfg + 2 - length calling) 0 \<and>
      su_eazmsn su = drop 1 called @ replicate (ISDN_MSNLEN cfg + 1 - length called) 0 \<and>
      su_plan su = calling ! 0 \<and> su_screen su = calling ! 1)"
proof -
  have u: "uint (word_of_nat (length xs) :: u8) = int (length xs)" if "length xs < 255" for xs :: bytes
    using that by (simp add: unsigned_of_nat take_bit_nat_eq_self)
  have w: "0 \<notin> set (drop k xs)" if "0 \<notin> set xs" for k and xs :: bytes
    using that by (auto dest: in_set_dropD)
  consider (short) "length calling < 2" | (empty) "2 \<le> length calling" "called = []" | (ok) "2 \<le> length calling" "1 \<le> length called"
    by (cases called) force+
  then show ?thesis
  proof cases
    case short
    with assms(1,2) u [of calling] show ?thesis
      by (auto simp: incoming_setup_def ld_def strncpy_field_negative)
  next
    case empty
    with assms u [of calling] show ?thesis
      by (auto simp: incoming_setup_def ld_def strncpy_field_negative split: Option.bind_splits)
  next
    case ok
    obtain k where k: "length calling = k + 2" using ok(1) by (metis add.commute le_Suc_ex)
    obtain l where l: "length called = l + 1" using ok(2) by (metis add.commute le_Suc_ex)
    have 1: "strncpy_field (ISDN_MSNLEN cfg) (word_of_nat (length calling) # calling) 3 (uint (word_of_nat (length calling) :: u8) - 2) =
        (if k \<le> ISDN_MSNLEN cfg then Some (drop 2 calling @ replicate (ISDN_MSNLEN cfg + 2 - length calling) 0) else None)"
      using strncpy_field_struct [of 3 k "word_of_nat (length calling) # calling"] k u [OF assms(2)] w [OF assms(5), of 2]
      by simp
    have 2: "strncpy_field (ISDN_MSNLEN cfg) (word_of_nat (length called) # called) 2 (uint (word_of_nat (length called) :: u8) - 1) =
        (if l \<le> ISDN_MSNLEN cfg then Some (drop 1 called @ replicate (ISDN_MSNLEN cfg + 1 - length called) 0) else None)"
      using strncpy_field_struct [of 2 l "word_of_nat (length called) # called"] l u [OF assms(4)] w [OF assms(6), of 1]
      by simp
    show ?thesis using assms(1,3) 1 2 k l by (auto simp: incoming_setup_def ld_def Let_def split: if_splits)
  qed
qed

text \<open>A call from 12 for 345, and one whose calling number is not given.\<close>

definition demo_call :: "bytes \<Rightarrow> cmsg" where
  "demo_call calling = (capi_cmsg_header 1 CAPI_CONNECT CAPI_IND 1 0x101)\<lparr>structs := (\<lambda>_. None)(
     CallingPartyNumber := Some (word_of_nat (length calling) # calling), CalledPartyNumber := Some [4, 0xc1, 51, 52, 53])\<rparr>"

theorem incoming_setup_bounds_witness:
  "map_option su_phone (incoming_setup drv_demo_cfg (demo_call [0x21, 0x83, 49, 50])) = Some (49 # 50 # replicate 30 0) \<and>
   incoming_setup drv_demo_cfg (demo_call []) = None"
proof
  let ?c = "demo_call [0x21, 0x83, 49, 50]"
  have "(incoming_setup drv_demo_cfg ?c = None) = False \<and>
    (\<forall>su. incoming_setup drv_demo_cfg ?c = Some su \<longrightarrow> su_phone su = [49, 50] @ replicate 30 0)"
    using incoming_setup_bounds [of ?c "[0x21, 0x83, 49, 50]" "[0xc1, 51, 52, 53]" drv_demo_cfg]
    by (simp add: demo_call_def drv_demo_cfg_def)
  then show "map_option su_phone (incoming_setup drv_demo_cfg ?c) = Some (49 # 50 # replicate 30 0)" by auto
  show "incoming_setup drv_demo_cfg (demo_call []) = None"
    using incoming_setup_bounds [of "demo_call []" "[]" "[0xc1, 51, 52, 53]" drv_demo_cfg]
    by (simp add: demo_call_def drv_demo_cfg_def)
qed

section \<open>The removal of a controller\<close>

text \<open>
  Channel \<open>i\<close> has a logical connection of a connection that is gone.  The second part of the invariant says that the logical
  connection of a channel has its number.
\<close>

definition chans_own :: "capidrv \<Rightarrow> capidrv_contr \<Rightarrow> bool" where
  "chans_own s ct \<longleftrightarrow> (\<forall>j<length (bchans ct). \<forall>m nc. bc_nccip (bchans ct ! j) = Some m \<and> nccis s m = Some nc \<longrightarrow> nc_chan nc = j)"

definition dangling :: "nat \<Rightarrow> nat \<Rightarrow> capidrv \<Rightarrow> bool" where
  "dangling c i s \<longleftrightarrow> (\<exists>ct m nc. contrs s c = Some ct \<and> i < length (bchans ct) \<and> bc_nccip (bchans ct ! i) = Some m \<and>
     nccis s m = Some nc \<and> plcis s (nc_plcip nc) = None \<and> chans_own s ct)"

lemma dangling_log [simp]: "dangling c i (s\<lparr>hl_log := l\<rparr>) = dangling c i s"
  by (simp add: dangling_def chans_own_def)

lemma dangling_upd:
  assumes "dangling c i s" and "upd_contr c f s = Some t" and "\<And>ct. bchans (f ct) = bchans ct"
  shows "dangling c i t"
  using assms by (auto simp: dangling_def chans_own_def upd_contr_def)

lemma dangling_statcallb:
  assumes "dangling c i s" and "statcallb (isdn4linux cfg 0) c e s = Some (r, t)"
  shows "dangling c i t"
  using assms by (auto simp: statcallb_def)

text \<open>The logical connection of another channel can be released, and so can any connection; that of this channel cannot.\<close>

lemma dangling_free_ncci:
  assumes "dangling c i s" and "get_bchan c j s = Some b" and "bc_nccip b = Some m" and "free_ncci c m s = Some t"
  shows "j \<noteq> i \<and> dangling c i t"
proof -
  from assms(1) obtain ct m' nc' where D: "contrs s c = Some ct" "i < length (bchans ct)" "bc_nccip (bchans ct ! i) = Some m'"
    "nccis s m' = Some nc'" "plcis s (nc_plcip nc') = None" "chans_own s ct" by (auto simp: dangling_def)
  from assms(2,3) D(1) have j: "j < length (bchans ct)" "bc_nccip (bchans ct ! j) = Some m"
    by (auto simp: get_bchan_def nth_opt_def split: if_splits)
  from assms(4) obtain nc pl where N: "nccis s m = Some nc" "plcis s (nc_plcip nc) = Some pl" by (auto simp: free_ncci_def)
  from D(6) j N(1) have ch: "nc_chan nc = j" by (auto simp: chans_own_def)
  from D(6) D(2-4) have "nc_chan nc' = i" by (auto simp: chans_own_def)
  from N D(3,4,5) j(2) have ij: "j \<noteq> i" and ne: "nc_plcip nc \<noteq> nc_plcip nc'" by auto
  then have mm: "m \<noteq> m'" using N(1) D(4) ch \<open>nc_chan nc' = i\<close> by auto
  obtain r where r: "unlink (nccis s) m (ncci_list pl) = Some r" using assms(4) N by (auto simp: free_ncci_def)
  let ?bs = "(bchans ct)[j := (bchans ct ! j)\<lparr>bc_nccip := None\<rparr>]"
  from assms(4) N ch D(1) j r
  have t: "contrs t = (contrs s)(c \<mapsto> ct\<lparr>bchans := ?bs\<rparr>)" "nccis t = (nccis s)(m := None)"
    and pt: "plcis t = (case r of None \<Rightarrow> plcis s | Some l \<Rightarrow> (plcis s)(nc_plcip nc \<mapsto> pl\<lparr>ncci_list := l\<rparr>))"
    by (auto simp: free_ncci_def upd_plci_def upd_bchan_def get_bchan_def upd_contr_def split: option.splits)
  have pn: "plcis t (nc_plcip nc') = None" using pt D(5) ne by (simp split: option.splits)
  have b: "bc_nccip (?bs ! k) = (if k = j then None else bc_nccip (bchans ct ! k))" for k
    using j(1) by (cases "k = j") simp_all
  have "chans_own t (ct\<lparr>bchans := ?bs\<rparr>)" using D(6) by (auto simp: chans_own_def b t(2) split: if_splits)
  moreover have "bc_nccip (?bs ! i) = Some m'" "nccis t m' = Some nc'" using D(3,4) ij mm by (simp_all add: t(2) b del: nth_list_update)
  ultimately have "dangling c i t"
    unfolding dangling_def using D(2) pn by (intro exI [of _ "ct\<lparr>bchans := ?bs\<rparr>"] exI [of _ m'] exI [of _ nc']) (simp add: t(1))
  with ij show ?thesis by simp
qed

lemma dangling_free_plci:
  assumes "dangling c i s" and "free_plci c p s = Some t"
  shows "dangling c i t"
proof -
  from assms(1) obtain ct m nc where D: "contrs s c = Some ct" "i < length (bchans ct)" "bc_nccip (bchans ct ! i) = Some m"
    "nccis s m = Some nc" "plcis s (nc_plcip nc) = None" "chans_own s ct" by (auto simp: dangling_def)
  from assms(2) D(1) obtain r where r: "unlink (plcis s) p (plci_list ct) = Some r" by (auto simp: free_plci_def)
  show ?thesis
  proof (cases r)
    case None
    with assms(1,2) D(1) r show ?thesis by (simp add: free_plci_def)
  next
    case (Some l)
    with assms(2) D(1) r obtain pl where k: "pl_chan pl < length (bchans ct)" "plcis s p = Some pl"
      and t: "contrs t = (contrs s)(c \<mapsto> ct\<lparr>plci_list := l, bchans := (bchans ct)[pl_chan pl :=
          (bchans ct ! pl_chan pl)\<lparr>bc_plcip := None, bc_disconnecting := False, bc_incoming := False\<rparr>]\<rparr>)"
        "nccis t = nccis s" "plcis t = (plcis s)(p := None)"
      by (auto simp: free_plci_def upd_bchan_def get_bchan_def upd_contr_def nth_opt_eq_Some)
    have "bc_nccip ((bchans ct)[pl_chan pl := (bchans ct ! pl_chan pl)\<lparr>bc_plcip := None, bc_disconnecting := False,
        bc_incoming := False\<rparr>] ! j) = bc_nccip (bchans ct ! j)" for j
      using k(1) by (cases "j = pl_chan pl") simp_all
    with D t show ?thesis by (auto simp: dangling_def chans_own_def)
  qed
qed

lemma dangling_delcontr_chans:
  assumes "dangling c i s" and "i < n"
  shows "delcontr_chans (isdn4linux cfg 0) c n s = None"
  using assms
proof (induction n arbitrary: s)
  case (Suc n)
  show ?case
  proof (rule ccontr)
    assume "delcontr_chans (isdn4linux cfg 0) c (Suc n) s \<noteq> None"
    then obtain r s1 b1 s2 b2 s3 s4 t where S: "statcallb (isdn4linux cfg 0) c (ISDN_STAT_DISCH n) s = Some (r, s1)"
      "get_bchan c n s1 = Some b1"
      "(case bc_nccip b1 of None \<Rightarrow> Some s1 | Some nccip \<Rightarrow> free_ncci c nccip s1) = Some s2"
      "get_bchan c n s2 = Some b2" "(case bc_plcip b2 of None \<Rightarrow> Some s2 | Some plcip \<Rightarrow> free_plci c plcip s2) = Some s3"
      "upd_contr c (\<lambda>ct. ct\<lparr>nbchan := n\<rparr>) s3 = Some s4" "delcontr_chans (isdn4linux cfg 0) c n s4 = Some t"
      by auto
    note d1 = dangling_statcallb [OF Suc.prems(1) S(1)]
    have "n \<noteq> i \<and> dangling c i s2"
    proof (cases "bc_nccip b1")
      case None
      with d1 S(2) show ?thesis using S(3) by (auto simp: dangling_def get_bchan_def)
    next
      case (Some m)
      with S(3) dangling_free_ncci [OF d1 S(2) Some] show ?thesis by simp
    qed
    moreover from this have "dangling c i s3"
      using S(5) dangling_free_plci by (auto split: option.splits)
    ultimately have "dangling c i s4" "i < n" using dangling_upd [OF _ S(6)] Suc.prems(2) by auto
    from Suc.IH [OF this] S(7) show False by (metis option.distinct(1))
  qed
qed simp

text \<open>C22: Removing a controller uses freed memory if one of its channels has a logical connection whose connection is gone.  A
  DISCONNECT_IND without a DISCONNECT_B3_IND before it leaves such a channel: \<open>free_plci\<close> does not release the logical
  connections, and \<open>free_ncci\<close> follows the pointer to their connection.  isdn4linux does not call the driver back meanwhile (depth 0).\<close>

theorem capidrv_delcontr_freed:
  assumes "drv_inv cfg q s" and "findcontrbynumber (ucast contr) s = Some (Some c)" and "contrs s c = Some ct"
    and "i < nbchan ct" and "bc_nccip (bchans ct ! i) = Some m" and "nccis s m = Some nc" and "plcis s (nc_plcip nc) = None"
  shows "capidrv_delcontr cfg (isdn4linux cfg 0) contr s = None"
proof -
  have cv: "cview s c = Some (nbchan ct, plci_list ct, map (\<lambda>b. (bc_plcip b, bc_nccip b)) (bchans ct))"
    using assms(3) by (simp add: cview_def)
  note K = contr_okD [OF links_okD(3) [OF drv_inv_parts(3) [OF assms(1)] cv]]
  have "nc_chan nc = j" if "j < length (bchans ct)" "bc_nccip (bchans ct ! j) = Some m" "nccis s m = Some nc" for j m nc
    using K(5) [of j m] that by (auto simp: nview_def)
  with assms(3-7) K(1) have d: "dangling c i s" by (auto simp: dangling_def chans_own_def)
  show ?thesis
  proof (rule ccontr)
    assume "capidrv_delcontr cfg (isdn4linux cfg 0) contr s \<noteq> None"
    with assms(2) obtain s1 r s2 ct2 s3 where S: "upd_contr c (\<lambda>ct. ct\<lparr>listentimer := False\<rparr>) s = Some s1"
      "statcallb (isdn4linux cfg 0) c ISDN_STAT_STOP s1 = Some (r, s2)" "contrs s2 c = Some ct2"
      "delcontr_chans (isdn4linux cfg 0) c (nbchan ct2) s2 = Some s3"
      by (auto simp: capidrv_delcontr_def)
    have "dangling c i s2" using dangling_statcallb [OF dangling_upd [OF d S(1)] S(2)] by simp
    moreover have "nbchan ct2 = nbchan ct" using S(1-3) assms(3) by (auto simp: upd_contr_def statcallb_def)
    ultimately show False using dangling_delcontr_chans [of c i s2 "nbchan ct2" cfg] S(4) assms(4) by simp
  qed
qed

text \<open>The controller of the run with a logical connection (at 8), after DISCONNECT_IND for its connection (at 7).\<close>

lemma drv_demo_dangling:
  obtains s t ct nc where "drv_inv drv_demo_cfg [] (drv_demo_conn s)"
    "handle_message drv_demo_cfg (isdn4linux drv_demo_cfg 0) drv_demo_disc (drv_demo_conn s) = Some t" "drv_inv drv_demo_cfg [] t"
    "findcontrbynumber 1 t = Some (Some 0)" "contrs t 0 = Some ct" "nbchan ct = 1" "bc_nccip (bchans ct ! 0) = Some 8"
    "nccis t 8 = Some nc" "plcis t (nc_plcip nc) = None"
proof (rule drv_demo_connected)
  fix s ap assume inv: "drv_inv drv_demo_cfg [] (drv_demo_conn s)"
  obtain cm where c: "capi_message2cmsg drv_demo_disc = Some cm" "Command cm = CAPI_DISCONNECT" "Subcommand cm = CAPI_IND"
    "dwords cm AdrController = 0x101" using drv_demo_disc_decoded by blast
  have "findcontrbynumber (0x101 AND 0x7f) (drv_demo_conn s) = Some (Some 0)"
    and p: "find_plci_by_plci 0 0x101 (drv_demo_conn s) = Some (Some 7)"
    and d: "contrs (drv_demo_conn s) 0 = Some drv_demo_contr" "plcis (drv_demo_conn s) 7 = Some drv_demo_plci"
    by (simp_all add: findcontrbynumber_def find_plci_by_plci_def drv_demo_defs)
  then have H: "handle_message drv_demo_cfg cb drv_demo_disc (drv_demo_conn s) = plci_disconnect_ind drv_demo_cfg cb 0 cm (drv_demo_conn s)"
    and H2: "sendable (capi_cmsg_answer cm)" for cb
    using handle_disconnect_ind [OF c(1-3) c(4) [symmetric]] by simp_all
  have a: "\<forall>n. alloc_skb_ok drv_demo_cfg n" by (simp add: drv_demo_cfg_def)
  have st: "pl_state drv_demo_plci \<in> {ST_PLCI_ALLOCATED, ST_PLCI_ACTIVE, ST_PLCI_INCOMING, ST_PLCI_FACILITY_IND, ST_PLCI_ACCEPTING,
    ST_PLCI_DISCONNECTING}" by (simp add: drv_demo_plci_def)
  from disconnect_ind_releases [OF inv a H2 d(1) p [folded c(4)] d(2) st] obtain t where
    t: "handle_message drv_demo_cfg (isdn4linux drv_demo_cfg 0) drv_demo_disc (drv_demo_conn s) = Some t"
      "plcis t = (plcis (drv_demo_conn s))(7 := None)" "nccis t = nccis (drv_demo_conn s)" "contr_list t = contr_list (drv_demo_conn s)"
    and ct: "contrs t = (contrs (drv_demo_conn s))(0 \<mapsto> drv_demo_contr\<lparr>plci_list := remove1 7 (plci_list drv_demo_contr),
      bchans := (bchans drv_demo_contr)[pl_chan drv_demo_plci := (bchans drv_demo_contr ! pl_chan drv_demo_plci)
        \<lparr>bc_contr := None, bc_plcip := None, bc_disconnecting := False, bc_incoming := False\<rparr>]\<rparr>)"
    unfolding H by blast
  have "outcome False (handle_message drv_demo_cfg (isdn4linux drv_demo_cfg 0) drv_demo_disc (drv_demo_conn s)) (drv_inv drv_demo_cfg [])"
    by (rule hl.wp_handle_message [OF inv]) simp_all
  with t(1) have "drv_inv drv_demo_cfg [] t" by simp
  from that [OF inv t(1) this] t(2-4) ct show thesis
    by (simp add: findcontrbynumber_def drv_demo_defs)
qed

theorem capidrv_delcontr_freed_witness:
  "\<exists>s t. handle_message drv_demo_cfg (isdn4linux drv_demo_cfg 0) drv_demo_disc (drv_demo_conn s) = Some t \<and>
    drv_inv drv_demo_cfg [] t \<and> capidrv_delcontr drv_demo_cfg (isdn4linux drv_demo_cfg 0) 1 t = None"
proof (rule drv_demo_dangling)
  fix s t ct nc assume a: "handle_message drv_demo_cfg (isdn4linux drv_demo_cfg 0) drv_demo_disc (drv_demo_conn s) = Some t"
    and b: "drv_inv drv_demo_cfg [] t" "findcontrbynumber 1 t = Some (Some 0)" "contrs t 0 = Some ct" "nbchan ct = 1"
      "bc_nccip (bchans ct ! 0) = Some 8" "nccis t 8 = Some nc" "plcis t (nc_plcip nc) = None"
  have "capidrv_delcontr drv_demo_cfg (isdn4linux drv_demo_cfg 0) 1 t = None"
    by (rule capidrv_delcontr_freed [OF b(1) _ b(3) _ b(5-7)]) (use b(2,4) in simp_all)
  with a b(1) show ?thesis by blast
qed

end
