(* ===== verification/Spec2Isabelle.thy ===== *)
theory Spec2Isabelle
  imports CapiFill CapiTyped CapiPrintText CapiLibProps KernelCapiProps CapiDevFiles CapiProc CapiModules DrvUtilProps DrvFaults
begin

text \<open>
  A verification library for the CAPI 2.0 subsystem \<^emph>\<open>capi4linux\<close>.  The sources are under
  \<^verbatim>\<open>src/linux\<close>: \<^verbatim>\<open>drivers/isdn/capi\<close> and \<^verbatim>\<open>include/linux\<close>.

  \<^bold>\<open>The program.\<close>  Hardware drivers register CAPI devices with the \<^emph>\<open>capicore\<close> (\<^verbatim>\<open>core.c\<close>); applications
  register with it too, send messages to devices through \<open>capi_put_message\<close> and take messages from a queue of their
  own.  Three users of the capicore are in the repository: \<^verbatim>\<open>kernelcapi.c\<close>, the interface of kernel clients
  that know applications by number; \<^verbatim>\<open>capi.c\<close>, the device file \<^verbatim>\<open>/dev/capi20\<close> with a middleware
  that shows data connections as terminals; and \<^verbatim>\<open>capidrv.c\<close>, a driver of isdn4linux on top of the CAPI.
  Messages are coded with \<^verbatim>\<open>capiutil.c\<close>; \<^verbatim>\<open>capilib.c\<close> keeps the acknowledge windows of hardware drivers.

  \<^bold>\<open>Conventions.\<close>  Machine integers are words of their width (\<open>u8\<close>, \<open>u16\<close>, \<open>u32\<close>); an \<open>int\<close> or a list length that cannot
  overflow is \<open>int\<close> or \<open>nat\<close>.  A structure lives at an address (a natural number) in a map of the state; an access to an address that
  is not in the map, a \<open>BUG_ON\<close>, an access outside an array or object, or a loop that never ends is the value \<open>None\<close>, so a
  theorem that says \<open>Some\<close> says that the code returns and does nothing undefined.  Results and error codes of the
  code are ordinary values.  The functions of the code hold a lock or a semaphore over their work, and each is one
  atomic step of a model; sequences of steps in any order are the reachable states of a step relation.  What is not in the
  repository (answers of a hardware driver's callbacks, the memory allocator, user copies, isdn4linux, constants of missing
  headers) is a parameter of the definitions, or an argument of the step.

  \<^bold>\<open>The theories.\<close>
  \<^item> \<open>CapiPrelude\<close>: words, byte lists with bounds-checked access (\<open>ld\<close>, \<open>st\<close>), little-endian images, the lemmas on option
    chains that every component uses.
  \<^item> \<open>CapiMsg\<close>: \<^verbatim>\<open>capicmd.h\<close>, \<^verbatim>\<open>capinfo.h\<close> and the access macros of
    \<^verbatim>\<open>isdn/capiutil.h\<close>.  The accessor pairs of one, two and four bytes satisfy one contract, the locale
    \<open>byte_field\<close> (read what was written, writes outside do not matter), and in pairs the locale \<open>byte_fields\<close>.
  \<^item> \<open>CapiUtil\<close>, \<open>CapiCodec\<close>: the codec of \<^verbatim>\<open>capiutil.c\<close>.  \<open>cmsg\<close> is \<open>_cmsg\<close>, the datatype \<open>cfield\<close> its members (the
    byte offsets of \<open>cdef\<close>), \<open>pars_2_message\<close> and \<open>message_2_pars\<close> are the interpreters of the parameter strings.  The strings are parsed into
    layouts; assembling writes the image of the layout and is defined exactly if the buffer is large enough, and taking apart
    gives the members back.
  \<^item> \<open>CapiTyped\<close>: decoding of arbitrary bytes writes each member only with the type of its declaration in \<open>_cmsg\<close> (\<open>member_typ\<close>).
  \<^item> \<open>CapiFill\<close>: the constructors \<open>capi_fill_*\<close> of \<^verbatim>\<open>isdn/capiutil.h\<close>, with the bytes of the messages: one
    lemma for each constructor on what it fills, and the messages that \<open>capi_cmsg2message\<close> assembles for a call.  \<open>fill_image\<close> is an
    abbreviation of these lemmas and models no code.
  \<^item> \<open>CapiPrint\<close>, \<open>CapiPrintText\<close>: \<open>capi_info2str\<close> and the message printer with its static buffer of 8192 bytes.  The second has the text
    of a decoded message as a function of its members, and the printer gives this text, or overruns its buffer if the text does not fit.
  \<^item> \<open>CapiQueues\<close>: the interfaces of queues.  \<open>message_queue\<close> is a first-in-first-out queue with undo, \<open>ack_window\<close> a bounded set
    of outstanding numbers confirmed in order, and \<open>ack_set\<close>, an extension of it, one confirmed in any order.
  \<^item> \<open>CapiCore\<close>: \<^verbatim>\<open>core.c\<close> with the inline operations of \<^verbatim>\<open>isdn/capiappl.h\<close> and
    \<^verbatim>\<open>isdn/capidevice.h\<close>.  The record \<open>core\<close> has the devices and applications, \<open>capi_appls_list\<close>,
    \<open>capi_devs_list\<close>, \<open>capi_devs_table\<close>, the counters, and the trace of driver calls.  \<open>CapiCoreInv\<close>, \<open>CapiCoreOps\<close> and \<open>CapiCoreSteps\<close>: the
    invariant (reference counts are the number of holders, the lists are sorted by number, the bits of an application
    are its registered devices) and its preservation by every operation.  \<open>CapiCoreProps\<close>: no \<open>BUG_ON\<close> and no freed structure in
    any reachable state, the protocol that drivers see, numbers, routing, errors, and the queue of an application as an interpretation of \<open>message_queue\<close>.
  \<^item> \<open>CapiClients\<close>: statistics, and the view of the capicore that its users rest on.
  \<^item> \<open>KernelCapi\<close>, \<open>KernelCapiProps\<close>: \<^verbatim>\<open>kernelcapi.c\<close>.  The table of numbers agrees with the registry in every
    reachable state of both.
  \<^item> \<open>CapiLib\<close>, \<open>CapiLibProps\<close>: \<^verbatim>\<open>capilib.c\<close> with its pool of linked entries, seen as two lists; an
    interpretation of \<open>ack_window\<close>, and the loss of a place of the window when a confirmation is out of order.
  \<^item> \<open>CapiDev\<close>: the structures \<open>capidev\<close>, \<open>capincci\<close> and \<open>capiminor\<close> of \<^verbatim>\<open>capi.c\<close> and their allocation and release;
    \<open>CapiDevIO\<close>: reception, file and terminal operations.  \<open>CapiDevInv\<close> and \<open>CapiDevSteps\<close>: the invariant of the links between
    the three and of the device nodes of the minors, and the step relation with its preservation.  \<open>CapiDevProps\<close>: minor numbers, links,
    release, a use of freed memory.  \<open>CapiDevData\<close>: data arrives and is sent in order; the acknowledge queue of a minor interprets
    \<open>ack_set\<close>.  \<open>CapiDevFiles\<close>: \<open>write\<close> and \<open>read\<close>.
  \<^item> \<open>CapiProc\<close>: the file \<^verbatim>\<open>/proc/capi/capi20ncci\<close> of \<^verbatim>\<open>capi.c\<close>, which the kernel reads in blocks: what a block holds when
    the reader starts at a line, and the bytes behind the output that a reader gets who continues inside one.
  \<^item> \<open>CapiStat\<close>: \<^verbatim>\<open>core_proc.c\<close> and \<^verbatim>\<open>core_sysfs.c\<close>.  The locale \<open>seq_records\<close> is the contract of the kernel's reader of
    a sequence of records (\<open>start\<close>, \<open>next\<close>, \<open>show\<close>); its interpretation gives that \<^verbatim>\<open>/proc/capi/applparams\<close> and
    \<^verbatim>\<open>applstats\<close> show every registered application once, in the order of the list.
  \<^item> \<open>CapiFs\<close>: \<^verbatim>\<open>capifs.c\<close>, mount options and the directory of nodes.  In every reachable state of \<^verbatim>\<open>capi.c\<close> the directory has
    exactly the nodes of the minors that have an NCCI.
  \<^item> \<open>CapiModules\<close>: loading and unloading of \<^verbatim>\<open>core.c\<close>, \<^verbatim>\<open>capi.c\<close>, \<^verbatim>\<open>capifs.c\<close> and \<^verbatim>\<open>capidrv.c\<close> as sequences of
    registrations, each of which may fail.
  \<^item> \<open>DrvUtil\<close>, \<open>DrvUtilProps\<close>: from \<^verbatim>\<open>capidrv.c\<close> the conversions of protocols and services, leased lines, and the
    trace ring as a bounded queue.
  \<^item> \<open>DrvTables\<close>: the three transition tables of \<^verbatim>\<open>capidrv.c\<close>, interpretations of the locale \<open>transition_table\<close> (at most one row for a
    state and an event), and their comparison with the comments of \<^verbatim>\<open>capidrv.h\<close> (\<open>listen_doc\<close>, \<open>plci_doc\<close>, \<open>ncci_doc\<close>, which model no code).
  \<^item> \<open>DrvState\<close>, \<open>DrvHandle\<close>, \<open>DrvCommand\<close>: the rest of \<^verbatim>\<open>capidrv.c\<close>.  \<open>DrvState\<close> has the controllers with their channels, the connections
    (PLCI) and the logical connections (NCCI) in the record \<open>drv\<close>, their search, allocation and release, \<open>send_message\<close>, and the three state
    machines with the actions of their rows; \<open>DrvHandle\<close> the handlers of the messages of a controller and the loop \<open>capidrv_recv_message\<close>;
    \<open>DrvCommand\<close> the commands of isdn4linux, sending of data, controllers coming and going and the listen timer.  isdn4linux may call the
    driver from inside a callback: every function that can call it takes the callback as an argument, and \<open>isdn4linux cfg depth\<close> is an arbitrary
    isdn4linux that calls back to the given depth of nesting, by the commands that \<open>cfg\<close> has it give.
  \<^item> \<open>DrvInv\<close>, \<open>DrvInvOps\<close>, \<open>DrvWp\<close>: the invariant \<open>drv_inv\<close> of the pointers between the structures; \<open>outcome\<close>, which states partial and total
    correctness with one proof; one rule for each operation in the collection \<open>drv_wp\<close>.  \<open>DrvSend\<close>: the messages that fit into the buffer
    of \<open>send_message\<close>.  \<open>DrvCalls\<close>: the locale \<open>upper_layer\<close>, the interface of the driver to isdn4linux, with the lemmas on the operations and
    handlers under it; \<open>DrvMessages\<close> goes on with the messages.  \<open>DrvDriver\<close>: the commands keep the interface, so \<open>isdn4linux cfg depth\<close> is an
    interpretation of \<open>upper_layer\<close> for every depth, by induction; an isdn4linux that does not call back is a second one, with total correctness.
  \<^item> \<open>DrvSteps\<close>, \<open>DrvProps\<close>, \<open>DrvDataProps\<close>: the step relation of the driver; the invariant in all reachable states, termination of the
    reception, sending and confirmation of data, and the end of a connection.  \<open>DrvFaults\<close>: the
    numbers of an incoming call against the fields they are copied to, and the removal of a controller after an incomplete disconnect.

  \<^bold>\<open>The composition.\<close>  \<open>CapiClients\<close> states what a user of the capicore relies on; the states of \<open>KernelCapi\<close>, \<open>CapiDev\<close> and \<open>DrvState\<close> contain the record
  \<open>core\<close>, and their operations call those of \<open>CapiCore\<close>.  \<open>CapiFs\<close> runs the calls that the model of \<^verbatim>\<open>capi.c\<close> records, and \<open>CapiModules\<close> uses
  the number of minors that \<open>CapiDevIO\<close> uses.

  \<^bold>\<open>Loops and bounds.\<close>  Loops over lists are structural recursions.  The loops that need not end on every state are partial
  functions with \<open>None\<close> for not returning: \<open>capi_recv_message\<close> and \<open>capidrv_recv_message\<close> (end because each turn takes one message from the
  queue), the search of \<open>mq_dequeue\<close> (ends on the lists of a well-formed pool), and the two loops over kernel clients (end, as the list gets
  shorter); each has a theorem that it returns, \<open>capi_recv_message\<close> only for files without minors (\<open>capi_read_fifo\<close>) and
  \<open>capidrv_recv_message\<close> for an isdn4linux that does not call back.  The interpreters of parameter strings are total functions with a measure on the rest of the
  string.  The only fuel is the depth of callbacks of \<open>isdn4linux\<close>.  The invariant of the driver in
  all reachable states (\<open>drv_links\<close>) holds for every depth; the theorems on the result of single operations (\<open>drv_recv_terminates\<close>,
  \<open>drv_data_confirmed\<close>, \<open>drv_disconnect\<close>, \<open>capidrv_delcontr_freed\<close>) are for an isdn4linux that does not call back, depth 0.
  \<open>capi_env\<close> has the limits \<open>CAPI_MAX_APPLS\<close> and \<open>CAPI_MAX_DEVS\<close> of the kernel configuration, of which the range of the
  configuration is assumed.  The theorems on the reachable states of the capicore and of its users assume \<open>CAPI_MAX_APPLS\<close> below 65535
  too: at 65535, which the configuration allows, the application number wraps.

  \<^bold>\<open>What the proofs showed.\<close>  Some theorems state defects: a composed structure of 255 bytes or more is coded wrongly; the printer overruns its
  buffer; the application number wraps in a registry of 65535; confirming the newest of several messages loses a place of the window for good; detaching a kernel client
  detaches others; application number 0 is accessed out of bounds; closing a terminal frees a minor that
  another has open; starting a terminal uses a freed application; a block of \<^verbatim>\<open>capi20ncci\<close> that starts inside a line has bytes behind the output;
  a serial number of usual length loses its newline in sysfs; a failing initialisation of \<^verbatim>\<open>capi.c\<close> leaves its device node;
  the range check of channel numbers is never true; the numbers of an incoming call overrun the fields they are copied to; removing a
  controller uses a freed connection.

  \<^bold>\<open>Simplified.\<close>  A line discipline may call \<open>throttle\<close> while it receives, but no other operation of the terminal driver (\<open>ldisc_receive\<close>).
  \<open>capifs_call\<close>, which runs \<^verbatim>\<open>capifs.c\<close> under \<^verbatim>\<open>capi.c\<close>, assumes that the inode and the name can be had; what
  \<open>capifs_new_ncci\<close> does without them is in its definition.  The reference that sysfs holds on a registered device is not counted.

  \<^bold>\<open>Not modelled.\<close>  Wait queues, interrupts, locks and atomicity below the level of one function; the tables of operations that the
  code hands to the kernel and the fields of its terminal driver and super block; output to the kernel log, which has no state (\<open>CapiPrint\<close> models
  the text of a message); the configuration of \<^verbatim>\<open>capi.c\<close> without middleware, which does not compile.
\<close>

end
